(* ===== verification/Prelude.thy ===== *)
theory Prelude
  imports Main "HOL-Library.Sublist" "HOL-Library.Word"
begin

text \<open>
  Shared vocabulary of the development: the error values that stand for the exceptions and
  failed checks of the C++ code, the result type with its sequencing operator, the decimal
  and join functions behind the text that the code emits, and the collections of rewrite
  rules that the component theories extend.

  \<open>cell_defs\<close> collects the definitions of the cell operations, \<open>res_simps\<close> the rules for
  sequencing results.
\<close>

named_theorems cell_defs "definitions of the operations of the cells"
named_theorems res_simps "rules for sequencing results"

section \<open>Errors and results\<close>

text \<open>
  \<open>Assertion\<close> is a failed \<open>assert\<close>, \<open>Contract\<close> a failed \<open>Expects\<close> or \<open>Ensures\<close> of the
  guidelines support library, \<open>RuntimeError\<close> a thrown \<open>std::runtime_error\<close> (with a short
  tag for the message), \<open>OutOfRange\<close>, \<open>InvalidArgument\<close> and \<open>TypeError\<close> the exceptions of
  the containers, of the numeric conversions and of the json accessors, \<open>NarrowingError\<close>
  that of \<open>gsl::narrow\<close>, \<open>LengthError\<close> that of a string too long to exist,
  \<open>Z3Exception\<close> an exception of the solver interface, \<open>BadVariant\<close> that of \<open>std::get\<close> on the wrong
  alternative, \<open>OverflowError\<close> that of a bit set too wide for a number, \<open>OutOfMemory\<close> an allocation
  that fails, \<open>Undefined\<close> an operation the language
  leaves undefined (an index past the end), and \<open>Diverges\<close> a call that does not return.
\<close>

datatype error =
    Assertion
  | Contract
  | RuntimeError string
  | OutOfRange
  | InvalidArgument
  | TypeError
  | NarrowingError
  | LengthError
  | Z3Exception
  | BadVariant
  | OverflowError
  | OutOfMemory
  | Undefined
  | Diverges

type_synonym 'a res = "error + 'a"

definition bnd :: "'a res \<Rightarrow> ('a \<Rightarrow> 'b res) \<Rightarrow> 'b res" where
  "bnd m f = (case m of Inl e \<Rightarrow> Inl e | Inr x \<Rightarrow> f x)"

definition chk :: "bool \<Rightarrow> error \<Rightarrow> 'a res \<Rightarrow> 'a res" where
  "chk c e k = (if c then k else Inl e)"

lemma bnd_Inl [simp, res_simps]: "bnd (Inl e) f = Inl e"
  by (simp add: bnd_def)

lemma bnd_Inr [simp, res_simps]: "bnd (Inr x) f = f x"
  by (simp add: bnd_def)

lemma chk_True [simp, res_simps]: "chk True e k = k"
  by (simp add: chk_def)

lemma chk_False [simp, res_simps]: "chk False e k = Inl e"
  by (simp add: chk_def)

lemma bnd_eq_Inr: "bnd m f = Inr y \<longleftrightarrow> (\<exists>x. m = Inr x \<and> f x = Inr y)"
  by (cases m) auto

lemma chk_eq_Inr: "chk c e k = Inr y \<longleftrightarrow> c \<and> k = Inr y"
  by (simp add: chk_def)

lemma bnd_cong [fundef_cong]:
  "m = m' \<Longrightarrow> (\<And>x. m' = Inr x \<Longrightarrow> f x = f' x) \<Longrightarrow> bnd m f = bnd m' f'"
  by (cases m') auto

definition of_opt :: "error \<Rightarrow> 'a option \<Rightarrow> 'a res" where
  "of_opt e x = (case x of None \<Rightarrow> Inl e | Some a \<Rightarrow> Inr a)"

lemma of_opt_simps [simp, res_simps]: "of_opt e None = Inl e" "of_opt e (Some a) = Inr a"
  by (simp_all add: of_opt_def)

lemma of_opt_eq_Inr: "of_opt e x = Inr a \<longleftrightarrow> x = Some a"
  by (cases x) auto

fun mapM :: "('a \<Rightarrow> 'b res) \<Rightarrow> 'a list \<Rightarrow> 'b list res" where
  "mapM f [] = Inr []"
| "mapM f (x # xs) = bnd (f x) (\<lambda>y. bnd (mapM f xs) (\<lambda>ys. Inr (y # ys)))"

fun foldM :: "('a \<Rightarrow> 'b \<Rightarrow> 'b res) \<Rightarrow> 'a list \<Rightarrow> 'b \<Rightarrow> 'b res" where
  "foldM f [] s = Inr s"
| "foldM f (x # xs) s = bnd (f x s) (\<lambda>s'. foldM f xs s')"

lemma mapM_length: "mapM f xs = Inr ys \<Longrightarrow> length ys = length xs"
  by (induction xs arbitrary: ys) (auto simp: bnd_eq_Inr)

lemma mapM_total: "(\<And>x. x \<in> set xs \<Longrightarrow> f x = Inr (g x)) \<Longrightarrow> mapM f xs = Inr (map g xs)"
  by (induction xs) auto

lemma mapM_map: "(\<And>x. x \<in> set xs \<Longrightarrow> f x = Inr (g x)) \<Longrightarrow> mapM f xs = Inr (map g xs)"
  by (induction xs) auto

lemma mapM_comp: "mapM f (map g xs) = mapM (\<lambda>x. f (g x)) xs"
  by (induction xs) simp_all

lemma mapM_one_error:
  "(\<And>x. x \<in> set xs \<Longrightarrow> f x = (if bad x then Inl e else Inr (h x))) \<Longrightarrow>
   mapM f xs = (if \<exists>x \<in> set xs. bad x then Inl e else Inr (map h xs))"
  by (induction xs) auto

lemma mapM_nth: "mapM f xs = Inr ys \<Longrightarrow> i < length xs \<Longrightarrow> f (xs ! i) = Inr (ys ! i)"
  by (induction xs arbitrary: ys i) (auto simp: bnd_eq_Inr nth_Cons split: nat.splits)

lemma foldM_append: "foldM f (xs @ ys) s = bnd (foldM f xs s) (foldM f ys)"
proof (induction xs arbitrary: s)
  case (Cons x xs)
  then show ?case by (cases "f x s") auto
qed simp

text \<open>An invariant of the body of a loop over a list is an invariant of the loop.\<close>

lemma foldM_invariant:
  assumes "foldM f xs s = Inr t" and "P s"
    and "\<And>x s s'. x \<in> set xs \<Longrightarrow> P s \<Longrightarrow> f x s = Inr s' \<Longrightarrow> P s'"
  shows "P t"
  using assms
proof (induction xs arbitrary: s)
  case (Cons x xs)
  from Cons.prems(1) obtain s' where s': "f x s = Inr s'" "foldM f xs s' = Inr t"
    by (auto simp: bnd_eq_Inr)
  have "P s'" using Cons.prems(3) [OF _ Cons.prems(2) s'(1)] by simp
  then show ?case
    by (rule Cons.IH [OF s'(2)]) (use Cons.prems(3) in auto)
qed simp

text \<open>What the body establishes for its element, and later iterations keep, holds of all.\<close>

lemma foldM_each:
  assumes "foldM f xs s = Inr t" and "P s"
    and "\<And>x s s'. x \<in> set xs \<Longrightarrow> P s \<Longrightarrow> f x s = Inr s' \<Longrightarrow> P s' \<and> R x s'"
    and "\<And>x y s s'. x \<in> set xs \<Longrightarrow> P s \<Longrightarrow> f x s = Inr s' \<Longrightarrow> R y s \<Longrightarrow> R y s'"
  shows "P t \<and> (\<forall>x \<in> set xs. R x t)"
  using assms
proof (induction xs arbitrary: s)
  case (Cons x xs)
  from Cons.prems(1) obtain s' where s': "f x s = Inr s'" "foldM f xs s' = Inr t"
    by (auto simp: bnd_eq_Inr)
  have x: "P s'" "R x s'" using Cons.prems(3) [OF _ Cons.prems(2) s'(1)] by auto
  have rest: "P t \<and> (\<forall>x \<in> set xs. R x t)"
  proof (rule Cons.IH [OF s'(2) x(1)])
    show "P b \<and> R y b" if "y \<in> set xs" "P a" "f y a = Inr b" for y a b
      using Cons.prems(3) [of y a b] that by simp
    show "R z b" if "y \<in> set xs" "P a" "f y a = Inr b" "R z a" for y z a b
      using Cons.prems(4) [of y a b z] that by simp
  qed
  have "P t \<and> R x t"
  proof (rule foldM_invariant [OF s'(2), of "\<lambda>s. P s \<and> R x s"])
    show "P b \<and> R x b" if "y \<in> set xs" "P a \<and> R x a" "f y a = Inr b" for y a b
      using Cons.prems(3) [of y a b] Cons.prems(4) [of y a b x] that by simp
  qed (simp add: x)
  then show ?case using rest by simp
qed simp

text \<open>A loop whose body keeps an invariant and always returns under it returns.\<close>

lemma foldM_total:
  assumes "P s" and "\<And>x s s'. x \<in> set xs \<Longrightarrow> P s \<Longrightarrow> f x s = Inr s' \<Longrightarrow> P s'"
    and "\<And>x s. x \<in> set xs \<Longrightarrow> P s \<Longrightarrow> \<exists>s'. f x s = Inr s'"
  shows "\<exists>t. foldM f xs s = Inr t \<and> P t"
  using assms
proof (induction xs arbitrary: s)
  case (Cons x xs)
  obtain s' where s': "f x s = Inr s'" using Cons.prems(3) [OF _ Cons.prems(1)] by auto
  have P: "P s'" using Cons.prems(2) [OF _ Cons.prems(1) s'] by simp
  have "\<exists>t. foldM f xs s' = Inr t \<and> P t"
    by (rule Cons.IH [OF P]) (use Cons.prems(2,3) in auto)
  then show ?case using s' by simp
qed simp

section \<open>Text\<close>

abbreviation nl :: string where "nl \<equiv> ''\<newline>''"

fun show_nat :: "nat \<Rightarrow> string" where
  "show_nat n =
     (if n < 10 then [char_of (48 + n)] else show_nat (n div 10) @ [char_of (48 + n mod 10)])"

declare show_nat.simps [simp del]

definition show_int :: "int \<Rightarrow> string" where
  "show_int i = (if i < 0 then CHR ''-'' # show_nat (nat (- i)) else show_nat (nat i))"

fun join :: "string \<Rightarrow> string list \<Rightarrow> string" where
  "join sep [] = []"
| "join sep [x] = x"
| "join sep (x # y # ys) = x @ sep @ join sep (y # ys)"

text \<open>
  \<open>fmt::format\<close> for the format strings the code uses: each pair of braces stands for the next
  argument. The number of arguments is checked when the code is compiled, so a missing one
  needs no error value.
\<close>

fun fmt :: "string \<Rightarrow> string list \<Rightarrow> string" where
  "fmt [] as = []"
| "fmt [c] as = [c]"
| "fmt (c # d # cs) as =
     (if c = CHR ''{'' \<and> d = CHR ''}'' \<and> as \<noteq> [] then hd as @ fmt cs (tl as)
      else c # fmt (d # cs) as)"

text \<open>
  The code builds its text by insertions into a string stream. An operation that returns
  such a text is modelled by the list of the insertions, in their order; \<open>text_of\<close> is the
  string that \<open>result.str()\<close> returns.
\<close>

definition text_of :: "string list res \<Rightarrow> string res" where
  "text_of r = bnd r (\<lambda>cs. Inr (concat cs))"

definition only :: "bool \<Rightarrow> string list \<Rightarrow> string list" where
  "only b cs = (if b then cs else [])"

lemma only_simps [simp]: "only True cs = cs" "only False cs = []"
  by (simp_all add: only_def)

text \<open>Insertions guarded by a flag only add to the insertions made without it.\<close>

lemma subseq_only: "subseq (only False cs) (only b cs)"
  by (simp add: only_def)

lemma subseq_only_left [intro]: "subseq xs ys \<Longrightarrow> subseq xs (only b cs @ ys)"
  by (simp add: only_def list_emb_append2)

lemma subseq_same_left [intro]: "subseq xs ys \<Longrightarrow> subseq (zs @ xs) (zs @ ys)"
  by (simp add: subseq_append')

lemma subseq_concat_map:
  "(\<And>x. x \<in> set xs \<Longrightarrow> subseq (f x) (g x)) \<Longrightarrow>
   subseq (concat (map f xs)) (concat (map g xs))"
  by (induction xs) (auto intro: list_emb_append_mono)

end
