(* ===== verification/Identifiers.thy ===== *)
theory Identifiers
  imports Prelude
begin

text \<open>
  Identifiers (\<open>include/ducode/utility/replace.hpp\<close>, \<open>legalize_identifier.hpp\<close>, \<open>ids.hpp\<close>):
  the substring search and replacement loop and the nine replacements that turn a name of the
  netlist into a legal Verilog identifier. The loop is kept as the code has it, over a position
  in the string that is being changed; the lemmas relate it to a map over the characters.
\<close>

section \<open>Substring search\<close>

fun find_idx :: "string \<Rightarrow> string \<Rightarrow> nat option" where
  "find_idx src s =
     (if prefix src s then Some 0
      else (case s of [] \<Rightarrow> None | _ # s' \<Rightarrow> map_option Suc (find_idx src s')))"

declare find_idx.simps [simp del]

text \<open>\<open>str.find(source, pos)\<close>: the least position from \<open>pos\<close> on at which \<open>source\<close> occurs.\<close>

definition str_find :: "string \<Rightarrow> string \<Rightarrow> nat \<Rightarrow> nat option" where
  "str_find s src pos =
     (if length s < pos then None else map_option (\<lambda>i. pos + i) (find_idx src (drop pos s)))"

definition str_contains :: "string \<Rightarrow> string \<Rightarrow> bool" where
  "str_contains s src = (str_find s src 0 \<noteq> None)"

text \<open>\<open>str.replace(pos, len, target)\<close>.\<close>

definition str_replace :: "string \<Rightarrow> nat \<Rightarrow> nat \<Rightarrow> string \<Rightarrow> string" where
  "str_replace s pos len tgt = take pos s @ tgt @ drop (pos + len) s"

lemma find_idx_Some:
  "find_idx src s = Some i \<Longrightarrow> i + length src \<le> length s \<and> take (length src) (drop i s) = src"
proof (induction src s arbitrary: i rule: find_idx.induct)
  case (1 src s)
  show ?case
  proof (cases "prefix src s")
    case True
    with "1.prems" show ?thesis
      by (auto simp: find_idx.simps [of src s] prefix_def)
  next
    case False
    with "1.prems" obtain c s' j where "s = c # s'" "find_idx src s' = Some j" "i = Suc j"
      by (auto simp: find_idx.simps [of src s] split: list.splits)
    with "1.IH" [OF False] show ?thesis by simp
  qed
qed

lemma str_find_Some:
  assumes "str_find s src pos = Some i"
  shows "pos \<le> i" and "i + length src \<le> length s"
proof -
  from assms obtain j where j: "find_idx src (drop pos s) = Some j" "i = pos + j" "pos \<le> length s"
    by (auto simp: str_find_def split: if_splits)
  from j(2) show "pos \<le> i" by simp
  from find_idx_Some [OF j(1)] have "j + length src \<le> length (drop pos s)" by simp
  with j(2,3) show "i + length src \<le> length s" by (simp add: algebra_simps)
qed

lemma find_idx_single:
  "find_idx [a] s = (if a \<in> set s then Some (length (takeWhile (\<lambda>c. c \<noteq> a) s)) else None)"
proof (induction s)
  case (Cons c s)
  then show ?case by (auto simp: find_idx.simps [of _ "c # s"])
qed (simp add: find_idx.simps)

section \<open>The replacement loop\<close>

text \<open>
  The body of \<open>replace_all\<close> after the test for an empty source: search from \<open>pos\<close>, replace,
  continue behind the inserted target. What is left to scan shrinks by at least the length of
  the source, so the loop ends whatever source and target are.
\<close>

function replace_from :: "string \<Rightarrow> string \<Rightarrow> string \<Rightarrow> nat \<Rightarrow> string" where
  "replace_from s src tgt pos =
     (if src = [] then s
      else (case str_find s src pos of
              None \<Rightarrow> s
            | Some i \<Rightarrow>
                replace_from (str_replace s i (length src) tgt) src tgt (i + length tgt)))"
  by pat_completeness auto
termination
proof (relation "measure (\<lambda>(s, src, tgt, pos). length s - pos)", goal_cases)
  case (2 s src tgt pos i)
  from str_find_Some [OF 2(2)] 2(1) show ?case
    by (cases src) (auto simp: str_replace_def)
qed simp

declare replace_from.simps [simp del]

definition replace_all :: "string \<Rightarrow> string \<Rightarrow> string \<Rightarrow> string" where
  "replace_all s src tgt = (if src = [] then s else replace_from s src tgt 0)"

definition replace_all_copy :: "string \<Rightarrow> string \<Rightarrow> string \<Rightarrow> string" where
  "replace_all_copy s src tgt =
     (let result = s in if src = [] then result else replace_from result src tgt 0)"

text \<open>What the loop is meant to compute: a scan from the left over the original text.\<close>

function subst_scan :: "string \<Rightarrow> string \<Rightarrow> string \<Rightarrow> string" where
  "subst_scan src tgt s =
     (if src = [] then s
      else if prefix src s then tgt @ subst_scan src tgt (drop (length src) s)
      else (case s of [] \<Rightarrow> [] | c # s' \<Rightarrow> c # subst_scan src tgt s'))"
  by pat_completeness auto
termination
proof (relation "measure (\<lambda>(src, tgt, s). length s)", goal_cases)
  case (2 src tgt s)
  then show ?case by (cases src) (auto simp: prefix_def)
qed simp_all

declare subst_scan.simps [simp del]

lemma subst_scan_find_None: "src \<noteq> [] \<Longrightarrow> find_idx src s = None \<Longrightarrow> subst_scan src tgt s = s"
proof (induction s)
  case Nil
  then show ?case by (simp add: subst_scan.simps [of src tgt "[]"])
next
  case (Cons c s)
  then show ?case
    by (simp add: find_idx.simps [of src "c # s"] subst_scan.simps [of src tgt "c # s"]
        split: if_splits)
qed

lemma subst_scan_find_Some:
  "src \<noteq> [] \<Longrightarrow> find_idx src s = Some i \<Longrightarrow>
   subst_scan src tgt s = take i s @ tgt @ subst_scan src tgt (drop (i + length src) s)"
proof (induction s arbitrary: i)
  case Nil
  then show ?case by (auto simp: find_idx.simps [of src "[]"] split: if_splits)
next
  case (Cons c s)
  show ?case
  proof (cases "prefix src (c # s)")
    case True
    with Cons.prems show ?thesis
      by (simp add: find_idx.simps [of src "c # s"] subst_scan.simps [of src tgt "c # s"])
  next
    case False
    with Cons.prems obtain j where j: "find_idx src s = Some j" "i = Suc j"
      by (auto simp: find_idx.simps [of src "c # s"])
    from False Cons.prems have "subst_scan src tgt (c # s) = c # subst_scan src tgt s"
      by (simp add: subst_scan.simps [of src tgt "c # s"])
    with Cons.IH [OF Cons.prems(1) j(1)] j(2) show ?thesis by simp
  qed
qed

lemma replace_from_scan:
  "src \<noteq> [] \<Longrightarrow> pos \<le> length s \<Longrightarrow>
   replace_from s src tgt pos = take pos s @ subst_scan src tgt (drop pos s)"
proof (induction s src tgt pos rule: replace_from.induct)
  case (1 s src tgt pos)
  show ?case
  proof (cases "str_find s src pos")
    case None
    with "1.prems" have "find_idx src (drop pos s) = None" by (simp add: str_find_def)
    from subst_scan_find_None [OF "1.prems"(1) this] None "1.prems" show ?thesis
      by (simp add: replace_from.simps [of s])
  next
    case (Some i)
    then obtain j where j: "find_idx src (drop pos s) = Some j" "i = pos + j"
      by (auto simp: str_find_def split: if_splits)
    have b: "i + length src \<le> length s" by (rule str_find_Some(2) [OF Some])
    let ?s = "str_replace s i (length src) tgt"
    have "replace_from ?s src tgt (i + length tgt)
        = take (i + length tgt) ?s @ subst_scan src tgt (drop (i + length tgt) ?s)"
      by (rule "1.IH" [OF "1.prems"(1) Some "1.prems"(1)]) (use b in \<open>simp add: str_replace_def\<close>)
    also have "\<dots> = take i s @ tgt @ subst_scan src tgt (drop (i + length src) s)"
      using b by (simp add: str_replace_def)
    also have "take i s = take pos s @ take j (drop pos s)"
      using j(2) by (simp add: take_add)
    finally show ?thesis
      using subst_scan_find_Some [OF "1.prems"(1) j(1)] "1.prems"(1) Some j(2)
      by (simp add: replace_from.simps [of s] add.commute add.left_commute)
  qed
qed

lemma replace_all_scan: "replace_all s src tgt = subst_scan src tgt s"
  by (cases "src = []") (simp_all add: replace_all_def replace_from_scan subst_scan.simps [of "[]"])

lemma subst_scan_single: "subst_scan [a] [b] s = map (\<lambda>c. if c = a then b else c) s"
proof (induction s)
  case Nil
  then show ?case by (simp add: subst_scan.simps [of "[a]" "[b]" "[]"])
next
  case (Cons c s)
  then show ?case
    by (cases "a = c")
      (simp_all add: subst_scan.simps [of "[a]" "[b]" "c # s"] subst_scan.simps [of "[c]" "[b]" "c # s"])
qed

lemma replace_all_single: "replace_all s [a] [b] = map (\<lambda>c. if c = a then b else c) s"
  by (simp add: replace_all_scan subst_scan_single)

section \<open>Legal identifiers\<close>

definition ift_tag :: string where
  "ift_tag = ''_t''"

definition legalize_identifier :: "string \<Rightarrow> string" where
  "legalize_identifier identifier =
     (let local = identifier;
          local = replace_all local ''$'' ''_'';
          local = replace_all local ''.'' ''_'';
          local = replace_all local '':'' ''_'';
          local = replace_all local ''/'' ''_'';
          local = replace_all local [CHR 0x5C] ''_'';
          local = replace_all local ''['' ''_'';
          local = replace_all local '']'' ''_'';
          local = replace_all local [CHR 0x27] ''_'';
          local = replace_all local ''='' ''_''
      in local)"

definition illegal_chars :: "char set" where
  "illegal_chars =
     {CHR ''$'', CHR ''.'', CHR '':'', CHR ''/'', CHR 0x5C, CHR ''['', CHR '']'', CHR 0x27, CHR ''=''}"

definition legal_char :: "char \<Rightarrow> char" where
  "legal_char c = (if c \<in> illegal_chars then CHR ''_'' else c)"

lemma legalize_identifier_map: "legalize_identifier s = map legal_char s"
  by (simp add: legalize_identifier_def replace_all_single Let_def legal_char_def illegal_chars_def)

lemma legal_char_legal [simp]: "legal_char c \<notin> illegal_chars"
  by (simp add: legal_char_def illegal_chars_def)

lemma underscore_legal [simp]: "CHR ''_'' \<notin> illegal_chars"
  by (simp add: illegal_chars_def)

lemma legalize_Nil [simp]: "legalize_identifier s = [] \<longleftrightarrow> s = []"
  by (simp add: legalize_identifier_map)

text \<open>
  \<^bold>\<open>C40.\<close> The replacement loop, which searches and edits a string in place and moves its
  position behind each inserted target, ends on every input and computes the left-to-right
  substitution of the source by the target in the original text, also when the target contains
  the source.
\<close>

theorem replace_all_is_substitution:
  "replace_all s src tgt = subst_scan src tgt s \<and>
   replace_all_copy s src tgt = replace_all s src tgt"
  by (simp add: replace_all_scan) (simp add: replace_all_copy_def replace_all_def
      flip: replace_all_scan)

text \<open>
  Legalizing a name keeps its length, replaces exactly the nine illegal characters by
  an underscore, leaves no illegal character behind, and does nothing to a legal name, so it
  is idempotent.
\<close>

theorem legalize_identifier_correct:
  "length (legalize_identifier s) = length s \<and>
   set (legalize_identifier s) \<inter> illegal_chars = {} \<and>
   legalize_identifier (legalize_identifier s) = legalize_identifier s \<and>
   (legalize_identifier s = s \<longleftrightarrow> set s \<inter> illegal_chars = {}) \<and>
   legalize_identifier s = map (\<lambda>c. if c \<in> illegal_chars then CHR ''_'' else c) s"
proof -
  have idem: "legal_char (legal_char c) = legal_char c" for c
    by (simp add: legal_char_def illegal_chars_def)
  have "map legal_char s = s \<longleftrightarrow> set s \<inter> illegal_chars = {}"
    by (induction s) (auto simp: legal_char_def)
  moreover have "set (map legal_char s) \<inter> illegal_chars = {}"
    by auto
  ultimately show ?thesis
    by (simp add: legalize_identifier_map idem comp_def legal_char_def [abs_def])
qed

end
