(* ===== verification/Bits.thy ===== *)
theory Bits
  imports Prelude
begin

text \<open>
  Bits of a netlist (\<open>include/ducode/bit.hpp\<close>), the JSON values in which the netlist and its
  parameters arrive, the accessors the code applies to them, the numeric conversions of the
  standard library, and the conversion of a JSON array into a vector of bits
  (\<open>include/ducode/utility/json.hpp\<close>).
\<close>

section \<open>Bits\<close>

text \<open>\<open>class Bit\<close>: a \<open>std::size_t\<close>; two values at each end of the range are constants
  (the maximum, and the maximum less one).\<close>

datatype netbit = Bit (m_bit: "64 word")

definition const_bit_0 :: "64 word" where "const_bit_0 = 0"
definition const_bit_1 :: "64 word" where "const_bit_1 = 1"
definition const_bit_X :: "64 word" where "const_bit_X = - 1"
definition const_bit_Z :: "64 word" where "const_bit_Z = - 2"

lemmas const_bit_defs = const_bit_0_def const_bit_1_def const_bit_X_def const_bit_Z_def

text \<open>\<open>Bit()\<close> leaves the bit at its default.\<close>

definition default_bit :: netbit where
  "default_bit = Bit const_bit_X"

definition is_constant :: "netbit \<Rightarrow> bool" where
  "is_constant b \<longleftrightarrow>
     m_bit b = const_bit_0 \<or> m_bit b = const_bit_1 \<or>
     m_bit b = const_bit_X \<or> m_bit b = const_bit_Z"

text \<open>The defaulted comparison of two bits compares their values.\<close>

instantiation netbit :: linorder
begin

definition less_eq_netbit :: "netbit \<Rightarrow> netbit \<Rightarrow> bool" where
  "a \<le> b \<longleftrightarrow> m_bit a \<le> m_bit b"

definition less_netbit :: "netbit \<Rightarrow> netbit \<Rightarrow> bool" where
  "a < b \<longleftrightarrow> m_bit a < m_bit b"

instance
  by standard (auto simp: less_eq_netbit_def less_netbit_def netbit.expand)

end

text \<open>
  The comparison of a bit with a number returns \<open>bit <=> m_bit\<close>, the comparison of the number
  with the bit; the result is the sign of the three-way comparison.
\<close>

definition bit_cmp :: "netbit \<Rightarrow> netbit \<Rightarrow> int" where
  "bit_cmp a b = (if a < b then -1 else if a = b then 0 else 1)"

definition bit_cmp_value :: "netbit \<Rightarrow> 64 word \<Rightarrow> int" where
  "bit_cmp_value b v = (if v < m_bit b then -1 else if v = m_bit b then 0 else 1)"

definition show_bit :: "netbit \<Rightarrow> string" where
  "show_bit b =
     (if m_bit b = const_bit_X then ''X''
      else if m_bit b = const_bit_Z then ''Z''
      else show_nat (unat (m_bit b)))"

lemma is_constant_simps [simp]:
  "is_constant (Bit 0)" "is_constant (Bit 1)"
  "is_constant (Bit const_bit_X)" "is_constant (Bit const_bit_Z)"
  by (simp_all add: is_constant_def const_bit_defs)

section \<open>JSON values\<close>

text \<open>
  The values a netlist uses. An object is the list of its members in the order of the keys
  (\<open>std::map\<close>). Numbers are integers: a netlist has no floating-point numbers.
\<close>

datatype json =
    JNull
  | JBool bool
  | JInt int
  | JStr string
  | JArr "json list"
  | JObj "(string \<times> json) list"

fun is_object :: "json \<Rightarrow> bool" where
  "is_object (JObj _) = True"
| "is_object _ = False"

fun is_string :: "json \<Rightarrow> bool" where
  "is_string (JStr _) = True"
| "is_string _ = False"

fun is_number_integer :: "json \<Rightarrow> bool" where
  "is_number_integer (JInt _) = True"
| "is_number_integer _ = False"

text \<open>\<open>contains\<close> is false for a value that is no object.\<close>

fun jcontains :: "json \<Rightarrow> string \<Rightarrow> bool" where
  "jcontains (JObj ms) k = (map_of ms k \<noteq> None)"
| "jcontains _ _ = False"

text \<open>\<open>at\<close> throws; the constant \<open>operator[]\<close> asserts that the key is present.\<close>

fun jat :: "json \<Rightarrow> string \<Rightarrow> json res" where
  "jat (JObj ms) k = of_opt OutOfRange (map_of ms k)"
| "jat _ _ = Inl TypeError"

fun jindex :: "json \<Rightarrow> string \<Rightarrow> json res" where
  "jindex (JObj ms) k = of_opt Assertion (map_of ms k)"
| "jindex _ _ = Inl TypeError"

text \<open>The other \<open>operator[]\<close> makes a null value where the key is missing, and of null an object.\<close>

fun jref :: "json \<Rightarrow> string \<Rightarrow> json res" where
  "jref (JObj ms) k = Inr (case map_of ms k of Some j \<Rightarrow> j | None \<Rightarrow> JNull)"
| "jref JNull k = Inr JNull"
| "jref _ _ = Inl TypeError"

fun get_string :: "json \<Rightarrow> string res" where
  "get_string (JStr s) = Inr s"
| "get_string _ = Inl TypeError"

text \<open>\<open>get<std::size_t>\<close> accepts numbers; \<open>get<int>\<close> and \<open>get<uint32_t>\<close> also a boolean.\<close>

fun get_size_t :: "json \<Rightarrow> 64 word res" where
  "get_size_t (JInt i) = Inr (word_of_int i)"
| "get_size_t _ = Inl TypeError"

fun get_int :: "json \<Rightarrow> int res" where
  "get_int (JInt i) = Inr (sint (word_of_int i :: 32 word))"
| "get_int (JBool b) = Inr (of_bool b)"
| "get_int _ = Inl TypeError"

fun get_uint32 :: "json \<Rightarrow> 32 word res" where
  "get_uint32 (JInt i) = Inr (word_of_int i)"
| "get_uint32 (JBool b) = Inr (of_bool b)"
| "get_uint32 _ = Inl TypeError"

definition json_bool :: "json \<Rightarrow> bool res" where
  "json_bool j = (case j of JBool b \<Rightarrow> Inr b | _ \<Rightarrow> Inl TypeError)"

section \<open>Numeric conversions\<close>

text \<open>
  \<open>std::stoull\<close> and \<open>std::stoi\<close> skip white space, accept a sign, and read the longest prefix of
  digits of the base (at most ten here); without a digit they throw \<open>std::invalid_argument\<close>.
\<close>

definition is_space :: "char \<Rightarrow> bool" where
  "is_space c = (c = CHR '' '' \<or> (9 \<le> (of_char c :: nat) \<and> (of_char c :: nat) \<le> 13))"

definition digit_val :: "char \<Rightarrow> nat" where
  "digit_val c = of_char c - 48"

definition is_digit_of :: "nat \<Rightarrow> char \<Rightarrow> bool" where
  "is_digit_of b c = (48 \<le> (of_char c :: nat) \<and> (of_char c :: nat) < 48 + b)"

definition sign_of :: "string \<Rightarrow> bool \<times> string" where
  "sign_of s =
     (case s of [] \<Rightarrow> (False, [])
      | c # cs \<Rightarrow> if c = CHR ''-'' then (True, cs) else if c = CHR ''+'' then (False, cs)
                 else (False, s))"

definition digits_value :: "nat \<Rightarrow> string \<Rightarrow> nat" where
  "digits_value b ds = foldl (\<lambda>acc c. acc * b + digit_val c) 0 ds"

definition strto :: "nat \<Rightarrow> string \<Rightarrow> (bool \<times> nat) option" where
  "strto b s =
     (let (neg, r) = sign_of (dropWhile is_space s);
          ds = takeWhile (is_digit_of b) r
      in if ds = [] then None else Some (neg, digits_value b ds))"

definition stoull :: "nat \<Rightarrow> string \<Rightarrow> 64 word res" where
  "stoull b s =
     (case strto b s of
        None \<Rightarrow> Inl InvalidArgument
      | Some (neg, n) \<Rightarrow>
          if 2 ^ 64 \<le> n then Inl OutOfRange
          else Inr (if neg then - word_of_nat n else word_of_nat n))"

definition stoi :: "nat \<Rightarrow> string \<Rightarrow> int res" where
  "stoi b s =
     (case strto b s of
        None \<Rightarrow> Inl InvalidArgument
      | Some (neg, n) \<Rightarrow>
          (let v = (if neg then - int n else int n)
           in if v < - (2 ^ 31) \<or> 2 ^ 31 \<le> v then Inl OutOfRange else Inr v))"

lemma digits_value_snoc: "digits_value b (ds @ [c]) = digits_value b ds * b + digit_val c"
  by (simp add: digits_value_def)

lemma strto_digits:
  assumes "set ds \<subseteq> {CHR ''0'', CHR ''1''}" "ds \<noteq> []" "2 \<le> b"
  shows "strto b ds = Some (False, digits_value b ds)"
proof -
  obtain c cs where ds: "ds = c # cs" using assms(2) by (cases ds) auto
  have c: "c \<noteq> CHR ''-''" "c \<noteq> CHR ''+''" "\<not> is_space c"
    using assms(1) ds by (auto simp: is_space_def)
  have "\<forall>x \<in> set ds. is_digit_of b x" using assms by (auto simp: is_digit_of_def)
  then have "takeWhile (is_digit_of b) ds = ds" by (simp add: takeWhile_eq_all_conv)
  then show ?thesis using ds c assms(2) by (simp add: strto_def sign_of_def)
qed

lemma stoull_digits:
  "set ds \<subseteq> {CHR ''0'', CHR ''1''} \<Longrightarrow> ds \<noteq> [] \<Longrightarrow> digits_value 2 ds < 2 ^ 64 \<Longrightarrow>
    stoull 2 ds = Inr (word_of_nat (digits_value 2 ds))"
  by (simp add: stoull_def strto_digits)

lemma binary_digits_less: "set ds \<subseteq> {CHR ''0'', CHR ''1''} \<Longrightarrow> digits_value 2 ds < 2 ^ length ds"
proof (induction ds rule: rev_induct)
  case (snoc c ds)
  then show ?case by (auto simp: digits_value_snoc digit_val_def)
qed (simp add: digits_value_def)

section \<open>Vectors of bits\<close>

definition json_bit :: "json \<Rightarrow> netbit res" where
  "json_bit j =
     (if is_string j
      then if j = JStr ''0'' then Inr (Bit const_bit_0)
           else if j = JStr ''1'' then Inr (Bit const_bit_1)
           else if j = JStr ''x'' then Inr (Bit const_bit_X)
           else if j = JStr ''z'' then Inr (Bit const_bit_Z)
           else Inl (RuntimeError ''Unexpected value'')
      else bnd (get_size_t j) (\<lambda>v. Inr (Bit v)))"

fun to_bit_vector :: "json \<Rightarrow> netbit list res" where
  "to_bit_vector (JArr js) =
     bnd (mapM json_bit js) (\<lambda>bs. chk (length bs = length js) Contract (Inr bs))"
| "to_bit_vector _ = Inl Contract"

lemma to_bit_vector_Inr:
  "to_bit_vector j = Inr bs \<longleftrightarrow> (\<exists>js. j = JArr js \<and> mapM json_bit js = Inr bs)"
  by (cases j) (auto simp: bnd_eq_Inr chk_eq_Inr dest: mapM_length)

end
