(* ===== verification/Netlist.thy ===== *)
theory Netlist
  imports Identifiers Bits
begin

text \<open>
  Nets, ports and the part all cells share (\<open>include/ducode/net.hpp\<close>, \<open>port.hpp\<close>, \<open>cell.hpp\<close>),
  with the Verilog text of a declaration, and the assignments between two vectors of bits
  (\<open>utility/export_connection.hpp\<close>).

  The signature of a vector of bits is \<open>boost::hash_value\<close>, a function of another library: the
  operations that compute one take it as the argument \<open>hash\<close>.
\<close>

section \<open>Parameters of the exports\<close>

text \<open>
  The JSON object \<open>params\<close> that the exports receive. A component is \<open>None\<close> when the object
  does not contain it. \<open>p_idmap\<close> is \<open>identifiers_map\<close>, from signatures to identifiers; it is
  empty when the object does not contain one.
\<close>

record params =
  p_ift :: "bool option"
  p_tag_size :: "32 word option"
  p_is_register :: "bool option"
  p_idmap :: "64 word \<Rightarrow> string option"

abbreviation show_word :: "'a::len word \<Rightarrow> string" where
  "show_word w \<equiv> show_nat (unat w)"

section \<open>Directions and ports\<close>

datatype direction = Input | Output | Inout | UnknownDir

fun show_direction :: "direction \<Rightarrow> string res" where
  "show_direction Input = Inr ''input''"
| "show_direction Output = Inr ''output''"
| "show_direction Inout = Inr ''inout''"
| "show_direction UnknownDir = Inl (RuntimeError ''direction not supported'')"

definition fast_bits :: "netbit list \<Rightarrow> netbit set" where
  "fast_bits bs =
     set bs - {Bit const_bit_X} - {Bit const_bit_Z} - {Bit const_bit_0} - {Bit const_bit_1}"

lemma fast_bits_iff [simp]: "b \<in> fast_bits bs \<longleftrightarrow> b \<in> set bs \<and> \<not> is_constant b"
  by (cases b) (auto simp: fast_bits_def is_constant_def)

record port =
  pt_name :: string
  pt_identifier :: string
  pt_direction :: direction
  pt_bits :: "netbit list"
  pt_fast_search_bits :: "netbit set"
  pt_bits_signature :: "64 word"
  pt_signed :: bool
  pt_contains_constant :: bool
  pt_contains_non_constant :: bool

definition default_port :: port where
  "default_port =
     \<lparr>pt_name = [], pt_identifier = [], pt_direction = UnknownDir, pt_bits = [],
      pt_fast_search_bits = {}, pt_bits_signature = 0, pt_signed = False,
      pt_contains_constant = False, pt_contains_non_constant = False\<rparr>"

definition mk_port ::
  "(netbit list \<Rightarrow> 64 word) \<Rightarrow> string \<Rightarrow> string \<Rightarrow> direction \<Rightarrow> netbit list \<Rightarrow> bool \<Rightarrow> port"
where
  "mk_port hash name identifier dir bits sign =
     \<lparr>pt_name = name, pt_identifier = identifier, pt_direction = dir, pt_bits = bits,
      pt_fast_search_bits = fast_bits bits, pt_bits_signature = hash bits, pt_signed = sign,
      pt_contains_constant = list_ex is_constant bits,
      pt_contains_non_constant = list_ex (\<lambda>b. \<not> is_constant b) bits\<rparr>"

section \<open>Declarations\<close>

text \<open>The lines that drive the constant bits of a declared vector.\<close>

definition const_assigns :: "string \<Rightarrow> netbit list \<Rightarrow> string list" where
  "const_assigns legalized_name bits =
     concat (map (\<lambda>(index, b).
       let assignment_string =
             (if 1 < length bits then fmt ''{}[{}]'' [legalized_name, show_nat index]
              else legalized_name)
       in if m_bit b = const_bit_Z then []
          else if is_constant b
            then [fmt ''  assign {} = 1'b{};\<newline>'' [assignment_string, show_bit b]]
            else [])
       (enumerate 0 bits))"

definition width_string :: "netbit list \<Rightarrow> string" where
  "width_string bits =
     (if 1 < length bits then fmt ''[{}:0]'' [show_nat (length bits - 1)] else '''')"

definition port_export_verilog :: "params \<Rightarrow> port \<Rightarrow> string list res" where
  "port_export_verilog ps p =
     bnd (of_opt Contract (p_ift ps)) (\<lambda>ift.
     bnd (of_opt Contract (p_tag_size ps)) (\<lambda>tag_size.
     let is_register = (case p_is_register ps of Some r \<Rightarrow> r | None \<Rightarrow> False);
         net_type = (if is_register then ''reg'' else ''wire'');
         legalized_name = legalize_identifier (pt_identifier p)
     in Inr (
          [fmt ''  {} {} {};\<newline>'' [net_type, width_string (pt_bits p), legalized_name]]
          @ only ift
              [fmt ''  {} [{}:0] {}{}{};\<newline>''
                 [net_type, show_word (tag_size - 1), legalized_name, ift_tag,
                  if is_register then '' = 0'' else '''']]
          @ (if pt_contains_constant p then const_assigns legalized_name (pt_bits p) else [])
          @ only (ift \<and> \<not> pt_contains_non_constant p)
              [fmt ''  assign {} = 0;\<newline>'' [fmt ''{}{}'' [legalized_name, ift_tag]]])))"

section \<open>Nets\<close>

record net =
  n_name :: string
  n_src_name :: string
  n_src_line :: "32 word"
  n_bits_signature :: "64 word"
  n_bits :: "netbit list"
  n_fast_search_bits :: "netbit set"
  n_hidden :: bool
  n_init_value :: string
  n_contains_constant :: bool
  n_contains_non_constant :: bool

definition mk_net :: "(netbit list \<Rightarrow> 64 word) \<Rightarrow> string \<Rightarrow> bool \<Rightarrow> netbit list \<Rightarrow> net" where
  "mk_net hash name hidden bits =
     \<lparr>n_name = name, n_src_name = '''', n_src_line = 0, n_bits_signature = hash bits,
      n_bits = bits, n_fast_search_bits = fast_bits bits, n_hidden = hidden, n_init_value = '''',
      n_contains_constant = list_ex is_constant bits,
      n_contains_non_constant = list_ex (\<lambda>b. \<not> is_constant b) bits\<rparr>"

definition contains_only_constants :: "net \<Rightarrow> bool" where
  "contains_only_constants n = (\<not> n_contains_non_constant n)"

definition set_init_value :: "string \<Rightarrow> net \<Rightarrow> net" where
  "set_init_value init n = n\<lparr>n_init_value := init\<rparr>"

definition set_source_info :: "string \<Rightarrow> 32 word \<Rightarrow> net \<Rightarrow> net" where
  "set_source_info src line n = n\<lparr>n_src_name := src, n_src_line := line\<rparr>"

definition get_source_info :: "net \<Rightarrow> string" where
  "get_source_info n = fmt ''{}:{}'' [n_src_name n, show_word (n_src_line n)]"

definition net_export_verilog :: "params \<Rightarrow> net \<Rightarrow> string list res" where
  "net_export_verilog ps n =
     bnd (of_opt Contract (p_ift ps)) (\<lambda>ift.
     bnd (of_opt Contract (p_tag_size ps)) (\<lambda>tag_size.
     let is_register = (case p_is_register ps of Some r \<Rightarrow> r | None \<Rightarrow> False);
         net_type = (if is_register then ''reg'' else ''wire'');
         legalized_name = legalize_identifier (n_name n)
     in Inr (
          [fmt ''  {} {} {};\<newline>'' [net_type, width_string (n_bits n), legalized_name]]
          @ only ift
              [fmt ''  {} [{}:0] {}{}{};\<newline>''
                 [net_type, show_word (tag_size - 1), legalized_name, ift_tag,
                  if is_register then '' = 0'' else '''']]
          @ (if is_register \<and> n_init_value n \<noteq> []
             then [''initial begin\<newline>'', fmt ''  {} = {};\<newline>'' [legalized_name, n_init_value n],
                   ''end\<newline>'']
             else [])
          @ (if n_contains_constant n then const_assigns legalized_name (n_bits n) else [])
          @ only (ift \<and> \<not> n_contains_non_constant n)
              [fmt ''  assign {} = 0;\<newline>'' [fmt ''{}{}'' [legalized_name, ift_tag]]])))"

section \<open>Connections\<close>

definition export_connection ::
  "string \<Rightarrow> netbit list \<Rightarrow> string \<Rightarrow> netbit list \<Rightarrow> string list"
where
  "export_connection source_name source_bits target_name target_bits =
     (if source_bits = target_bits
      then [fmt ''  assign {} = {};\<newline>'' [target_name, source_name]]
      else concat (map (\<lambda>(target_index, target_bit).
        if is_constant target_bit then []
        else
          let assignment_string =
                (if 1 < length target_bits then fmt ''{}[{}]'' [target_name, show_nat target_index]
                 else target_name)
          in concat (map (\<lambda>(source_index, source_bit).
               if target_bit = source_bit then
                 if length source_bits = 1
                 then [fmt ''  assign {} = {};\<newline>'' [assignment_string, source_name]]
                 else [fmt ''  assign {} = {}[{}];\<newline>''
                        [assignment_string, source_name, show_nat source_index]]
               else [])
             (enumerate 0 source_bits)))
        (enumerate 0 target_bits)))"

section \<open>Cells\<close>

text \<open>The members of \<open>class Cell\<close>.\<close>

record cell =
  c_name :: string
  c_type :: string
  c_hidden :: bool
  c_register :: bool
  c_ports :: "port list"
  c_parameters :: json
  c_attributes :: json

text \<open>The constructor gives each port the identifier it has in the exported text.\<close>

definition mk_cell :: "string \<Rightarrow> string \<Rightarrow> port list \<Rightarrow> bool \<Rightarrow> json \<Rightarrow> json \<Rightarrow> cell" where
  "mk_cell name type ports hidden parameters attributes =
     \<lparr>c_name = name, c_type = type, c_hidden = hidden, c_register = False,
      c_ports = map (\<lambda>p. p\<lparr>pt_identifier :=
        fmt ''{}_{}_port'' [legalize_identifier name, pt_name p]\<rparr>) ports,
      c_parameters = parameters, c_attributes = attributes\<rparr>"

definition get_port :: "cell \<Rightarrow> string \<Rightarrow> port res" where
  "get_port c port_name =
     of_opt (RuntimeError ''Port not found in cell'')
       (find (\<lambda>p. pt_name p = port_name) (c_ports c))"

definition has_port :: "cell \<Rightarrow> string \<Rightarrow> bool" where
  "has_port c port_name = list_ex (\<lambda>p. pt_name p = port_name) (c_ports c)"

definition cell_source_info :: "cell \<Rightarrow> string res" where
  "cell_source_info c =
     (if jcontains (c_attributes c) ''src''
      then bnd (jindex (c_attributes c) ''src'') get_string
      else Inr ''src attribute not available.'')"

lemma mk_cell_sel [simp]:
  "c_name (mk_cell n t ps h pa at) = n" "c_type (mk_cell n t ps h pa at) = t"
  "c_hidden (mk_cell n t ps h pa at) = h" "c_register (mk_cell n t ps h pa at) = False"
  "c_parameters (mk_cell n t ps h pa at) = pa" "c_attributes (mk_cell n t ps h pa at) = at"
  "length (c_ports (mk_cell n t ps h pa at)) = length ps"
  by (simp_all add: mk_cell_def)

text \<open>
  The loop over the ports that opens the export of nearly every cell: an output must be the
  port \<open>outname\<close> (or the error \<open>e\<close> is raised), the ports named in \<open>innames\<close> must be inputs, and the identifier of each is
  looked up by its signature. The result maps the port names to the local variables.
\<close>

definition bind_port ::
  "error \<Rightarrow> string \<Rightarrow> string list \<Rightarrow> (64 word \<Rightarrow> string option) \<Rightarrow> port \<Rightarrow> (string \<Rightarrow> string) \<Rightarrow>
   (string \<Rightarrow> string) res"
where
  "bind_port e outname innames idmap p env =
     bnd (if pt_direction p = Output
          then chk (pt_name p = outname) e
                 (bnd (of_opt OutOfRange (idmap (pt_bits_signature p))) (\<lambda>i. Inr (env(outname := i))))
          else Inr env) (\<lambda>env.
     if pt_name p \<in> set innames
     then chk (pt_direction p = Input) Contract
            (bnd (of_opt OutOfRange (idmap (pt_bits_signature p))) (\<lambda>i. Inr (env(pt_name p := i))))
     else Inr env)"

definition bind_ports ::
  "error \<Rightarrow> string \<Rightarrow> string list \<Rightarrow> (64 word \<Rightarrow> string option) \<Rightarrow> port list \<Rightarrow> (string \<Rightarrow> string) res"
where
  "bind_ports e outname innames idmap ports =
     foldM (bind_port e outname innames idmap) ports (\<lambda>_. '''')"

end
