(* ===== verification/Smt.thy ===== *)
theory Smt
  imports Netlist "HOL-Library.Signed_Division"
begin

unbundle bit_operations_syntax

text \<open>
  The terms and formulas the cells hand to the SMT solver, with the sorts the solver checks,
  and their meaning. The solver is a library of its own: the meaning of its operators is a
  parameter, and the locale \<open>smt_bv\<close> states what the SMT-LIB theory of fixed-size bit vectors
  documents of them. Values of width \<open>w\<close> are integers from 0 to \<open>2 ^ w - 1\<close>. The definitions
  \<open>std_un\<close>, \<open>std_bin\<close> and \<open>std_prd\<close> are one interpretation that satisfies the laws.
\<close>

section \<open>Terms, formulas and sorts\<close>

text \<open>Zero and sign extension are by a number of bits, as in the interface of the solver.\<close>

datatype unop = UNot | Zext nat | Sext nat | Extract nat nat | RedOr | RedAnd

datatype binop = BAdd | BSub | BMul | BUdiv | BSdiv | BSmod | BAnd | BOr | BXor | BShl | BLshr | BAshr

datatype cmp = CSge | CSgt | CSle | CSlt | CUge | CUgt | CUle | CUlt

text \<open>
  \<open>ArithAdd\<close> is \<open>Z3_mk_add\<close>, the addition of the sorts of integers and reals, which some code
  applies to bit vectors.
\<close>

datatype bv =
    BVar string nat
  | BVal int nat
  | Uop unop bv
  | Bop binop bv bv
  | ArithAdd "bv list"
  | Concat bv bv
  | Ite form bv bv
and form =
    FEq bv bv
  | FNe bv bv
  | FCmp cmp bv bv
  | FAnd form form
  | FOr form form

fun un_size :: "unop \<Rightarrow> nat \<Rightarrow> nat" where
  "un_size UNot n = n"
| "un_size (Zext k) n = n + k"
| "un_size (Sext k) n = n + k"
| "un_size (Extract hi lo) n = hi + 1 - lo"
| "un_size RedOr n = 1"
| "un_size RedAnd n = 1"

fun bv_size :: "bv \<Rightarrow> nat" where
  "bv_size (BVar _ w) = w"
| "bv_size (BVal _ w) = w"
| "bv_size (Uop f t) = un_size f (bv_size t)"
| "bv_size (Bop _ a b) = bv_size a"
| "bv_size (ArithAdd ts) = 0"
| "bv_size (Concat a b) = bv_size a + bv_size b"
| "bv_size (Ite _ a b) = bv_size a"

fun un_ok :: "unop \<Rightarrow> nat \<Rightarrow> bool" where
  "un_ok (Extract hi lo) n = (lo \<le> hi \<and> hi < n)"
| "un_ok _ n = True"

fun ws :: "bv \<Rightarrow> bool" and wf_form :: "form \<Rightarrow> bool" where
  "ws (BVar _ w) = (0 < w)"
| "ws (BVal _ w) = (0 < w)"
| "ws (Uop f t) = (ws t \<and> un_ok f (bv_size t))"
| "ws (Bop _ a b) = (ws a \<and> ws b \<and> bv_size a = bv_size b)"
| "ws (ArithAdd ts) = False"
| "ws (Concat a b) = (ws a \<and> ws b)"
| "ws (Ite c a b) = (wf_form c \<and> ws a \<and> ws b \<and> bv_size a = bv_size b)"
| "wf_form (FEq a b) = (ws a \<and> ws b \<and> bv_size a = bv_size b)"
| "wf_form (FNe a b) = (ws a \<and> ws b \<and> bv_size a = bv_size b)"
| "wf_form (FCmp _ a b) = (ws a \<and> ws b \<and> bv_size a = bv_size b)"
| "wf_form (FAnd p q) = (wf_form p \<and> wf_form q)"
| "wf_form (FOr p q) = (wf_form p \<and> wf_form q)"

text \<open>
  The solver is the list of its assertions. A term that is not well sorted is rejected with an
  exception before anything is asserted. An expression compared with a number stands for the
  comparison with a numeral of its sort.
\<close>

type_synonym solver = "form list"

definition solver_add :: "form \<Rightarrow> solver \<Rightarrow> solver res" where
  "solver_add f s = (if wf_form f then Inr (s @ [f]) else Inl Z3Exception)"

definition eq_num :: "bv \<Rightarrow> int \<Rightarrow> form" where
  "eq_num t i = FEq t (BVal i (bv_size t))"

definition ne_num :: "bv \<Rightarrow> int \<Rightarrow> form" where
  "ne_num t i = FNe t (BVal i (bv_size t))"

text \<open>
  The expressions of the ports, by name: \<open>std::unordered_map\<close>, so the keys are distinct.
\<close>

type_synonym port_exprs = "(string \<times> bv) list"

definition pexpr :: "port_exprs \<Rightarrow> string \<Rightarrow> bv res" where
  "pexpr pm k = of_opt OutOfRange (map_of pm k)"

section \<open>Meaning\<close>

text \<open>
  A constant of the solver is a name with a sort, so constants with the same name and different
  widths are different. Equality, the connectives, choice and concatenation have their usual
  meaning.
\<close>

fun eval ::
  "(unop \<Rightarrow> nat \<Rightarrow> int \<Rightarrow> int) \<Rightarrow> (binop \<Rightarrow> nat \<Rightarrow> int \<Rightarrow> int \<Rightarrow> int) \<Rightarrow>
   (cmp \<Rightarrow> nat \<Rightarrow> int \<Rightarrow> int \<Rightarrow> bool) \<Rightarrow> (string \<times> nat \<Rightarrow> int) \<Rightarrow> bv \<Rightarrow> int"
and holds ::
  "(unop \<Rightarrow> nat \<Rightarrow> int \<Rightarrow> int) \<Rightarrow> (binop \<Rightarrow> nat \<Rightarrow> int \<Rightarrow> int \<Rightarrow> int) \<Rightarrow>
   (cmp \<Rightarrow> nat \<Rightarrow> int \<Rightarrow> int \<Rightarrow> bool) \<Rightarrow> (string \<times> nat \<Rightarrow> int) \<Rightarrow> form \<Rightarrow> bool"
where
  "eval un bin prd m (BVar x w) = take_bit w (m (x, w))"
| "eval un bin prd m (BVal i w) = take_bit w i"
| "eval un bin prd m (Uop f t) = un f (bv_size t) (eval un bin prd m t)"
| "eval un bin prd m (Bop f a b) = bin f (bv_size a) (eval un bin prd m a) (eval un bin prd m b)"
| "eval un bin prd m (ArithAdd ts) = 0"
| "eval un bin prd m (Concat a b) =
     eval un bin prd m a * 2 ^ bv_size b + eval un bin prd m b"
| "eval un bin prd m (Ite c a b) =
     (if holds un bin prd m c then eval un bin prd m a else eval un bin prd m b)"
| "holds un bin prd m (FEq a b) = (eval un bin prd m a = eval un bin prd m b)"
| "holds un bin prd m (FNe a b) = (eval un bin prd m a \<noteq> eval un bin prd m b)"
| "holds un bin prd m (FCmp c a b) =
     prd c (bv_size a) (eval un bin prd m a) (eval un bin prd m b)"
| "holds un bin prd m (FAnd p q) = (holds un bin prd m p \<and> holds un bin prd m q)"
| "holds un bin prd m (FOr p q) = (holds un bin prd m p \<or> holds un bin prd m q)"

text \<open>The two's complement value of a bit vector.\<close>

definition sgn_val :: "nat \<Rightarrow> int \<Rightarrow> int" where
  "sgn_val w a = (if 0 < w then signed_take_bit (w - 1) a else 0)"

abbreviation bv_range :: "nat \<Rightarrow> int \<Rightarrow> bool" where
  "bv_range w a \<equiv> 0 \<le> a \<and> a < 2 ^ w"

locale smt_bv =
  fixes un :: "unop \<Rightarrow> nat \<Rightarrow> int \<Rightarrow> int"
    and bin :: "binop \<Rightarrow> nat \<Rightarrow> int \<Rightarrow> int \<Rightarrow> int"
    and prd :: "cmp \<Rightarrow> nat \<Rightarrow> int \<Rightarrow> int \<Rightarrow> bool"
  assumes un_not: "bv_range w a \<Longrightarrow> un UNot w a = 2 ^ w - 1 - a"
    and un_zext: "bv_range w a \<Longrightarrow> un (Zext k) w a = a"
    and un_sext: "bv_range w a \<Longrightarrow> 0 < w \<Longrightarrow> un (Sext k) w a = take_bit (w + k) (sgn_val w a)"
    and un_extract: "bv_range w a \<Longrightarrow> lo \<le> hi \<Longrightarrow> hi < w \<Longrightarrow>
      un (Extract hi lo) w a = take_bit (hi + 1 - lo) (drop_bit lo a)"
    and un_redor: "bv_range w a \<Longrightarrow> un RedOr w a = of_bool (a \<noteq> 0)"
    and un_redand: "bv_range w a \<Longrightarrow> un RedAnd w a = of_bool (a = 2 ^ w - 1)"
    and bin_add: "bv_range w a \<Longrightarrow> bv_range w b \<Longrightarrow> bin BAdd w a b = (a + b) mod 2 ^ w"
    and bin_sub: "bv_range w a \<Longrightarrow> bv_range w b \<Longrightarrow> bin BSub w a b = (a - b) mod 2 ^ w"
    and bin_mul: "bv_range w a \<Longrightarrow> bv_range w b \<Longrightarrow> bin BMul w a b = (a * b) mod 2 ^ w"
    and bin_and: "bv_range w a \<Longrightarrow> bv_range w b \<Longrightarrow> bin BAnd w a b = a AND b"
    and bin_or: "bv_range w a \<Longrightarrow> bv_range w b \<Longrightarrow> bin BOr w a b = a OR b"
    and bin_xor: "bv_range w a \<Longrightarrow> bv_range w b \<Longrightarrow> bin BXor w a b = a XOR b"
    and bin_shl: "bv_range w a \<Longrightarrow> bv_range w b \<Longrightarrow>
      bin BShl w a b = take_bit w (push_bit (nat b) a)"
    and bin_lshr: "bv_range w a \<Longrightarrow> bv_range w b \<Longrightarrow> bin BLshr w a b = drop_bit (nat b) a"
    and bin_ashr: "bv_range w a \<Longrightarrow> bv_range w b \<Longrightarrow>
      bin BAshr w a b = take_bit w (drop_bit (nat b) (sgn_val w a))"
    and bin_udiv: "bv_range w a \<Longrightarrow> bv_range w b \<Longrightarrow>
      bin BUdiv w a b = (if b = 0 then 2 ^ w - 1 else a div b)"
    and bin_sdiv: "bv_range w a \<Longrightarrow> bv_range w b \<Longrightarrow> b \<noteq> 0 \<Longrightarrow>
      bin BSdiv w a b = take_bit w (sgn_val w a sdiv sgn_val w b)"
    and bin_sdiv_0: "bv_range w a \<Longrightarrow>
      bin BSdiv w a 0 = take_bit w (if sgn_val w a < 0 then 1 else - 1)"
    and bin_smod: "bv_range w a \<Longrightarrow> bv_range w b \<Longrightarrow>
      bin BSmod w a b = (if b = 0 then a else take_bit w (sgn_val w a mod sgn_val w b))"
    and prd_u: "bv_range w a \<Longrightarrow> bv_range w b \<Longrightarrow>
      prd CUge w a b = (b \<le> a) \<and> prd CUgt w a b = (b < a) \<and>
      prd CUle w a b = (a \<le> b) \<and> prd CUlt w a b = (a < b)"
    and prd_s: "bv_range w a \<Longrightarrow> bv_range w b \<Longrightarrow>
      prd CSge w a b = (sgn_val w b \<le> sgn_val w a) \<and> prd CSgt w a b = (sgn_val w b < sgn_val w a) \<and>
      prd CSle w a b = (sgn_val w a \<le> sgn_val w b) \<and> prd CSlt w a b = (sgn_val w a < sgn_val w b)"

section \<open>Ranges\<close>

lemma div_le_self_int: "0 \<le> (a::int) \<Longrightarrow> 0 < b \<Longrightarrow> a div b \<le> a"
  using zdiv_mono2 [of a 1 b] by simp

lemma take_bit_range: "bv_range w (take_bit w (a::int))"
  by (simp add: take_bit_int_less_exp)

lemma mod_range: "bv_range w ((a::int) mod 2 ^ w)"
  by simp

lemma concat_range: "bv_range k (a::int) \<Longrightarrow> bv_range n b \<Longrightarrow> bv_range (k + n) (a * 2 ^ n + b)"
proof
  assume a: "bv_range k a" and b: "bv_range n b"
  then show "0 \<le> a * 2 ^ n + b" by simp
  have "a * 2 ^ n + b < (a + 1) * 2 ^ n" using b by (simp add: algebra_simps)
  also have "\<dots> \<le> 2 ^ k * 2 ^ n" using a by (intro mult_right_mono) auto
  finally show "a * 2 ^ n + b < 2 ^ (k + n)" by (simp add: power_add)
qed

lemma ws_pos: "ws t \<Longrightarrow> 0 < bv_size t"
proof (induction t rule: bv_size.induct)
  case (3 f t)
  then show ?case by (cases f) auto
qed auto

lemma pexpr_Inr [simp]: "pexpr pm k = Inr t \<longleftrightarrow> map_of pm k = Some t"
  by (simp add: pexpr_def of_opt_eq_Inr)

lemma pexpr_Some: "map_of pm k = Some t \<Longrightarrow> pexpr pm k = Inr t"
  by simp

lemma sgn_val_small: "bv_range w a \<Longrightarrow> 0 < w \<Longrightarrow> a < 2 ^ (w - 1) \<Longrightarrow> sgn_val w a = a"
  by (simp add: sgn_val_def signed_take_bit_int_eq_self)

lemma sgn_val_cases:
  assumes "bv_range w a" "0 < w"
  shows "sgn_val w a = (if a < 2 ^ (w - 1) then a else a - 2 ^ w)"
proof -
  obtain k where k: "w = Suc k" using assms(2) by (cases w) auto
  have "signed_take_bit k a = a - 2 ^ w" if "\<not> a < 2 ^ k"
  proof -
    have "a div 2 ^ k = 1"
      using that assms k by (intro int_div_pos_eq [of a "2 ^ k" 1 "a - 2 ^ k"]) auto
    then have "bit a k" by (simp add: bit_iff_odd)
    with assms k show ?thesis
      by (simp add: signed_take_bit_eq_take_bit_minus take_bit_int_eq_self)
  qed
  then show ?thesis using k sgn_val_small [OF assms] by (auto simp: sgn_val_def)
qed

context smt_bv
begin

lemma un_range:
  assumes "bv_range w a" "un_ok f w" "0 < w"
  shows "bv_range (un_size f w) (un f w a)"
proof (cases f)
  case (Zext k)
  have "a < 2 ^ w" using assms by simp
  also have "(2::int) ^ w \<le> 2 ^ (w + k)" by (rule power_increasing) auto
  finally show ?thesis using assms Zext by (simp add: un_zext)
next
  case (Sext k)
  with assms un_sext show ?thesis by (simp add: take_bit_int_less_exp)
next
  case (Extract hi lo)
  with assms un_extract show ?thesis by (simp add: take_bit_int_less_exp)
qed (use assms in \<open>auto simp: un_not un_redor un_redand\<close>)

lemma bin_range:
  assumes "bv_range w a" "bv_range w b"
  shows "bv_range w (bin f w a b)"
proof (cases f)
  case BUdiv
  have "a div b \<le> a" if "b \<noteq> 0"
    using assms that by (intro div_le_self_int) auto
  then show ?thesis
    using BUdiv assms by (auto simp: bin_udiv pos_imp_zdiv_nonneg_iff intro: order.strict_trans1)
next
  case BSdiv
  then show ?thesis
    using assms by (cases "b = 0") (simp_all add: bin_sdiv bin_sdiv_0 take_bit_int_less_exp)
next
  case BSmod
  then show ?thesis using assms by (simp add: bin_smod take_bit_int_less_exp)
next
  case BAnd
  then show ?thesis using assms AND_upper1 [of a b] by (auto simp: bin_and)
next
  case BOr
  then show ?thesis using assms OR_upper [of a w b] by (auto simp: bin_or)
next
  case BXor
  then show ?thesis using assms XOR_upper [of a w b] by (auto simp: bin_xor)
next
  case BLshr
  have "drop_bit (nat b) a \<le> a"
    using assms by (simp add: drop_bit_eq_div div_le_self_int)
  then show ?thesis using BLshr assms by (auto simp: bin_lshr drop_bit_nonnegative_int_iff)
qed (use assms in \<open>simp_all add: bin_add bin_sub bin_mul bin_shl bin_ashr take_bit_int_less_exp\<close>)

text \<open>Every well-sorted term denotes a bit vector of its width.\<close>

lemma ev_range: "ws t \<Longrightarrow> bv_range (bv_size t) (eval un bin prd m t)"
proof (induction t rule: ws_wf_form.induct(1) [where Q = "\<lambda>_. True"])
  case (3 f t)
  then show ?case using un_range [where w = "bv_size t" and f = f] ws_pos [of t] by simp
next
  case (4 f a b)
  then show ?case using bin_range [where w = "bv_size a" and f = f] by simp
next
  case (6 a b)
  then show ?case by (simp add: concat_range)
qed (simp_all add: take_bit_int_less_exp)

lemmas ev_ge = ev_range [THEN conjunct1] and ev_lt = ev_range [THEN conjunct2]

lemma holds_eq_num:
  "bv_range (bv_size t) i \<Longrightarrow>
   holds un bin prd m (eq_num t i) \<longleftrightarrow> eval un bin prd m t = i"
  by (simp add: eq_num_def take_bit_int_eq_self)

lemma holds_ne_num:
  "bv_range (bv_size t) i \<Longrightarrow>
   holds un bin prd m (ne_num t i) \<longleftrightarrow> eval un bin prd m t \<noteq> i"
  by (simp add: ne_num_def take_bit_int_eq_self)

end

lemma wf_eq_num [simp]: "ws t \<Longrightarrow> wf_form (eq_num t i)" "ws t \<Longrightarrow> wf_form (ne_num t i)"
  by (simp_all add: eq_num_def ne_num_def ws_pos)

section \<open>The standard interpretation\<close>

fun std_un :: "unop \<Rightarrow> nat \<Rightarrow> int \<Rightarrow> int" where
  "std_un UNot w a = 2 ^ w - 1 - a"
| "std_un (Zext k) w a = a"
| "std_un (Sext k) w a = take_bit (w + k) (sgn_val w a)"
| "std_un (Extract hi lo) w a = take_bit (hi + 1 - lo) (drop_bit lo a)"
| "std_un RedOr w a = of_bool (a \<noteq> 0)"
| "std_un RedAnd w a = of_bool (a = 2 ^ w - 1)"

fun std_bin :: "binop \<Rightarrow> nat \<Rightarrow> int \<Rightarrow> int \<Rightarrow> int" where
  "std_bin BAdd w a b = (a + b) mod 2 ^ w"
| "std_bin BSub w a b = (a - b) mod 2 ^ w"
| "std_bin BMul w a b = (a * b) mod 2 ^ w"
| "std_bin BUdiv w a b = (if b = 0 then 2 ^ w - 1 else a div b)"
| "std_bin BSdiv w a b =
     take_bit w (if b = 0 then (if sgn_val w a < 0 then 1 else - 1)
                 else sgn_val w a sdiv sgn_val w b)"
| "std_bin BSmod w a b = (if b = 0 then a else take_bit w (sgn_val w a mod sgn_val w b))"
| "std_bin BAnd w a b = a AND b"
| "std_bin BOr w a b = a OR b"
| "std_bin BXor w a b = a XOR b"
| "std_bin BShl w a b = take_bit w (push_bit (nat b) a)"
| "std_bin BLshr w a b = drop_bit (nat b) a"
| "std_bin BAshr w a b = take_bit w (drop_bit (nat b) (sgn_val w a))"

fun std_prd :: "cmp \<Rightarrow> nat \<Rightarrow> int \<Rightarrow> int \<Rightarrow> bool" where
  "std_prd CUge w a b = (b \<le> a)"
| "std_prd CUgt w a b = (b < a)"
| "std_prd CUle w a b = (a \<le> b)"
| "std_prd CUlt w a b = (a < b)"
| "std_prd CSge w a b = (sgn_val w b \<le> sgn_val w a)"
| "std_prd CSgt w a b = (sgn_val w b < sgn_val w a)"
| "std_prd CSle w a b = (sgn_val w a \<le> sgn_val w b)"
| "std_prd CSlt w a b = (sgn_val w a < sgn_val w b)"

interpretation std: smt_bv std_un std_bin std_prd
  by unfold_locales auto

end
