(* ===== verification/Gates.thy ===== *)
theory Gates
  imports Smt
begin

text \<open>
  The combinational gates (\<open>include/ducode/cell/basic_gate.hpp\<close>, \<open>and.hpp\<close>, \<open>or.hpp\<close>, \<open>xor.hpp\<close>,
  \<open>xnor.hpp\<close>, \<open>logic_and.hpp\<close>, \<open>logic_or.hpp\<close>, \<open>reduce_*.hpp\<close>). A gate is a cell together with
  its class; the virtual functions of the classes are functions by cases on the class.
\<close>

section \<open>Classes and construction\<close>

datatype gate_class =
    GUnary | GBinary
  | GAnd | GOr | GXor | GXnor | GLogicAnd | GLogicOr
  | GReduceAnd | GReduceOr | GReduceXor | GReduceXnor

fun is_unary :: "gate_class \<Rightarrow> bool" where
  "is_unary k = (k \<in> {GUnary, GReduceAnd, GReduceOr, GReduceXor, GReduceXnor})"

definition mk_gate ::
  "string \<Rightarrow> string \<Rightarrow> port list \<Rightarrow> bool \<Rightarrow> json \<Rightarrow> json \<Rightarrow> cell res"
where
  "mk_gate name type ports hidden parameters attributes =
     chk (length (filter (\<lambda>p. pt_direction p = Output) ports) = 1) Assertion
       (Inr (mk_cell name type ports hidden parameters attributes))"

section \<open>Operators\<close>

definition unary_operator :: "string \<Rightarrow> string res" where
  "unary_operator t =
     (if t = ''$logic_not'' then Inr ''!''
      else if t = ''$not'' then Inr ''~''
      else if t = ''$pos'' then Inr ''''
      else if t = ''$neg'' then Inr ''-''
      else Inl (RuntimeError ''Unknown type.''))"

definition binary_operator :: "string \<Rightarrow> string res" where
  "binary_operator t =
     (if t = ''$add'' then Inr ''+''
      else if t = ''$sub'' then Inr ''-''
      else if t = ''$mul'' then Inr ''*''
      else if t = ''$div'' then Inr ''/''
      else if t = ''$eq'' then Inr ''==''
      else if t = ''$eqx'' then Inr ''===''
      else if t = ''$ge'' then Inr ''>=''
      else if t = ''$gt'' then Inr ''>''
      else if t = ''$le'' then Inr ''<=''
      else if t = ''$lt'' then Inr ''<''
      else if t = ''$mod'' then Inr ''%''
      else if t = ''$ne'' then Inr ''!=''
      else if t = ''$nex'' then Inr ''!==''
      else if t = ''$pow'' then Inr ''**''
      else if t = ''$shl'' then Inr ''<<''
      else if t = ''$shr'' then Inr ''>>''
      else if t = ''$sshl'' then Inr ''<<<''
      else if t = ''$sshr'' then Inr ''>>>''
      else Inl (RuntimeError ''Unknown type.''))"

fun get_verilog_operator :: "gate_class \<Rightarrow> string \<Rightarrow> string res" where
  "get_verilog_operator GUnary t = unary_operator t"
| "get_verilog_operator GBinary t = binary_operator t"
| "get_verilog_operator GAnd t = Inr ''&''"
| "get_verilog_operator GOr t = Inr ''|''"
| "get_verilog_operator GXor t = Inr ''^''"
| "get_verilog_operator GXnor t = Inr ''~^''"
| "get_verilog_operator GLogicAnd t = Inr ''&&''"
| "get_verilog_operator GLogicOr t = Inr ''||''"
| "get_verilog_operator GReduceAnd t = Inr ''&''"
| "get_verilog_operator GReduceOr t = Inr ''|''"
| "get_verilog_operator GReduceXor t = Inr ''^''"
| "get_verilog_operator GReduceXnor t = Inr ''~^''"

section \<open>The tag assignments\<close>

definition ift_unary :: "string \<Rightarrow> string list \<Rightarrow> string res" where
  "ift_unary y ps =
     chk (y \<noteq> []) Assertion (chk (length ps = 1) Assertion
       (Inr (fmt ''assign {}{} = {}{} ;\<newline>'' [y, ift_tag, ps ! 0, ift_tag])))"

definition ift_binary :: "string \<Rightarrow> string list \<Rightarrow> string res" where
  "ift_binary y ps =
     chk (y \<noteq> []) Assertion (chk (length ps = 2) Assertion
       (Inr (fmt ''assign {}{} = {}{} | {}{} ;\<newline>''
          [y, ift_tag, ps ! 0, ift_tag, ps ! 1, ift_tag])))"

text \<open>The arguments of the format string of \<open>and.hpp\<close> have names; here they are in its order.\<close>

definition ift_and :: "string \<Rightarrow> string list \<Rightarrow> string res" where
  "ift_and y ps =
     chk (y \<noteq> []) Assertion (chk (length ps = 2) Assertion
       (let a = ps ! 0; b = ps ! 1 in
        Inr (fmt ''assign {}{} = (^{} === 1'bx ? 0 : ({} > 0 ? {}{} : 0)) | (^{} === 1'bx ? 0 : ({} > 0 ? {}{} : 0)) | ({}{} & {}{});\<newline>''
          [y, ift_tag, a, a, b, ift_tag, b, b, a, ift_tag, a, ift_tag, b, ift_tag])))"

definition ift_or :: "string \<Rightarrow> string list \<Rightarrow> string res" where
  "ift_or y ps =
     chk (y \<noteq> []) Assertion (chk (length ps = 2) Assertion
       (Inr (fmt ''assign {}{} = (^{} === 1'bx ? 0 : ({} == 0 ? {}{} : 0)) | (^{} === 1'bx ? 0 : ({} == 0 ? {}{} : 0)) | ({}{} & {}{}) ;\<newline>''
          [y, ift_tag, ps ! 0, ps ! 0, ps ! 1, ift_tag, ps ! 1, ps ! 1, ps ! 0, ift_tag,
           ps ! 0, ift_tag, ps ! 1, ift_tag])))"

definition ift_logic_and :: "string \<Rightarrow> string list \<Rightarrow> string res" where
  "ift_logic_and y ps =
     chk (y \<noteq> []) Assertion (chk (length ps = 2) Assertion
       (Inr (fmt ''assign {}{} = (^{} === 1'bx ? 0 : ({} > 0 ? {}{} : 0)) | (^{} === 1'bx ? 0 : ({} > 0 ? {}{} : 0)) | ({}{} & {}{});\<newline>''
          [y, ift_tag, ps ! 0, ps ! 0, ps ! 1, ift_tag, ps ! 1, ps ! 1, ps ! 0, ift_tag,
           ps ! 0, ift_tag, ps ! 1, ift_tag])))"

definition ift_logic_or :: "string \<Rightarrow> string list \<Rightarrow> string res" where
  "ift_logic_or y ps =
     chk (y \<noteq> []) Contract (chk (length ps = 2) Contract
       (Inr (fmt ''assign {}{} = (^{} === 1'bx ? 0 : ({} == 0 ? {}{} : 0)) | (^{} === 1'bx ? 0 : ({} == 0 ? {}{} : 0)) | ({}{} & {}{}) ;\<newline>''
          [y, ift_tag, ps ! 0, ps ! 0, ps ! 1, ift_tag, ps ! 1, ps ! 1, ps ! 0, ift_tag,
           ps ! 0, ift_tag, ps ! 1, ift_tag])))"

fun ift_assignment :: "gate_class \<Rightarrow> string \<Rightarrow> string list \<Rightarrow> string res" where
  "ift_assignment GAnd y ps = ift_and y ps"
| "ift_assignment GOr y ps = ift_or y ps"
| "ift_assignment GLogicAnd y ps = ift_logic_and y ps"
| "ift_assignment GLogicOr y ps = ift_logic_or y ps"
| "ift_assignment k y ps = (if is_unary k then ift_unary y ps else ift_binary y ps)"

section \<open>Verilog export\<close>

definition gate_export_verilog :: "gate_class \<Rightarrow> params \<Rightarrow> cell \<Rightarrow> string list res" where
  "gate_export_verilog k ps c =
     bnd (of_opt Assertion (p_ift ps)) (\<lambda>ift.
     bnd (bind_ports Assertion ''Y'' [''A'', ''B''] (p_idmap ps) (c_ports c)) (\<lambda>env.
     let y = env ''Y''; a = env ''A''; b = env ''B'' in
     if length (c_ports c) = 2 then
       bnd (get_verilog_operator k (c_type c)) (\<lambda>oper.
       bnd (if ift then bnd (ift_assignment k y [a]) (\<lambda>t. Inr [t]) else Inr []) (\<lambda>tags.
       Inr ([fmt ''  assign {} = {}{};\<newline>'' [y, oper, a]] @ tags)))
     else if length (c_ports c) = 3 then
       bnd (get_verilog_operator k (c_type c)) (\<lambda>oper.
       bnd (if ift then bnd (ift_assignment k y [a, b]) (\<lambda>t. Inr [t]) else Inr []) (\<lambda>tags.
       Inr ([fmt ''  assign {} = {} {} {};\<newline>'' [y, a, oper, b]] @ tags)))
     else Inl (RuntimeError ''more than 3 ports in a basic gate'')))"

section \<open>Assertions for the solver\<close>

text \<open>A parameter such as \<open>A_SIGNED\<close>: a number, or a string of binary digits.\<close>

definition sign_param :: "json \<Rightarrow> string \<Rightarrow> bool res" where
  "sign_param parameters key =
     bnd (jindex parameters key) (\<lambda>jsign.
     bnd (if is_number_integer jsign then get_int jsign
          else bnd (get_string jsign) (stoi 2)) (\<lambda>sign.
     chk (sign = 0 \<or> sign = 1) Contract (Inr (sign \<noteq> 0))))"

definition extend_to :: "bool \<Rightarrow> nat \<Rightarrow> bv \<Rightarrow> bv" where
  "extend_to sgd n t =
     (if bv_size t < n
      then Uop (if sgd then Sext (n - bv_size t) else Zext (n - bv_size t)) t
      else t)"

definition bool_ite :: "form \<Rightarrow> nat \<Rightarrow> bv" where
  "bool_ite c n = Ite c (BVal 1 n) (BVal 0 n)"

definition unary_assertion :: "string \<Rightarrow> bv \<Rightarrow> bv \<Rightarrow> form res" where
  "unary_assertion t input1 output =
     (if t = ''$logic_not'' then Inr (FEq output (bool_ite (eq_num input1 0) 1))
      else if t = ''$not'' then Inr (FEq output (Uop UNot input1))
      else if t = ''$pos'' then
        (if bv_size input1 < bv_size output
         then Inr (FEq output (Uop (Zext (bv_size output - bv_size input1)) input1))
         else Inr (FEq output input1))
      else if t = ''$neg'' then
        Inr (FEq output (Bop BAdd (Uop UNot input1) (BVal 1 (bv_size input1))))
      else Inl (RuntimeError ''Unknown type.''))"

text \<open>The addition of all bits of the input that \<open>reduce_xor.hpp\<close> builds for a wide output.\<close>

definition bit_sum :: "bv \<Rightarrow> bv \<Rightarrow> bv" where
  "bit_sum input1 output = ArithAdd (map (\<lambda>i. Uop (Extract i i) input1) [0..<bv_size output])"

fun get_cell_assertion_unary :: "gate_class \<Rightarrow> cell \<Rightarrow> bv \<Rightarrow> bv \<Rightarrow> form res" where
  "get_cell_assertion_unary GUnary c input1 output = unary_assertion (c_type c) input1 output"
| "get_cell_assertion_unary GReduceAnd c input1 output = Inr (FEq output (Uop RedAnd input1))"
| "get_cell_assertion_unary GReduceOr c input1 output = Inr (FEq output (Uop RedOr input1))"
| "get_cell_assertion_unary GReduceXor c input1 output =
     (if bv_size output = 1 then Inr (FEq output input1)
      else Inr (FEq output (bit_sum input1 output)))"
| "get_cell_assertion_unary GReduceXnor c input1 output =
     (if bv_size output = 1 then Inr (FNe output input1)
      else Inr (FNe output (bit_sum input1 output)))"
| "get_cell_assertion_unary _ c input1 output = Inl (RuntimeError ''Not implemented'')"

definition mixed_signs :: "bool \<Rightarrow> bool \<Rightarrow> bool" where
  "mixed_signs sa sb = ((\<not> sa \<and> sb) \<or> (sa \<and> \<not> sb))"

definition ordering_assertion ::
  "bool \<Rightarrow> bool \<Rightarrow> cmp \<Rightarrow> cmp \<Rightarrow> bv \<Rightarrow> bv \<Rightarrow> bv \<Rightarrow> form res"
where
  "ordering_assertion sa sb signed_cmp unsigned_cmp a b output =
     (if mixed_signs sa sb
      then Inl (RuntimeError ''ge operation needs either two signed or two unsigned bitvectors!'')
      else Inr (FEq output
             (bool_ite (FCmp (if sa \<and> sb then signed_cmp else unsigned_cmp) a b) (bv_size output))))"

text \<open>
  \<open>CellBasicGateBinary::get_cell_assertion_binary\<close> after the signs are known: inputs and output
  are extended to the largest of the three widths, then the type selects the operator.
\<close>

definition binary_assertion :: "string \<Rightarrow> bool \<Rightarrow> bool \<Rightarrow> bv \<Rightarrow> bv \<Rightarrow> bv \<Rightarrow> form res" where
  "binary_assertion t sa sb input1 input2 output =
     (let size = bv_size output;
          largest = max (bv_size input1) (max (bv_size input2) size);
          a = extend_to sa largest input1;
          b = extend_to sb largest input2;
          y = extend_to (sa \<and> sb) largest output
      in if t = ''$xor'' then Inr (FEq y (Bop BXor a b))
         else if t = ''$xnor'' then Inr (FEq y (Uop UNot (Bop BXor a b)))
         else if t = ''$add'' then Inr (FEq y (Bop BAdd a b))
         else if t = ''$sub'' then Inr (FEq y (Bop BSub a b))
         else if t = ''$mul'' then Inr (FEq y (Bop BMul a b))
         else if t = ''$div'' then
           (if mixed_signs sa sb
            then Inl (RuntimeError ''ge operation needs either two signed or two unsigned bitvectors!'')
            else Inr (FEq output (Bop (if sa \<and> sb then BSdiv else BUdiv) a b)))
         else if t = ''$eq'' then Inr (FEq output (bool_ite (FEq a b) size))
         else if t = ''$eqx'' then Inr (FEq output (bool_ite (FEq a b) size))
         else if t = ''$ge'' then ordering_assertion sa sb CSge CUge a b output
         else if t = ''$gt'' then ordering_assertion sa sb CSgt CUgt a b output
         else if t = ''$le'' then ordering_assertion sa sb CSle CUle a b output
         else if t = ''$lt'' then ordering_assertion sa sb CSlt CUlt a b output
         else if t = ''$mod'' then
           (if \<not> (sa \<and> sb)
            then Inr (FEq output (Uop (Extract (largest - 1) 0)
                   (Bop BSmod (Uop (Zext 1) a) (Uop (Zext 1) b))))
            else Inr (FEq output (Bop BSmod a b)))
         else if t = ''$ne'' then Inr (FEq output (bool_ite (FNe a b) size))
         else if t = ''$nex'' then Inr (FEq output (bool_ite (FNe a b) size))
         else if t = ''$pow'' then
           Inl (RuntimeError ''power operation not supported on bit vector expressions!'')
         else if t = ''$shl'' then Inr (FEq output (Bop BShl a b))
         else if t = ''$shr'' then Inr (FEq output (Bop BLshr a b))
         else if t = ''$sshl'' then Inr (FEq output (Bop BShl a b))
         else if t = ''$sshr'' then
           (if largest = 1
            then Inr (FEq output (Uop (Extract 0 0)
                   (Bop BAshr
                     (Uop (if sa then Sext (2 - bv_size input1) else Zext (2 - bv_size input1)) input1)
                     (Uop (if sb then Sext (2 - bv_size input2) else Zext (2 - bv_size input2)) input2))))
            else if \<not> (sa \<and> sb) then Inr (FEq output (Bop BLshr a b))
            else Inr (FEq output (Bop BAshr a b)))
         else Inl (RuntimeError ''Unknown type.''))"

text \<open>\<open>CellOr\<close> extends to the larger of the inputs only.\<close>

definition or_assertion :: "bool \<Rightarrow> bool \<Rightarrow> bv \<Rightarrow> bv \<Rightarrow> bv \<Rightarrow> form" where
  "or_assertion sa sb input1 input2 output =
     (let largest = (if bv_size input1 < bv_size input2 then bv_size input2 else bv_size input1);
          a = Uop (if sa then Sext (largest - bv_size input1) else Zext (largest - bv_size input1)) input1;
          b = Uop (if sb then Sext (largest - bv_size input2) else Zext (largest - bv_size input2)) input2
      in FEq output (Bop BOr a b))"

fun get_cell_assertion_binary :: "gate_class \<Rightarrow> cell \<Rightarrow> bv \<Rightarrow> bv \<Rightarrow> bv \<Rightarrow> form res" where
  "get_cell_assertion_binary GAnd c input1 input2 output =
     Inr (FEq output (Bop BAnd input1 input2))"
| "get_cell_assertion_binary GOr c input1 input2 output =
     bnd (sign_param (c_parameters c) ''A_SIGNED'') (\<lambda>sa.
     bnd (sign_param (c_parameters c) ''B_SIGNED'') (\<lambda>sb.
     Inr (or_assertion sa sb input1 input2 output)))"
| "get_cell_assertion_binary GLogicAnd c input1 input2 output =
     Inr (FEq output (bool_ite (FAnd (ne_num input1 0) (ne_num input2 0)) (bv_size output)))"
| "get_cell_assertion_binary GLogicOr c input1 input2 output =
     Inr (FEq output (bool_ite (FOr (ne_num input1 0) (ne_num input2 0)) (bv_size output)))"
| "get_cell_assertion_binary k c input1 input2 output =
     (if is_unary k then Inl (RuntimeError ''Not implemented'')
      else
        bnd (sign_param (c_parameters c) ''A_SIGNED'') (\<lambda>sa.
        bnd (sign_param (c_parameters c) ''B_SIGNED'') (\<lambda>sb.
        binary_assertion (c_type c) sa sb input1 input2 output)))"

text \<open>\<open>CellAnd\<close> overrides \<open>export_smt2\<close> itself, for gates of any number of ports.\<close>

definition gate_export_smt2 :: "gate_class \<Rightarrow> cell \<Rightarrow> port_exprs \<Rightarrow> solver \<Rightarrow> solver res" where
  "gate_export_smt2 k c pm s =
     chk (length pm \<le> 3) Assertion
       (if k = GAnd then
          bnd (pexpr pm ''Y'') (\<lambda>y. bnd (pexpr pm ''A'') (\<lambda>a. bnd (pexpr pm ''B'') (\<lambda>b.
          solver_add (FEq y (Bop BAnd a b)) s)))
        else if length (c_ports c) = 2 then
          bnd (pexpr pm ''A'') (\<lambda>a. bnd (pexpr pm ''Y'') (\<lambda>y.
          bnd (get_cell_assertion_unary k c a y) (\<lambda>f. solver_add f s)))
        else if length (c_ports c) = 3 then
          bnd (pexpr pm ''A'') (\<lambda>a. bnd (pexpr pm ''B'') (\<lambda>b. bnd (pexpr pm ''Y'') (\<lambda>y.
          bnd (get_cell_assertion_binary k c a b y) (\<lambda>f. solver_add f s))))
        else Inl (RuntimeError ''more than 3 ports in a basic gate''))"

end
