(* ===== verification/Registers.thy ===== *)
theory Registers
  imports Gates
begin

text \<open>
  The flip-flops and latches (\<open>include/ducode/cell/basic_dff.hpp\<close>, \<open>dff.hpp\<close>, \<open>adff.hpp\<close>,
  \<open>dffe.hpp\<close>, \<open>sdff.hpp\<close>, \<open>sdffe.hpp\<close>, \<open>adffe.hpp\<close>, \<open>aldff.hpp\<close>, \<open>aldffe.hpp\<close>, \<open>dffsr.hpp\<close>,
  \<open>dffsre.hpp\<close>, \<open>dlatch.hpp\<close>, \<open>dlatchsr.hpp\<close>, \<open>adlatch.hpp\<close>, \<open>sr.hpp\<close>). A class is a record that
  extends the record of its base class; its constructor, its Verilog export (the list of the
  insertions into the result) and its assertion for the solver are one definition each.
\<close>

section \<open>Shared parts\<close>

text \<open>The assertions of a constructor on the names and directions of the ports.\<close>

definition ports_are :: "(string \<times> direction) list \<Rightarrow> port list \<Rightarrow> bool" where
  "ports_are shape ports = (map (\<lambda>p. (pt_name p, pt_direction p)) ports = shape)"

definition port_width :: "port list \<Rightarrow> nat \<Rightarrow> nat" where
  "port_width ports i = length (pt_bits (ports ! i))"

definition string_param :: "json \<Rightarrow> string \<Rightarrow> string res" where
  "string_param parameters key = bnd (jat parameters key) get_string"

text \<open>\<open>std::stoull(parameters.at(key).get<std::string>(), nullptr, 2)\<close>.\<close>

definition binary_param :: "json \<Rightarrow> string \<Rightarrow> 64 word res" where
  "binary_param parameters key = bnd (string_param parameters key) (stoull 2)"

definition polarity_param :: "json \<Rightarrow> string \<Rightarrow> bool res" where
  "polarity_param parameters key = bnd (binary_param parameters key) (\<lambda>v. Inr (v \<noteq> 0))"

definition edge :: "bool \<Rightarrow> string" where
  "edge pos = (if pos then ''posedge'' else ''negedge'')"

definition neg :: "bool \<Rightarrow> string" where
  "neg high = (if high then '''' else ''!'')"

text \<open>\<open>gsl::narrow<uint32_t>\<close>.\<close>

definition narrow32 :: "64 word \<Rightarrow> nat res" where
  "narrow32 w = (if unat w < 2 ^ 32 then Inr (unat w) else Inl NarrowingError)"

text \<open>
  The constant for a reset value: a value with undefined digits becomes an unconstrained
  constant of that name, any other is read as a number by \<open>read\<close>.
\<close>

definition reset_expr :: "(string \<Rightarrow> int res) \<Rightarrow> string \<Rightarrow> 64 word \<Rightarrow> bv res" where
  "reset_expr read value width =
     (if str_contains value ''x'' \<or> str_contains value ''z''
      then bnd (narrow32 width) (\<lambda>w. Inr (BVar value w))
      else bnd (read value) (\<lambda>v. bnd (narrow32 width) (\<lambda>w. Inr (BVal v w))))"

definition stoul2 :: "string \<Rightarrow> int res" where
  "stoul2 s = bnd (stoull 2 s) (\<lambda>v. Inr (uint v))"

text \<open>The comparison of a control signal with its active level.\<close>

definition active :: "bv \<Rightarrow> bool \<Rightarrow> form" where
  "active t high = (if high then eq_num t 1 else eq_num t 0)"

section \<open>Base class\<close>

record basic_dff = cell +
  clk_pos_edge :: bool
  width :: "64 word"

definition mk_basic_dff ::
  "string \<Rightarrow> string \<Rightarrow> port list \<Rightarrow> bool \<Rightarrow> json \<Rightarrow> json \<Rightarrow> basic_dff res"
where
  "mk_basic_dff name type ports hidden parameters attributes =
     bnd (polarity_param parameters ''CLK_POLARITY'') (\<lambda>clk_pos.
     bnd (binary_param parameters ''WIDTH'') (\<lambda>w.
     Inr (cell.extend ((mk_cell name type ports hidden parameters attributes)\<lparr>c_register := True\<rparr>)
            (basic_dff.fields clk_pos w))))"

section \<open>Flip-flop without reset\<close>

definition mk_dff :: "string \<Rightarrow> string \<Rightarrow> port list \<Rightarrow> bool \<Rightarrow> json \<Rightarrow> json \<Rightarrow> basic_dff res" where
  "mk_dff name type ports hidden parameters attributes =
     bnd (mk_basic_dff name type ports hidden parameters attributes) (\<lambda>b.
     chk (ports_are [(''CLK'', Input), (''D'', Input), (''Q'', Output)] ports \<and>
          port_width ports 0 = 1 \<and> port_width ports 1 = port_width ports 2) Assertion (Inr b))"

definition dff_export_verilog :: "params \<Rightarrow> basic_dff \<Rightarrow> string list res" where
  "dff_export_verilog ps c =
     chk (length (c_ports c) = 3) Assertion (
     bnd (of_opt Assertion (p_ift ps)) (\<lambda>ift.
     bnd (bind_ports Contract ''Q'' [''D'', ''CLK''] (p_idmap ps) (c_ports c)) (\<lambda>env.
     let clk = env ''CLK''; d = env ''D''; q = env ''Q''; clk_edge = edge (clk_pos_edge c) in
     Inr ([fmt ''  always @({} {}) begin\<newline>'' [clk_edge, clk],
             fmt ''      {} <= {};\<newline>'' [q, d]]
          @ only ift
            [fmt ''      {}{} <= {}{};\<newline>'' [q, ift_tag, d, ift_tag]]
          @ [''  end\<newline>\<newline>'']))))"

text \<open>The label of the tracked assertion, made of the printed expressions, is left out.\<close>

definition dff_export_smt2 :: "basic_dff \<Rightarrow> port_exprs \<Rightarrow> solver \<Rightarrow> solver res" where
  "dff_export_smt2 c pm s =
     chk (length pm \<le> 3) Assertion (
     bnd (pexpr pm ''Q'') (\<lambda>q. bnd (pexpr pm ''D'') (\<lambda>d.
     solver_add (FEq q d) s)))"

section \<open>Asynchronous reset\<close>

record adff = basic_dff +
  arst_active_high :: bool
  arst_value :: string

definition mk_adff :: "string \<Rightarrow> string \<Rightarrow> port list \<Rightarrow> bool \<Rightarrow> json \<Rightarrow> json \<Rightarrow> adff res" where
  "mk_adff name type ports hidden parameters attributes =
     bnd (mk_basic_dff name type ports hidden parameters attributes) (\<lambda>b.
     chk (ports_are [(''ARST'', Input), (''CLK'', Input), (''D'', Input), (''Q'', Output)] ports \<and>
          port_width ports 0 = port_width ports 1 \<and> port_width ports 2 = port_width ports 3) Assertion (
     bnd (polarity_param parameters ''CLK_POLARITY'') (\<lambda>clk_pos.
     bnd (polarity_param parameters ''ARST_POLARITY'') (\<lambda>high.
     bnd (string_param parameters ''ARST_VALUE'') (\<lambda>v.
     Inr (basic_dff.extend (b\<lparr>clk_pos_edge := clk_pos\<rparr>) (adff.fields high v)))))))"

definition adff_export_verilog :: "params \<Rightarrow> adff \<Rightarrow> string list res" where
  "adff_export_verilog ps c =
     bnd (of_opt Assertion (p_ift ps)) (\<lambda>ift.
     bnd (bind_ports Assertion ''Q'' [''CLK'', ''D'', ''ARST''] (p_idmap ps) (c_ports c)) (\<lambda>env.
     let clk = env ''CLK''; d = env ''D''; q = env ''Q''; arst = env ''ARST'';
         clk_edge = edge (clk_pos_edge c);
         arst_edge = edge (adff.arst_active_high c);
         neg = neg (adff.arst_active_high c) in
     Inr ([fmt ''  always @({} {}, {} {}) begin\<newline>''
               [clk_edge, clk, arst_edge, arst],
             fmt ''      if ({}{}) begin\<newline>'' [neg, arst],
             fmt ''          {} <= {}'b{};\<newline>''
               [q, show_word (width c), adff.arst_value c]]
          @ only ift
            [fmt ''          {}{} <= (^{} === 1'bx) ? 0 : (({} == {}'b{}) ? ({}{} | {}{}) : {}{});\<newline>''
               [q, ift_tag, d, d, show_word (width c), adff.arst_value c, d, ift_tag, arst, ift_tag, arst, ift_tag]]
          @ [''      end else begin\<newline>'',
             fmt ''          {} <= {};\<newline>'' [q, d]]
          @ only ift
            [fmt ''          {}{} <= (^{} === 1'bx) ? 0 : (({} == {}'b{}) ? ({}{} | {}{}) : {}{});\<newline>''
               [q, ift_tag, d, d, show_word (width c), adff.arst_value c, d, ift_tag, arst, ift_tag, d, ift_tag]]
          @ [''       end\<newline>'',
             ''  end\<newline>\<newline>''])))"

definition adff_export_smt2 :: "adff \<Rightarrow> port_exprs \<Rightarrow> solver \<Rightarrow> solver res" where
  "adff_export_smt2 c pm s =
     chk (length pm \<le> 4) Assertion (
     bnd (reset_expr stoul2 (adff.arst_value c) (width c)) (\<lambda>arst_val.
     bnd (pexpr pm ''Q'') (\<lambda>q. bnd (pexpr pm ''ARST'') (\<lambda>arst. bnd (pexpr pm ''D'') (\<lambda>d.
     solver_add (FEq q (Ite (active arst (adff.arst_active_high c)) arst_val d)) s)))))"

section \<open>Enable\<close>

record dffe = basic_dff +
  en_active_high :: bool

definition mk_dffe :: "string \<Rightarrow> string \<Rightarrow> port list \<Rightarrow> bool \<Rightarrow> json \<Rightarrow> json \<Rightarrow> dffe res" where
  "mk_dffe name type ports hidden parameters attributes =
     bnd (mk_basic_dff name type ports hidden parameters attributes) (\<lambda>b.
     chk (ports_are [(''CLK'', Input), (''D'', Input), (''EN'', Input), (''Q'', Output)] ports \<and>
          port_width ports 0 = 1 \<and> port_width ports 2 = 1 \<and>
          port_width ports 1 = port_width ports 3) Assertion (
     bnd (polarity_param parameters ''EN_POLARITY'') (\<lambda>high.
     Inr (basic_dff.extend b (dffe.fields high)))))"

definition dffe_export_verilog :: "params \<Rightarrow> dffe \<Rightarrow> string list res" where
  "dffe_export_verilog ps c =
     bnd (of_opt Assertion (p_ift ps)) (\<lambda>ift.
     bnd (bind_ports Assertion ''Q'' [''CLK'', ''D'', ''EN''] (p_idmap ps) (c_ports c)) (\<lambda>env.
     let clk = env ''CLK''; d = env ''D''; q = env ''Q''; en = env ''EN'';
         clk_edge = edge (clk_pos_edge c);
         en_polarity = neg (dffe.en_active_high c) in
     Inr ([fmt ''  always @({} {}) begin\<newline>'' [clk_edge, clk],
             fmt ''      if({}{}) begin\<newline>'' [en_polarity, en],
             fmt ''           {} <= {};\<newline>'' [q, d]]
          @ only ift
            [fmt ''           {}{} <= {}{} | {}{};\<newline>''
               [q, ift_tag, d, ift_tag, en, ift_tag]]
          @ [''      end\<newline>'',
             ''  end\<newline>\<newline>''])))"

definition dffe_export_smt2 :: "dffe \<Rightarrow> port_exprs \<Rightarrow> solver \<Rightarrow> solver res" where
  "dffe_export_smt2 c pm s =
     chk (length pm \<le> 5) Assertion (
     bnd (pexpr pm ''Q'') (\<lambda>q. bnd (pexpr pm ''EN'') (\<lambda>en. bnd (pexpr pm ''D'') (\<lambda>d.
     bnd (pexpr pm ''Q_prev'') (\<lambda>q_prev.
     solver_add (FEq q (Ite (active en (dffe.en_active_high c)) d q_prev)) s)))))"

section \<open>Synchronous reset\<close>

record sdff = basic_dff +
  srst_active_high :: bool
  srst_value :: string

definition mk_sdff :: "string \<Rightarrow> string \<Rightarrow> port list \<Rightarrow> bool \<Rightarrow> json \<Rightarrow> json \<Rightarrow> sdff res" where
  "mk_sdff name type ports hidden parameters attributes =
     bnd (mk_basic_dff name type ports hidden parameters attributes) (\<lambda>b.
     chk (ports_are [(''CLK'', Input), (''D'', Input), (''Q'', Output), (''SRST'', Input)] ports \<and>
          port_width ports 0 = 1 \<and> port_width ports 3 = 1 \<and>
          port_width ports 1 = port_width ports 2) Assertion (
     bnd (polarity_param parameters ''SRST_POLARITY'') (\<lambda>high.
     bnd (string_param parameters ''SRST_VALUE'') (\<lambda>v.
     Inr (basic_dff.extend b (sdff.fields high v))))))"

definition sdff_export_verilog :: "params \<Rightarrow> sdff \<Rightarrow> string list res" where
  "sdff_export_verilog ps c =
     bnd (of_opt Assertion (p_ift ps)) (\<lambda>ift.
     bnd (bind_ports Assertion ''Q'' [''CLK'', ''D'', ''SRST''] (p_idmap ps) (c_ports c)) (\<lambda>env.
     let clk = env ''CLK''; d = env ''D''; q = env ''Q''; srst = env ''SRST'';
         clk_edge = edge (clk_pos_edge c);
         neg = neg (sdff.srst_active_high c) in
     Inr ([fmt ''  always @({} {}) begin\<newline>'' [clk_edge, clk],
             fmt ''      if ({}{}) begin\<newline>'' [neg, srst],
             fmt ''          {} <= {}'b{};\<newline>''
               [q, show_word (width c), sdff.srst_value c]]
          @ only ift
            [fmt ''          {}{} <= (^{} === 1'bx) ? 0 : (({} == {}'b{}) ? ({}{} | {}{}) : {}{});\<newline>''
               [q, ift_tag, d, d, show_word (width c), sdff.srst_value c, d, ift_tag, srst, ift_tag, srst, ift_tag]]
          @ [''      end else begin\<newline>'',
             fmt ''          {} <= {};\<newline>'' [q, d]]
          @ only ift
            [fmt ''          {}{} <= (^{} === 1'bx) ? 0 : (({} == {}'b{}) ? ({}{} | {}{}) : {}{});\<newline>''
               [q, ift_tag, d, d, show_word (width c), sdff.srst_value c, d, ift_tag, srst, ift_tag, d, ift_tag]]
          @ [''       end\<newline>'',
             ''  end\<newline>\<newline>''])))"

definition sdff_export_smt2 :: "sdff \<Rightarrow> port_exprs \<Rightarrow> solver \<Rightarrow> solver res" where
  "sdff_export_smt2 c pm s =
     chk (length pm \<le> 4) Assertion (
     bnd (reset_expr (stoi 10) (sdff.srst_value c) (width c)) (\<lambda>srst_val.
     bnd (pexpr pm ''Q'') (\<lambda>q. bnd (pexpr pm ''SRST'') (\<lambda>srst. bnd (pexpr pm ''D'') (\<lambda>d.
     solver_add (FEq q (Ite (active srst (sdff.srst_active_high c)) srst_val d)) s)))))"

section \<open>Synchronous reset and enable\<close>

record sdffe = basic_dff +
  srst_active_high :: bool
  srst_value :: string
  en_active_high :: bool

definition mk_sdffe :: "string \<Rightarrow> string \<Rightarrow> port list \<Rightarrow> bool \<Rightarrow> json \<Rightarrow> json \<Rightarrow> sdffe res" where
  "mk_sdffe name type ports hidden parameters attributes =
     bnd (mk_basic_dff name type ports hidden parameters attributes) (\<lambda>b.
     chk (ports_are [(''CLK'', Input), (''D'', Input), (''EN'', Input), (''Q'', Output),
            (''SRST'', Input)] ports \<and>
          port_width ports 0 = 1 \<and> port_width ports 2 = 1 \<and> port_width ports 4 = 1 \<and>
          port_width ports 1 = port_width ports 3) Assertion (
     bnd (polarity_param parameters ''SRST_POLARITY'') (\<lambda>high.
     bnd (string_param parameters ''SRST_VALUE'') (\<lambda>v.
     bnd (polarity_param parameters ''EN_POLARITY'') (\<lambda>en_high.
     Inr (basic_dff.extend b (sdffe.fields high v en_high)))))))"

definition sdffe_export_verilog :: "params \<Rightarrow> sdffe \<Rightarrow> string list res" where
  "sdffe_export_verilog ps c =
     chk (length (c_ports c) = 5) Assertion (
     bnd (of_opt Assertion (p_ift ps)) (\<lambda>ift.
     bnd (bind_ports Assertion ''Q'' [''CLK'', ''D'', ''EN'', ''SRST''] (p_idmap ps) (c_ports c)) (\<lambda>env.
     let clk = env ''CLK''; d = env ''D''; q = env ''Q''; en = env ''EN''; srst = env ''SRST'';
         clk_edge = edge (clk_pos_edge c);
         en_neg = neg (sdffe.en_active_high c);
         neg = neg (sdffe.srst_active_high c) in
     Inr ([fmt ''  always @({} {}) begin\<newline>'' [clk_edge, clk],
             fmt ''      if ({}{}) begin\<newline>'' [neg, srst],
             fmt ''          {} <= {}'b{};\<newline>''
               [q, show_word (width c), sdffe.srst_value c]]
          @ only ift
            [fmt ''          {}{} <= (^{} === 1'bx) ? 0 : (({} == {}'b{}) ? ({}{} | {}{}) : {}{});\<newline>''
               [q, ift_tag, d, d, show_word (width c), sdffe.srst_value c, d, ift_tag, srst, ift_tag, srst, ift_tag]]
          @ [fmt ''      end else if({}{}) begin\<newline>'' [en_neg, en],
             fmt ''          {} <= {};\<newline>'' [q, d]]
          @ only ift
            [fmt ''          {}{} <= (^{} === 1'bx) ? 0 : ((({} == {}'b{}) ? ({}{} | {}{}) : {}{}) | {}{});\<newline>''
               [q, ift_tag, d, d, show_word (width c), sdffe.srst_value c, d, ift_tag, srst, ift_tag, d, ift_tag, en, ift_tag]]
          @ [''       end\<newline>'',
             ''  end\<newline>\<newline>'']))))"

definition sdffe_export_smt2 :: "sdffe \<Rightarrow> port_exprs \<Rightarrow> solver \<Rightarrow> solver res" where
  "sdffe_export_smt2 c pm s =
     chk (length pm \<le> 6) Assertion (
     bnd (reset_expr (stoi 10) (sdffe.srst_value c) (width c)) (\<lambda>srst_val.
     bnd (pexpr pm ''Q'') (\<lambda>q. bnd (pexpr pm ''SRST'') (\<lambda>srst. bnd (pexpr pm ''EN'') (\<lambda>en.
     bnd (pexpr pm ''D'') (\<lambda>d. bnd (pexpr pm ''Q_prev'') (\<lambda>q_prev.
     solver_add (FEq q (Ite (active srst (sdffe.srst_active_high c)) srst_val
       (Ite (active en (sdffe.en_active_high c)) d q_prev))) s)))))))"

section \<open>Asynchronous reset and enable\<close>

record adffe = basic_dff +
  arst_active_high :: bool
  arst_value :: string
  en_active_high :: bool

definition mk_adffe :: "string \<Rightarrow> string \<Rightarrow> port list \<Rightarrow> bool \<Rightarrow> json \<Rightarrow> json \<Rightarrow> adffe res" where
  "mk_adffe name type ports hidden parameters attributes =
     bnd (mk_basic_dff name type ports hidden parameters attributes) (\<lambda>b.
     chk (ports_are [(''ARST'', Input), (''CLK'', Input), (''D'', Input), (''EN'', Input),
            (''Q'', Output)] ports \<and>
          port_width ports 0 = 1 \<and> port_width ports 1 = 1 \<and> port_width ports 3 = 1 \<and>
          port_width ports 2 = port_width ports 4) Assertion (
     bnd (polarity_param parameters ''ARST_POLARITY'') (\<lambda>high.
     bnd (string_param parameters ''ARST_VALUE'') (\<lambda>v.
     bnd (polarity_param parameters ''EN_POLARITY'') (\<lambda>en_high.
     Inr (basic_dff.extend b (adffe.fields high v en_high)))))))"

definition adffe_export_verilog :: "params \<Rightarrow> adffe \<Rightarrow> string list res" where
  "adffe_export_verilog ps c =
     chk (length (c_ports c) = 5) Assertion (
     bnd (of_opt Assertion (p_ift ps)) (\<lambda>ift.
     bnd (bind_ports Assertion ''Q'' [''CLK'', ''D'', ''EN'', ''ARST''] (p_idmap ps) (c_ports c)) (\<lambda>env.
     let clk = env ''CLK''; d = env ''D''; q = env ''Q''; en = env ''EN''; arst = env ''ARST'';
         clk_edge = edge (clk_pos_edge c);
         arst_edge = edge (adffe.arst_active_high c);
         en_neg = neg (adffe.en_active_high c);
         neg = neg (adffe.arst_active_high c) in
     Inr ([fmt ''  always @({} {}, {} {}) begin\<newline>''
               [clk_edge, clk, arst_edge, arst],
             fmt ''      if ({}{}) begin\<newline>'' [neg, arst],
             fmt ''          {} <= {}'b{};\<newline>''
               [q, show_word (width c), adffe.arst_value c]]
          @ only ift
            [fmt ''          {}{} <= (^{} === 1'bx) ? 0 : (({} == {}'b{}) ? ({}{} | {}{}) : {}{});\<newline>''
               [q, ift_tag, d, d, show_word (width c), adffe.arst_value c, d, ift_tag, arst, ift_tag, arst, ift_tag]]
          @ [fmt ''      end else if({}{}) begin\<newline>'' [en_neg, en],
             fmt ''          {} <= {};\<newline>'' [q, d]]
          @ only ift
            [fmt ''          {}{} <= (^{} === 1'bx) ? 0 : ((({} == {}'b{}) ? ({}{} | {}{}) : {}{}) | {}{});\<newline>''
               [q, ift_tag, d, d, show_word (width c), adffe.arst_value c, d, ift_tag, arst, ift_tag, d, ift_tag, en, ift_tag]]
          @ [''       end\<newline>'',
             ''  end\<newline>\<newline>'']))))"

definition adffe_export_smt2 :: "adffe \<Rightarrow> port_exprs \<Rightarrow> solver \<Rightarrow> solver res" where
  "adffe_export_smt2 c pm s =
     chk (length pm \<le> 6) Assertion (
     bnd (reset_expr stoul2 (adffe.arst_value c) (width c)) (\<lambda>arst_val.
     bnd (pexpr pm ''Q'') (\<lambda>q. bnd (pexpr pm ''ARST'') (\<lambda>arst. bnd (pexpr pm ''EN'') (\<lambda>en.
     bnd (pexpr pm ''D'') (\<lambda>d. bnd (pexpr pm ''Q_prev'') (\<lambda>q_prev.
     solver_add (FEq q (Ite (active arst (adffe.arst_active_high c)) arst_val
       (Ite (active en (adffe.en_active_high c)) d q_prev))) s)))))))"

section \<open>Asynchronous load\<close>

record aldff = basic_dff +
  aload_active_high :: bool

definition mk_aldff :: "string \<Rightarrow> string \<Rightarrow> port list \<Rightarrow> bool \<Rightarrow> json \<Rightarrow> json \<Rightarrow> aldff res" where
  "mk_aldff name type ports hidden parameters attributes =
     bnd (mk_basic_dff name type ports hidden parameters attributes) (\<lambda>b.
     chk (ports_are [(''AD'', Input), (''ALOAD'', Input), (''CLK'', Input), (''D'', Input),
            (''Q'', Output)] ports \<and>
          port_width ports 1 = 1 \<and> port_width ports 2 = 1 \<and>
          port_width ports 0 = port_width ports 4 \<and> port_width ports 3 = port_width ports 4) Assertion (
     bnd (polarity_param parameters ''ALOAD_POLARITY'') (\<lambda>high.
     Inr (basic_dff.extend b (aldff.fields high)))))"

definition aldff_export_verilog :: "params \<Rightarrow> aldff \<Rightarrow> string list res" where
  "aldff_export_verilog ps c =
     chk (length (c_ports c) = 5) Assertion (
     bnd (of_opt Assertion (p_ift ps)) (\<lambda>ift.
     bnd (bind_ports Assertion ''Q'' [''CLK'', ''D'', ''AD'', ''ALOAD''] (p_idmap ps) (c_ports c)) (\<lambda>env.
     let clk = env ''CLK''; d = env ''D''; q = env ''Q''; ad = env ''AD''; aload = env ''ALOAD'';
         clk_edge = edge (clk_pos_edge c);
         aload_edge = edge (aldff.aload_active_high c);
         neg = neg (aldff.aload_active_high c) in
     Inr ([fmt ''  always @({} {} or {} {}) begin\<newline>''
               [clk_edge, clk, aload_edge, aload],
             fmt ''      if ({}{}) begin\<newline>'' [neg, aload],
             fmt ''          {} <= {};\<newline>'' [q, ad]]
          @ only ift
            [fmt ''          {}{} <= (^{} === 1'bx) ? 0 : (({} == {}) ? ({}{} | {}{}) : {}{});\<newline>''
               [q, ift_tag, d, d, aload, d, ift_tag, ad, ift_tag, ad, ift_tag]]
          @ [''      end else begin\<newline>'',
             fmt ''          {} <= {};\<newline>'' [q, d]]
          @ only ift
            [fmt ''          {}{} <= (^{} === 1'bx) ? 0 : (({} == {}) ? ({}{} | {}{}) : {}{});\<newline>''
               [q, ift_tag, d, d, aload, d, ift_tag, ad, ift_tag, d, ift_tag]]
          @ [''       end\<newline>'',
             ''  end\<newline>\<newline>'']))))"

definition aldff_export_smt2 :: "aldff \<Rightarrow> port_exprs \<Rightarrow> solver \<Rightarrow> solver res" where
  "aldff_export_smt2 c pm s =
     chk (length pm \<le> 5) Assertion (
     bnd (pexpr pm ''Q'') (\<lambda>q. bnd (pexpr pm ''ALOAD'') (\<lambda>aload. bnd (pexpr pm ''AD'') (\<lambda>ad.
     bnd (pexpr pm ''D'') (\<lambda>d.
     solver_add (FEq q (Ite (active aload (aldff.aload_active_high c)) ad d)) s)))))"

section \<open>Asynchronous load and enable\<close>

record aldffe = basic_dff +
  aload_active_high :: bool
  en_active_high :: bool

definition mk_aldffe :: "string \<Rightarrow> string \<Rightarrow> port list \<Rightarrow> bool \<Rightarrow> json \<Rightarrow> json \<Rightarrow> aldffe res" where
  "mk_aldffe name type ports hidden parameters attributes =
     bnd (mk_basic_dff name type ports hidden parameters attributes) (\<lambda>b.
     chk (ports_are [(''AD'', Input), (''ALOAD'', Input), (''CLK'', Input), (''D'', Input),
            (''EN'', Input), (''Q'', Output)] ports \<and>
          port_width ports 1 = 1 \<and> port_width ports 2 = 1 \<and> port_width ports 4 = 1 \<and>
          port_width ports 0 = port_width ports 5 \<and> port_width ports 3 = port_width ports 5) Assertion (
     bnd (polarity_param parameters ''ALOAD_POLARITY'') (\<lambda>high.
     bnd (polarity_param parameters ''EN_POLARITY'') (\<lambda>en_high.
     Inr (basic_dff.extend b (aldffe.fields high en_high))))))"

definition aldffe_export_verilog :: "params \<Rightarrow> aldffe \<Rightarrow> string list res" where
  "aldffe_export_verilog ps c =
     chk (length (c_ports c) = 6) Assertion (
     bnd (of_opt Assertion (p_ift ps)) (\<lambda>ift.
     bnd (bind_ports Assertion ''Q'' [''CLK'', ''D'', ''EN'', ''AD'', ''ALOAD''] (p_idmap ps) (c_ports c)) (\<lambda>env.
     let clk = env ''CLK''; aload = env ''ALOAD''; d = env ''D''; ad = env ''AD''; q = env ''Q'';
         en = env ''EN'';
         clk_edge = edge (clk_pos_edge c);
         aload_edge = edge (aldffe.aload_active_high c);
         aload_neg = neg (aldffe.aload_active_high c);
         enable_neg = neg (aldffe.en_active_high c) in
     Inr ([fmt ''  always @({} {} or {} {}) begin\<newline>''
               [clk_edge, clk, aload_edge, aload],
             fmt ''      if ({}{}) begin\<newline>'' [aload_neg, aload],
             fmt ''          {} <= {};\<newline>'' [q, ad]]
          @ only ift
            [fmt ''          {}{} <= (^{} === 1'bx) ? 0 : (({} == {}) ? ({}{} | {}{}) : {}{});\<newline>''
               [q, ift_tag, d, d, aload, d, ift_tag, ad, ift_tag, ad, ift_tag]]
          @ [fmt ''      end else if ({}{}) begin\<newline>'' [enable_neg, en],
             fmt ''          {} <= {};\<newline>'' [q, d]]
          @ only ift
            [fmt ''          {}{} <= (^{} === 1'bx) ? 0 : ((({} == {}) ? ({}{} | {}{}) : {}{}) | {}{});\<newline>''
               [q, ift_tag, d, d, aload, d, ift_tag, ad, ift_tag, d, ift_tag, en, ift_tag]]
          @ [''       end\<newline>'',
             ''  end\<newline>\<newline>'']))))"

definition aldffe_export_smt2 :: "aldffe \<Rightarrow> port_exprs \<Rightarrow> solver \<Rightarrow> solver res" where
  "aldffe_export_smt2 c pm s =
     chk (length pm \<le> 7) Assertion (
     bnd (pexpr pm ''Q'') (\<lambda>q. bnd (pexpr pm ''ALOAD'') (\<lambda>aload. bnd (pexpr pm ''AD'') (\<lambda>ad.
     bnd (pexpr pm ''EN'') (\<lambda>en. bnd (pexpr pm ''D'') (\<lambda>d. bnd (pexpr pm ''Q_prev'') (\<lambda>q_prev.
     solver_add (FEq q (Ite (active aload (aldffe.aload_active_high c)) ad
       (Ite (active en (aldffe.en_active_high c)) d q_prev))) s)))))))"

section \<open>Set and clear for each bit\<close>

text \<open>The width of the output port that the export looks up.\<close>

definition output_width :: "port list \<Rightarrow> nat res" where
  "output_width ports =
     bnd (of_opt (RuntimeError ''cannot find output port'')
            (find (\<lambda>p. pt_name p = ''Q'' \<and> pt_direction p = Output) ports))
       (\<lambda>p. Inr (length (pt_bits p)))"

definition bit_at :: "bv \<Rightarrow> nat \<Rightarrow> bv" where
  "bit_at t i = Uop (Extract i i) t"

record dffsr = basic_dff +
  set_active_high :: bool
  clr_active_high :: bool

definition mk_dffsr :: "string \<Rightarrow> string \<Rightarrow> port list \<Rightarrow> bool \<Rightarrow> json \<Rightarrow> json \<Rightarrow> dffsr res" where
  "mk_dffsr name type ports hidden parameters attributes =
     bnd (mk_basic_dff name type ports hidden parameters attributes) (\<lambda>b.
     chk (ports_are [(''CLK'', Input), (''CLR'', Input), (''D'', Input), (''Q'', Output),
            (''SET'', Input)] ports \<and>
          port_width ports 0 = 1 \<and> port_width ports 1 = port_width ports 3 \<and>
          port_width ports 2 = port_width ports 3 \<and> port_width ports 4 = port_width ports 3) Assertion (
     bnd (polarity_param parameters ''SET_POLARITY'') (\<lambda>set_high.
     bnd (polarity_param parameters ''CLR_POLARITY'') (\<lambda>clr_high.
     Inr (basic_dff.extend b (dffsr.fields set_high clr_high))))))"

definition dffsr_export_verilog :: "params \<Rightarrow> dffsr \<Rightarrow> string list res" where
  "dffsr_export_verilog ps c =
     bnd (of_opt Assertion (p_ift ps)) (\<lambda>ift.
     bnd (bind_ports Assertion ''Q'' [''CLK'', ''D'', ''CLR'', ''SET''] (p_idmap ps) (c_ports c)) (\<lambda>env.
     bnd (output_width (c_ports c)) (\<lambda>n.
     let clk = env ''CLK''; sett = env ''SET''; d = env ''D''; clr = env ''CLR''; q = env ''Q'';
         clk_edge = edge (clk_pos_edge c);
         set_edge = edge (dffsr.set_active_high c);
         clr_edge = edge (dffsr.clr_active_high c);
         neg_set = neg (dffsr.set_active_high c);
         neg_clr = neg (dffsr.clr_active_high c) in
     if 1 < n
     then Inr (concat (map (\<lambda>i.
          [fmt ''  always @({} {} , {} {}[{}] , {} {}[{}]) begin\<newline>''
               [clk_edge, clk, set_edge, sett, show_nat i, clr_edge, clr, show_nat i],
             fmt ''      if ({}{}[{}]) begin\<newline>'' [neg_clr, clr, show_nat i],
             fmt ''          {}[{}] <= 0;\<newline>'' [q, show_nat i]]
          @ only ift
            [fmt ''          {}{} <= {}{};\<newline>'' [q, ift_tag, clr, ift_tag]]
          @ [fmt ''      end else if ({}{}[{}]) begin\<newline>''
               [neg_set, sett, show_nat i],
             fmt ''          {}[{}] <= 1;\<newline>'' [q, show_nat i]]
          @ only ift
            [fmt ''          {}{} <= (^{} === 1'bx) ? 0 : (({} == {}) ? ({}{} | {}{}) : {}{});\<newline>''
               [q, ift_tag, d, d, sett, d, ift_tag, sett, ift_tag, sett, ift_tag]]
          @ [''          end\<newline>'',
             ''      else begin\<newline>'',
             fmt ''          {}[{}] <= {}[{}];\<newline>''
               [q, show_nat i, d, show_nat i]]
          @ only ift
            [fmt ''          {}{} <= {}{};\<newline>'' [q, ift_tag, d, ift_tag]]
          @ [''       end\<newline>'',
             ''  end\<newline>\<newline>'']) [0..<n]))
     else Inr ([fmt ''  always @({} {} , {} {} , {} {}) begin\<newline>''
               [clk_edge, clk, set_edge, sett, clr_edge, clr],
             fmt ''      if ({}{}) begin\<newline>'' [neg_clr, clr],
             fmt ''          {} <= 0;\<newline>'' [q]]
          @ only ift
            [fmt ''          {}{} <= {}{};\<newline>'' [q, ift_tag, clr, ift_tag]]
          @ [fmt ''      end else if ({}{}) begin\<newline>'' [neg_set, sett],
             fmt ''          {} <= 1;\<newline>'' [q]]
          @ only ift
            [fmt ''          {}{} <= (^{} === 1'bx) ? 0 : (({} == {}) ? ({}{} | {}{}) : {}{});\<newline>''
               [q, ift_tag, d, d, sett, d, ift_tag, sett, ift_tag, sett, ift_tag]]
          @ [''          end\<newline>'',
             ''      else begin\<newline>'',
             fmt ''          {} <= {};\<newline>'' [q, d]]
          @ only ift
            [fmt ''          {}{} <= {}{};\<newline>'' [q, ift_tag, d, ift_tag]]
          @ [''       end\<newline>'',
             ''  end\<newline>\<newline>'']))))"

definition dffsr_export_smt2 :: "dffsr \<Rightarrow> port_exprs \<Rightarrow> solver \<Rightarrow> solver res" where
  "dffsr_export_smt2 c pm s =
     chk (length pm \<le> 5) Assertion (
     bnd (pexpr pm ''Q'') (\<lambda>q.
     foldM (\<lambda>i s.
       bnd (pexpr pm ''CLR'') (\<lambda>clr. bnd (pexpr pm ''SET'') (\<lambda>sett. bnd (pexpr pm ''D'') (\<lambda>d.
       solver_add (FEq (bit_at q i)
         (Ite (active (bit_at clr i) (dffsr.clr_active_high c)) (BVal 0 1)
           (Ite (active (bit_at sett i) (dffsr.set_active_high c)) (BVal 1 1) (bit_at d i)))) s))))
       [0..<bv_size q] s))"

record dffsre = basic_dff +
  set_active_high :: bool
  clr_active_high :: bool
  en_active_high :: bool

definition mk_dffsre :: "string \<Rightarrow> string \<Rightarrow> port list \<Rightarrow> bool \<Rightarrow> json \<Rightarrow> json \<Rightarrow> dffsre res" where
  "mk_dffsre name type ports hidden parameters attributes =
     bnd (mk_basic_dff name type ports hidden parameters attributes) (\<lambda>b.
     chk (ports_are [(''CLK'', Input), (''CLR'', Input), (''D'', Input), (''EN'', Input),
            (''Q'', Output), (''SET'', Input)] ports \<and>
          port_width ports 0 = 1 \<and> port_width ports 3 = 1 \<and>
          port_width ports 1 = port_width ports 4 \<and> port_width ports 2 = port_width ports 4 \<and>
          port_width ports 5 = port_width ports 4) Assertion (
     bnd (polarity_param parameters ''SET_POLARITY'') (\<lambda>set_high.
     bnd (polarity_param parameters ''CLR_POLARITY'') (\<lambda>clr_high.
     bnd (polarity_param parameters ''EN_POLARITY'') (\<lambda>en_high.
     Inr (basic_dff.extend b (dffsre.fields set_high clr_high en_high)))))))"

definition dffsre_export_verilog :: "params \<Rightarrow> dffsre \<Rightarrow> string list res" where
  "dffsre_export_verilog ps c =
     bnd (of_opt Assertion (p_ift ps)) (\<lambda>ift.
     bnd (bind_ports Assertion ''Q'' [''CLK'', ''D'', ''EN'', ''SET'', ''CLR''] (p_idmap ps) (c_ports c)) (\<lambda>env.
     bnd (output_width (c_ports c)) (\<lambda>n.
     let clk = env ''CLK''; clr = env ''CLR''; d = env ''D''; en = env ''EN''; sett = env ''SET'';
         q = env ''Q'';
         clk_edge = edge (clk_pos_edge c);
         set_edge = edge (dffsre.set_active_high c);
         clr_edge = edge (dffsre.clr_active_high c);
         neg_set = neg (dffsre.set_active_high c);
         neg_clr = neg (dffsre.clr_active_high c);
         neg_en = neg (dffsre.en_active_high c) in
     if 1 < n
     then Inr (concat (map (\<lambda>i.
          [fmt ''  always @({} {} , {} {}[{}], {} {}[{}]) begin\<newline>''
               [clk_edge, clk, set_edge, sett, show_nat i, clr_edge, clr, show_nat i],
             fmt ''      if ({}{}[{}]) begin\<newline>'' [neg_clr, clr, show_nat i],
             fmt ''          {}[{}] <= 0;\<newline>'' [q, show_nat i]]
          @ only ift
            [fmt ''          {}{} <= {}{};\<newline>'' [q, ift_tag, clr, ift_tag]]
          @ [''      end\<newline>'',
             fmt ''      else if ({}{}[{}]) begin\<newline>''
               [neg_set, sett, show_nat i],
             fmt ''          {}[{}] <= 1;\<newline>'' [q, show_nat i]]
          @ only ift
            [fmt ''          {}{} <= (^{} === 1'bx) ? 0 : (({} == {}) ? ({}{} | {}{}) : {}{});\<newline>''
               [q, ift_tag, d, d, sett, d, ift_tag, sett, ift_tag, sett, ift_tag]]
          @ [''      end\<newline>'',
             fmt ''      else if ({}{}) begin\<newline>'' [neg_en, en],
             fmt ''          {}[{}] <= {}[{}];\<newline>''
               [q, show_nat i, d, show_nat i]]
          @ only ift
            [fmt ''          {}{} <= {}{} | {}{};\<newline>''
               [q, ift_tag, d, ift_tag, en, ift_tag]]
          @ [''       end\<newline>'',
             ''  end\<newline>\<newline>'']) [0..<n]))
     else Inr ([fmt ''  always @({} {} , {} {} , {} {}) begin\<newline>''
               [clk_edge, clk, set_edge, sett, clr_edge, clr],
             fmt ''      if ({}{}) begin\<newline>'' [neg_clr, clr],
             fmt ''          {} <= 0;\<newline>'' [q]]
          @ only ift
            [fmt ''          {}{} <= {}{};\<newline>'' [q, ift_tag, clr, ift_tag]]
          @ [fmt ''      end else if ({}{}) begin\<newline>'' [neg_set, sett],
             fmt ''          {} <= 1;\<newline>'' [q]]
          @ only ift
            [fmt ''          {}{} <= (^{} === 1'bx) ? 0 : (({} == {}) ? ({}{} | {}{}) : {}{});\<newline>''
               [q, ift_tag, d, d, sett, d, ift_tag, sett, ift_tag, sett, ift_tag]]
          @ [''          end\<newline>'',
             fmt ''      else if ({}{}) begin\<newline>'' [neg_en, en],
             fmt ''          {} <= {};\<newline>'' [q, d]]
          @ only ift
            [fmt ''          {}{} <= {}{} | {}{};\<newline>''
               [q, ift_tag, d, ift_tag, en, ift_tag]]
          @ [''       end\<newline>'',
             ''  end\<newline>\<newline>'']))))"

definition dffsre_export_smt2 :: "dffsre \<Rightarrow> port_exprs \<Rightarrow> solver \<Rightarrow> solver res" where
  "dffsre_export_smt2 c pm s =
     chk (length pm \<le> 7) Assertion (
     bnd (pexpr pm ''Q'') (\<lambda>q.
     foldM (\<lambda>i s.
       bnd (pexpr pm ''EN'') (\<lambda>en. bnd (pexpr pm ''D'') (\<lambda>d. bnd (pexpr pm ''Q_prev'') (\<lambda>q_prev.
       bnd (pexpr pm ''SET'') (\<lambda>sett. bnd (pexpr pm ''CLR'') (\<lambda>clr.
       let en_expr = Ite (active en (dffsre.en_active_high c)) (bit_at d i) (bit_at q_prev i);
           set_expr = Ite (active (bit_at sett i) (dffsre.set_active_high c)) (BVal 1 1) en_expr;
           clr_expr = Ite (active (bit_at clr i) (dffsre.clr_active_high c)) (BVal 0 1) set_expr
       in solver_add (FEq (bit_at q i) clr_expr) s))))))
       [0..<bv_size q] s))"

section \<open>Latches\<close>

record dlatch = cell +
  en_active_high :: bool

definition mk_dlatch :: "string \<Rightarrow> string \<Rightarrow> port list \<Rightarrow> bool \<Rightarrow> json \<Rightarrow> json \<Rightarrow> dlatch res" where
  "mk_dlatch name type ports hidden parameters attributes =
     chk (ports_are [(''D'', Input), (''EN'', Input), (''Q'', Output)] ports \<and>
          port_width ports 1 = 1 \<and> port_width ports 0 = port_width ports 2) Assertion (
     bnd (polarity_param parameters ''EN_POLARITY'') (\<lambda>high.
     Inr (cell.extend ((mk_cell name type ports hidden parameters attributes)\<lparr>c_register := True\<rparr>)
            (dlatch.fields high))))"

definition dlatch_export_verilog :: "params \<Rightarrow> dlatch \<Rightarrow> string list res" where
  "dlatch_export_verilog ps c =
     chk (length (c_ports c) = 3) Assertion (
     bnd (of_opt Assertion (p_ift ps)) (\<lambda>ift.
     bnd (bind_ports Assertion ''Q'' [''D'', ''EN''] (p_idmap ps) (c_ports c)) (\<lambda>env.
     let en = env ''EN''; d = env ''D''; q = env ''Q''; neg = neg (dlatch.en_active_high c) in
     Inr ([''  always @* begin\<newline>'',
             fmt ''     if ({}{}) begin\<newline>'' [neg, en],
             fmt ''      {} <= {};\<newline>'' [q, d]]
          @ only ift
            [fmt ''      {}{} <= {}{} | {}{};\<newline>''
               [q, ift_tag, d, ift_tag, en, ift_tag]]
          @ [''   end\<newline>'',
             ''  end\<newline>\<newline>'']))))"

definition dlatch_export_smt2 :: "dlatch \<Rightarrow> port_exprs \<Rightarrow> solver \<Rightarrow> solver res" where
  "dlatch_export_smt2 c pm s =
     chk (length pm \<le> 4) Assertion (
     bnd (pexpr pm ''Q'') (\<lambda>q. bnd (pexpr pm ''EN'') (\<lambda>en. bnd (pexpr pm ''D'') (\<lambda>d.
     solver_add (FEq q (Ite (active en (dlatch.en_active_high c)) d q)) s))))"

record dlatchsr = cell +
  enable_active_high :: bool
  set_active_high :: bool
  clr_active_high :: bool

definition mk_dlatchsr :: "string \<Rightarrow> string \<Rightarrow> port list \<Rightarrow> bool \<Rightarrow> json \<Rightarrow> json \<Rightarrow> dlatchsr res" where
  "mk_dlatchsr name type ports hidden parameters attributes =
     chk (ports_are [(''CLR'', Input), (''D'', Input), (''EN'', Input), (''Q'', Output),
            (''SET'', Input)] ports \<and>
          port_width ports 2 = 1 \<and> port_width ports 0 = port_width ports 3 \<and>
          port_width ports 1 = port_width ports 3 \<and> port_width ports 4 = port_width ports 3) Assertion (
     bnd (polarity_param parameters ''SET_POLARITY'') (\<lambda>set_high.
     bnd (polarity_param parameters ''CLR_POLARITY'') (\<lambda>clr_high.
     bnd (polarity_param parameters ''EN_POLARITY'') (\<lambda>en_high.
     Inr (cell.extend ((mk_cell name type ports hidden parameters attributes)\<lparr>c_register := True\<rparr>)
            (dlatchsr.fields en_high set_high clr_high))))))"

text \<open>The loop over the ports keeps the width of the last output, zero without one.\<close>

definition last_output_width :: "port list \<Rightarrow> nat" where
  "last_output_width ports =
     foldl (\<lambda>n p. if pt_direction p = Output then length (pt_bits p) else n) 0 ports"

definition dlatchsr_export_verilog :: "params \<Rightarrow> dlatchsr \<Rightarrow> string list res" where
  "dlatchsr_export_verilog ps c =
     chk (length (c_ports c) = 5) Assertion (
     bnd (of_opt Assertion (p_ift ps)) (\<lambda>ift.
     bnd (bind_ports Assertion ''Q'' [''D'', ''EN'', ''SET'', ''CLR''] (p_idmap ps) (c_ports c)) (\<lambda>env.
     let en = env ''EN''; sett = env ''SET''; clr = env ''CLR''; d = env ''D''; q = env ''Q'';
         output_port_size = last_output_width (c_ports c);
         neg_en = neg (enable_active_high c);
         neg_set = neg (dlatchsr.set_active_high c);
         neg_clr = neg (dlatchsr.clr_active_high c) in
     if 1 < output_port_size
     then Inr (concat (map (\<lambda>i.
          [''always @* begin \<newline>'',
             fmt ''    if ({}{}[{}]) begin \<newline>'' [neg_clr, clr, show_nat i],
             fmt ''        {}[{}] <= 0;\<newline>'' [q, show_nat i]]
          @ only ift
            [fmt ''        {}{} <= {}{};\<newline>'' [q, ift_tag, clr, ift_tag]]
          @ [fmt ''    end else if ({}{}[{}]) begin \<newline>''
               [neg_set, sett, show_nat i],
             fmt ''        {}[{}] <= 1;\<newline>'' [q, show_nat i]]
          @ only ift
            [fmt ''        {}{} <= {}{};\<newline>'' [q, ift_tag, sett, ift_tag]]
          @ [fmt ''    end else if ({}{}) begin \<newline>'' [neg_en, en],
             fmt ''        {}[{}] <= {}[{}];\<newline>''
               [q, show_nat i, d, show_nat i]]
          @ only ift
            [fmt ''        {}{} <= {}{} | {}{};\<newline>''
               [q, ift_tag, d, ift_tag, en, ift_tag]]
          @ [''     end\<newline> end\<newline>'']) [0..<output_port_size]))
     else Inr ([''always @* begin \<newline>'',
             fmt ''    if ({}{}) begin\<newline>'' [neg_clr, clr],
             fmt ''        {} <= 0;\<newline>'' [q]]
          @ only ift
            [fmt ''        {}{} <= {}{};\<newline>'' [q, ift_tag, clr, ift_tag]]
          @ [fmt ''    end else if ({}{}) begin\<newline>'' [neg_set, sett],
             fmt ''        {} <= 1;\<newline>'' [q]]
          @ only ift
            [fmt ''        {}{} <= {}{};\<newline>'' [q, ift_tag, sett, ift_tag]]
          @ [fmt ''    end else if ({}{}) begin\<newline>'' [neg_en, en],
             fmt ''        {} <= {};\<newline>'' [q, d]]
          @ only ift
            [fmt ''        {}{} <= {}{} | {}{};\<newline>''
               [q, ift_tag, d, ift_tag, en, ift_tag]]
          @ [''   end\<newline>end\<newline>\<newline>'']))))"

definition dlatchsr_export_smt2 :: "dlatchsr \<Rightarrow> port_exprs \<Rightarrow> solver \<Rightarrow> solver res" where
  "dlatchsr_export_smt2 c pm s =
     chk (length pm \<le> 5) Assertion (
     bnd (pexpr pm ''Q'') (\<lambda>q.
     foldM (\<lambda>i s.
       bnd (pexpr pm ''CLR'') (\<lambda>clr. bnd (pexpr pm ''SET'') (\<lambda>sett. bnd (pexpr pm ''EN'') (\<lambda>en.
       bnd (pexpr pm ''D'') (\<lambda>d.
       solver_add (FEq (bit_at q i)
         (Ite (active (bit_at clr i) (dlatchsr.clr_active_high c)) (BVal 0 1)
           (Ite (active (bit_at sett i) (dlatchsr.set_active_high c)) (BVal 1 1)
             (Ite (active en (enable_active_high c)) (bit_at d i) (bit_at q i))))) s)))))
       [0..<bv_size q] s))"

record adlatch = cell +
  enable_active_high :: bool
  arst_active_high :: bool
  arst_value :: "64 word"

text \<open>The constructor checks the names of the ports, not their directions or widths.\<close>

definition mk_adlatch :: "string \<Rightarrow> string \<Rightarrow> port list \<Rightarrow> bool \<Rightarrow> json \<Rightarrow> json \<Rightarrow> adlatch res" where
  "mk_adlatch name type ports hidden parameters attributes =
     chk (map pt_name ports = [''ARST'', ''D'', ''EN'', ''Q'']) Assertion (
     bnd (polarity_param parameters ''EN_POLARITY'') (\<lambda>en_high.
     bnd (polarity_param parameters ''ARST_POLARITY'') (\<lambda>arst_high.
     bnd (binary_param parameters ''ARST_VALUE'') (\<lambda>v.
     Inr (cell.extend ((mk_cell name type ports hidden parameters attributes)\<lparr>c_register := True\<rparr>)
            (adlatch.fields en_high arst_high v))))))"

definition adlatch_export_verilog :: "params \<Rightarrow> adlatch \<Rightarrow> string list res" where
  "adlatch_export_verilog ps c =
     bnd (of_opt Assertion (p_ift ps)) (\<lambda>ift.
     bnd (bind_ports Assertion ''Q'' [''D'', ''EN'', ''ARST''] (p_idmap ps) (c_ports c)) (\<lambda>env.
     let d = env ''D''; q = env ''Q''; arst = env ''ARST''; en = env ''EN'';
         neg_arst = neg (adlatch.arst_active_high c);
         neg_en = neg (adlatch.enable_active_high c) in
     Inr ([''  always @* begin\<newline>'',
             fmt ''    if ({}{})begin\<newline>'' [neg_arst, arst],
             fmt ''      {} <= {};\<newline>'' [q, show_word (adlatch.arst_value c)]]
          @ only ift
            [fmt ''          {}{} <= (^{} === 1'bx) ? 0 : (({} == {}) ? ({}{} | {}{}) : {}{});\<newline>''
               [q, ift_tag, d, d, show_word (adlatch.arst_value c), d, ift_tag, arst, ift_tag, arst, ift_tag]]
          @ [fmt ''   end else if ({}{}) begin\<newline>'' [neg_en, en],
             fmt ''      {} <= {};\<newline>'' [q, d]]
          @ only ift
            [fmt ''          {}{} <= (^{} === 1'bx) ? 0 : ((({} == {}) ? ({}{} | {}{}) : {}{}) | {}{});\<newline>''
               [q, ift_tag, d, d, show_word (adlatch.arst_value c), d, ift_tag, arst, ift_tag, d, ift_tag, en, ift_tag]]
          @ [''   end\<newline>'',
             ''  end\<newline>\<newline>''])))"

definition adlatch_export_smt2 :: "adlatch \<Rightarrow> port_exprs \<Rightarrow> solver \<Rightarrow> solver res" where
  "adlatch_export_smt2 c pm s =
     chk (length pm \<le> 4) Assertion (
     bnd (pexpr pm ''Q'') (\<lambda>q. bnd (pexpr pm ''EN'') (\<lambda>en. bnd (pexpr pm ''ARST'') (\<lambda>arst.
     bnd (pexpr pm ''D'') (\<lambda>d.
     solver_add (FEq q (Ite (active en (adlatch.enable_active_high c))
       (Ite (active arst (adlatch.arst_active_high c))
         (BVal (uint (adlatch.arst_value c)) (bv_size q)) d) q)) s)))))"

text \<open>The set-reset latch has no assertion for the solver: it inherits the one that throws.\<close>

record sr = cell +
  set_active_high :: bool
  clr_active_high :: bool

definition mk_sr :: "string \<Rightarrow> string \<Rightarrow> port list \<Rightarrow> bool \<Rightarrow> json \<Rightarrow> json \<Rightarrow> sr res" where
  "mk_sr name type ports hidden parameters attributes =
     chk (ports_are [(''CLR'', Input), (''Q'', Output), (''SET'', Input)] ports \<and>
          port_width ports 0 = port_width ports 1 \<and> port_width ports 0 = port_width ports 2) Assertion (
     bnd (polarity_param parameters ''CLR_POLARITY'') (\<lambda>clr_high.
     bnd (polarity_param parameters ''SET_POLARITY'') (\<lambda>set_high.
     Inr (cell.extend ((mk_cell name type ports hidden parameters attributes)\<lparr>c_register := True\<rparr>)
            (sr.fields set_high clr_high)))))"

definition sr_export_verilog :: "params \<Rightarrow> sr \<Rightarrow> string list res" where
  "sr_export_verilog ps c =
     chk (length (c_ports c) = 3) Assertion (
     bnd (of_opt Assertion (p_ift ps)) (\<lambda>ift.
     bnd (bind_ports Assertion ''Q'' [''SET'', ''CLR''] (p_idmap ps) (c_ports c)) (\<lambda>env.
     let sett = env ''SET''; clr = env ''CLR''; q = env ''Q'';
         neg_set = neg (sr.set_active_high c);
         neg_clr = neg (sr.clr_active_high c) in
     Inr (concat (map (\<lambda>i.
          [''always @* begin\<newline>'',
             fmt '' if({}{}[{}])begin\<newline>'' [neg_clr, clr, show_nat i],
             fmt ''   {}[{}] = 0;\<newline>'' [q, show_nat i]]
          @ only ift
            [fmt ''   {}{} = {}{};\<newline>'' [q, ift_tag, clr, ift_tag]]
          @ [fmt ''end else if ({}{}[{}]) begin\<newline>''
               [neg_set, sett, show_nat i],
             fmt ''   {}[{}] = 1;\<newline>'' [q, show_nat i]]
          @ only ift
            [fmt ''   {}{} = {}{};\<newline>'' [q, ift_tag, sett, ift_tag]]
          @ [''end end\<newline>\<newline>'']) [0..<port_width (c_ports c) 0])))))"

end
