(* ===== verification/Muxes.thy ===== *)
theory Muxes
  imports Registers
begin

text \<open>
  The multiplexers and the variable shifts (\<open>include/ducode/cell/mux.hpp\<close>, \<open>pmux.hpp\<close>,
  \<open>shift.hpp\<close>, \<open>shiftx.hpp\<close>), the instances of modules and the print cell
  (\<open>cell_module.hpp\<close>, \<open>print.hpp\<close>).
\<close>

section \<open>Multiplexer\<close>

definition mux_export_verilog :: "params \<Rightarrow> cell \<Rightarrow> string list res" where
  "mux_export_verilog ps c =
     chk (length (c_ports c) = 4) Assertion (
     bnd (of_opt Assertion (p_ift ps)) (\<lambda>ift.
     bnd (bind_ports Assertion ''Y'' [''A'', ''B'', ''S''] (p_idmap ps) (c_ports c)) (\<lambda>env.
     let a = env ''A''; b = env ''B''; y = env ''Y''; s = env ''S'' in
     Inr ([fmt ''  assign {} = {} ? {} : {};\<newline>'' [y, s, b, a]]
          @ only ift
            [fmt ''assign {}{} = (^{} === 1'bx ? 0 : ({} ? {}{} : {}{})) | (^({}^{}) === 1'bx ? 0 : ( (^({} ^ {}) === 1'b1) ? {}{} : 0)) | ({}{} & {}{}) | ({}{} & {}{});\<newline>''
               [y, ift_tag, s, s, b, ift_tag, a, ift_tag, a, b, a, b, s, ift_tag, a, ift_tag, s, ift_tag,
                b, ift_tag, s, ift_tag]]))))"

definition mux_export_smt2 :: "cell \<Rightarrow> port_exprs \<Rightarrow> solver \<Rightarrow> solver res" where
  "mux_export_smt2 c pm s =
     chk (length pm \<le> 4) Assertion (
     bnd (pexpr pm ''Y'') (\<lambda>y. bnd (pexpr pm ''S'') (\<lambda>sel. bnd (pexpr pm ''B'') (\<lambda>b.
     bnd (pexpr pm ''A'') (\<lambda>a.
     solver_add (FEq y (Ite (eq_num sel 1) b a)) s)))))"

section \<open>Parallel multiplexer\<close>

record pmux = cell +
  width :: "64 word"
  s_width :: "64 word"
  full_case :: bool

definition mk_pmux :: "string \<Rightarrow> string \<Rightarrow> port list \<Rightarrow> bool \<Rightarrow> json \<Rightarrow> json \<Rightarrow> pmux res" where
  "mk_pmux name type ports hidden parameters attributes =
     chk (length ports = 4) Contract (
     bnd (binary_param parameters ''WIDTH'') (\<lambda>w.
     bnd (binary_param parameters ''S_WIDTH'') (\<lambda>sw.
     bnd (if jcontains attributes ''full_case''
          then polarity_param attributes ''full_case'' else Inr False) (\<lambda>full.
     Inr (cell.extend (mk_cell name type ports hidden parameters attributes)
            (pmux.fields w sw full))))))"

text \<open>The loop over the cases rotates the pattern by one place after each case.\<close>

fun case_loop :: "(64 word \<Rightarrow> string \<Rightarrow> string list) \<Rightarrow> nat list \<Rightarrow> string \<Rightarrow> string list \<times> string" where
  "case_loop body [] case_vec = ([], case_vec)"
| "case_loop body (i # is) case_vec =
     (let (r, v) = case_loop body is (rotate1 case_vec)
      in (body (word_of_nat i) case_vec @ r, v))"

definition b_port_width :: "port list \<Rightarrow> 64 word" where
  "b_port_width ports =
     foldl (\<lambda>n p. if pt_name p = ''B'' then word_of_nat (length (pt_bits p)) else n) 0 ports"

definition pmux_export_verilog :: "params \<Rightarrow> pmux \<Rightarrow> string list res" where
  "pmux_export_verilog ps c =
     bnd (of_opt Assertion (p_ift ps)) (\<lambda>ift.
     bnd (of_opt Contract (p_tag_size ps)) (\<lambda>tag_size.
     bnd (bind_ports Assertion ''Y'' [''A'', ''B'', ''S''] (p_idmap ps) (c_ports c)) (\<lambda>env.
     let a = env ''A''; b = env ''B''; s = env ''S''; y = env ''Y'';
         b_width = b_port_width (c_ports c);
         name = legalize_identifier (c_name c);
         full = (if full_case c then ''// synopsys parallel_case'' else '''')
     in chk (s_width c \<noteq> 0) LengthError (
     let sw = unat (s_width c);
         case_vec = replicate (sw - 1) (CHR ''?'') @ ''1'';
         (cases, case_vec) = case_loop (\<lambda>i v.
             [fmt ''    {}'b{} : begin \<newline>'' [show_word (s_width c), v],
              fmt ''      {} = b[{}:{}];\<newline>''
                [name, show_word ((i + 1) * pmux.width c - 1), show_word (i * pmux.width c)],
              ''   end\<newline>''])
           [0..<sw] case_vec;
         (tag_cases, case_vec) = case_loop (\<lambda>i v.
             [fmt ''    {}'b{} : begin \<newline>'' [show_word (s_width c), v],
              fmt ''      {}{} = b;'' [name, ift_tag],
              ''   end\<newline>''])
           [0..<sw] case_vec
     in Inr ([fmt ''function [{}:0] {} ;\<newline>'' [show_word (pmux.width c - 1), name],
              fmt ''  input [{}:0] a;\<newline>'' [show_word (pmux.width c - 1)],
              fmt ''  input [{}:0] b;\<newline>'' [show_word (b_width - 1)],
              fmt ''  input [{}:0] s;\<newline>'' [show_word (s_width c - 1)],
              fmt ''  casez (s) {}\<newline>'' [full]]
             @ cases
             @ [''    default: begin\<newline>'',
                fmt ''      {} = a;\<newline>'' [name],
                ''   end\<newline>  endcase\<newline> endfunction\<newline>'',
                fmt ''assign {} = {} ({}, {}, {});\<newline>'' [y, name, a, b, s]]
             @ only ift
               ([fmt ''function [{}:0] {}{} ;\<newline>'' [show_word (tag_size - 1), name, ift_tag],
                 fmt ''  input [{}:0] a;\<newline>'' [show_word (tag_size - 1)],
                 fmt ''  input [{}:0] b;\<newline>'' [show_word (tag_size - 1)],
                 fmt ''  input [{}:0] s;\<newline>'' [show_word (s_width c - 1)],
                 fmt ''  casez (s) {}\<newline>'' [full]]
                @ tag_cases
                @ [''    default: begin\<newline>'',
                   fmt ''      {}{} = a;'' [name, ift_tag],
                   ''   end\<newline>  endcase\<newline> endfunction\<newline>'',
                   fmt ''assign {}{} = {}{} ({}{}, {}{}, {} ) | {}{};\<newline>''
                     [y, ift_tag, name, ift_tag, a, ift_tag, b, ift_tag, s, s, ift_tag]]))))))"

text \<open>
  The index arithmetic is that of \<open>uint32_t\<close>. The list \<open>results\<close> is the vector of the code, which
  takes the entry \<open>select_size - i - 1\<close>, the one pushed last, as the alternative.
\<close>

definition w32 :: "nat \<Rightarrow> 32 word" where
  "w32 n = word_of_nat n"

definition pmux_slice :: "bv \<Rightarrow> nat \<Rightarrow> nat \<Rightarrow> bv" where
  "pmux_slice b output_size i =
     Uop (Extract (unat (w32 i * w32 output_size - 1)) (unat ((w32 i - 1) * w32 output_size))) b"

definition pmux_results :: "bv \<Rightarrow> bv \<Rightarrow> nat \<Rightarrow> bv list" where
  "pmux_results b sel output_size =
     (let select_size = bv_size sel in
      foldl (\<lambda>results i. results @
          [Ite (eq_num (bit_at sel (i - 1)) 1) (pmux_slice b output_size i)
             (results ! (select_size - i - 1))])
        [pmux_slice b output_size select_size] (rev [1..<select_size]))"

definition pmux_export_smt2 :: "pmux \<Rightarrow> port_exprs \<Rightarrow> solver \<Rightarrow> solver res" where
  "pmux_export_smt2 c pm s =
     chk (length pm \<le> 4) Assertion (
     bnd (pexpr pm ''S'') (\<lambda>sel. bnd (pexpr pm ''Y'') (\<lambda>y. bnd (pexpr pm ''A'') (\<lambda>a.
     bnd (pexpr pm ''B'') (\<lambda>b.
     solver_add (FEq y (Ite (eq_num sel 0) a (last (pmux_results b sel (bv_size y))))) s)))))"

section \<open>Variable shifts\<close>

record shift = cell +
  A_signed :: bool
  B_signed :: bool

definition shift_ports :: "port list \<Rightarrow> bool" where
  "shift_ports ports = ports_are [(''A'', Input), (''B'', Input), (''Y'', Output)] ports"

definition mk_shift :: "string \<Rightarrow> string \<Rightarrow> port list \<Rightarrow> bool \<Rightarrow> json \<Rightarrow> json \<Rightarrow> shift res" where
  "mk_shift name type ports hidden parameters attributes =
     chk (shift_ports ports) Assertion (
     Inr (cell.extend (mk_cell name type ports hidden parameters attributes)
            (shift.fields (pt_signed (ports ! 0)) (pt_signed (ports ! 1)))))"

definition shift_export_verilog :: "params \<Rightarrow> shift \<Rightarrow> string list res" where
  "shift_export_verilog ps c =
     chk (length (c_ports c) = 3) Assertion (
     bnd (of_opt Assertion (p_ift ps)) (\<lambda>ift.
     bnd (bind_ports Assertion ''Y'' [''A'', ''B''] (p_idmap ps) (c_ports c)) (\<lambda>env.
     let a = env ''A''; b = env ''B''; y = env ''Y'' in
     Inr ([if shift.A_signed c
           then if shift.B_signed c
             then fmt ''  assign {} = $signed({}) < 0 ? $signed({}) << -{}: $signed({}) >> {};\<newline>''
                    [y, b, a, b, a, b]
             else fmt ''  assign {} = $signed({}) >> {};\<newline>'' [y, a, b]
           else if shift.B_signed c
             then fmt ''  assign {} = $signed({}) < 0 ? {} << -{}: {} >> {};\<newline>'' [y, b, a, b, a, b]
             else fmt ''  assign {} = {} >> {};\<newline>'' [y, a, b]]
          @ only ift [fmt ''  assign {} = {} | {};\<newline>'' [y @ ift_tag, a @ ift_tag, b @ ift_tag]]))))"

text \<open>
  Both classes extend the shifted input and the amount to a common width, and the output to the
  same width before they compare it; \<open>ext\<close> is the extension the code always writes out. The
  difference of the widths is computed in \<open>unsigned\<close>: when the output is the wider one, an
  extension by nearly \<open>2 ^ 32\<close> bits is asked for, which the solver refuses.
\<close>

definition ext :: "bool \<Rightarrow> nat \<Rightarrow> bv \<Rightarrow> bv res" where
  "ext sgd largest t =
     (if largest < bv_size t then Inl Z3Exception
      else Inr (Uop (if sgd then Sext (largest - bv_size t) else Zext (largest - bv_size t)) t))"

definition shift_assertion :: "bool \<Rightarrow> bool \<Rightarrow> nat \<Rightarrow> bv \<Rightarrow> bv \<Rightarrow> bv \<Rightarrow> form res" where
  "shift_assertion sa sb largest a b y =
     bnd (ext sa largest a) (\<lambda>extended_a. bnd (ext sb largest b) (\<lambda>extended_b.
     let extended_b_inv = Bop BAdd (Uop UNot extended_b) (BVal 1 largest);
         top = bv_size extended_b - 1 in
     if sb
     then bnd (ext sa largest y) (\<lambda>extended_y.
       Inr (FEq extended_y
         (Ite (FEq (Uop (Extract top top) extended_b) (BVal 1 1))
           (Bop BShl extended_a extended_b_inv) (Bop BLshr extended_a extended_b))))
     else bnd (ext False largest y) (\<lambda>extended_y.
       Inr (FEq extended_y (Bop BLshr extended_a extended_b)))))"

definition shift_export_smt2 :: "shift \<Rightarrow> port_exprs \<Rightarrow> solver \<Rightarrow> solver res" where
  "shift_export_smt2 c pm s =
     chk (length pm \<le> 3) Assertion (
     bnd (pexpr pm ''A'') (\<lambda>a. bnd (pexpr pm ''B'') (\<lambda>b. bnd (pexpr pm ''Y'') (\<lambda>y.
     let largest = max (bv_size a) (max (bv_size b) (bv_size y)) in
     bnd (shift_assertion (shift.A_signed c) (shift.B_signed c) largest a b y) (\<lambda>f.
     solver_add f s)))))"

record shiftx = cell +
  Y_width :: nat
  A_signed :: bool
  B_signed :: bool

definition mk_shiftx :: "string \<Rightarrow> string \<Rightarrow> port list \<Rightarrow> bool \<Rightarrow> json \<Rightarrow> json \<Rightarrow> shiftx res" where
  "mk_shiftx name type ports hidden parameters attributes =
     chk (shift_ports ports) Assertion (
     Inr (cell.extend (mk_cell name type ports hidden parameters attributes)
            (shiftx.fields (port_width ports 2) (pt_signed (ports ! 0)) (pt_signed (ports ! 1)))))"

definition shiftx_export_verilog :: "params \<Rightarrow> shiftx \<Rightarrow> string list res" where
  "shiftx_export_verilog ps c =
     chk (length (c_ports c) = 3) Assertion (
     bnd (of_opt Assertion (p_ift ps)) (\<lambda>ift.
     bnd (bind_ports Assertion ''Y'' [''A'', ''B''] (p_idmap ps) (c_ports c)) (\<lambda>env.
     let a = env ''A''; b = env ''B''; y = env ''Y'' in
     Inr ([if shiftx.B_signed c
           then fmt ''  assign {} = {}[$signed({}) +: {}];\<newline>'' [y, a, b, show_nat (Y_width c)]
           else fmt ''  assign {} = {}[{} +: {}];\<newline>'' [y, a, b, show_nat (Y_width c)]]
          @ only ift [fmt ''  assign {} = {} | {};\<newline>'' [y @ ift_tag, a @ ift_tag, b @ ift_tag]]))))"

definition shiftx_export_smt2 :: "shiftx \<Rightarrow> port_exprs \<Rightarrow> solver \<Rightarrow> solver res" where
  "shiftx_export_smt2 c pm s =
     chk (length pm \<le> 3) Assertion (
     bnd (pexpr pm ''A'') (\<lambda>a. bnd (pexpr pm ''B'') (\<lambda>b. bnd (pexpr pm ''Y'') (\<lambda>y.
     let largest = (if bv_size a < bv_size b then bv_size b else bv_size a) in
     bnd (shift_assertion (shiftx.A_signed c) (shiftx.B_signed c) largest a b y) (\<lambda>f.
     solver_add f s)))))"

section \<open>Instances of modules and prints\<close>

definition cell_module_export_verilog :: "params \<Rightarrow> cell \<Rightarrow> string list res" where
  "cell_module_export_verilog ps c =
     bnd (of_opt Assertion (p_ift ps)) (\<lambda>ift.
     let connections = concat (map (\<lambda>p.
           case p_idmap ps (pt_bits_signature p) of
             None \<Rightarrow> []
           | Some assignment \<Rightarrow>
               [fmt ''.{}({})'' [legalize_identifier (pt_name p), assignment]]
               @ only ift [fmt ''.{}{}({}{})''
                   [legalize_identifier (pt_name p), ift_tag, assignment, ift_tag]])
           (c_ports c))
     in Inr [fmt ''  {} {}({});\<newline>''
          [legalize_identifier (c_type c), legalize_identifier (c_name c), join '', '' connections]])"

text \<open>
  \<open>port_name\<close> is the entry \<open>port\<close> of the parameters, and \<open>print\<close> the printer of the solver, with
  which the code decides whether the two expressions are the same.
\<close>

definition cell_module_export_smt2 ::
  "(bv \<Rightarrow> string) \<Rightarrow> string \<Rightarrow> cell \<Rightarrow> port_exprs \<Rightarrow> solver \<Rightarrow> solver res"
where
  "cell_module_export_smt2 print port_name c pm s =
     chk (length pm = 2) (RuntimeError ''Port expression map size must be exactly 2.'') (
     bnd (pexpr pm (fmt ''{}_{}'' [port_name, ''successor''])) (\<lambda>succ. bnd (pexpr pm port_name) (\<lambda>p.
     if print succ \<noteq> print p then solver_add (FEq succ p) s else Inr s)))"

definition print_export_verilog :: "params \<Rightarrow> cell \<Rightarrow> string list res" where
  "print_export_verilog ps c = Inr ['''']"

end
