(* ===== verification/GateSmt.thy ===== *)
theory GateSmt
  imports Gates
begin

unbundle bit_operations_syntax

text \<open>
  What the assertions of the gates mean to the solver. The lemmas are proved once in the locale
  \<open>smt_bv\<close>, under the documented laws of the bit-vector operators; the properties state them
  for every interpretation that satisfies the laws, and their witnesses use the standard one.
\<close>

section \<open>Extension\<close>


definition bv_val :: "bool \<Rightarrow> nat \<Rightarrow> int \<Rightarrow> int" where
  "bv_val s w a = (if s then sgn_val w a else a)"

lemma bv_val_unsigned [simp]: "bv_val False w a = a"
  by (simp add: bv_val_def)

lemma sgn_val_extend: "0 < w \<Longrightarrow> w \<le> n \<Longrightarrow> sgn_val n (take_bit n (sgn_val w a)) = sgn_val w a"
  by (cases "w = n") (simp_all add: sgn_val_def signed_take_bit_take_bit signed_take_bit_signed_take_bit)

lemma take_bit_sgn_val: "bv_range w a \<Longrightarrow> 0 < w \<Longrightarrow> take_bit w (sgn_val w a) = a"
  by (simp add: sgn_val_def take_bit_signed_take_bit take_bit_int_eq_self)

lemma extend_to_size [simp]: "bv_size t \<le> n \<Longrightarrow> bv_size (extend_to s n t) = n"
  by (simp add: extend_to_def)

lemma extend_to_ws [simp]: "ws t \<Longrightarrow> ws (extend_to s n t)"
  by (simp add: extend_to_def)

context smt_bv
begin

lemma ev_extend_to:
  assumes "ws t" "bv_size t \<le> n"
  shows "eval un bin prd m (extend_to s n t) =
    take_bit n (bv_val s (bv_size t) (eval un bin prd m t))"
proof -
  note r = ev_range [OF assms(1), of m] and p = ws_pos [OF assms(1)]
  have "eval un bin prd m t < 2 ^ n"
    using r assms(2) by (auto intro: order.strict_trans2 power_increasing)
  then show ?thesis
    using r p assms(2)
    by (auto simp: extend_to_def bv_val_def un_zext un_sext take_bit_int_eq_self take_bit_sgn_val)
qed

lemma ev_extend_to_signed:
  assumes "ws t" "bv_size t \<le> n"
  shows "bv_val s n (eval un bin prd m (extend_to s n t)) = bv_val s (bv_size t) (eval un bin prd m t)"
proof -
  note r = ev_range [OF assms(1), of m] and p = ws_pos [OF assms(1)]
  have "eval un bin prd m t < 2 ^ n"
    using r assms(2) by (auto intro: order.strict_trans2 power_increasing)
  then show ?thesis
    using r p assms(2)
    by (cases s) (simp_all add: ev_extend_to [OF assms] bv_val_def sgn_val_extend take_bit_int_eq_self)
qed

lemma extend_to_range: "ws t \<Longrightarrow> bv_size t \<le> n \<Longrightarrow> bv_range n (eval un bin prd m (extend_to s n t))"
  by (simp add: ev_extend_to take_bit_int_less_exp)

lemma extend_to_same [simp]: "extend_to s (bv_size t) t = t"
  by (simp add: extend_to_def)

lemma ev_bool_ite:
  "0 < n \<Longrightarrow> eval un bin prd m (bool_ite c n) = of_bool (holds un bin prd m c)"
  by (simp add: bool_ite_def take_bit_int_eq_self)

end

lemma extend_to_same' [simp]: "n \<le> bv_size t \<Longrightarrow> extend_to s n t = t"
  by (simp add: extend_to_def)

section \<open>Operators over the integers\<close>

text \<open>What the operators compute on the values of their operands.\<close>

definition arith_op :: "string \<Rightarrow> int \<Rightarrow> int \<Rightarrow> int" where
  "arith_op t a b =
     (if t = ''$add'' then a + b else if t = ''$sub'' then a - b else a * b)"

definition compare_op :: "string \<Rightarrow> int \<Rightarrow> int \<Rightarrow> bool" where
  "compare_op t a b =
     (if t = ''$eq'' \<or> t = ''$eqx'' then a = b
      else if t = ''$ne'' \<or> t = ''$nex'' then a \<noteq> b
      else if t = ''$ge'' then b \<le> a
      else if t = ''$gt'' then b < a
      else if t = ''$le'' then a \<le> b
      else a < b)"

lemma bv_val_inj:
  assumes "bv_range n a" "bv_range n b" "0 < n"
  shows "bv_val s n a = bv_val s n b \<longleftrightarrow> a = b"
proof
  assume "bv_val s n a = bv_val s n b"
  then have "s \<Longrightarrow> take_bit n (sgn_val n a) = take_bit n (sgn_val n b)" "\<not> s \<Longrightarrow> a = b"
    by (simp_all add: bv_val_def)
  then show "a = b" using take_bit_sgn_val [OF assms(1,3)] take_bit_sgn_val [OF assms(2,3)]
    by (cases s) simp_all
qed simp

text \<open>The assertion of each type, with the width \<open>n\<close> to which the operands are extended.\<close>

definition operand_width :: "bv \<Rightarrow> bv \<Rightarrow> bv \<Rightarrow> nat" where
  "operand_width a b y = max (bv_size a) (max (bv_size b) (bv_size y))"

lemma operand_width_le:
  "bv_size a \<le> operand_width a b y" "bv_size b \<le> operand_width a b y"
  "bv_size y \<le> operand_width a b y"
  by (simp_all add: operand_width_def)

definition arith_bop :: "string \<Rightarrow> binop" where
  "arith_bop t = (if t = ''$add'' then BAdd else if t = ''$sub'' then BSub else BMul)"

lemma binary_assertion_arith:
  assumes "t \<in> {''$add'', ''$sub'', ''$mul''}"
  shows "binary_assertion t sa sb a b y =
    Inr (let n = operand_width a b y in
      FEq (extend_to (sa \<and> sb) n y) (Bop (arith_bop t) (extend_to sa n a) (extend_to sb n b)))"
  using assms by (elim insertE emptyE; hypsubst; simp add: binary_assertion_def Let_def
    operand_width_def arith_bop_def)

definition compare_form :: "string \<Rightarrow> bool \<Rightarrow> bv \<Rightarrow> bv \<Rightarrow> form" where
  "compare_form t s a b =
     (if t = ''$eq'' \<or> t = ''$eqx'' then FEq a b
      else if t = ''$ne'' \<or> t = ''$nex'' then FNe a b
      else if t = ''$ge'' then FCmp (if s then CSge else CUge) a b
      else if t = ''$gt'' then FCmp (if s then CSgt else CUgt) a b
      else if t = ''$le'' then FCmp (if s then CSle else CUle) a b
      else FCmp (if s then CSlt else CUlt) a b)"

lemma binary_assertion_compare:
  assumes "t \<in> {''$eq'', ''$eqx'', ''$ne'', ''$nex'', ''$ge'', ''$gt'', ''$le'', ''$lt''}"
  shows "binary_assertion t s s a b y =
    Inr (let n = operand_width a b y in
      FEq y (bool_ite (compare_form t s (extend_to s n a) (extend_to s n b)) (bv_size y)))"
  using assms by (elim insertE emptyE; hypsubst; simp add: binary_assertion_def Let_def
    operand_width_def compare_form_def ordering_assertion_def mixed_signs_def)

context smt_bv
begin

lemma bin_arith:
  "t \<in> {''$add'', ''$sub'', ''$mul''} \<Longrightarrow> bv_range n x \<Longrightarrow> bv_range n y \<Longrightarrow>
   bin (arith_bop t) n x y = arith_op t x y mod 2 ^ n"
  by (elim insertE emptyE; hypsubst; simp add: arith_bop_def arith_op_def bin_add bin_sub bin_mul)

lemma binary_arith:
  assumes t: "t \<in> {''$add'', ''$sub'', ''$mul''}" and ws: "ws a" "ws b" "ws y"
  shows "\<exists>f. binary_assertion t sa sb a b y = Inr f \<and> wf_form f \<and>
    (holds un bin prd m f \<longleftrightarrow>
      bv_val (sa \<and> sb) (bv_size y) (eval un bin prd m y) mod 2 ^ operand_width a b y =
        arith_op t (bv_val sa (bv_size a) (eval un bin prd m a))
                   (bv_val sb (bv_size b) (eval un bin prd m b)) mod 2 ^ operand_width a b y)"
proof -
  let ?n = "operand_width a b y"
  note le = operand_width_le [where a = a and b = b and y = y]
  have m: "arith_op t (u mod 2 ^ ?n) (v mod 2 ^ ?n) mod 2 ^ ?n = arith_op t u v mod 2 ^ ?n" for u v
    by (simp add: arith_op_def mod_simps)
  have "eval un bin prd m (Bop (arith_bop t) (extend_to sa ?n a) (extend_to sb ?n b)) =
      arith_op t (eval un bin prd m (extend_to sa ?n a)) (eval un bin prd m (extend_to sb ?n b)) mod 2 ^ ?n"
    using bin_arith [OF t extend_to_range [OF ws(1) le(1)] extend_to_range [OF ws(2) le(2)]] le
    by simp
  then show ?thesis
    using ws le by (simp add: binary_assertion_arith [OF t] Let_def ev_extend_to take_bit_eq_mod m)
qed

lemma holds_compare_form:
  assumes t: "t \<in> {''$eq'', ''$eqx'', ''$ne'', ''$nex'', ''$ge'', ''$gt'', ''$le'', ''$lt''}"
    and ws: "ws a" "ws b" and n: "bv_size a = n" "bv_size b = n"
  shows "holds un bin prd m (compare_form t s a b) =
    compare_op t (bv_val s n (eval un bin prd m a)) (bv_val s n (eval un bin prd m b))"
proof -
  have r: "bv_range n (eval un bin prd m a)" "bv_range n (eval un bin prd m b)" "0 < n"
    using ev_range [OF ws(1)] ev_range [OF ws(2)] ws_pos [OF ws(1)] n by auto
  note inj = bv_val_inj [OF r]
  have o: "prd (if s then CSge else CUge) n x y = (bv_val s n y \<le> bv_val s n x)"
    "prd (if s then CSgt else CUgt) n x y = (bv_val s n y < bv_val s n x)"
    "prd (if s then CSle else CUle) n x y = (bv_val s n x \<le> bv_val s n y)"
    "prd (if s then CSlt else CUlt) n x y = (bv_val s n x < bv_val s n y)"
    if "bv_range n x" "bv_range n y" for x y
    using prd_s [OF that] prd_u [OF that] by (simp_all add: bv_val_def)
  show ?thesis
    using t by (elim insertE emptyE; hypsubst)
      (simp_all add: compare_form_def compare_op_def n o [OF r(1,2)] inj)
qed

lemma binary_compare:
  assumes t: "t \<in> {''$eq'', ''$eqx'', ''$ne'', ''$nex'', ''$ge'', ''$gt'', ''$le'', ''$lt''}"
    and ws: "ws a" "ws b" "ws y"
  shows "\<exists>f. binary_assertion t s s a b y = Inr f \<and> wf_form f \<and>
    (holds un bin prd m f \<longleftrightarrow>
      eval un bin prd m y =
        of_bool (compare_op t (bv_val s (bv_size a) (eval un bin prd m a))
                              (bv_val s (bv_size b) (eval un bin prd m b))))"
proof -
  let ?n = "operand_width a b y"
  note le = operand_width_le [where a = a and b = b and y = y]
  have h: "holds un bin prd m (compare_form t s (extend_to s ?n a) (extend_to s ?n b)) =
      compare_op t (bv_val s (bv_size a) (eval un bin prd m a)) (bv_val s (bv_size b) (eval un bin prd m b))"
    using holds_compare_form [OF t extend_to_ws [OF ws(1), of s ?n] extend_to_ws [OF ws(2), of s ?n], where n = ?n and s = s and m = m] le ws
    by (simp add: ev_extend_to_signed)
  have w: "wf_form (compare_form t s (extend_to s ?n a) (extend_to s ?n b))"
    using ws le by (simp add: compare_form_def)
  show ?thesis
    using ws_pos [OF ws(3)] ws(3) h w
    by (simp add: binary_assertion_compare [OF t] Let_def ev_bool_ite) (simp add: bool_ite_def)
qed

end

section \<open>Division, remainder and shifts\<close>

lemma operand_width_full:
  "bv_size a \<le> bv_size y \<Longrightarrow> bv_size b \<le> bv_size y \<Longrightarrow> operand_width a b y = bv_size y"
  by (simp add: operand_width_def)

text \<open>The term that the assertion of these types equates with the output.\<close>

definition div_shift_bop :: "string \<Rightarrow> bool \<Rightarrow> bool \<Rightarrow> binop" where
  "div_shift_bop t sa sb =
     (if t = ''$div'' then (if sa \<and> sb then BSdiv else BUdiv)
      else if t = ''$mod'' then BSmod
      else if t = ''$shl'' \<or> t = ''$sshl'' then BShl
      else if t = ''$shr'' then BLshr
      else if sa \<and> sb then BAshr else BLshr)"

lemma binary_assertion_shift:
  assumes "t \<in> {''$shl'', ''$sshl'', ''$shr'', ''$sshr''}"
    and "t = ''$sshr'' \<Longrightarrow> operand_width a b y \<noteq> 1"
  shows "binary_assertion t sa sb a b y =
    Inr (let n = operand_width a b y in
      FEq y (Bop (div_shift_bop t sa sb) (extend_to sa n a) (extend_to sb n b)))"
  using assms by (elim insertE emptyE; hypsubst; simp add: binary_assertion_def Let_def
    operand_width_def div_shift_bop_def)

lemma binary_assertion_div:
  "binary_assertion ''$div'' s s a b y =
    Inr (let n = operand_width a b y in
      FEq y (Bop (div_shift_bop ''$div'' s s) (extend_to s n a) (extend_to s n b)))"
  by (simp add: binary_assertion_def Let_def operand_width_def div_shift_bop_def mixed_signs_def)

lemma binary_assertion_mod_signed:
  "binary_assertion ''$mod'' True True a b y =
    Inr (let n = operand_width a b y in FEq y (Bop BSmod (extend_to True n a) (extend_to True n b)))"
  by (simp add: binary_assertion_def Let_def operand_width_def)

lemma binary_assertion_mod_unsigned:
  "\<not> (sa \<and> sb) \<Longrightarrow> binary_assertion ''$mod'' sa sb a b y =
    Inr (let n = operand_width a b y in FEq y (Uop (Extract (n - 1) 0)
      (Bop BSmod (Uop (Zext 1) (extend_to sa n a)) (Uop (Zext 1) (extend_to sb n b)))))"
  by (simp add: binary_assertion_def Let_def operand_width_def)

text \<open>The remainder of the solver has the sign of the divisor, that of Verilog the dividend.\<close>

lemma smod_differs:
  fixes a b :: int
  assumes "a mod b \<noteq> 0" "(a < 0) \<noteq> (b < 0)" "b \<noteq> 0"
  shows "a smod b \<noteq> a mod b"
proof -
  have "a < 0 \<Longrightarrow> a smod b \<le> 0" "0 \<le> a \<Longrightarrow> 0 \<le> a smod b"
    using assms(3) by (auto simp: signed_modulo_int_def sgn_if)
  moreover have "0 < b \<Longrightarrow> 0 < a mod b" using assms(1) pos_mod_sign [of b a] by linarith
  moreover have "b < 0 \<Longrightarrow> a mod b < 0" using assms(1) neg_mod_sign [of b a] by linarith
  ultimately show ?thesis using assms(2,3) by (metis linorder_neqE_linordered_idom not_less)
qed

lemma smod_same_sign:
  fixes a b :: int
  assumes "a mod b = 0 \<or> (a < 0 \<longleftrightarrow> b < 0)"
  shows "a smod b = a mod b"
proof (cases "a mod b = 0")
  case True
  then have "b dvd a" by (simp add: mod_eq_0_iff_dvd)
  then have "\<bar>a\<bar> mod \<bar>b\<bar> = 0" by simp
  with True show ?thesis by (simp add: signed_modulo_int_def)
next
  case False
  with assms have "a < 0 \<longleftrightarrow> b < 0" by simp
  then show ?thesis
    by (cases "a < 0") (auto simp: signed_modulo_int_def sgn_if zmod_zminus1_not_zero)
qed

lemma smod_differs_iff:
  fixes a b :: int
  assumes "b \<noteq> 0"
  shows "a smod b \<noteq> a mod b \<longleftrightarrow> (a < 0) \<noteq> (b < 0) \<and> a mod b \<noteq> 0"
  using smod_differs [OF _ _ assms] smod_same_sign by metis

context smt_bv
begin

lemma holds_div:
  assumes ws: "ws a" "ws b" "ws y" and le: "bv_size a \<le> bv_size y" "bv_size b \<le> bv_size y"
    and nz: "eval un bin prd m b \<noteq> 0"
  shows "\<exists>f. binary_assertion ''$div'' s s a b y = Inr f \<and> wf_form f \<and>
    (holds un bin prd m f \<longleftrightarrow> eval un bin prd m y = take_bit (bv_size y)
       (bv_val s (bv_size a) (eval un bin prd m a) sdiv bv_val s (bv_size b) (eval un bin prd m b)))"
proof -
  let ?n = "bv_size y" and ?a = "eval un bin prd m (extend_to s (bv_size y) a)"
    and ?b = "eval un bin prd m (extend_to s (bv_size y) b)"
  note r = extend_to_range [OF ws(1) le(1), where s = s and m = m]
    extend_to_range [OF ws(2) le(2), where s = s and m = m]
  note v = ev_extend_to_signed [OF ws(1) le(1), where s = s and m = m]
    ev_extend_to_signed [OF ws(2) le(2), where s = s and m = m]
  have b0: "?b \<noteq> 0"
    using nz bv_val_inj [OF r(2) _ ws_pos [OF ws(3)], of 0 s]
      bv_val_inj [OF ev_range [OF ws(2)] _ ws_pos [OF ws(2)], of 0 s m] v(2)
    by (auto simp: bv_val_def sgn_val_def split: if_splits)
  have "bin (div_shift_bop ''$div'' s s) ?n ?a ?b =
      take_bit ?n (bv_val s ?n ?a sdiv bv_val s ?n ?b)"
  proof (cases s)
    case True
    then show ?thesis using r b0 by (simp add: div_shift_bop_def bin_sdiv bv_val_def)
  next
    case False
    have "?a div ?b \<le> ?a" using r b0 by (intro div_le_self_int) auto
    then have "?a div ?b < 2 ^ ?n" using r by linarith
    moreover have "0 \<le> ?a div ?b" using r b0 by (simp add: pos_imp_zdiv_nonneg_iff)
    ultimately show ?thesis using False r b0
      by (simp add: div_shift_bop_def bin_udiv take_bit_int_eq_self signed_divide_int_def sgn_if)
  qed
  then show ?thesis using ws le by (simp add: binary_assertion_div operand_width_full Let_def v)
qed

lemma holds_mod_signed:
  assumes ws: "ws a" "ws b" "ws y" and le: "bv_size a \<le> bv_size y" "bv_size b \<le> bv_size y"
    and nz: "eval un bin prd m b \<noteq> 0"
  shows "\<exists>f. binary_assertion ''$mod'' True True a b y = Inr f \<and> wf_form f \<and>
    (holds un bin prd m f \<longleftrightarrow> eval un bin prd m y = take_bit (bv_size y)
       (sgn_val (bv_size a) (eval un bin prd m a) mod sgn_val (bv_size b) (eval un bin prd m b)))"
proof -
  note r = extend_to_range [OF ws(1) le(1), where s = True and m = m]
    extend_to_range [OF ws(2) le(2), where s = True and m = m]
  note v = ev_extend_to_signed [OF ws(1) le(1), where s = True and m = m]
    ev_extend_to_signed [OF ws(2) le(2), where s = True and m = m]
  have "eval un bin prd m (extend_to True (bv_size y) b) \<noteq> 0"
    using nz bv_val_inj [OF ev_range [OF ws(2)] _ ws_pos [OF ws(2)], of 0 True m] v(2)
    by (auto simp: bv_val_def sgn_val_def split: if_splits)
  then show ?thesis using ws le r v
    by (simp add: binary_assertion_mod_signed operand_width_full Let_def bin_smod bv_val_def)
qed

lemma holds_mod_unsigned:
  assumes ws: "ws a" "ws b" "ws y" and le: "bv_size a \<le> bv_size y" "bv_size b \<le> bv_size y"
    and nz: "eval un bin prd m b \<noteq> 0"
  shows "\<exists>f. binary_assertion ''$mod'' False False a b y = Inr f \<and> wf_form f \<and>
    (holds un bin prd m f \<longleftrightarrow>
      eval un bin prd m y = eval un bin prd m a mod eval un bin prd m b)"
proof -
  let ?n = "bv_size y" and ?a = "eval un bin prd m a" and ?b = "eval un bin prd m b"
  have lt: "?a < 2 ^ ?n" "?b < 2 ^ ?n" "0 \<le> ?a" "0 \<le> ?b"
    using ev_range [OF ws(1), of m] ev_range [OF ws(2), of m] le
    by (auto intro: order.strict_trans2 power_increasing)
  have e: "eval un bin prd m (extend_to False ?n a) = ?a"
    "eval un bin prd m (extend_to False ?n b) = ?b"
    using lt by (simp_all add: ev_extend_to ws le take_bit_int_eq_self)
  have w: "bv_range (Suc ?n) ?a" "bv_range (Suc ?n) ?b" using lt by auto
  have s: "sgn_val (Suc ?n) ?a = ?a" "sgn_val (Suc ?n) ?b = ?b"
    using sgn_val_small [OF w(1)] sgn_val_small [OF w(2)] lt by auto
  have pos: "0 < ?b" using lt nz by linarith
  have "?a mod ?b < 2 ^ ?n" "0 \<le> ?a mod ?b"
    using pos_mod_bound [OF pos, of ?a] pos_mod_sign [OF pos, of ?a] lt by linarith+
  moreover from this have "take_bit (Suc ?n) (?a mod ?b) = ?a mod ?b"
    by (intro take_bit_int_eq_self) auto
  moreover from this have "bin BSmod (Suc ?n) ?a ?b = ?a mod ?b"
    using nz s bin_smod [OF w] by simp
  moreover have "0 < ?n" by (rule ws_pos [OF ws(3)])
  ultimately have "eval un bin prd m (Uop (Extract (?n - 1) 0)
      (Bop BSmod (Uop (Zext 1) (extend_to False ?n a)) (Uop (Zext 1) (extend_to False ?n b)))) =
    ?a mod ?b"
    using lt le un_extract [where w = "Suc ?n" and a = "?a mod ?b" and lo = 0 and hi = "?n - 1"]
    by (simp add: e un_zext take_bit_int_eq_self)
  then show ?thesis
    using ws le ws_pos [OF ws(3)]
    by (simp add: binary_assertion_mod_unsigned operand_width_full Let_def)
qed

lemma holds_shift:
  assumes t: "t \<in> {''$shl'', ''$sshl'', ''$shr'', ''$sshr''}"
    and ws: "ws a" "ws b" "ws y" and le: "bv_size a \<le> bv_size y" "bv_size b \<le> bv_size y"
    and n1: "bv_size y \<noteq> 1"
  shows "\<exists>f. binary_assertion t sa False a b y = Inr f \<and> wf_form f \<and>
    (holds un bin prd m f \<longleftrightarrow> eval un bin prd m y =
       (if t = ''$shl'' \<or> t = ''$sshl''
        then take_bit (bv_size y)
          (push_bit (nat (eval un bin prd m b)) (bv_val sa (bv_size a) (eval un bin prd m a)))
        else drop_bit (nat (eval un bin prd m b))
          (take_bit (bv_size y) (bv_val sa (bv_size a) (eval un bin prd m a)))))"
proof -
  let ?n = "bv_size y"
  note r = extend_to_range [OF ws(1) le(1), where s = sa and m = m]
    extend_to_range [OF ws(2) le(2), where s = False and m = m]
  have b: "eval un bin prd m (extend_to False ?n b) = eval un bin prd m b"
    using ev_extend_to_signed [OF ws(2) le(2), where s = False and m = m] by simp
  have nb: "bv_range ?n (eval un bin prd m b)" using r(2) b by simp
  have "eval un bin prd m (Bop (div_shift_bop t sa False) (extend_to sa ?n a) (extend_to False ?n b)) =
      (if t = ''$shl'' \<or> t = ''$sshl''
       then take_bit ?n (push_bit (nat (eval un bin prd m b)) (eval un bin prd m (extend_to sa ?n a)))
       else drop_bit (nat (eval un bin prd m b)) (eval un bin prd m (extend_to sa ?n a)))"
    using t le by (elim insertE emptyE; hypsubst)
      (simp_all add: div_shift_bop_def b bin_shl [OF r(1) nb] bin_lshr [OF r(1) nb])
  then show ?thesis
    using ws le t n1 by (simp add: binary_assertion_shift operand_width_full Let_def ev_extend_to
      take_bit_push_bit)
qed

end

section \<open>The gates\<close>

text \<open>
  A gate of two inputs in the map of the port expressions, with the signs of its parameters;
  and one with a single input.
\<close>

definition binary_gate ::
  "cell \<Rightarrow> string \<Rightarrow> port_exprs \<Rightarrow> bool \<Rightarrow> bool \<Rightarrow> bv \<Rightarrow> bv \<Rightarrow> bv \<Rightarrow> bool"
where
  "binary_gate c t pm sa sb a b y \<longleftrightarrow>
     c_type c = t \<and> length (c_ports c) = 3 \<and> length pm \<le> 3 \<and>
     map_of pm ''A'' = Some a \<and> map_of pm ''B'' = Some b \<and> map_of pm ''Y'' = Some y \<and>
     sign_param (c_parameters c) ''A_SIGNED'' = Inr sa \<and>
     sign_param (c_parameters c) ''B_SIGNED'' = Inr sb \<and> ws a \<and> ws b \<and> ws y"

definition unary_gate :: "cell \<Rightarrow> string \<Rightarrow> port_exprs \<Rightarrow> bv \<Rightarrow> bv \<Rightarrow> bool" where
  "unary_gate c t pm a y \<longleftrightarrow>
     c_type c = t \<and> length (c_ports c) = 2 \<and> length pm \<le> 3 \<and>
     map_of pm ''A'' = Some a \<and> map_of pm ''Y'' = Some y \<and> ws a \<and> ws y"

lemma gate_export_binary:
  "binary_gate c t pm sa sb a b y \<Longrightarrow> gate_export_smt2 GBinary c pm s =
   bnd (binary_assertion t sa sb a b y) (\<lambda>f. solver_add f s)"
  by (simp add: binary_gate_def gate_export_smt2_def pexpr_Some)

lemma gate_export_unary:
  "unary_gate c t pm a y \<Longrightarrow> is_unary k \<Longrightarrow> gate_export_smt2 k c pm s =
   bnd (get_cell_assertion_unary k c a y) (\<lambda>f. solver_add f s)"
  by (auto simp: unary_gate_def gate_export_smt2_def pexpr_Some)

lemma binary_gate_ws: "binary_gate c t pm sa sb a b y \<Longrightarrow> ws a \<and> ws b \<and> ws y"
  by (simp add: binary_gate_def)

lemma asserted:
  assumes "\<exists>f. m = Inr f \<and> wf_form f \<and> (P f \<longleftrightarrow> Q)"
  shows "\<exists>f. bnd m (\<lambda>f. solver_add f s) = Inr (s @ [f]) \<and> (P f \<longleftrightarrow> Q)"
  using assms by (auto simp: solver_add_def)

text \<open>A gate for the witnesses, with inputs and output of given widths.\<close>

definition sample_gate :: "string \<Rightarrow> int \<Rightarrow> nat \<Rightarrow> cell" where
  "sample_gate t sgd n =
     mk_cell ''g'' t (map (\<lambda>x. mk_port (\<lambda>_. 0) x '''' Input [] False) (take n [''A'', ''B'', ''Y'']))
       False (JObj [(''A_SIGNED'', JInt sgd), (''B_SIGNED'', JInt sgd)]) JNull"

definition sample_exprs :: "nat \<Rightarrow> nat \<Rightarrow> nat \<Rightarrow> port_exprs" where
  "sample_exprs wa wb wy =
     [(''A'', BVar ''a'' wa), (''B'', BVar ''b'' wb), (''Y'', BVar ''y'' wy)]"

lemmas sample_defs = sample_gate_def sample_exprs_def binary_gate_def unary_gate_def sign_param_def

text \<open>
  \<^bold>\<open>C26.\<close> Addition, subtraction and multiplication with an output at least as wide as the inputs:
  the export succeeds and asserts that the output is the result of the operation on the values
  of the inputs, each read with its own sign, modulo the range of the output.
\<close>

theorem gate_arith_full_width:
  assumes "smt_bv un bin prd"
    and "t \<in> {''$add'', ''$sub'', ''$mul''}" and "binary_gate c t pm sa sb a b y"
    and "bv_size a \<le> bv_size y" and "bv_size b \<le> bv_size y"
  shows "\<exists>f. gate_export_smt2 GBinary c pm s = Inr (s @ [f]) \<and>
    (holds un bin prd m f \<longleftrightarrow>
      eval un bin prd m y =
        arith_op t (bv_val sa (bv_size a) (eval un bin prd m a))
                   (bv_val sb (bv_size b) (eval un bin prd m b)) mod 2 ^ bv_size y)"
proof -
  note ws = binary_gate_ws [OF assms(3)]
  have "take_bit (bv_size y) (bv_val (sa \<and> sb) (bv_size y) (eval un bin prd m y)) =
      eval un bin prd m y"
    using smt_bv.ev_range [OF assms(1)] ws take_bit_sgn_val ws_pos
    by (auto simp: bv_val_def take_bit_int_eq_self)
  then show ?thesis
    unfolding gate_export_binary [OF assms(3)]
    using smt_bv.binary_arith [OF assms(1,2), of a b y sa sb m] ws
      operand_width_full [OF assms(4,5)]
    by (intro asserted) (simp add: take_bit_eq_mod)
qed

theorem gate_arith_full_width_witness:
  "\<exists>f. gate_export_smt2 GBinary (sample_gate ''$add'' 1 3) (sample_exprs 3 4 4) [] = Inr [f] \<and>
    (holds std_un std_bin std_prd (\<lambda>_. 7) f \<longleftrightarrow> (7::int) = 6 mod 16)"
  using gate_arith_full_width [OF std.smt_bv_axioms, of "''$add''" "sample_gate ''$add'' 1 3"
      "sample_exprs 3 4 4" True True "BVar ''a'' 3" "BVar ''b'' 4" "BVar ''y'' 4" "[]" "\<lambda>_. 7"]
  by (simp add: sample_defs arith_op_def bv_val_def sgn_val_def)

text \<open>
  With unsigned operands and an output narrower than an input, the asserted equation is
  over the width of the input: an assignment under which the exact result modulo that width does
  not fit the output is excluded, where the netlist truncates the result.
\<close>

theorem gate_arith_narrow_output:
  assumes "smt_bv un bin prd"
    and "t \<in> {''$add'', ''$sub'', ''$mul''}" and "binary_gate c t pm False False a b y"
  shows "\<exists>f. gate_export_smt2 GBinary c pm s = Inr (s @ [f]) \<and>
    (holds un bin prd m f \<longleftrightarrow>
      eval un bin prd m y =
        arith_op t (eval un bin prd m a) (eval un bin prd m b) mod 2 ^ operand_width a b y) \<and>
    (2 ^ bv_size y \<le>
        arith_op t (eval un bin prd m a) (eval un bin prd m b) mod 2 ^ operand_width a b y \<longrightarrow>
      \<not> holds un bin prd m f)"
proof -
  note ws = binary_gate_ws [OF assms(3)]
  have r: "bv_range (bv_size y) (eval un bin prd m y)"
    using smt_bv.ev_range [OF assms(1)] ws by simp
  then have "eval un bin prd m y mod 2 ^ operand_width a b y = eval un bin prd m y"
    using operand_width_le(3) [where a = a and b = b and y = y]
    by (auto intro!: mod_pos_pos_trivial elim: order.strict_trans2 intro: power_increasing)
  then show ?thesis
    unfolding gate_export_binary [OF assms(3)]
    using smt_bv.binary_arith [OF assms(1,2), of a b y False False m] ws r
    by (auto simp: solver_add_def)
qed

theorem gate_arith_narrow_output_witness:
  "\<exists>f. gate_export_smt2 GBinary (sample_gate ''$add'' 0 3) (sample_exprs 3 3 2) [] = Inr [f] \<and>
    \<not> holds std_un std_bin std_prd (\<lambda>(x, _). if x = ''a'' then 3 else if x = ''b'' then 2 else 1) f"
  using gate_arith_narrow_output [OF std.smt_bv_axioms, of "''$add''" "sample_gate ''$add'' 0 3"
      "sample_exprs 3 3 2" "BVar ''a'' 3" "BVar ''b'' 3" "BVar ''y'' 2" "[]"
      "\<lambda>(x, _). if x = ''a'' then 3 else if x = ''b'' then 2 else 1"]
  by (auto simp: sample_defs arith_op_def operand_width_def)

text \<open>
  The eight comparisons assert that the output is one exactly when the comparison holds
  of the values of the inputs, both signed or both unsigned, whatever the widths of the inputs
  and of the output are.
\<close>

theorem gate_comparisons:
  assumes "smt_bv un bin prd"
    and "t \<in> {''$eq'', ''$eqx'', ''$ne'', ''$nex'', ''$ge'', ''$gt'', ''$le'', ''$lt''}"
    and "binary_gate c t pm sg sg a b y"
  shows "\<exists>f. gate_export_smt2 GBinary c pm s = Inr (s @ [f]) \<and>
    (holds un bin prd m f \<longleftrightarrow>
      eval un bin prd m y =
        of_bool (compare_op t (bv_val sg (bv_size a) (eval un bin prd m a))
                              (bv_val sg (bv_size b) (eval un bin prd m b))))"
  unfolding gate_export_binary [OF assms(3)]
  using smt_bv.binary_compare [OF assms(1,2), of a b y sg m] binary_gate_ws [OF assms(3)]
  by (intro asserted) simp

theorem gate_comparisons_witness:
  "\<exists>f. gate_export_smt2 GBinary (sample_gate ''$lt'' 1 3) (sample_exprs 3 4 1) [] = Inr [f] \<and>
    holds std_un std_bin std_prd (\<lambda>(x, _). if x = ''a'' then 7 else 1) f"
  using gate_comparisons [OF std.smt_bv_axioms, of "''$lt''" "sample_gate ''$lt'' 1 3"
      "sample_exprs 3 4 1" True "BVar ''a'' 3" "BVar ''b'' 4" "BVar ''y'' 1" "[]"
      "\<lambda>(x, _). if x = ''a'' then 7 else 1"]
  by (simp add: sample_defs compare_op_def bv_val_def sgn_val_cases take_bit_eq_mod)

text \<open>
  The orderings, division and \<open>$pow\<close> are rejected with an exception where they are not
  supported: mixed signs for the former, always for the latter. Nothing is asserted.
\<close>

theorem gate_unsupported:
  assumes "binary_gate c t pm sa sb a b y"
    and "t = ''$pow'' \<or>
      t \<in> {''$div'', ''$ge'', ''$gt'', ''$le'', ''$lt''} \<and> sa \<noteq> sb"
  shows "\<exists>msg. gate_export_smt2 GBinary c pm s = Inl (RuntimeError msg)"
  unfolding gate_export_binary [OF assms(1)]
  using assms(2)
  by (elim disjE conjE insertE emptyE; hypsubst; cases sa; cases sb)
    (simp_all add: binary_assertion_def Let_def ordering_assertion_def mixed_signs_def)

theorem gate_unsupported_witness:
  "\<exists>msg. gate_export_smt2 GBinary (sample_gate ''$pow'' 0 3) (sample_exprs 3 3 3) [] =
    Inl (RuntimeError msg)"
  by (rule gate_unsupported [of _ "''$pow''" _ False False "BVar ''a'' 3" "BVar ''b'' 3" "BVar ''y'' 3"])
    (simp_all add: sample_defs)

text \<open>
  Division by a divisor other than zero, with an output at least as wide as the inputs,
  truncates towards zero; the remainder of unsigned inputs is the remainder of that division.
\<close>

theorem gate_division:
  assumes "smt_bv un bin prd" and "bv_size a \<le> bv_size y" and "bv_size b \<le> bv_size y"
    and "eval un bin prd m b \<noteq> 0"
  shows "(binary_gate c ''$div'' pm sg sg a b y \<longrightarrow>
      (\<exists>f. gate_export_smt2 GBinary c pm s = Inr (s @ [f]) \<and>
        (holds un bin prd m f \<longleftrightarrow> eval un bin prd m y = take_bit (bv_size y)
          (bv_val sg (bv_size a) (eval un bin prd m a) sdiv
           bv_val sg (bv_size b) (eval un bin prd m b))))) \<and>
    (binary_gate c ''$mod'' pm False False a b y \<longrightarrow>
      (\<exists>f. gate_export_smt2 GBinary c pm s = Inr (s @ [f]) \<and>
        (holds un bin prd m f \<longleftrightarrow>
          eval un bin prd m y = eval un bin prd m a mod eval un bin prd m b)))"
proof (intro conjI impI)
  assume g: "binary_gate c ''$div'' pm sg sg a b y"
  show "\<exists>f. gate_export_smt2 GBinary c pm s = Inr (s @ [f]) \<and>
      (holds un bin prd m f \<longleftrightarrow> eval un bin prd m y = take_bit (bv_size y)
        (bv_val sg (bv_size a) (eval un bin prd m a) sdiv
         bv_val sg (bv_size b) (eval un bin prd m b)))"
    unfolding gate_export_binary [OF g]
    using smt_bv.holds_div [OF assms(1)] binary_gate_ws [OF g] assms(2-4) by (intro asserted) blast
next
  assume g: "binary_gate c ''$mod'' pm False False a b y"
  show "\<exists>f. gate_export_smt2 GBinary c pm s = Inr (s @ [f]) \<and>
      (holds un bin prd m f \<longleftrightarrow>
        eval un bin prd m y = eval un bin prd m a mod eval un bin prd m b)"
    unfolding gate_export_binary [OF g]
    using smt_bv.holds_mod_unsigned [OF assms(1)] binary_gate_ws [OF g] assms(2-4)
    by (intro asserted) blast
qed

theorem gate_division_witness:
  "\<exists>f. gate_export_smt2 GBinary (sample_gate ''$div'' 0 3) (sample_exprs 3 3 3) [] = Inr [f] \<and>
    holds std_un std_bin std_prd (\<lambda>(x, _). if x = ''a'' then 7 else if x = ''b'' then 2 else 3) f"
  using gate_division [OF std.smt_bv_axioms, of "BVar ''a'' 3" "BVar ''y'' 3" "BVar ''b'' 3"
      "\<lambda>(x, _). if x = ''a'' then 7 else if x = ''b'' then 2 else 3" "sample_gate ''$div'' 0 3"
      "sample_exprs 3 3 3" False "[]"]
  by (simp add: sample_defs take_bit_eq_mod signed_divide_int_def sgn_if)

text \<open>
  The remainder of signed inputs is asserted with the sign of the divisor. It differs
  from the remainder of Verilog, which has the sign of the dividend, exactly when the operands
  have different signs and the division leaves a remainder.
\<close>

theorem gate_signed_remainder:
  assumes "smt_bv un bin prd" and "binary_gate c ''$mod'' pm True True a b y"
    and "bv_size a \<le> bv_size y" and "bv_size b \<le> bv_size y" and "eval un bin prd m b \<noteq> 0"
  shows "\<exists>f u v. gate_export_smt2 GBinary c pm s = Inr (s @ [f]) \<and>
    u = sgn_val (bv_size a) (eval un bin prd m a) \<and>
    v = sgn_val (bv_size b) (eval un bin prd m b) \<and>
    (holds un bin prd m f \<longleftrightarrow> eval un bin prd m y = take_bit (bv_size y) (u mod v)) \<and>
    (u smod v \<noteq> u mod v \<longleftrightarrow> (u < 0) \<noteq> (v < 0) \<and> u mod v \<noteq> 0)"
proof -
  note ws = binary_gate_ws [OF assms(2)]
  let ?u = "sgn_val (bv_size a) (eval un bin prd m a)"
  let ?v = "sgn_val (bv_size b) (eval un bin prd m b)"
  have "take_bit (bv_size b) ?v = eval un bin prd m b"
    by (rule take_bit_sgn_val) (use smt_bv.ev_range [OF assms(1)] ws ws_pos in auto)
  with assms(5) have "?v \<noteq> 0" by auto
  then have d: "?u smod ?v \<noteq> ?u mod ?v \<longleftrightarrow> (?u < 0) \<noteq> (?v < 0) \<and> ?u mod ?v \<noteq> 0"
    by (rule smod_differs_iff)
  have "\<exists>f. gate_export_smt2 GBinary c pm s = Inr (s @ [f]) \<and>
    (holds un bin prd m f \<longleftrightarrow> eval un bin prd m y = take_bit (bv_size y) (?u mod ?v))"
    unfolding gate_export_binary [OF assms(2)]
    by (rule asserted, rule smt_bv.holds_mod_signed [OF assms(1) _ _ _ assms(3-5)]) (use ws in auto)
  then obtain f where f: "gate_export_smt2 GBinary c pm s = Inr (s @ [f])"
    "holds un bin prd m f \<longleftrightarrow> eval un bin prd m y = take_bit (bv_size y) (?u mod ?v)"
    by blast
  show ?thesis by (rule exI [of _ f], rule exI [of _ ?u], rule exI [of _ ?v]) (intro conjI refl f d)
qed

theorem gate_signed_remainder_witness:
  "\<exists>f. gate_export_smt2 GBinary (sample_gate ''$mod'' 1 3) (sample_exprs 4 4 4) [] = Inr [f] \<and>
    \<not> holds std_un std_bin std_prd (\<lambda>(x, _). if x = ''a'' then 9 else if x = ''b'' then 3 else 15) f"
proof -
  let ?m = "\<lambda>(x, _). if x = ''a'' then 9 else if x = ''b'' then 3 else 15 :: int"
  have "binary_gate (sample_gate ''$mod'' 1 3) ''$mod'' (sample_exprs 4 4 4) True True
      (BVar ''a'' 4) (BVar ''b'' 4) (BVar ''y'' 4)"
    by (simp add: sample_defs)
  from gate_signed_remainder [OF std.smt_bv_axioms this, of ?m "[]"] show ?thesis
    by (auto simp: sample_defs sgn_val_cases take_bit_eq_mod)
qed

text \<open>
  \<^bold>\<open>C27.\<close> Shifts by an unsigned amount, with an output of at least two bits and as wide as the
  inputs: to the left with the low bits filled by zeros, to the right with zeros from the top.
  This holds of \<open>$sshr\<close> too when its first input is signed and the amount is not, as the amount
  usually is, where the arithmetic shift of Verilog copies the sign.
\<close>

theorem gate_shifts:
  assumes "smt_bv un bin prd" and "t \<in> {''$shl'', ''$sshl'', ''$shr'', ''$sshr''}"
    and "binary_gate c t pm sa False a b y"
    and "bv_size a \<le> bv_size y" and "bv_size b \<le> bv_size y" and "bv_size y \<noteq> 1"
  shows "\<exists>f. gate_export_smt2 GBinary c pm s = Inr (s @ [f]) \<and>
    (holds un bin prd m f \<longleftrightarrow> eval un bin prd m y =
       (let v = bv_val sa (bv_size a) (eval un bin prd m a); k = nat (eval un bin prd m b) in
        if t = ''$shl'' \<or> t = ''$sshl'' then take_bit (bv_size y) (push_bit k v)
        else drop_bit k (take_bit (bv_size y) v)))"
  unfolding gate_export_binary [OF assms(3)] Let_def
  using smt_bv.holds_shift [OF assms(1,2) _ _ _ assms(4-6), of sa m] binary_gate_ws [OF assms(3)]
  by (intro asserted) simp

theorem gate_shifts_witness:
  "\<exists>f. gate_export_smt2 GBinary
      ((sample_gate ''$sshr'' 0 3)\<lparr>c_parameters := JObj [(''A_SIGNED'', JInt 1), (''B_SIGNED'', JInt 0)]\<rparr>)
      (sample_exprs 4 2 4) [] = Inr [f] \<and>
    holds std_un std_bin std_prd (\<lambda>(x, _). if x = ''a'' then 8 else if x = ''b'' then 1 else 4) f"
proof -
  let ?m = "\<lambda>(x, _). if x = ''a'' then 8 else if x = ''b'' then 1 else 4 :: int"
  let ?c = "(sample_gate ''$sshr'' 0 3)\<lparr>c_parameters := JObj [(''A_SIGNED'', JInt 1), (''B_SIGNED'', JInt 0)]\<rparr>"
  have "binary_gate ?c ''$sshr'' (sample_exprs 4 2 4) True False
      (BVar ''a'' 4) (BVar ''b'' 2) (BVar ''y'' 4)"
    by (simp add: sample_defs mk_cell_def)
  from gate_shifts [OF std.smt_bv_axioms _ this, of "[]" ?m] show ?thesis
    by (auto simp: sample_defs bv_val_def sgn_val_cases take_bit_eq_mod drop_bit_eq_div)
qed

section \<open>Logic, bitwise and reduction gates\<close>

lemma gate_export_ternary:
  assumes "binary_gate c t pm sa sb a b y" and "\<not> is_unary k"
  shows "gate_export_smt2 k c pm s =
    bnd (get_cell_assertion_binary k c a b y) (\<lambda>f. solver_add f s)"
  using assms by (auto simp: binary_gate_def gate_export_smt2_def pexpr_Some)

text \<open>
  The logic gates assert that the output is one when both inputs (one of the inputs) are
  not zero and zero otherwise, for inputs and outputs of any widths.
\<close>

theorem gate_logic:
  assumes "smt_bv un bin prd" and "binary_gate c t pm sa sb a b y"
  shows "\<exists>f g. gate_export_smt2 GLogicAnd c pm s = Inr (s @ [f]) \<and>
    gate_export_smt2 GLogicOr c pm s = Inr (s @ [g]) \<and>
    (holds un bin prd m f \<longleftrightarrow> eval un bin prd m y =
      of_bool (eval un bin prd m a \<noteq> 0 \<and> eval un bin prd m b \<noteq> 0)) \<and>
    (holds un bin prd m g \<longleftrightarrow> eval un bin prd m y =
      of_bool (eval un bin prd m a \<noteq> 0 \<or> eval un bin prd m b \<noteq> 0))"
proof -
  note ws = binary_gate_ws [OF assms(2)]
  then have "0 < bv_size y" by (simp add: ws_pos)
  then show ?thesis
    using ws smt_bv.ev_bool_ite [OF assms(1), of "bv_size y"] smt_bv.holds_ne_num [OF assms(1), where t = a and i = 0]
      smt_bv.holds_ne_num [OF assms(1), where t = b and i = 0]
    by (simp add: gate_export_ternary [OF assms(2)] solver_add_def) (simp add: bool_ite_def)
qed

theorem gate_logic_witness:
  "\<exists>f g. gate_export_smt2 GLogicAnd (sample_gate ''$logic_and'' 0 3) (sample_exprs 2 3 1) [] = Inr [f] \<and>
    gate_export_smt2 GLogicOr (sample_gate ''$logic_and'' 0 3) (sample_exprs 2 3 1) [] = Inr [g] \<and>
    \<not> holds std_un std_bin std_prd (\<lambda>(x, _). if x = ''a'' then 2 else if x = ''b'' then 0 else 1) f \<and>
    holds std_un std_bin std_prd (\<lambda>(x, _). if x = ''a'' then 2 else if x = ''b'' then 0 else 1) g"
  using gate_logic [OF std.smt_bv_axioms, of "sample_gate ''$logic_and'' 0 3" "''$logic_and''"
      "sample_exprs 2 3 1" False False "BVar ''a'' 2" "BVar ''b'' 3" "BVar ''y'' 1" "[]"
      "\<lambda>(x, _). if x = ''a'' then 2 else if x = ''b'' then 0 else 1"]
  by (auto simp: sample_defs take_bit_eq_mod)

text \<open>
  The bitwise gates: conjunction of three equal widths, disjunction and exclusive or (and
  its complement) of unsigned inputs no wider than the output, whose bits are those of the
  operator applied to the values.
\<close>

theorem gate_bitwise:
  assumes "smt_bv un bin prd" and "binary_gate c t pm False False a b y"
    and "bv_size a \<le> bv_size y" and "bv_size b \<le> bv_size y"
  shows "(bv_size a = bv_size y \<and> bv_size b = bv_size y \<longrightarrow>
      (\<exists>f. gate_export_smt2 GAnd c pm s = Inr (s @ [f]) \<and>
        (holds un bin prd m f \<longleftrightarrow> eval un bin prd m y = eval un bin prd m a AND eval un bin prd m b))) \<and>
    (max (bv_size a) (bv_size b) = bv_size y \<longrightarrow>
      (\<exists>f. gate_export_smt2 GOr c pm s = Inr (s @ [f]) \<and>
        (holds un bin prd m f \<longleftrightarrow> eval un bin prd m y = eval un bin prd m a OR eval un bin prd m b))) \<and>
    (t = ''$xor'' \<longrightarrow>
      (\<exists>f. gate_export_smt2 GXor c pm s = Inr (s @ [f]) \<and>
        (holds un bin prd m f \<longleftrightarrow> eval un bin prd m y = eval un bin prd m a XOR eval un bin prd m b))) \<and>
    (t = ''$xnor'' \<longrightarrow>
      (\<exists>f. gate_export_smt2 GXnor c pm s = Inr (s @ [f]) \<and>
        (holds un bin prd m f \<longleftrightarrow> eval un bin prd m y =
          2 ^ bv_size y - 1 - (eval un bin prd m a XOR eval un bin prd m b))))"
proof -
  let ?n = "bv_size y"
  note ws = binary_gate_ws [OF assms(2)]
  note r = smt_bv.ev_range [OF assms(1), of a m] smt_bv.ev_range [OF assms(1), of b m]
  have lt: "bv_range ?n (eval un bin prd m a)" "bv_range ?n (eval un bin prd m b)"
    using r ws assms(3,4) by (auto intro: order.strict_trans2 power_increasing)
  note o = smt_bv.bin_and [OF assms(1) lt] smt_bv.bin_or [OF assms(1) lt]
    smt_bv.bin_xor [OF assms(1) lt]
  have e: "eval un bin prd m (extend_to False ?n a) = eval un bin prd m a"
    "eval un bin prd m (extend_to False ?n b) = eval un bin prd m b"
    using lt ws assms(3,4) by (simp_all add: smt_bv.ev_extend_to [OF assms(1)] take_bit_int_eq_self)
  have x: "bv_range ?n (eval un bin prd m a XOR eval un bin prd m b)"
    using lt XOR_upper [of "eval un bin prd m a" ?n] by auto
  have n: "max (bv_size a) (max (bv_size b) ?n) = ?n" using assms(3,4) by simp
  show ?thesis
  proof (intro conjI impI)
    assume "bv_size a = ?n \<and> bv_size b = ?n"
    then show "\<exists>f. gate_export_smt2 GAnd c pm s = Inr (s @ [f]) \<and>
        (holds un bin prd m f \<longleftrightarrow> eval un bin prd m y = eval un bin prd m a AND eval un bin prd m b)"
      using ws o assms(2) by (simp add: gate_export_smt2_def binary_gate_def pexpr_Some solver_add_def)
  next
    assume "max (bv_size a) (bv_size b) = ?n"
    then show "\<exists>f. gate_export_smt2 GOr c pm s = Inr (s @ [f]) \<and>
        (holds un bin prd m f \<longleftrightarrow> eval un bin prd m y = eval un bin prd m a OR eval un bin prd m b)"
      using ws o assms(2) r smt_bv.un_zext [OF assms(1)]
      by (simp add: gate_export_ternary [OF assms(2)] binary_gate_def or_assertion_def solver_add_def
          Let_def max_def split: if_splits)
  next
    assume "t = ''$xor''"
    then show "\<exists>f. gate_export_smt2 GXor c pm s = Inr (s @ [f]) \<and>
        (holds un bin prd m f \<longleftrightarrow> eval un bin prd m y = eval un bin prd m a XOR eval un bin prd m b)"
      using ws o assms(2-4) e by (simp add: gate_export_ternary [OF assms(2)] binary_gate_def
          binary_assertion_def solver_add_def Let_def n)
  next
    assume "t = ''$xnor''"
    then show "\<exists>f. gate_export_smt2 GXnor c pm s = Inr (s @ [f]) \<and>
        (holds un bin prd m f \<longleftrightarrow> eval un bin prd m y =
          2 ^ ?n - 1 - (eval un bin prd m a XOR eval un bin prd m b))"
      using ws o assms(2-4) e smt_bv.un_not [OF assms(1) x]
      by (simp add: gate_export_ternary [OF assms(2)] binary_gate_def
          binary_assertion_def solver_add_def Let_def n)
  qed
qed

theorem gate_bitwise_witness:
  "\<exists>f. gate_export_smt2 GXnor (sample_gate ''$xnor'' 0 3) (sample_exprs 2 3 4) [] = Inr [f] \<and>
    holds std_un std_bin std_prd (\<lambda>(x, _). if x = ''a'' then 3 else if x = ''b'' then 1 else 13) f"
  using gate_bitwise [OF std.smt_bv_axioms, of "sample_gate ''$xnor'' 0 3" "''$xnor''"
      "sample_exprs 2 3 4" "BVar ''a'' 2" "BVar ''b'' 3" "BVar ''y'' 4" "[]"
      "\<lambda>(x, _). if x = ''a'' then 3 else if x = ''b'' then 1 else 13"]
  by (auto simp: sample_defs take_bit_eq_mod)

text \<open>
  \<^bold>\<open>C28.\<close> The reductions: with an output of one bit the conjunction and the disjunction of all
  bits of the input are asserted, and a wider output is rejected by the solver. The exclusive or
  is accepted only when input and output both have one bit, so the parity of a vector is never
  asserted.
\<close>

theorem gate_reductions:
  assumes "smt_bv un bin prd" and "unary_gate c t pm a y"
  shows "(bv_size y = 1 \<longrightarrow>
      (\<exists>f g. gate_export_smt2 GReduceAnd c pm s = Inr (s @ [f]) \<and>
        gate_export_smt2 GReduceOr c pm s = Inr (s @ [g]) \<and>
        (holds un bin prd m f \<longleftrightarrow>
          eval un bin prd m y = of_bool (eval un bin prd m a = 2 ^ bv_size a - 1)) \<and>
        (holds un bin prd m g \<longleftrightarrow> eval un bin prd m y = of_bool (eval un bin prd m a \<noteq> 0)))) \<and>
    (bv_size y \<noteq> 1 \<longrightarrow>
      gate_export_smt2 GReduceAnd c pm s = Inl Z3Exception \<and>
      gate_export_smt2 GReduceOr c pm s = Inl Z3Exception) \<and>
    (\<forall>k \<in> {GReduceXor, GReduceXnor}. gate_export_smt2 k c pm s =
      (if bv_size y = 1 \<and> bv_size a = 1
       then Inr (s @ [(if k = GReduceXor then FEq else FNe) y a]) else Inl Z3Exception))"
proof -
  have ws: "ws a" "ws y" using assms(2) by (simp_all add: unary_gate_def)
  note r = smt_bv.ev_range [OF assms(1) ws(1), of m]
  show ?thesis
    using ws smt_bv.un_redor [OF assms(1) r] smt_bv.un_redand [OF assms(1) r]
    by (auto simp: gate_export_unary [OF assms(2)] solver_add_def bit_sum_def)
qed

theorem gate_reductions_witness:
  "gate_export_smt2 GReduceXor (sample_gate ''$reduce_xor'' 0 2)
     [(''A'', BVar ''a'' 4), (''Y'', BVar ''y'' 1)] [] = Inl Z3Exception"
  using gate_reductions [OF std.smt_bv_axioms, of "sample_gate ''$reduce_xor'' 0 2" "''$reduce_xor''"
      "[(''A'', BVar ''a'' 4), (''Y'', BVar ''y'' 1)]" "BVar ''a'' 4" "BVar ''y'' 1" "[]"]
  by (simp add: sample_defs)

end
