(* ===== verification/RegisterSmt.thy ===== *)
theory RegisterSmt
  imports Registers GateSmt
begin

text \<open>
  What the assertions of the flip-flops and latches mean to the solver: the value of \<open>Q\<close> as a
  function of the inputs and of the value \<open>Q_prev\<close> of the step before. \<open>next_value\<close> is the
  behaviour the cells have in common.
\<close>

section \<open>The next value of a register\<close>

definition next_value :: "(bool \<times> int) list \<Rightarrow> int \<Rightarrow> int" where
  "next_value guarded hold = foldr (\<lambda>(c, v) r. if c then v else r) guarded hold"

lemma next_value_simps [simp]:
  "next_value [] r = r" "next_value ((c, v) # gs) r = (if c then v else next_value gs r)"
  by (simp_all add: next_value_def)

context smt_bv
begin

lemma holds_active: "ws t \<Longrightarrow> holds un bin prd m (active t high) \<longleftrightarrow> eval un bin prd m t = of_bool high"
  using ws_pos [of t] by (simp add: active_def eq_num_def take_bit_int_eq_self)

end

lemma wf_active [simp]: "ws t \<Longrightarrow> wf_form (active t high)"
  by (simp add: active_def)

lemma bit_at_simps [simp]:
  "bv_size (bit_at t i) = 1" "ws (bit_at t i) \<longleftrightarrow> ws t \<and> i < bv_size t"
  by (simp_all add: bit_at_def)

text \<open>The value of a reset constant that is not undefined.\<close>

lemma reset_expr_defined:
  assumes "\<not> str_contains v ''x''" "\<not> str_contains v ''z''" "read v = Inr i" "unat w < 2 ^ 32"
  shows "reset_expr read v w = Inr (BVal i (unat w))"
  using assms by (simp add: reset_expr_def narrow32_def)

section \<open>Digits of a reset value\<close>

text \<open>
  A netlist gives a reset value in binary digits, as many as the register has bits.
\<close>

lemma str_contains_single: "str_contains s [a] \<longleftrightarrow> a \<in> set s"
  by (auto simp: str_contains_def str_find_def find_idx_single)

lemma binary_defined:
  "set ds \<subseteq> {CHR ''0'', CHR ''1''} \<Longrightarrow> \<not> str_contains ds ''x'' \<and> \<not> str_contains ds ''z''"
  by (auto simp: str_contains_single)

lemma stoul2_digits:
  "set ds \<subseteq> {CHR ''0'', CHR ''1''} \<Longrightarrow> ds \<noteq> [] \<Longrightarrow>
    stoul2 ds = (if digits_value 2 ds < 2 ^ 64 then Inr (int (digits_value 2 ds)) else Inl OutOfRange)"
  by (simp add: stoul2_def stoull_def strto_digits unsigned_of_nat take_bit_nat_eq_self)

lemma stoi10_digits:
  "set ds \<subseteq> {CHR ''0'', CHR ''1''} \<Longrightarrow> ds \<noteq> [] \<Longrightarrow>
    stoi 10 ds = (if digits_value 10 ds < 2 ^ 31 then Inr (int (digits_value 10 ds)) else Inl OutOfRange)"
  by (auto simp: stoi_def strto_digits Let_def)

lemma reset_expr_error: "set ds \<subseteq> {CHR ''0'', CHR ''1''} \<Longrightarrow> read ds = Inl e \<Longrightarrow> reset_expr read ds w = Inl e"
  using binary_defined [of ds] by (simp add: reset_expr_def)

section \<open>Flip-flops\<close>

text \<open>The expressions of a flip-flop with its value in the step before.\<close>

definition reg_exprs :: "port_exprs \<Rightarrow> (string \<times> bv \<times> nat) list \<Rightarrow> bool" where
  "reg_exprs pm ps \<longleftrightarrow> (\<forall>(k, t, w) \<in> set ps. map_of pm k = Some t \<and> ws t \<and> bv_size t = w)"

lemma reg_exprs_simps [simp]:
  "reg_exprs pm []"
  "reg_exprs pm ((k, t, w) # ps) \<longleftrightarrow> map_of pm k = Some t \<and> ws t \<and> bv_size t = w \<and> reg_exprs pm ps"
  by (auto simp: reg_exprs_def)

text \<open>
  \<^bold>\<open>C29.\<close> The flip-flops with an asynchronous reset whose value the netlist gives in binary digits, leading
  zeros included, assert: \<open>Q\<close> is the reset value (modulo the width) while the reset is at its active
  level, the input otherwise, and with an enable its own previous value while that is inactive. The
  export fails when the reset value needs more than 64 bits.
\<close>

theorem async_reset_next_state:
  assumes "smt_bv un bin prd" and "set ds \<subseteq> {CHR ''0'', CHR ''1''}" and "ds \<noteq> []"
    and "0 < unat n" and "unat n < 2 ^ 32"
    and "reg_exprs pm [(''Q'', q, unat n), (''D'', d, unat n), (''ARST'', r, 1)]"
  shows "(length pm \<le> 4 \<and> adff.arst_value c = ds \<and> width c = n \<longrightarrow>
      (if digits_value 2 ds < 2 ^ 64 then
        (\<exists>f. adff_export_smt2 c pm s = Inr (s @ [f]) \<and>
          (holds un bin prd m f \<longleftrightarrow> eval un bin prd m q =
            next_value [(eval un bin prd m r = of_bool (adff.arst_active_high c), int (digits_value 2 ds) mod 2 ^ unat n)]
              (eval un bin prd m d)))
       else adff_export_smt2 c pm s = Inl OutOfRange)) \<and>
    (length pm \<le> 6 \<and> adffe.arst_value e = ds \<and> width e = n \<and>
     reg_exprs pm [(''EN'', en, 1), (''Q_prev'', p, unat n)] \<longrightarrow>
      (if digits_value 2 ds < 2 ^ 64 then
        (\<exists>f. adffe_export_smt2 e pm s = Inr (s @ [f]) \<and>
          (holds un bin prd m f \<longleftrightarrow> eval un bin prd m q =
            next_value
              [(eval un bin prd m r = of_bool (adffe.arst_active_high e), int (digits_value 2 ds) mod 2 ^ unat n),
               (eval un bin prd m en = of_bool (adffe.en_active_high e), eval un bin prd m d)]
              (eval un bin prd m p)))
       else adffe_export_smt2 e pm s = Inl OutOfRange))"
  using assms(4-6) binary_defined [OF assms(2)] smt_bv.holds_active [OF assms(1)] reset_expr_error [OF assms(2)]
  by (auto simp: adff_export_smt2_def adffe_export_smt2_def reset_expr_defined stoul2_digits [OF assms(2,3)] pexpr_Some
      solver_add_def take_bit_eq_mod)

abbreviation sample_adff :: "string \<Rightarrow> adff" where
  "sample_adff v \<equiv> basic_dff.extend (cell.extend (sample_gate ''$adff'' 0 0) (basic_dff.fields True 4)) (adff.fields True v)"

theorem async_reset_next_state_witness:
  "\<exists>f. adff_export_smt2 (sample_adff ''0110'')
      [(''Q'', BVar ''q'' 4), (''D'', BVar ''d'' 4), (''ARST'', BVar ''r'' 1)] [] = Inr [f] \<and>
    holds std_un std_bin std_prd (\<lambda>(x, _). if x = ''q'' then 6 else if x = ''r'' then 1 else 0) f"
  using async_reset_next_state [OF std.smt_bv_axioms, of "''0110''" 4
      "[(''Q'', BVar ''q'' 4), (''D'', BVar ''d'' 4), (''ARST'', BVar ''r'' 1)]"
      "BVar ''q'' 4" "BVar ''d'' 4" "BVar ''r'' 1" "sample_adff ''0110''" "[]"
      "\<lambda>(x, _). if x = ''q'' then 6 else if x = ''r'' then 1 else 0"]
  by (simp add: basic_dff.defs cell.defs adff.defs take_bit_eq_mod digits_value_def digit_val_def)

text \<open>
  \<^bold>\<open>C30.\<close> The flip-flops with a synchronous reset, with and without an enable, read the reset value, which the
  netlist gives in binary digits, as a decimal number: the reset forces \<open>Q\<close> to that number modulo the
  width, and the export fails when the number does not fit an \<open>int\<close>, as eleven significant digits never do.
\<close>

theorem sync_reset_reads_decimal:
  assumes "smt_bv un bin prd" and "set ds \<subseteq> {CHR ''0'', CHR ''1''}" and "ds \<noteq> []"
    and "0 < unat n" and "unat n < 2 ^ 32"
    and "reg_exprs pm [(''Q'', q, unat n), (''D'', d, unat n), (''SRST'', r, 1)]"
  shows "(length pm \<le> 4 \<and> sdff.srst_value c = ds \<and> width c = n \<longrightarrow>
      (if digits_value 10 ds < 2 ^ 31 then
        (\<exists>f. sdff_export_smt2 c pm s = Inr (s @ [f]) \<and>
          (holds un bin prd m f \<longleftrightarrow> eval un bin prd m q =
            next_value [(eval un bin prd m r = of_bool (sdff.srst_active_high c), int (digits_value 10 ds) mod 2 ^ unat n)]
              (eval un bin prd m d)))
       else sdff_export_smt2 c pm s = Inl OutOfRange)) \<and>
    (length pm \<le> 6 \<and> sdffe.srst_value e = ds \<and> width e = n \<and>
     reg_exprs pm [(''EN'', en, 1), (''Q_prev'', p, unat n)] \<longrightarrow>
      (if digits_value 10 ds < 2 ^ 31 then
        (\<exists>f. sdffe_export_smt2 e pm s = Inr (s @ [f]) \<and>
          (holds un bin prd m f \<longleftrightarrow> eval un bin prd m q =
            next_value
              [(eval un bin prd m r = of_bool (sdffe.srst_active_high e), int (digits_value 10 ds) mod 2 ^ unat n),
               (eval un bin prd m en = of_bool (sdffe.en_active_high e), eval un bin prd m d)]
              (eval un bin prd m p)))
       else sdffe_export_smt2 e pm s = Inl OutOfRange))"
  using assms(4-6) binary_defined [OF assms(2)] smt_bv.holds_active [OF assms(1)] reset_expr_error [OF assms(2)]
  by (auto simp: sdff_export_smt2_def sdffe_export_smt2_def reset_expr_defined stoi10_digits [OF assms(2,3)] pexpr_Some
      solver_add_def take_bit_eq_mod)

abbreviation sample_sdffe :: "string \<Rightarrow> sdffe" where
  "sample_sdffe v \<equiv> basic_dff.extend (cell.extend (sample_gate ''$sdffe'' 0 0) (basic_dff.fields True 4)) (sdffe.fields True v True)"

theorem sync_reset_reads_decimal_witness:
  "\<exists>f. sdffe_export_smt2 (sample_sdffe ''0010'')
      [(''Q'', BVar ''q'' 4), (''D'', BVar ''d'' 4), (''SRST'', BVar ''r'' 1), (''EN'', BVar ''e'' 1),
       (''Q_prev'', BVar ''p'' 4)] [] = Inr [f] \<and>
    holds std_un std_bin std_prd (\<lambda>(x, _). if x = ''q'' then 10 else 1) f"
  using sync_reset_reads_decimal [OF std.smt_bv_axioms, of "''0010''" 4
      "[(''Q'', BVar ''q'' 4), (''D'', BVar ''d'' 4), (''SRST'', BVar ''r'' 1), (''EN'', BVar ''e'' 1),
        (''Q_prev'', BVar ''p'' 4)]"
      "BVar ''q'' 4" "BVar ''d'' 4" "BVar ''r'' 1" "undefined" "[]" "\<lambda>(x, _). if x = ''q'' then 10 else 1"
      "sample_sdffe ''0010''" "BVar ''e'' 1" "BVar ''p'' 4"]
  by (simp add: basic_dff.defs cell.defs sdffe.defs take_bit_eq_mod digits_value_def digit_val_def)

text \<open>
  The flip-flops without reset value: \<open>Q\<close> is the input, the loaded value while the load
  is active, and with an enable the previous value while the enable is inactive.
\<close>

theorem load_enable_next_state:
  assumes "smt_bv un bin prd"
    and "reg_exprs pm [(''Q'', q, n), (''D'', d, n), (''AD'', a, n), (''ALOAD'', l, 1),
      (''EN'', en, 1), (''Q_prev'', p, n)]"
  shows "(length pm \<le> 5 \<longrightarrow>
      (\<exists>f. aldff_export_smt2 c pm s = Inr (s @ [f]) \<and>
        (holds un bin prd m f \<longleftrightarrow> eval un bin prd m q =
          next_value [(eval un bin prd m l = of_bool (aldff.aload_active_high c), eval un bin prd m a)]
            (eval un bin prd m d)))) \<and>
    (length pm \<le> 5 \<longrightarrow>
      (\<exists>f. dffe_export_smt2 e pm s = Inr (s @ [f]) \<and>
        (holds un bin prd m f \<longleftrightarrow> eval un bin prd m q =
          next_value [(eval un bin prd m en = of_bool (dffe.en_active_high e), eval un bin prd m d)]
            (eval un bin prd m p)))) \<and>
    (length pm \<le> 7 \<longrightarrow>
      (\<exists>f. aldffe_export_smt2 g pm s = Inr (s @ [f]) \<and>
        (holds un bin prd m f \<longleftrightarrow> eval un bin prd m q =
          next_value
            [(eval un bin prd m l = of_bool (aldffe.aload_active_high g), eval un bin prd m a),
             (eval un bin prd m en = of_bool (aldffe.en_active_high g), eval un bin prd m d)]
            (eval un bin prd m p))))"
  using assms(2) smt_bv.holds_active [OF assms(1)]
  by (auto simp: aldff_export_smt2_def dffe_export_smt2_def aldffe_export_smt2_def pexpr_Some
      solver_add_def)

theorem load_enable_next_state_witness:
  "\<exists>f. aldffe_export_smt2
      (basic_dff.extend (cell.extend (sample_gate ''$aldffe'' 0 0) (basic_dff.fields True 4))
        (aldffe.fields True True))
      [(''Q'', BVar ''q'' 4), (''D'', BVar ''d'' 4), (''AD'', BVar ''a'' 4), (''ALOAD'', BVar ''l'' 1),
       (''EN'', BVar ''e'' 1), (''Q_prev'', BVar ''p'' 4)] [] = Inr [f] \<and>
    holds std_un std_bin std_prd (\<lambda>(x, _). if x = ''q'' \<or> x = ''p'' then 5 else 0) f"
  using load_enable_next_state [OF std.smt_bv_axioms, of
      "[(''Q'', BVar ''q'' 4), (''D'', BVar ''d'' 4), (''AD'', BVar ''a'' 4), (''ALOAD'', BVar ''l'' 1),
       (''EN'', BVar ''e'' 1), (''Q_prev'', BVar ''p'' 4)]"
      "BVar ''q'' 4" 4 "BVar ''d'' 4" "BVar ''a'' 4" "BVar ''l'' 1" "BVar ''e'' 1" "BVar ''p'' 4"
      undefined "[]" "\<lambda>(x, _). if x = ''q'' \<or> x = ''p'' then 5 else 0" undefined
      "basic_dff.extend (cell.extend (sample_gate ''$aldffe'' 0 0) (basic_dff.fields True 4))
        (aldffe.fields True True)"]
  by (simp add: basic_dff.defs cell.defs aldffe.defs take_bit_eq_mod)

section \<open>Set and clear for each bit\<close>

lemma foldM_solver_add:
  "(\<And>i. i \<in> set is \<Longrightarrow> wf_form (F i)) \<Longrightarrow>
   foldM (\<lambda>i s. solver_add (F i) s) is s = Inr (s @ map F is)"
  by (induction "is" arbitrary: s) (simp_all add: solver_add_def)

lemma asserted_bits:
  assumes "m = Inr (s @ map F [0..<n])" and "\<And>i. i < n \<Longrightarrow> P (F i) \<longleftrightarrow> Q i"
  shows "\<exists>fs. m = Inr (s @ fs) \<and> ((\<forall>f \<in> set fs. P f) \<longleftrightarrow> (\<forall>i < n. Q i))"
  using assms by (intro exI [of _ "map F [0..<n]"]) auto

lemma all_less_2: "(\<forall>i < 2. P i) \<longleftrightarrow> P 0 \<and> P (1::nat)"
  by (auto simp: less_2_cases_iff)

context smt_bv
begin

lemma ev_bit_at:
  "ws t \<Longrightarrow> i < bv_size t \<Longrightarrow> eval un bin prd m (bit_at t i) = of_bool (bit (eval un bin prd m t) i)"
  using ev_range [of t m] un_extract [where w = "bv_size t" and lo = i and hi = i]
  by (simp add: bit_at_def bit_iff_odd_drop_bit take_bit_Suc mod_2_eq_odd)

end

text \<open>
  The flip-flops with set and clear assert one equation for each bit: a bit of \<open>Q\<close> is
  zero while its clear is active, else one while its set is active, else the bit of the input,
  or with an enable that is not active the bit of the previous value. Clear wins over set.
\<close>

theorem set_clear_next_state:
  assumes "smt_bv un bin prd"
    and "reg_exprs pm [(''Q'', q, n), (''D'', d, n), (''SET'', st, n), (''CLR'', cl, n)]"
  shows "(length pm \<le> 5 \<longrightarrow>
      (\<exists>fs. dffsr_export_smt2 c pm s = Inr (s @ fs) \<and>
        ((\<forall>f \<in> set fs. holds un bin prd m f) \<longleftrightarrow>
          (\<forall>i < n. bit (eval un bin prd m q) i =
            (if bit (eval un bin prd m cl) i = dffsr.clr_active_high c then False
             else if bit (eval un bin prd m st) i = dffsr.set_active_high c then True
             else bit (eval un bin prd m d) i))))) \<and>
    (length pm \<le> 7 \<and> reg_exprs pm [(''EN'', en, 1), (''Q_prev'', p, n)] \<longrightarrow>
      (\<exists>fs. dffsre_export_smt2 e pm s = Inr (s @ fs) \<and>
        ((\<forall>f \<in> set fs. holds un bin prd m f) \<longleftrightarrow>
          (\<forall>i < n. bit (eval un bin prd m q) i =
            (if bit (eval un bin prd m cl) i = dffsre.clr_active_high e then False
             else if bit (eval un bin prd m st) i = dffsre.set_active_high e then True
             else if eval un bin prd m en = of_bool (dffsre.en_active_high e)
               then bit (eval un bin prd m d) i
             else bit (eval un bin prd m p) i)))))"
proof (intro conjI impI)
  note h = smt_bv.holds_active [OF assms(1)] and b = smt_bv.ev_bit_at [OF assms(1)]
  have x: "map_of pm ''Q'' = Some q" "map_of pm ''D'' = Some d" "map_of pm ''SET'' = Some st"
      "map_of pm ''CLR'' = Some cl"
    and w: "ws q" "ws d" "ws st" "ws cl"
    and n: "bv_size q = n" "bv_size d = n" "bv_size st = n" "bv_size cl = n"
    using assms(2) by simp_all
  show "\<exists>fs. dffsr_export_smt2 c pm s = Inr (s @ fs) \<and>
      ((\<forall>f \<in> set fs. holds un bin prd m f) \<longleftrightarrow>
        (\<forall>i < n. bit (eval un bin prd m q) i =
          (if bit (eval un bin prd m cl) i = dffsr.clr_active_high c then False
           else if bit (eval un bin prd m st) i = dffsr.set_active_high c then True
           else bit (eval un bin prd m d) i)))" if "length pm \<le> 5"
  proof -
    let ?F = "\<lambda>i. FEq (bit_at q i)
        (Ite (active (bit_at cl i) (dffsr.clr_active_high c)) (BVal 0 1)
          (Ite (active (bit_at st i) (dffsr.set_active_high c)) (BVal 1 1) (bit_at d i)))"
    have "dffsr_export_smt2 c pm s = foldM (\<lambda>i s. solver_add (?F i) s) [0..<n] s"
      using that by (simp add: dffsr_export_smt2_def pexpr_Some x n)
    also have "\<dots> = Inr (s @ map ?F [0..<n])"
      by (rule foldM_solver_add) (use w n in simp)
    finally show ?thesis
    proof (rule asserted_bits)
      fix i assume i: "i < n"
      show "holds un bin prd m (?F i) \<longleftrightarrow> bit (eval un bin prd m q) i =
          (if bit (eval un bin prd m cl) i = dffsr.clr_active_high c then False
           else if bit (eval un bin prd m st) i = dffsr.set_active_high c then True
           else bit (eval un bin prd m d) i)"
        using i by (simp add: h b w n)
    qed
  qed
  show "\<exists>fs. dffsre_export_smt2 e pm s = Inr (s @ fs) \<and>
      ((\<forall>f \<in> set fs. holds un bin prd m f) \<longleftrightarrow>
        (\<forall>i < n. bit (eval un bin prd m q) i =
          (if bit (eval un bin prd m cl) i = dffsre.clr_active_high e then False
           else if bit (eval un bin prd m st) i = dffsre.set_active_high e then True
           else if eval un bin prd m en = of_bool (dffsre.en_active_high e)
             then bit (eval un bin prd m d) i
           else bit (eval un bin prd m p) i)))"
    if g: "length pm \<le> 7 \<and> reg_exprs pm [(''EN'', en, 1), (''Q_prev'', p, n)]"
  proof -
    let ?F = "\<lambda>i. FEq (bit_at q i)
        (Ite (active (bit_at cl i) (dffsre.clr_active_high e)) (BVal 0 1)
          (Ite (active (bit_at st i) (dffsre.set_active_high e)) (BVal 1 1)
            (Ite (active en (dffsre.en_active_high e)) (bit_at d i) (bit_at p i))))"
    have y: "map_of pm ''EN'' = Some en" "map_of pm ''Q_prev'' = Some p" "ws en" "ws p"
        "bv_size p = n" "length pm \<le> 7"
      using g by simp_all
    have "dffsre_export_smt2 e pm s = foldM (\<lambda>i s. solver_add (?F i) s) [0..<n] s"
      using y by (simp add: dffsre_export_smt2_def pexpr_Some x n Let_def)
    also have "\<dots> = Inr (s @ map ?F [0..<n])"
      by (rule foldM_solver_add) (use w n y in simp)
    finally show ?thesis
    proof (rule asserted_bits)
      fix i assume i: "i < n"
      show "holds un bin prd m (?F i) \<longleftrightarrow> bit (eval un bin prd m q) i =
          (if bit (eval un bin prd m cl) i = dffsre.clr_active_high e then False
           else if bit (eval un bin prd m st) i = dffsre.set_active_high e then True
           else if eval un bin prd m en = of_bool (dffsre.en_active_high e)
             then bit (eval un bin prd m d) i
           else bit (eval un bin prd m p) i)"
        using i y by (simp add: h b w n)
    qed
  qed
qed

theorem set_clear_next_state_witness:
  "\<exists>fs. dffsr_export_smt2
      (basic_dff.extend (cell.extend (sample_gate ''$dffsr'' 0 0) (basic_dff.fields True 2))
        (dffsr.fields True True))
      [(''Q'', BVar ''q'' 2), (''D'', BVar ''d'' 2), (''SET'', BVar ''st'' 2), (''CLR'', BVar ''cl'' 2)]
      [] = Inr fs \<and>
    (\<forall>f \<in> set fs. holds std_un std_bin std_prd (\<lambda>(x, _). if x = ''cl'' then 3 else if x = ''q'' then 0 else 1) f)"
  using set_clear_next_state [OF std.smt_bv_axioms, of
      "[(''Q'', BVar ''q'' 2), (''D'', BVar ''d'' 2), (''SET'', BVar ''st'' 2), (''CLR'', BVar ''cl'' 2)]"
      "BVar ''q'' 2" 2 "BVar ''d'' 2" "BVar ''st'' 2" "BVar ''cl'' 2"
      "basic_dff.extend (cell.extend (sample_gate ''$dffsr'' 0 0) (basic_dff.fields True 2))
        (dffsr.fields True True)" "[]"
      "\<lambda>(x, _). if x = ''cl'' then 3 else if x = ''q'' then 0 else 1"]
  by (simp add: basic_dff.defs cell.defs dffsr.defs take_bit_eq_mod all_less_2)

section \<open>Latches\<close>

text \<open>
  The latches assert nothing of \<open>Q\<close> while the enable is inactive: the value to hold is
  \<open>Q\<close> itself. For the latch with a reset this includes the steps in which the reset is active,
  although the exported Verilog tests the reset before the enable.
\<close>

theorem latch_next_state:
  assumes "smt_bv un bin prd" and "length pm \<le> 4"
    and "reg_exprs pm [(''Q'', q, n), (''D'', d, n), (''EN'', en, 1)]"
  shows "(\<exists>f. dlatch_export_smt2 c pm s = Inr (s @ [f]) \<and>
      (holds un bin prd m f \<longleftrightarrow>
        (eval un bin prd m en = of_bool (dlatch.en_active_high c) \<longrightarrow>
          eval un bin prd m q = eval un bin prd m d))) \<and>
    (reg_exprs pm [(''ARST'', r, 1)] \<longrightarrow>
      (\<exists>f. adlatch_export_smt2 e pm s = Inr (s @ [f]) \<and>
        (holds un bin prd m f \<longleftrightarrow>
          (eval un bin prd m en = of_bool (adlatch.enable_active_high e) \<longrightarrow>
            eval un bin prd m q =
              next_value [(eval un bin prd m r = of_bool (adlatch.arst_active_high e),
                           uint (adlatch.arst_value e) mod 2 ^ n)] (eval un bin prd m d)))))"
proof -
  have "ws q" "bv_size q = n" using assms(3) by simp_all
  then have "0 < n" using ws_pos by auto
  then show ?thesis
    using assms(2,3) smt_bv.holds_active [OF assms(1)]
    by (auto simp: dlatch_export_smt2_def adlatch_export_smt2_def pexpr_Some solver_add_def
        take_bit_eq_mod)
qed

theorem latch_next_state_witness:
  "\<exists>f. adlatch_export_smt2
      (cell.extend (sample_gate ''$adlatch'' 0 0) (adlatch.fields True True 1))
      [(''Q'', BVar ''q'' 4), (''D'', BVar ''d'' 4), (''EN'', BVar ''e'' 1), (''ARST'', BVar ''r'' 1)]
      [] = Inr [f] \<and>
    holds std_un std_bin std_prd (\<lambda>(x, _). if x = ''q'' then 9 else if x = ''r'' then 1 else 0) f"
  using latch_next_state [OF std.smt_bv_axioms, of
      "[(''Q'', BVar ''q'' 4), (''D'', BVar ''d'' 4), (''EN'', BVar ''e'' 1), (''ARST'', BVar ''r'' 1)]"
      "BVar ''q'' 4" 4 "BVar ''d'' 4" "BVar ''e'' 1" undefined "[]"
      "\<lambda>(x, _). if x = ''q'' then 9 else if x = ''r'' then 1 else 0" "BVar ''r'' 1"
      "cell.extend (sample_gate ''$adlatch'' 0 0) (adlatch.fields True True 1)"]
  by (simp add: cell.defs adlatch.defs take_bit_eq_mod)

end
