(* ===== verification/MuxFacts.thy ===== *)
theory MuxFacts
  imports Muxes RegisterSmt
begin

text \<open>
  The choice made by the multiplexers, in the assertion for the solver and in the patterns of the
  exported \<open>casez\<close>, and the variable shifts.
\<close>

section \<open>Index arithmetic\<close>

lemma w32_pred: "0 < i \<Longrightarrow> w32 i - 1 = w32 (i - 1)"
  by (simp add: w32_def of_nat_diff)

lemma w32_mult: "w32 i * w32 k = w32 (i * k)"
  by (simp add: w32_def)

lemma unat_w32: "n < 2 ^ 32 \<Longrightarrow> unat (w32 n) = n"
  by (simp add: w32_def unsigned_of_nat take_bit_nat_eq_self)

lemma pmux_slice_eq:
  assumes "0 < i" "0 < w" "i * w < 2 ^ 32"
  shows "pmux_slice b w i = Uop (Extract (i * w - 1) ((i - 1) * w)) b"
proof -
  have "(i - 1) * w \<le> i * w" by simp
  then have "(i - 1) * w < 2 ^ 32" using assms(3) by linarith
  moreover have "i * w - 1 < 2 ^ 32" "0 < i * w" using assms by auto
  ultimately show ?thesis
    using assms by (simp only: pmux_slice_def w32_pred w32_mult unat_w32)
qed

section \<open>The nested choice\<close>

text \<open>The entries of the vector \<open>results\<close>: the last slice, then one choice for each lower bit.\<close>

fun pnest :: "bv \<Rightarrow> bv \<Rightarrow> nat \<Rightarrow> nat \<Rightarrow> bv" where
  "pnest b sel w 0 = pmux_slice b w (bv_size sel)"
| "pnest b sel w (Suc k) =
     Ite (eq_num (bit_at sel (bv_size sel - Suc k - 1)) 1) (pmux_slice b w (bv_size sel - Suc k))
       (pnest b sel w k)"

lemma pmux_results_prefix:
  "k < bv_size sel \<Longrightarrow>
   foldl (\<lambda>results i. results @
       [Ite (eq_num (bit_at sel (i - 1)) 1) (pmux_slice b w i) (results ! (bv_size sel - i - 1))])
     [pmux_slice b w (bv_size sel)] (rev [bv_size sel - k..<bv_size sel]) =
   map (pnest b sel w) [0..<Suc k]"
proof (induction k)
  case (Suc k)
  have "[bv_size sel - Suc k..<bv_size sel] = (bv_size sel - Suc k) # [bv_size sel - k..<bv_size sel]"
    using Suc.prems by (simp add: upt_conv_Cons Suc_diff_Suc)
  moreover have "bv_size sel - (bv_size sel - Suc k) - 1 = k" using Suc.prems by simp
  ultimately show ?case
    using Suc.IH Suc.prems by (simp add: nth_append)
qed simp

lemma pmux_results_last:
  assumes "0 < bv_size sel"
  shows "last (pmux_results b sel w) = pnest b sel w (bv_size sel - 1)"
proof -
  have "pmux_results b sel w = map (pnest b sel w) [0..<Suc (bv_size sel - 1)]"
    using pmux_results_prefix [of "bv_size sel - 1" sel b w] assms
    by (simp add: pmux_results_def Let_def)
  then show ?thesis by simp
qed

lemma pnest_ws:
  assumes "ws sel" "ws b" "0 < w" "bv_size b = bv_size sel * w" "bv_size sel * w < 2 ^ 32"
    and "k < bv_size sel"
  shows "ws (pnest b sel w k) \<and> bv_size (pnest b sel w k) = w"
proof -
  have slice: "ws (pmux_slice b w i) \<and> bv_size (pmux_slice b w i) = w"
    if i: "0 < i" "i \<le> bv_size sel" for i
  proof -
    have m: "i * w \<le> bv_size sel * w" using i by simp
    then have lt: "i * w < 2 ^ 32" using assms(5) by linarith
    have "pmux_slice b w i = Uop (Extract (i * w - 1) ((i - 1) * w)) b"
      by (rule pmux_slice_eq [OF i(1) assms(3) lt])
    moreover have "i * w = (i - 1) * w + w" using i(1) by (cases i) auto
    ultimately show ?thesis using assms(2-4) m by auto
  qed
  show ?thesis
    using assms(6)
  proof (induction k)
    case 0
    then show ?case using slice [of "bv_size sel"] by simp
  next
    case (Suc k)
    then show ?case using slice [of "bv_size sel - Suc k"] assms(1) by auto
  qed
qed

context smt_bv
begin

lemma ev_pmux_slice:
  assumes "ws b" "0 < i" "0 < w" "i * w \<le> bv_size b" "bv_size b < 2 ^ 32"
  shows "eval un bin prd m (pmux_slice b w i) =
    take_bit w (drop_bit ((i - 1) * w) (eval un bin prd m b))"
proof -
  have "i * w = (i - 1) * w + w" using assms(2) by (cases i) auto
  then have "(i - 1) * w \<le> i * w - 1" "i * w - 1 < bv_size b" "i * w - 1 + 1 - (i - 1) * w = w"
    using assms by auto
  then show ?thesis
    using un_extract [OF ev_range [OF assms(1), of m], of "(i - 1) * w" "i * w - 1"] assms
    by (simp add: pmux_slice_eq)
qed

text \<open>The choice falls on the lowest selected slice.\<close>

lemma ev_pnest:
  assumes "ws sel" "ws b" "0 < w" "bv_size b = bv_size sel * w" "bv_size b < 2 ^ 32"
    and "k < bv_size sel" "bv_size sel - Suc k \<le> j" "j < bv_size sel"
    and "bit (eval un bin prd m sel) j"
    and "\<And>i. bv_size sel - Suc k \<le> i \<Longrightarrow> i < j \<Longrightarrow> \<not> bit (eval un bin prd m sel) i"
  shows "eval un bin prd m (pnest b sel w k) =
    take_bit w (drop_bit (j * w) (eval un bin prd m b))"
  using assms(6-10)
proof (induction k)
  case 0
  then have "j = bv_size sel - 1" by simp
  then show ?case
    using ev_pmux_slice [OF assms(2), of "bv_size sel" w m] assms(3-5) 0 by simp
next
  case (Suc k)
  let ?n = "bv_size sel - Suc k"
  have n: "?n - 1 < bv_size sel" "0 < ?n" "?n \<le> bv_size sel" "?n - 1 = bv_size sel - Suc (Suc k)"
    using Suc.prems(1) by auto
  have c: "holds un bin prd m (eq_num (bit_at sel (?n - 1)) 1) \<longleftrightarrow> bit (eval un bin prd m sel) (?n - 1)"
    using n(1) assms(1) by (subst holds_eq_num) (simp_all add: ev_bit_at)
  have sl: "eval un bin prd m (pmux_slice b w ?n) =
      take_bit w (drop_bit ((?n - 1) * w) (eval un bin prd m b))"
    using n assms(3-5) by (intro ev_pmux_slice [OF assms(2)]) auto
  show ?case
  proof (cases "bit (eval un bin prd m sel) (?n - 1)")
    case True
    have "\<not> ?n - 1 < j"
    proof
      assume "?n - 1 < j"
      with Suc.prems(5) [of "?n - 1"] n(4) True show False by simp
    qed
    then have "j = ?n - 1" using Suc.prems(2) n(4) by linarith
    then show ?thesis using True c sl by simp
  next
    case False
    with Suc.prems(4) have "j \<noteq> ?n - 1" by auto
    then have "?n \<le> j" using Suc.prems(2) n by linarith
    moreover have "\<And>i. ?n \<le> i \<Longrightarrow> i < j \<Longrightarrow> \<not> bit (eval un bin prd m sel) i"
      using Suc.prems(5) by simp
    ultimately have "eval un bin prd m (pnest b sel w k) =
        take_bit w (drop_bit (j * w) (eval un bin prd m b))"
      using Suc.IH Suc.prems by simp
    then show ?thesis using False c by simp
  qed
qed

end

section \<open>The choice of the multiplexers\<close>

text \<open>
  The multiplexer asserts that the output is the second input when the select bit is one
  and the first input otherwise.
\<close>

theorem mux_choice:
  assumes "smt_bv un bin prd" and "length pm \<le> 4"
    and "reg_exprs pm [(''Y'', y, n), (''A'', a, n), (''B'', b, n), (''S'', sel, 1)]"
  shows "\<exists>f. mux_export_smt2 c pm s = Inr (s @ [f]) \<and>
    (holds un bin prd m f \<longleftrightarrow> eval un bin prd m y =
      (if eval un bin prd m sel = 1 then eval un bin prd m b else eval un bin prd m a))"
  using assms(2,3) smt_bv.holds_eq_num [OF assms(1), where t = sel and i = 1]
  by (auto simp: mux_export_smt2_def pexpr_Some solver_add_def)

theorem mux_choice_witness:
  "\<exists>f. mux_export_smt2 (sample_gate ''$mux'' 0 3)
      [(''Y'', BVar ''y'' 4), (''A'', BVar ''a'' 4), (''B'', BVar ''b'' 4), (''S'', BVar ''s'' 1)] [] = Inr [f] \<and>
    holds std_un std_bin std_prd (\<lambda>(x, _). if x = ''a'' then 3 else 5) f"
  using mux_choice [OF std.smt_bv_axioms, of
      "[(''Y'', BVar ''y'' 4), (''A'', BVar ''a'' 4), (''B'', BVar ''b'' 4), (''S'', BVar ''s'' 1)]"
      "BVar ''y'' 4" 4 "BVar ''a'' 4" "BVar ''b'' 4" "BVar ''s'' 1" "sample_gate ''$mux'' 0 3" "[]"
      "\<lambda>(x, _). if x = ''a'' then 3 else 5"]
  by (simp add: take_bit_eq_mod)

text \<open>The position of the lowest bit that is set.\<close>

definition lowest :: "nat \<Rightarrow> int \<Rightarrow> nat option" where
  "lowest n v = find (bit v) [0..<n]"

lemma lowest_Some:
  "lowest n v = Some j \<longleftrightarrow> j < n \<and> bit v j \<and> (\<forall>i < j. \<not> bit v i)"
  by (auto simp: lowest_def find_Some_iff)

lemma lowest_None: "bv_range n v \<Longrightarrow> lowest n v = None \<longleftrightarrow> v = 0"
proof -
  assume r: "bv_range n v"
  have "lowest n v = None \<longleftrightarrow> (\<forall>i < n. \<not> bit v i)"
    by (auto simp: lowest_def find_None_iff)
  also have "\<dots> \<longleftrightarrow> take_bit n v = 0"
    by (auto simp: bit_eq_iff bit_take_bit_iff)
  finally show ?thesis using r by (simp add: take_bit_int_eq_self)
qed

text \<open>
  The parallel multiplexer, with an input \<open>B\<close> of one slice per select bit, asserts that the
  output is the first input when no select bit is set, and otherwise the slice of the lowest
  select bit that is set. The bound keeps the index arithmetic of 32 bits from wrapping.
\<close>

theorem pmux_choice:
  assumes "smt_bv un bin prd" and "length pm \<le> 4"
    and "reg_exprs pm [(''Y'', y, w), (''A'', a, w), (''B'', b, n * w), (''S'', sel, n)]"
    and "n * w < 2 ^ 32"
  shows "\<exists>f. pmux_export_smt2 c pm s = Inr (s @ [f]) \<and>
    (holds un bin prd m f \<longleftrightarrow> eval un bin prd m y =
      (case lowest n (eval un bin prd m sel) of
         None \<Rightarrow> eval un bin prd m a
       | Some j \<Rightarrow> take_bit w (drop_bit (j * w) (eval un bin prd m b))))"
proof -
  have x: "map_of pm ''Y'' = Some y" "map_of pm ''A'' = Some a" "map_of pm ''B'' = Some b"
      "map_of pm ''S'' = Some sel"
    and ws: "ws y" "ws a" "ws b" "ws sel"
    and n: "bv_size y = w" "bv_size a = w" "bv_size b = n * w" "bv_size sel = n"
    using assms(3) by simp_all
  have pos: "0 < n" "0 < w" using ws_pos [OF ws(4)] ws_pos [OF ws(1)] n by auto
  let ?t = "pnest b sel w (n - 1)"
  let ?f = "FEq y (Ite (eq_num sel 0) a ?t)"
  have t: "ws ?t \<and> bv_size ?t = w"
    using pnest_ws [OF ws(4,3) pos(2), of "n - 1"] n pos assms(4) by simp
  have e: "pmux_export_smt2 c pm s = Inr (s @ [?f])"
    using pmux_results_last [of sel b w] x n ws t pos assms(2)
    by (simp add: pmux_export_smt2_def pexpr_Some solver_add_def)
  have r: "bv_range n (eval un bin prd m sel)"
    using smt_bv.ev_range [OF assms(1) ws(4)] n by simp
  have z: "holds un bin prd m (eq_num sel 0) \<longleftrightarrow> eval un bin prd m sel = 0"
    using r n by (intro smt_bv.holds_eq_num [OF assms(1)]) simp
  have "holds un bin prd m ?f \<longleftrightarrow> eval un bin prd m y =
      (case lowest n (eval un bin prd m sel) of
         None \<Rightarrow> eval un bin prd m a
       | Some j \<Rightarrow> take_bit w (drop_bit (j * w) (eval un bin prd m b)))"
  proof (cases "lowest n (eval un bin prd m sel)")
    case None
    then show ?thesis using z lowest_None [OF r] by simp
  next
    case (Some j)
    then have "eval un bin prd m sel \<noteq> 0" using lowest_None [OF r] by auto
    moreover have "eval un bin prd m ?t = take_bit w (drop_bit (j * w) (eval un bin prd m b))"
      using Some pos n assms(4) smt_bv.ev_pnest [OF assms(1) ws(4,3) pos(2), of "n - 1" j m]
      by (simp add: lowest_Some)
    ultimately show ?thesis using z Some by simp
  qed
  with e show ?thesis by blast
qed

theorem pmux_choice_witness:
  "\<exists>f. pmux_export_smt2 (cell.extend (sample_gate ''$pmux'' 0 3) (pmux.fields 4 2 False))
      [(''Y'', BVar ''y'' 4), (''A'', BVar ''a'' 4), (''B'', BVar ''b'' 8), (''S'', BVar ''s'' 2)] [] = Inr [f] \<and>
    holds std_un std_bin std_prd (\<lambda>(x, _). if x = ''b'' then 0x73 else if x = ''s'' then 2 else 7) f"
proof -
  let ?m = "\<lambda>(x, _). if x = ''b'' then 0x73 else if x = ''s'' then 2 else 7 :: int"
  have "lowest 2 2 = Some 1" by (simp add: lowest_def upt_rec bit_iff_odd)
  then show ?thesis
    using pmux_choice [OF std.smt_bv_axioms, of
      "[(''Y'', BVar ''y'' 4), (''A'', BVar ''a'' 4), (''B'', BVar ''b'' 8), (''S'', BVar ''s'' 2)]"
      "BVar ''y'' 4" 4 "BVar ''a'' 4" "BVar ''b'' 8" 2 "BVar ''s'' 2"
      "cell.extend (sample_gate ''$pmux'' 0 3) (pmux.fields 4 2 False)" "[]" ?m]
    by (simp add: take_bit_eq_mod drop_bit_eq_div)
qed

section \<open>The patterns of the exported cases\<close>

lemma rotate_Suc_left: "rotate (Suc k) v = rotate k (rotate1 v)"
  by (simp add: rotate_def funpow_swap1)

lemma case_loop_rotate:
  "case_loop body [i..<i + n] v =
   (concat (map (\<lambda>k. body (word_of_nat (i + k)) (rotate k v)) [0..<n]), rotate n v)"
proof (induction n arbitrary: i v)
  case (Suc n)
  have "[0..<Suc n] = 0 # map Suc [0..<n]" by (simp add: upt_conv_Cons map_Suc_upt del: upt_Suc)
  moreover have "[i..<i + Suc n] = i # [Suc i..<Suc i + n]" by (simp add: upt_conv_Cons del: upt_Suc)
  ultimately show ?case
    using Suc.IH [of "Suc i" "rotate1 v"]
    by (simp del: upt_Suc rotate_Suc add: comp_def rotate_Suc_left algebra_simps)
qed simp

text \<open>A digit 1 of the pattern, written with the highest bit first, must be a set bit.\<close>

definition casez_match :: "string \<Rightarrow> int \<Rightarrow> bool" where
  "casez_match p v \<longleftrightarrow>
     list_all (\<lambda>(i, c). c = CHR ''1'' \<longrightarrow> bit v i) (enumerate 0 (rev p))"

definition case_pattern :: "nat \<Rightarrow> nat \<Rightarrow> string" where
  "case_pattern n i = replicate (n - 1 - i) (CHR ''?'') @ CHR ''1'' # replicate i (CHR ''?'')"

lemma rotate_case_pattern:
  "i < n \<Longrightarrow> rotate i (replicate (n - 1) (CHR ''?'') @ ''1'') = case_pattern n i"
proof (induction i)
  case (Suc i)
  then obtain k where k: "n - 1 - i = Suc k" "k = n - 1 - Suc i" by (cases "n - 1 - i") auto
  have "rotate (Suc i) (replicate (n - 1) (CHR ''?'') @ ''1'') = rotate1 (case_pattern n i)"
    using Suc by simp
  also have "\<dots> = case_pattern n (Suc i)"
    using k by (simp add: case_pattern_def replicate_append_same)
  finally show ?case .
qed (simp add: case_pattern_def)

text \<open>
  The loops over the cases of the exported function: case \<open>i\<close> gets the pattern whose only
  digit is a one in place \<open>i\<close>, which matches exactly the values with bit \<open>i\<close> set, so the first
  matching case is that of the lowest set bit, as in the assertion for the solver. After the loop
  the pattern is back where it was, so the cases of the tags get the same patterns.
\<close>

theorem pmux_case_patterns:
  assumes "0 < n"
  defines "start \<equiv> replicate (n - 1) (CHR ''?'') @ ''1''"
  shows "case_loop body [0..<n] start =
      (concat (map (\<lambda>i. body (word_of_nat i) (case_pattern n i)) [0..<n]), start) \<and>
    (\<forall>i < n. casez_match (case_pattern n i) v = bit v i) \<and>
    find (\<lambda>i. casez_match (case_pattern n i) v) [0..<n] = lowest n v"
proof -
  have m: "casez_match (case_pattern n i) v = bit v i" if "i < n" for i
    by (auto simp: casez_match_def case_pattern_def list_all_iff enumerate_append_eq in_set_enumerate_eq
        set_zip nth_append)
  have c: "case_loop body [0..<n] start =
      (concat (map (\<lambda>k. body (word_of_nat k) (rotate k start)) [0..<n]), rotate n start)"
    using case_loop_rotate [of body 0 n start] by simp
  have r: "map (\<lambda>k. body (word_of_nat k) (rotate k start)) [0..<n] =
      map (\<lambda>i. body (word_of_nat i) (case_pattern n i)) [0..<n]"
    by (simp add: start_def rotate_case_pattern [unfolded One_nat_def])
  have i: "rotate n start = start"
    using assms(1) rotate_id [of n start] by (simp add: start_def)
  have "find (\<lambda>i. casez_match (case_pattern n i) v) [0..<n] = find (bit v) [0..<n]"
    using m by (intro find_cong) auto
  then show ?thesis unfolding c r i using m by (simp add: lowest_def)
qed

theorem pmux_case_patterns_witness:
  "find (\<lambda>i. casez_match (case_pattern 3 i) 6) [0..<3] = lowest 3 6"
  using pmux_case_patterns [of 3 "\<lambda>_ _. []" 6] by simp

end
