(* ===== verification/Ift.thy ===== *)
theory Ift
  imports MuxFacts
begin

unbundle bit_operations_syntax

text \<open>
  The tags of the information flow tracking. The exported text computes, beside each signal, a
  tag with one bit per tracked source. This theory reads the emitted assignments as expressions
  over the values and the tags of the inputs, and states when a rule is sound: an output whose
  tag bit is not set does not change when the inputs that carry the tag change.

  The expressions are tied to the text: the text of the code, without its blanks, is the printed
  expression.
\<close>

section \<open>Tag expressions\<close>

text \<open>\<open>Unknown\<close> is the test \<open>^e === 1'bx\<close>, of an input or of the difference of two.\<close>

datatype vexp = VName string | VDiff string string

datatype tcond =
    Unknown vexp
  | Positive string
  | IsZero string
  | Truth string
  | OddDiff string string

datatype texp =
    TZero
  | TTag string
  | TOr texp texp
  | TAnd texp texp
  | TIf tcond texp texp

definition squeeze :: "string \<Rightarrow> string" where
  "squeeze s = filter (\<lambda>c. c \<noteq> CHR '' '' \<and> c \<noteq> CHR ''\<newline>'') s"

lemma squeeze_simps [simp]:
  "squeeze [] = []" "squeeze (s @ t) = squeeze s @ squeeze t"
  "squeeze (c # s) = (if c = CHR '' '' \<or> c = CHR ''\<newline>'' then squeeze s else c # squeeze s)"
  by (simp_all add: squeeze_def)

fun show_vexp :: "vexp \<Rightarrow> string" where
  "show_vexp (VName x) = squeeze x"
| "show_vexp (VDiff x y) = ''('' @ squeeze x @ ''^'' @ squeeze y @ '')''"

fun show_tcond :: "tcond \<Rightarrow> string" where
  "show_tcond (Unknown e) = ''^'' @ show_vexp e @ ''===1'bx''"
| "show_tcond (Positive x) = squeeze x @ ''>0''"
| "show_tcond (IsZero x) = squeeze x @ ''==0''"
| "show_tcond (Truth x) = squeeze x"
| "show_tcond (OddDiff x y) = ''(^'' @ show_vexp (VDiff x y) @ ''===1'b1)''"

fun show_texp :: "texp \<Rightarrow> string" where
  "show_texp TZero = ''0''"
| "show_texp (TTag x) = squeeze x @ ''_t''"
| "show_texp (TOr e f) = show_texp e @ ''|'' @ show_texp f"
| "show_texp (TAnd e f) = ''('' @ show_texp e @ ''&'' @ show_texp f @ '')''"
| "show_texp (TIf c e f) = ''('' @ show_tcond c @ ''?'' @ show_texp e @ '':'' @ show_texp f @ '')''"

definition assign_text :: "string \<Rightarrow> texp \<Rightarrow> string" where
  "assign_text y e = ''assign'' @ squeeze y @ ''_t='' @ show_texp e @ '';''"

text \<open>
  The meaning for one bit of the tags: \<open>D\<close> is the value of a signal, \<open>None\<close> when some bit of it is
  undefined, and \<open>T\<close> its tag bit. A comparison with an undefined value is false.
\<close>

type_synonym data_env = "string \<Rightarrow> int option"
type_synonym tag_env = "string \<Rightarrow> bool"

definition known :: "data_env \<Rightarrow> (int \<Rightarrow> bool) \<Rightarrow> string \<Rightarrow> bool" where
  "known D P x = (case D x of None \<Rightarrow> False | Some v \<Rightarrow> P v)"

definition diff_val :: "data_env \<Rightarrow> string \<Rightarrow> string \<Rightarrow> int option" where
  "diff_val D x y = (case (D x, D y) of (Some u, Some v) \<Rightarrow> Some (u XOR v) | _ \<Rightarrow> None)"

fun val_vexp :: "data_env \<Rightarrow> vexp \<Rightarrow> int option" where
  "val_vexp D (VName x) = D x"
| "val_vexp D (VDiff x y) = diff_val D x y"

text \<open>The parity of the bits of a value of width \<open>w\<close>.\<close>

definition parity_of :: "nat \<Rightarrow> int \<Rightarrow> bool" where
  "parity_of w v = odd (length (filter (bit v) [0..<w]))"

fun val_tcond :: "nat \<Rightarrow> data_env \<Rightarrow> tcond \<Rightarrow> bool" where
  "val_tcond w D (Unknown e) = (val_vexp D e = None)"
| "val_tcond w D (Positive x) = known D (\<lambda>v. v > 0) x"
| "val_tcond w D (IsZero x) = known D (\<lambda>v. v = 0) x"
| "val_tcond w D (Truth x) = known D (\<lambda>v. v \<noteq> 0) x"
| "val_tcond w D (OddDiff x y) =
     (case diff_val D x y of None \<Rightarrow> False | Some v \<Rightarrow> parity_of w v)"

fun val_texp :: "nat \<Rightarrow> data_env \<Rightarrow> tag_env \<Rightarrow> texp \<Rightarrow> bool" where
  "val_texp w D T TZero = False"
| "val_texp w D T (TTag x) = T x"
| "val_texp w D T (TOr e f) = (val_texp w D T e \<or> val_texp w D T f)"
| "val_texp w D T (TAnd e f) = (val_texp w D T e \<and> val_texp w D T f)"
| "val_texp w D T (TIf c e f) = (if val_tcond w D c then val_texp w D T e else val_texp w D T f)"

section \<open>The rules\<close>

definition guard_tag :: "tcond \<Rightarrow> string \<Rightarrow> string \<Rightarrow> texp" where
  "guard_tag c x t = TIf (Unknown (VName x)) TZero (TIf c (TTag t) TZero)"

definition and_tag :: "string \<Rightarrow> string \<Rightarrow> texp" where
  "and_tag a b =
     TOr (TOr (guard_tag (Positive a) a b) (guard_tag (Positive b) b a)) (TAnd (TTag a) (TTag b))"

definition or_tag :: "string \<Rightarrow> string \<Rightarrow> texp" where
  "or_tag a b =
     TOr (TOr (guard_tag (IsZero a) a b) (guard_tag (IsZero b) b a)) (TAnd (TTag a) (TTag b))"

definition mux_tag :: "string \<Rightarrow> string \<Rightarrow> string \<Rightarrow> texp" where
  "mux_tag a b s =
     TOr (TOr (TOr
       (TIf (Unknown (VName s)) TZero (TIf (Truth s) (TTag b) (TTag a)))
       (TIf (Unknown (VDiff a b)) TZero (TIf (OddDiff a b) (TTag s) TZero)))
       (TAnd (TTag a) (TTag s))) (TAnd (TTag b) (TTag s))"

fun gate_tag :: "gate_class \<Rightarrow> string list \<Rightarrow> texp" where
  "gate_tag GAnd ps = and_tag (ps ! 0) (ps ! 1)"
| "gate_tag GLogicAnd ps = and_tag (ps ! 0) (ps ! 1)"
| "gate_tag GOr ps = or_tag (ps ! 0) (ps ! 1)"
| "gate_tag GLogicOr ps = or_tag (ps ! 0) (ps ! 1)"
| "gate_tag k ps = (if is_unary k then TTag (ps ! 0) else TOr (TTag (ps ! 0)) (TTag (ps ! 1)))"

text \<open>
  The texts of the tag assignments of the twelve classes of gates are, without blanks, the printed
  expressions of \<open>gate_tag\<close>, for outputs with a name and as many inputs as the class has.
\<close>

definition assigns_tag :: "gate_class \<Rightarrow> string \<Rightarrow> string list \<Rightarrow> bool" where
  "assigns_tag k y ps \<longleftrightarrow>
     (case ift_assignment k y ps of
        Inl _ \<Rightarrow> False | Inr t \<Rightarrow> squeeze t = assign_text y (gate_tag k ps))"

lemma gate_tag_text:
  assumes "y \<noteq> []" and "length ps = (if is_unary k then 1 else 2)"
  shows "assigns_tag k y ps"
  using assms
  by (cases k) (simp_all add: assigns_tag_def ift_unary_def ift_binary_def ift_and_def ift_or_def
      ift_logic_and_def ift_logic_or_def assign_text_def and_tag_def or_tag_def guard_tag_def
      ift_tag_def Let_def)

section \<open>Soundness of the rules\<close>

text \<open>Two runs agree on the inputs whose tag bit is not set.\<close>

definition agree_on :: "string list \<Rightarrow> tag_env \<Rightarrow> data_env \<Rightarrow> data_env \<Rightarrow> bool" where
  "agree_on xs T D D' \<longleftrightarrow> list_all (\<lambda>x. T x \<or> D x = D' x) xs"

definition valued :: "nat \<Rightarrow> data_env \<Rightarrow> string \<Rightarrow> int \<Rightarrow> bool" where
  "valued w D x v \<longleftrightarrow> D x = Some v \<and> bv_range w v"

text \<open>The function of a gate; the classes without a rule of their own may compute any \<open>f\<close>.\<close>

fun gate_fun :: "(int \<Rightarrow> int \<Rightarrow> int) \<Rightarrow> gate_class \<Rightarrow> int \<Rightarrow> int \<Rightarrow> int" where
  "gate_fun f GAnd u v = u AND v"
| "gate_fun f GOr u v = u OR v"
| "gate_fun f GLogicAnd u v = of_bool (u \<noteq> 0 \<and> v \<noteq> 0)"
| "gate_fun f GLogicOr u v = of_bool (u \<noteq> 0 \<or> v \<noteq> 0)"
| "gate_fun f _ u v = f u v"

lemma val_guard:
  "valued w D x v \<Longrightarrow> val_texp n D T (guard_tag (Positive x) x t) \<longleftrightarrow> v \<noteq> 0 \<and> T t"
  "valued w D x v \<Longrightarrow> val_texp n D T (guard_tag (IsZero x) x t) \<longleftrightarrow> v = 0 \<and> T t"
  by (auto simp: valued_def guard_tag_def known_def)

lemma val_and_tag:
  "valued w D a u \<Longrightarrow> valued w D b v \<Longrightarrow>
   val_texp n D T (and_tag a b) \<longleftrightarrow> (u \<noteq> 0 \<and> T b) \<or> (v \<noteq> 0 \<and> T a) \<or> (T a \<and> T b)"
  by (auto simp: and_tag_def val_guard)

lemma val_or_tag:
  "valued w D a u \<Longrightarrow> valued w D b v \<Longrightarrow>
   val_texp n D T (or_tag a b) \<longleftrightarrow> (u = 0 \<and> T b) \<or> (v = 0 \<and> T a) \<or> (T a \<and> T b)"
  by (auto simp: or_tag_def val_guard)

lemma agree_valued:
  "agree_on xs T D D' \<Longrightarrow> x \<in> set xs \<Longrightarrow> \<not> T x \<Longrightarrow> valued w D x v \<Longrightarrow> valued w D' x v' \<Longrightarrow> v' = v"
  by (auto simp: agree_on_def valued_def list_all_iff)

lemma bit1: "bv_range 1 v \<longleftrightarrow> v = 0 \<or> v = 1"
  by auto

text \<open>
  \<^bold>\<open>C22.\<close> The gates emit the tag expressions \<open>gate_tag\<close>, and these are sound for defined inputs:
  when the tag bit of the output is not set, the output is the same in any run that agrees on the
  inputs without the tag. The conjunction, the logic gates and the gates that join the tags of
  their inputs are sound for vectors of any width, the disjunction for single bits.
\<close>

theorem gate_tag_sound:
  assumes "valued w D a u" and "valued w D b v" and "valued w D' a u'" and "valued w D' b v'"
    and "agree_on [a, b] T D D'" and "\<not> is_unary k" and "k = GOr \<Longrightarrow> w = 1"
    and "y \<noteq> []"
  shows "assigns_tag k y [a, b] \<and>
    (\<not> val_texp w D T (gate_tag k [a, b]) \<longrightarrow> gate_fun f k u v = gate_fun f k u' v')"
proof (intro conjI impI)
  show "assigns_tag k y [a, b]" by (rule gate_tag_text) (use assms(6,8) in simp_all)
  assume n: "\<not> val_texp w D T (gate_tag k [a, b])"
  have a: "\<not> T a \<Longrightarrow> u' = u" and b: "\<not> T b \<Longrightarrow> v' = v"
    using agree_valued [OF assms(5)] assms(1-4) by auto
  show "gate_fun f k u v = gate_fun f k u' v'"
  proof (cases k)
    case GOr
    then have "u = 0 \<or> u = 1" "v = 0 \<or> v = 1" "u' = 0 \<or> u' = 1" "v' = 0 \<or> v' = 1"
      using assms(1-4,7) bit1 by (auto simp: valued_def)
    then show ?thesis
      using GOr n a b by (auto simp: val_or_tag [OF assms(1,2)])
  qed (use assms(6) n a b in
      \<open>auto simp: val_and_tag [OF assms(1,2)] val_or_tag [OF assms(1,2)]\<close>)
qed

theorem gate_tag_sound_witness:
  "assigns_tag GAnd ''y'' [''a'', ''b''] \<and> gate_fun (+) GAnd 0 9 = gate_fun (+) GAnd 0 4"
  using gate_tag_sound [of 4 "[''a'' \<mapsto> 0, ''b'' \<mapsto> 9]" "''a''" 0 "''b''" 9
      "[''a'' \<mapsto> 0, ''b'' \<mapsto> 4]" 0 4 "\<lambda>x. x = ''b''" GAnd "''y''" "(+)"]
  by (simp add: valued_def agree_on_def and_tag_def guard_tag_def known_def)

text \<open>
  \<^bold>\<open>C23.\<close> For vectors of two or more bits the rule the disjunction emits is not sound: it drops
  the tag of an input as soon as the other is not zero, though not all its bits are set.
\<close>

theorem or_tag_unsound:
  assumes "2 \<le> w"
  shows "assigns_tag GOr ''y'' [''a'', ''b''] \<and> (\<exists>D D' T. valued w D ''a'' 0 \<and> valued w D ''b'' 1 \<and> valued w D' ''a'' 2 \<and>
    valued w D' ''b'' 1 \<and> agree_on [''a'', ''b''] T D D' \<and>
    \<not> val_texp w D T (gate_tag GOr [''a'', ''b'']) \<and>
    gate_fun f GOr 0 1 \<noteq> gate_fun f GOr 2 1)"
proof -
  let ?D = "[''a'' \<mapsto> 0, ''b'' \<mapsto> 1 :: int]" and ?D' = "[''a'' \<mapsto> 2, ''b'' \<mapsto> 1 :: int]"
    and ?T = "\<lambda>x. x = ''a''"
  have four: "(4::int) \<le> 2 ^ w" using power_increasing [OF assms, of "2 :: int"] by simp
  have p: "(1::int) < 2 ^ w" "(2::int) < 2 ^ w" "(0::int) < 2 ^ w" using four by linarith+
  then have v: "valued w ?D ''a'' 0" "valued w ?D ''b'' 1" "valued w ?D' ''a'' 2" "valued w ?D' ''b'' 1"
    by (auto simp: valued_def)
  have "\<not> val_texp w ?D ?T (gate_tag GOr [''a'', ''b''])"
    by (simp add: val_or_tag [OF v(1,2)])
  moreover have "agree_on [''a'', ''b''] ?T ?D ?D'" by (simp add: agree_on_def)
  moreover have "gate_fun f GOr 0 1 \<noteq> gate_fun f GOr 2 1" by simp
  moreover have "assigns_tag GOr ''y'' [''a'', ''b'']" by (rule gate_tag_text) simp_all
  ultimately show ?thesis using v by blast
qed

theorem or_tag_unsound_witness:
  "assigns_tag GOr ''y'' [''a'', ''b''] \<and> (\<exists>D D' T. valued 8 D ''a'' 0 \<and> valued 8 D ''b'' 1 \<and> valued 8 D' ''a'' 2 \<and>
    valued 8 D' ''b'' 1 \<and> agree_on [''a'', ''b''] T D D' \<and>
    \<not> val_texp 8 D T (gate_tag GOr [''a'', ''b'']) \<and>
    gate_fun (+) GOr 0 1 \<noteq> gate_fun (+) GOr 2 1)"
  by (rule or_tag_unsound) simp

text \<open>
  On single bits the emitted rules of the conjunction and the disjunction are exact: the
  tag bit is set exactly when the tagged inputs can change the output.
\<close>

theorem gate_tag_exact:
  assumes "valued 1 D a u" and "valued 1 D b v" and "k = GAnd \<or> k = GOr" and "y \<noteq> []"
  shows "assigns_tag k y [a, b] \<and>
    (val_texp 1 D T (gate_tag k [a, b]) \<longleftrightarrow>
      (\<exists>u' \<in> {0, 1}. \<exists>v' \<in> {0, 1}. (T a \<or> u' = u) \<and> (T b \<or> v' = v) \<and>
         gate_fun f k u' v' \<noteq> gate_fun f k u v))"
proof (rule conjI)
  show "assigns_tag k y [a, b]" by (rule gate_tag_text) (use assms(3,4) in auto)
  have "u = 0 \<or> u = 1" "v = 0 \<or> v = 1"
    using assms(1,2) bit1 by (auto simp: valued_def)
  then show "val_texp 1 D T (gate_tag k [a, b]) \<longleftrightarrow>
      (\<exists>u' \<in> {0, 1}. \<exists>v' \<in> {0, 1}. (T a \<or> u' = u) \<and> (T b \<or> v' = v) \<and>
         gate_fun f k u' v' \<noteq> gate_fun f k u v)"
    using assms(3)
    by (elim disjE; hypsubst; cases "T a"; cases "T b")
      (simp_all add: val_and_tag [OF assms(1,2)] val_or_tag [OF assms(1,2)], blast+)
qed

theorem gate_tag_exact_witness:
  "val_texp 1 [''a'' \<mapsto> 1, ''b'' \<mapsto> 0] (\<lambda>x. x = ''b'') (gate_tag GAnd [''a'', ''b'']) \<longleftrightarrow>
    (\<exists>u' \<in> {0, 1}. \<exists>v' \<in> {0, 1}. (False \<or> u' = 1) \<and> (True \<or> v' = 0) \<and>
       gate_fun (+) GAnd u' v' \<noteq> gate_fun (+) GAnd 1 0)"
  using gate_tag_exact [of "[''a'' \<mapsto> 1, ''b'' \<mapsto> 0]" "''a''" 1 "''b''" 0 GAnd "''y''"
      "\<lambda>x. x = ''b''" "(+)"]
  by (simp add: valued_def)

section \<open>The multiplexer\<close>

definition mux_fun :: "int \<Rightarrow> int \<Rightarrow> int \<Rightarrow> int" where
  "mux_fun u v s = (if s \<noteq> 0 then v else u)"

lemma val_mux_tag:
  assumes "valued w D a u" "valued w D b v" "valued 1 D s c"
  shows "val_texp w D T (mux_tag a b s) \<longleftrightarrow>
    (if c \<noteq> 0 then T b else T a) \<or> (parity_of w (u XOR v) \<and> T s) \<or> (T a \<and> T s) \<or> (T b \<and> T s)"
  using assms by (auto simp: mux_tag_def valued_def known_def diff_val_def)

lemma parity_bit1: "bv_range 1 u \<Longrightarrow> parity_of 1 u \<longleftrightarrow> u \<noteq> 0"
  unfolding bit1 by (auto simp: parity_of_def)

text \<open>The chunk of the export of the multiplexer that assigns its tag.\<close>

lemma mux_tag_chunk:
  assumes "length (c_ports c) = 4" "p_ift ps = Some True"
    and "bind_ports Assertion ''Y'' [''A'', ''B'', ''S''] (p_idmap ps) (c_ports c) = Inr env"
  shows "\<exists>r t. mux_export_verilog ps c = Inr [r, t] \<and>
    squeeze t = assign_text (env ''Y'') (mux_tag (env ''A'') (env ''B'') (env ''S''))"
  using assms by (simp add: mux_export_verilog_def assign_text_def mux_tag_def ift_tag_def Let_def)

text \<open>
  \<^bold>\<open>C24.\<close> The text of the tag assignment of the multiplexer is the expression \<open>mux_tag\<close>. When its
  tag bit is not set, the output of the other run is the same, unless the select carries the tag
  and the two data inputs differ in an even number of bits: the rule asks for an odd number. For
  single bits this cannot be, for wider vectors it can.
\<close>

theorem mux_tag_soundness:
  assumes "valued w D a u" and "valued w D b v" and "valued 1 D s c"
    and "valued w D' a u'" and "valued w D' b v'" and "valued 1 D' s c'"
    and "agree_on [a, b, s] T D D'"
    and "length (c_ports m) = 4" and "p_ift ps = Some True"
    and "bind_ports Assertion ''Y'' [''A'', ''B'', ''S''] (p_idmap ps) (c_ports m) = Inr env"
    and "env ''A'' = a" and "env ''B'' = b" and "env ''S'' = s"
  shows "(\<exists>r t. mux_export_verilog ps m = Inr [r, t] \<and>
      squeeze t = assign_text (env ''Y'') (mux_tag a b s)) \<and>
    (\<not> val_texp w D T (mux_tag a b s) \<longrightarrow>
      mux_fun u v c = mux_fun u' v' c' \<or> (1 < w \<and> T s \<and> u \<noteq> v \<and> \<not> parity_of w (u XOR v)))"
proof (intro conjI impI)
  show "\<exists>r t. mux_export_verilog ps m = Inr [r, t] \<and>
      squeeze t = assign_text (env ''Y'') (mux_tag a b s)"
    using mux_tag_chunk [OF assms(8-10)] assms(11-13) by simp
next
  assume n: "\<not> val_texp w D T (mux_tag a b s)"
  note ag = agree_valued [OF assms(7)]
  have a: "\<not> T a \<Longrightarrow> u' = u" and b: "\<not> T b \<Longrightarrow> v' = v" and s: "\<not> T s \<Longrightarrow> c' = c"
    using ag assms(1-6) by auto
  have t: "\<not> (if c \<noteq> 0 then T b else T a)" "\<not> (parity_of w (u XOR v) \<and> T s)"
      "\<not> (T a \<and> T s)" "\<not> (T b \<and> T s)"
    using n by (auto simp: val_mux_tag [OF assms(1-3)])
  show "mux_fun u v c = mux_fun u' v' c' \<or> (1 < w \<and> T s \<and> u \<noteq> v \<and> \<not> parity_of w (u XOR v))"
  proof (cases "T s")
    case True
    then have eq: "u' = u" "v' = v" using t a b by auto
    have "w = 0 \<Longrightarrow> u = v" using assms(1,2) by (auto simp: valued_def)
    moreover have "w = 1 \<Longrightarrow> u = v"
    proof -
      assume w: "w = 1"
      then have "u = 0 \<or> u = 1" "v = 0 \<or> v = 1" using assms(1,2) bit1 by (auto simp: valued_def)
      then show "u = v" using t(2) True w by (auto simp: parity_of_def)
    qed
    ultimately have "u = v \<or> 1 < w" by linarith
    then show ?thesis using eq t(2) True by (auto simp: mux_fun_def)
  next
    case False
    then show ?thesis using a b s t(1) by (auto simp: mux_fun_def split: if_splits)
  qed
qed

text \<open>Four connected ports for the witnesses; the identifier of a port is given by its place.\<close>

definition sample_port :: "string \<Rightarrow> direction \<Rightarrow> 64 word \<Rightarrow> port" where
  "sample_port n d k = mk_port (\<lambda>_. k) n '''' d [] False"

definition sample_params :: params where
  "sample_params = \<lparr>p_ift = Some True, p_tag_size = Some 4, p_is_register = None,
     p_idmap = [0 \<mapsto> ''a'', 1 \<mapsto> ''b'', 2 \<mapsto> ''s'', 3 \<mapsto> ''y'']\<rparr>"

lemmas sample_port_defs = sample_port_def sample_params_def mk_port_def mk_cell_def bind_ports_def
  bind_port_def

theorem mux_tag_soundness_witness:
  "mux_fun 0 3 0 \<noteq> mux_fun 0 3 1 \<and>
   \<not> val_texp 2 [''a'' \<mapsto> 0, ''b'' \<mapsto> 3, ''s'' \<mapsto> 0] (\<lambda>x. x = ''s'') (mux_tag ''a'' ''b'' ''s'') \<and>
   \<not> parity_of 2 (0 XOR 3)"
  using mux_tag_soundness [of 2 "[''a'' \<mapsto> 0, ''b'' \<mapsto> 3, ''s'' \<mapsto> 0]" "''a''" 0 "''b''" 3 "''s''" 0
      "[''a'' \<mapsto> 0, ''b'' \<mapsto> 3, ''s'' \<mapsto> 1]" 0 3 1 "\<lambda>x. x = ''s''"
      "mk_cell ''m'' ''$mux'' [sample_port ''A'' Input 0, sample_port ''B'' Input 1,
         sample_port ''S'' Input 2, sample_port ''Y'' Output 3] False JNull JNull" sample_params
      "(\<lambda>_. '''')(''A'' := ''a'', ''B'' := ''b'', ''S'' := ''s'', ''Y'' := ''y'')"]
  by (simp add: valued_def agree_on_def mux_tag_def known_def diff_val_def parity_of_def upt_rec
      bit_iff_odd mux_fun_def sample_port_defs)

section \<open>Registers with a reset\<close>

text \<open>
  The rules of the registers with a constant reset value \<open>v\<close>, for data \<open>d\<close>, reset \<open>r\<close> and enable \<open>en\<close> if
  there is one. When the data equals the reset value the rule joins the tags of the data and of the
  reset, else it takes the tag of the reset where the register is reset (\<open>b\<close>) and of the data where it
  takes the data; there the tag of the enable is added. The text tests the undefined data first.
\<close>

definition reset_rule_text :: "string \<Rightarrow> string \<Rightarrow> string \<Rightarrow> string option \<Rightarrow> string \<Rightarrow> string \<Rightarrow> bool \<Rightarrow> string" where
  "reset_rule_text q d r en w v b =
     (let rule = ''(('' @ squeeze d @ ''=='' @ squeeze w @ [CHR 0x27, CHR ''b''] @ squeeze v @ '')?('' @
            show_texp (TOr (TTag d) (TTag r)) @ ''):'' @ show_texp (TTag (if b then r else d)) @ '')''
      in squeeze q @ ''_t<=(^'' @ squeeze d @ ''===1'bx)?0:'' @
         (if b \<or> en = None then rule else ''('' @ rule @ ''|'' @ show_texp (TTag (the en)) @ '')'') @ '';'')"

definition reset_rule :: "data_env \<Rightarrow> tag_env \<Rightarrow> string \<Rightarrow> string \<Rightarrow> string option \<Rightarrow> int \<Rightarrow> bool \<Rightarrow> nat \<Rightarrow> bool" where
  "reset_rule D T d r en v b n =
     (case D d of
        None \<Rightarrow> False
      | Some u \<Rightarrow> val_texp n D T (if u = v then TOr (TTag d) (TTag r) else TTag (if b then r else d))
          \<or> \<not> b \<and> (\<exists>x. en = Some x \<and> val_texp n D T (TTag x)))"

text \<open>The value a register with reset takes at a clock edge, from the reset, the enable, the data and its own value.\<close>

definition reset_fun :: "int \<Rightarrow> bool \<Rightarrow> bool \<Rightarrow> int \<Rightarrow> int \<Rightarrow> int" where
  "reset_fun v b e u p = (if b then v else if e then u else p)"

lemmas reset_exports = adff_export_verilog_def sdff_export_verilog_def adffe_export_verilog_def sdffe_export_verilog_def

text \<open>
  \<^bold>\<open>C25.\<close> The flip-flops with an asynchronous or synchronous reset, with and without an enable, emit these
  rules where the register is reset (insertion 3 of the export) and where it takes the data (insertion
  6). In the branch of the data the rule joins the tag of the reset only when the data equals the
  reset value, the case in which the reset makes no difference. When the register is assigned and the
  rule gives no tag, a change of its value goes unnoticed exactly when the register takes the data,
  only the reset carries the tag, the data differs from the reset value, and the other run resets.
\<close>

theorem reset_tag_rule_loses_reset:
  assumes "p_ift ps = Some True"
    and "valued w D d u" and "valued w D' d u'" and "T d \<or> u' = u" and "T r \<or> b' = b"
    and "case en of None \<Rightarrow> e \<and> e' | Some x \<Rightarrow> T x \<or> e' = e"
    and "b \<or> e"
  shows "(\<forall>c env. bind_ports Assertion ''Q'' [''CLK'', ''D'', ''ARST''] (p_idmap ps) (c_ports c) = Inr env \<longrightarrow>
      (\<exists>cs. adff_export_verilog ps c = Inr cs \<and> squeeze (cs ! (if b then 3 else 6)) =
        reset_rule_text (env ''Q'') (env ''D'') (env ''ARST'') None (show_word (basic_dff.width c)) (adff.arst_value c) b)) \<and>
    (\<forall>c env. bind_ports Assertion ''Q'' [''CLK'', ''D'', ''SRST''] (p_idmap ps) (c_ports c) = Inr env \<longrightarrow>
      (\<exists>cs. sdff_export_verilog ps c = Inr cs \<and> squeeze (cs ! (if b then 3 else 6)) =
        reset_rule_text (env ''Q'') (env ''D'') (env ''SRST'') None (show_word (basic_dff.width c)) (sdff.srst_value c) b)) \<and>
    (\<forall>c env. length (c_ports c) = 5 \<and> bind_ports Assertion ''Q'' [''CLK'', ''D'', ''EN'', ''ARST''] (p_idmap ps) (c_ports c) = Inr env \<longrightarrow>
      (\<exists>cs. adffe_export_verilog ps c = Inr cs \<and> squeeze (cs ! (if b then 3 else 6)) =
        reset_rule_text (env ''Q'') (env ''D'') (env ''ARST'') (Some (env ''EN'')) (show_word (basic_dff.width c)) (adffe.arst_value c) b)) \<and>
    (\<forall>c env. length (c_ports c) = 5 \<and> bind_ports Assertion ''Q'' [''CLK'', ''D'', ''EN'', ''SRST''] (p_idmap ps) (c_ports c) = Inr env \<longrightarrow>
      (\<exists>cs. sdffe_export_verilog ps c = Inr cs \<and> squeeze (cs ! (if b then 3 else 6)) =
        reset_rule_text (env ''Q'') (env ''D'') (env ''SRST'') (Some (env ''EN'')) (show_word (basic_dff.width c)) (sdffe.srst_value c) b)) \<and>
    (\<not> reset_rule D T d r en v b w \<longrightarrow>
      (reset_fun v b e u p \<noteq> reset_fun v b' e' u' p' \<longleftrightarrow> \<not> b \<and> b' \<and> u \<noteq> v \<and> T r \<and> \<not> T d))"
proof (intro conjI allI impI)
  show "(reset_fun v b e u p \<noteq> reset_fun v b' e' u' p') = (\<not> b \<and> b' \<and> u \<noteq> v \<and> T r \<and> \<not> T d)"
    if "\<not> reset_rule D T d r en v b w"
    using that assms(2-7) by (cases en) (auto simp: reset_rule_def valued_def reset_fun_def split: if_splits)
qed (use assms(1) in \<open>simp_all add: reset_exports reset_rule_text_def ift_tag_def Let_def\<close>)

text \<open>An enabled register that keeps its data while the other run resets it.\<close>

theorem reset_tag_rule_loses_reset_witness:
  "reset_fun 0 False True 5 7 \<noteq> reset_fun 0 True True 5 7 \<and>
   \<not> reset_rule [''b'' \<mapsto> 5] (\<lambda>x. x = ''a'') ''b'' ''a'' (Some ''e'') 0 False 4 \<and>
   (\<exists>cs. adff_export_verilog sample_params
      (basic_dff.extend (cell.extend (mk_cell ''r'' ''$adff'' [sample_port ''ARST'' Input 0,
         sample_port ''CLK'' Input 2, sample_port ''D'' Input 1, sample_port ''Q'' Output 3]
         False JNull JNull) (basic_dff.fields True 4)) (adff.fields True ''0'')) = Inr cs \<and>
      squeeze (cs ! 6) = ''y_t<=(^b===1'bx)?0:((b==4'b0)?(b_t|a_t):b_t);'')"
proof -
  let ?c = "basic_dff.extend (cell.extend (mk_cell ''r'' ''$adff'' [sample_port ''ARST'' Input 0,
         sample_port ''CLK'' Input 2, sample_port ''D'' Input 1, sample_port ''Q'' Output 3]
         False JNull JNull) (basic_dff.fields True 4)) (adff.fields True ''0'')"
  have env: "bind_ports Assertion ''Q'' [''CLK'', ''D'', ''ARST''] (p_idmap sample_params) (c_ports ?c) =
      Inr ((\<lambda>_. '''')(''ARST'' := ''a'', ''CLK'' := ''s'', ''D'' := ''b'', ''Q'' := ''y''))"
    by (simp add: sample_port_defs fun_eq_iff basic_dff.defs cell.defs adff.defs)
  have fields: "basic_dff.width ?c = 4" "adff.arst_value ?c = ''0''" by (simp_all add: basic_dff.defs cell.defs adff.defs)
  have written: "reset_rule_text ''y'' ''b'' ''a'' None (show_nat 4) ''0'' False = ''y_t<=(^b===1'bx)?0:((b==4'b0)?(b_t|a_t):b_t);''"
    by code_simp
  have "valued 4 [''b'' \<mapsto> 5] ''b'' 5" by (simp add: valued_def)
  note main = reset_tag_rule_loses_reset [where T = "\<lambda>x. x = ''a''" and r = "''a''" and b' = True and b = False
      and en = "Some ''e''" and e = True and e' = True and v = 0 and p = 7 and p' = 7, OF _ this this]
  have p: "p_ift sample_params = Some True" by (simp add: sample_params_def)
  have rule: "\<not> reset_rule [''b'' \<mapsto> 5] (\<lambda>x. x = ''a'') ''b'' ''a'' (Some ''e'') 0 False 4" by (simp add: reset_rule_def)
  note parts = main [OF p, simplified]
  have "\<exists>cs. adff_export_verilog sample_params ?c = Inr cs \<and> squeeze (cs ! 6) = reset_rule_text ''y'' ''b'' ''a'' None (show_nat 4) ''0'' False"
    using parts [THEN conjunct1, rule_format, OF env] unfolding fields by simp
  moreover have "reset_fun 0 False True 5 7 \<noteq> reset_fun 0 True True 5 7" using parts rule by simp
  ultimately show ?thesis using rule unfolding written by blast
qed

end
