(* ===== verification/Memory.thy ===== *)
theory Memory
  imports Muxes
begin

text \<open>
  The memory cell (\<open>include/ducode/cell/mem_v2.hpp\<close>): its constructor, the exported declarations
  and ports with the shadow memory of the tags, and the assertions over arrays for the solver.
\<close>

section \<open>Construction\<close>

text \<open>The parameters that no operation reads again are checked in their order but not kept.\<close>

record mem_v2 = cell +
  port_map :: "string \<Rightarrow> port option"
  abits :: "64 word"
  init :: string
  memid :: string
  offset :: "64 word"
  rd_ports :: "64 word"
  mem_size :: "64 word"
  mem_width :: "64 word"
  wr_ports :: "64 word"

definition port_bits_are :: "(string \<Rightarrow> port option) \<Rightarrow> string \<Rightarrow> 64 word \<Rightarrow> 'a res \<Rightarrow> 'a res" where
  "port_bits_are pmap key n k =
     bnd (of_opt OutOfRange (pmap key)) (\<lambda>p.
     chk (word_of_nat (length (pt_bits p)) = n) Contract k)"

definition mk_mem_v2 :: "string \<Rightarrow> string \<Rightarrow> port list \<Rightarrow> bool \<Rightarrow> json \<Rightarrow> json \<Rightarrow> mem_v2 res" where
  "mk_mem_v2 name type ports hidden parameters attributes =
     (let pmap = map_of (map (\<lambda>p. (pt_name p, p)) ports);
          text = string_param parameters;
          number = binary_param parameters in
      bnd (number ''ABITS'') (\<lambda>abits.
      bnd (text ''INIT'') (\<lambda>init.
      bnd (text ''MEMID'') (\<lambda>memid.
      bnd (number ''OFFSET'') (\<lambda>offset.
      bnd (mapM text [''RD_ARST_VALUE'', ''RD_CE_OVER_SRST'', ''RD_CLK_ENABLE'', ''RD_CLK_POLARITY'',
             ''RD_COLLISION_X_MASK'', ''RD_INIT_VALUE'']) (\<lambda>_.
      bnd (number ''RD_PORTS'') (\<lambda>rd_ports.
      bnd (mapM text [''RD_SRST_VALUE'', ''RD_TRANSPARENCY_MASK'', ''RD_WIDE_CONTINUATION'']) (\<lambda>_.
      bnd (number ''SIZE'') (\<lambda>size.
      bnd (number ''WIDTH'') (\<lambda>width.
      bnd (mapM text [''WR_CLK_ENABLE'', ''WR_CLK_POLARITY'']) (\<lambda>_.
      bnd (number ''WR_PORTS'') (\<lambda>wr_ports.
      bnd (mapM text [''WR_PRIORITY_MASK'', ''WR_WIDE_CONTINUATION'']) (\<lambda>_.
      port_bits_are pmap ''RD_ADDR'' (abits * rd_ports) (
      port_bits_are pmap ''RD_DATA'' (width * rd_ports) (
      port_bits_are pmap ''WR_ADDR'' (abits * wr_ports) (
      port_bits_are pmap ''WR_DATA'' (width * wr_ports) (
      port_bits_are pmap ''WR_EN'' (width * wr_ports) (
      Inr (cell.extend (mk_cell name type ports hidden parameters attributes)
             (mem_v2.fields pmap abits init memid offset rd_ports size width wr_ports))))))))))))))))))))"

section \<open>Verilog export\<close>

text \<open>
  The name of the memory: an identifier that starts with the backslash of an escaped name loses
  the underscore that the backslash became.
\<close>

definition memory_name :: "string \<Rightarrow> string" where
  "memory_name mid =
     (let name = legalize_identifier mid in
      if take 1 mid = [CHR 0x5C] \<and> take 1 name = ''_'' then drop 1 name else name)"

text \<open>\<open>std::string_view::substr\<close> throws for a start behind the end.\<close>

definition substr :: "string \<Rightarrow> 64 word \<Rightarrow> 64 word \<Rightarrow> string res" where
  "substr s pos n =
     (if length s < unat pos then Inl OutOfRange else Inr (take (unat n) (drop (unat pos) s)))"

definition mem_ids :: "params \<Rightarrow> mem_v2 \<Rightarrow> string \<Rightarrow> string res" where
  "mem_ids ps c key =
     bnd (of_opt OutOfRange (port_map c key)) (\<lambda>p.
     bnd (of_opt OutOfRange (p_idmap ps (pt_bits_signature p))) (\<lambda>i. Inr (legalize_identifier i)))"

definition address_wires :: "mem_v2 \<Rightarrow> string \<Rightarrow> string \<Rightarrow> 64 word \<Rightarrow> string \<times> string" where
  "address_wires c name address i =
     (fmt ''{}_{}_{}'' [name, address, show_word i],
      if abits c = 1 then address
      else fmt ''{} [{}:{}]'' [address, show_word ((i + 1) * abits c - 1), show_word (i * abits c)])"

definition read_port_text :: "params \<Rightarrow> mem_v2 \<Rightarrow> string \<Rightarrow> 64 word \<Rightarrow> string list res" where
  "read_port_text ps c name i =
     bnd (mem_ids ps c ''RD_ADDR'') (\<lambda>address. bnd (mem_ids ps c ''RD_DATA'') (\<lambda>data.
     let (wire, external) = address_wires c name address i in
     Inr [fmt ''wire [{}:0] {} ;\<newline>'' [show_word (abits c - 1), wire],
          fmt ''assign {} = {};\<newline>'' [wire, external],
          fmt ''assign {} [{}:{}] = {} [{} ];\<newline>''
            [data, show_word ((i + 1) * mem_width c - 1), show_word (i * mem_width c), name, wire]]))"

definition write_clock :: "mem_v2 \<Rightarrow> string \<Rightarrow> 64 word \<Rightarrow> string" where
  "write_clock c clock i =
     (if wr_ports c = 1 then clock
      else fmt ''{} [{}]'' [clock, show_word (wr_ports c - i - 1)])"

definition write_port_text :: "params \<Rightarrow> mem_v2 \<Rightarrow> string \<Rightarrow> 64 word \<Rightarrow> string list res" where
  "write_port_text ps c name i =
     bnd (mem_ids ps c ''WR_ADDR'') (\<lambda>address. bnd (mem_ids ps c ''WR_CLK'') (\<lambda>clock.
     let (wire, external) = address_wires c name address i in
     bnd (mapM (\<lambda>j.
         bnd (mem_ids ps c ''WR_EN'') (\<lambda>en. bnd (mem_ids ps c ''WR_DATA'') (\<lambda>data.
         let j = word_of_nat j; k = show_word (i * mem_width c + j) in
         Inr [fmt ''  if ({} [{}])\<newline>'' [en, k],
              fmt ''    {} [{} ][{}:{}] <= {} [{}];\<newline>''
                [name, wire, show_word j, show_word j, data, k]])))
       [0..<unat (mem_width c)]) (\<lambda>bits.
     Inr ([fmt ''wire [{}:0] {} ;\<newline>'' [show_word (abits c - 1), wire],
           fmt ''assign {} = {};\<newline>'' [wire, external],
           fmt ''always @({} {}) begin\<newline>'' [''posedge'', write_clock c clock i]]
          @ concat bits @ [''end\<newline>'']))))"

definition tag_memory_text :: "params \<Rightarrow> mem_v2 \<Rightarrow> 32 word \<Rightarrow> string \<Rightarrow> string list res" where
  "tag_memory_text ps c tag_size name =
     bnd (mapM (\<lambda>i.
         bnd (mem_ids ps c ''RD_ADDR'') (\<lambda>address.
         let wire = fmt ''{}_{}_{}'' [name, address, show_nat i] in
         Inr (fmt ''{}{}'' [wire, ift_tag],
              [fmt ''wire [{}:0] {}{} ;\<newline>'' [show_word (tag_size - 1), wire, ift_tag],
               fmt ''assign {}{} = {}{} [{} ] === {}'bX ? 0 : {}{} [{} ];\<newline>''
                 [wire, ift_tag, name, ift_tag, wire, show_word tag_size, name, ift_tag, wire]])))
       [0..<unat (rd_ports c)]) (\<lambda>reads.
     bnd (mem_ids ps c ''RD_DATA'') (\<lambda>rdata. bnd (mem_ids ps c ''RD_EN'') (\<lambda>ren.
     bnd (mem_ids ps c ''RD_ADDR'') (\<lambda>raddr.
     bnd (mapM (\<lambda>i.
         bnd (mem_ids ps c ''WR_ADDR'') (\<lambda>address. bnd (mem_ids ps c ''WR_CLK'') (\<lambda>clock.
         bnd (mem_ids ps c ''WR_DATA'') (\<lambda>wdata. bnd (mem_ids ps c ''WR_EN'') (\<lambda>wen.
         let i = word_of_nat i; wire = fmt ''{}_{}_{}'' [name, address, show_word i] in
         Inr [fmt ''always @({} {}) begin\<newline>'' [''posedge'', write_clock c clock i],
              fmt ''  {}{} [{} ] <= {}{} | {}{} | {}{} ;\<newline>''
                [name, ift_tag, wire, wdata, ift_tag, wen, ift_tag, address, ift_tag],
              ''end\<newline>''])))))
       [0..<unat (wr_ports c)]) (\<lambda>writes.
     Inr ([fmt ''reg [{}:0] {}{} [{}:0];\<newline>''
             [show_word (tag_size - 1), name, ift_tag, show_word (mem_size c - 1)],
           ''initial begin\<newline>'']
          @ map (\<lambda>i. fmt ''  {}{} [{}] = 0;\<newline>'' [name, ift_tag, show_nat i]) [0..<unat (mem_size c)]
          @ [''end\<newline>'']
          @ concat (map snd reads)
          @ [fmt ''assign {}{} = {} | {}{} | {}{};\<newline>''
               [rdata, ift_tag, join '' | '' (map fst reads), ren, ift_tag, raddr, ift_tag]]
          @ concat writes))))))"

definition mem_v2_export_verilog :: "params \<Rightarrow> mem_v2 \<Rightarrow> string list res" where
  "mem_v2_export_verilog ps c =
     (let ift = (case p_ift ps of Some b \<Rightarrow> b | None \<Rightarrow> False) in
      bnd (of_opt Contract (p_tag_size ps)) (\<lambda>tag_size.
      bnd (mapM (\<lambda>k. of_opt OutOfRange (port_map c k))
             [''RD_DATA'', ''RD_ADDR'', ''RD_EN'', ''WR_DATA'', ''WR_ADDR'', ''WR_CLK'', ''WR_EN'']) (\<lambda>_.
      let name = memory_name (memid c); size = mem_size c; width = mem_width c in
      bnd (mapM (\<lambda>i.
          let i = word_of_nat i in
          bnd (substr (init c) ((size - i - 1) * width) width) (\<lambda>view.
          Inr (fmt ''  {} [{}] = {}'b{};\<newline>'' [name, show_word i, show_word width, view])))
        [0..<unat size]) (\<lambda>inits.
      bnd (mapM (\<lambda>i. read_port_text ps c name (word_of_nat i)) [0..<unat (rd_ports c)]) (\<lambda>reads.
      bnd (mapM (\<lambda>i. write_port_text ps c name (word_of_nat i)) [0..<unat (wr_ports c)]) (\<lambda>writes.
      bnd (if ift then tag_memory_text ps c tag_size name else Inr []) (\<lambda>tags.
      Inr ([fmt ''reg [{}:0] {} [{}:0];\<newline>'' [show_word (width - 1), name, show_word (size - 1)],
            ''initial begin\<newline>'']
           @ inits @ [''end\<newline>''] @ concat reads @ concat writes @ tags))))))))"

section \<open>Assertions for the solver\<close>

text \<open>
  The array terms and the three assertions the code makes of them: the read, the quantified
  statement that the other cells keep their value, and the equation of the memory with its update.
\<close>

datatype arr =
    AVar string nat nat
  | AStore arr bv bv
  | AIte form arr arr

fun arr_sort :: "arr \<Rightarrow> nat \<times> nat" where
  "arr_sort (AVar _ d r) = (d, r)"
| "arr_sort (AStore a _ _) = arr_sort a"
| "arr_sort (AIte _ a _) = arr_sort a"

fun wf_arr :: "arr \<Rightarrow> bool" where
  "wf_arr (AVar _ d r) = (0 < d \<and> 0 < r)"
| "wf_arr (AStore a i v) = (wf_arr a \<and> ws i \<and> ws v \<and> arr_sort a = (bv_size i, bv_size v))"
| "wf_arr (AIte c a b) = (wf_form c \<and> wf_arr a \<and> wf_arr b \<and> arr_sort a = arr_sort b)"

datatype mem_form =
    MRead bv form arr bv bv
  | MUnchanged nat bv arr arr
  | MEq arr arr

fun wf_mem :: "mem_form \<Rightarrow> bool" where
  "wf_mem (MRead data c a i x) =
     (ws data \<and> wf_form c \<and> wf_arr a \<and> ws i \<and> ws x \<and>
      arr_sort a = (bv_size i, bv_size data) \<and> bv_size x = bv_size data)"
| "wf_mem (MUnchanged n i a b) =
     (ws i \<and> bv_size i = n \<and> wf_arr a \<and> wf_arr b \<and> arr_sort a = arr_sort b \<and> fst (arr_sort a) = n)"
| "wf_mem (MEq a b) = (wf_arr a \<and> wf_arr b \<and> arr_sort a = arr_sort b)"

definition mem_add :: "mem_form \<Rightarrow> mem_form list \<Rightarrow> mem_form list res" where
  "mem_add f s = (if wf_mem f then Inr (s @ [f]) else Inl Z3Exception)"

text \<open>
  \<open>reg\<close> and \<open>prev\<close> are the entries \<open>mem_reg_name\<close> and \<open>mem_reg_name_previous\<close> of the parameters;
  the map of the port expressions is split into its bit vectors \<open>pm\<close> and its arrays \<open>am\<close>.
\<close>

definition mem_v2_export_smt2 ::
  "string option \<Rightarrow> string option \<Rightarrow> port_exprs \<Rightarrow> (string \<times> arr) list \<Rightarrow> mem_form list \<Rightarrow>
   mem_form list res"
where
  "mem_v2_export_smt2 reg prev pm am s =
     chk (pm \<noteq> [] \<or> am \<noteq> []) Assertion (
     bnd (of_opt Assertion reg) (\<lambda>mem_reg_name.
     let mem_reg_name_previous = (case prev of Some p \<Rightarrow> p | None \<Rightarrow> '''') in
     chk (mem_reg_name \<noteq> []) Assertion (
     chk (mem_reg_name_previous \<noteq> []) Assertion (
     bnd (pexpr pm ''RD_ADDR'') (\<lambda>rd_addr.
     bnd (pexpr pm ''RD_DATA'') (\<lambda>rd_data.
     let data_size = bv_size rd_data in
     bnd (of_opt OutOfRange (map_of am mem_reg_name)) (\<lambda>mem.
     bnd (case prev of
            Some _ \<Rightarrow> of_opt OutOfRange (map_of am mem_reg_name_previous)
          | None \<Rightarrow> of_opt OutOfRange (map_of am mem_reg_name)) (\<lambda>mem_previous.
     bnd (pexpr pm ''RD_EN'') (\<lambda>rd_en.
     bnd (mem_add (MRead rd_data (eq_num rd_en 1) mem rd_addr (BVar ''x'' data_size)) s) (\<lambda>s.
     case map_of pm ''WR_EN'' of
       None \<Rightarrow> Inr s
     | Some wr_en \<Rightarrow>
         bnd (pexpr pm ''WR_ADDR'') (\<lambda>wr_addr.
         bnd (pexpr pm ''WR_DATA'') (\<lambda>wr_data.
         let wr_condition = eq_num wr_en 65535;
             updated_mem = AIte wr_condition (AStore mem_previous wr_addr wr_data) mem_previous
         in bnd (mem_add (MUnchanged (bv_size rd_addr) wr_addr updated_mem mem_previous) s)
              (mem_add (MEq mem updated_mem))))))))))))))"

fun eval_arr ::
  "(unop \<Rightarrow> nat \<Rightarrow> int \<Rightarrow> int) \<Rightarrow> (binop \<Rightarrow> nat \<Rightarrow> int \<Rightarrow> int \<Rightarrow> int) \<Rightarrow>
   (cmp \<Rightarrow> nat \<Rightarrow> int \<Rightarrow> int \<Rightarrow> bool) \<Rightarrow> (string \<times> nat \<Rightarrow> int) \<Rightarrow> (string \<Rightarrow> int \<Rightarrow> int) \<Rightarrow> arr \<Rightarrow> int \<Rightarrow> int"
where
  "eval_arr un bin prd m ma (AVar x _ _) = ma x"
| "eval_arr un bin prd m ma (AStore a i v) =
     (eval_arr un bin prd m ma a)(eval un bin prd m i := eval un bin prd m v)"
| "eval_arr un bin prd m ma (AIte c a b) =
     (if holds un bin prd m c then eval_arr un bin prd m ma a else eval_arr un bin prd m ma b)"

text \<open>
  The assertion that the other cells keep their values quantifies a constant \<open>i\<close> of the solver; here
  it ranges over the addresses. That an address expression with a constant of this name would be
  captured is not modelled.
\<close>

fun holds_mem ::
  "(unop \<Rightarrow> nat \<Rightarrow> int \<Rightarrow> int) \<Rightarrow> (binop \<Rightarrow> nat \<Rightarrow> int \<Rightarrow> int \<Rightarrow> int) \<Rightarrow>
   (cmp \<Rightarrow> nat \<Rightarrow> int \<Rightarrow> int \<Rightarrow> bool) \<Rightarrow> (string \<times> nat \<Rightarrow> int) \<Rightarrow> (string \<Rightarrow> int \<Rightarrow> int) \<Rightarrow> mem_form \<Rightarrow> bool"
where
  "holds_mem un bin prd m ma (MRead data c a i x) =
     (eval un bin prd m data =
       (if holds un bin prd m c then eval_arr un bin prd m ma a (eval un bin prd m i)
        else eval un bin prd m x))"
| "holds_mem un bin prd m ma (MUnchanged n i a b) =
     (\<forall>j. bv_range n j \<and> j \<noteq> eval un bin prd m i \<longrightarrow>
        eval_arr un bin prd m ma a j = eval_arr un bin prd m ma b j)"
| "holds_mem un bin prd m ma (MEq a b) =
     (eval_arr un bin prd m ma a = eval_arr un bin prd m ma b)"

text \<open>
  \<^bold>\<open>C31.\<close> With read enabled the read port returns the addressed cell; the memory of the step is
  the memory before with the addressed cell replaced when the write enable is 65535 modulo its
  range, and the memory before otherwise. So when the enable has more than sixteen bits, all of
  them set do not write.
\<close>

theorem memory_step:
  assumes "smt_bv un bin prd"
    and "map_of pm ''RD_ADDR'' = Some ra" and "map_of pm ''RD_DATA'' = Some rd"
    and "map_of pm ''RD_EN'' = Some re" and "map_of pm ''WR_EN'' = Some we"
    and "map_of pm ''WR_ADDR'' = Some wa" and "map_of pm ''WR_DATA'' = Some wd"
    and "map_of am r = Some (AVar r d n)" and "map_of am p = Some (AVar p d n)"
    and "r \<noteq> []" and "p \<noteq> []" and "0 < n"
    and "ws ra \<and> ws rd \<and> ws re \<and> ws we \<and> ws wa \<and> ws wd"
    and "bv_size ra = d \<and> bv_size wa = d \<and> bv_size rd = n \<and> bv_size wd = n"
  shows "\<exists>fs. mem_v2_export_smt2 (Some r) (Some p) pm am s = Inr (s @ fs) \<and>
    ((\<forall>f \<in> set fs. holds_mem un bin prd m ma f) \<longleftrightarrow>
      eval un bin prd m rd =
        (if eval un bin prd m re = 1 then ma r (eval un bin prd m ra)
         else eval un bin prd m (BVar ''x'' n)) \<and>
      ma r = (if eval un bin prd m we = 65535 mod 2 ^ bv_size we
              then (ma p)(eval un bin prd m wa := eval un bin prd m wd) else ma p)) \<and>
    (16 < bv_size we \<and> eval un bin prd m we = 2 ^ bv_size we - 1 \<longrightarrow>
      eval un bin prd m we \<noteq> 65535 mod 2 ^ bv_size we)"
proof -
  have e: "holds un bin prd m (eq_num re 1) \<longleftrightarrow> eval un bin prd m re = 1"
    using assms(13) ws_pos [of re] by (simp add: eq_num_def take_bit_int_eq_self)
  have w: "holds un bin prd m (eq_num we 65535) \<longleftrightarrow>
      eval un bin prd m we = 65535 mod 2 ^ bv_size we"
    by (simp add: eq_num_def take_bit_eq_mod)
  have d: "0 < d" using assms(13,14) ws_pos by auto
  have nonempty: "pm \<noteq> []" using assms(2) by auto
  have "(65535::int) mod 2 ^ k \<noteq> 2 ^ k - 1" if "16 < k" for k
  proof -
    have "(2::int) ^ 17 \<le> 2 ^ k" using that by (intro power_increasing) auto
    then show ?thesis by auto
  qed
  then show ?thesis
    using assms(2-14) d nonempty
    by (auto simp: mem_v2_export_smt2_def pexpr_Some mem_add_def e w Let_def)
qed

theorem memory_step_witness:
  "\<exists>fs. mem_v2_export_smt2 (Some ''m1'') (Some ''m0'')
      [(''RD_ADDR'', BVar ''ra'' 2), (''RD_DATA'', BVar ''rd'' 8), (''RD_EN'', BVar ''re'' 1),
       (''WR_EN'', BVar ''we'' 32), (''WR_ADDR'', BVar ''wa'' 2), (''WR_DATA'', BVar ''wd'' 8)]
      [(''m1'', AVar ''m1'' 2 8), (''m0'', AVar ''m0'' 2 8)] [] = Inr fs \<and>
    (\<forall>f \<in> set fs. holds_mem std_un std_bin std_prd
      (\<lambda>(x, _). if x = ''we'' then 2 ^ 32 - 1 else if x = ''re'' then 1 else 0) (\<lambda>_ _. 0) f)"
  using memory_step [OF std.smt_bv_axioms, of
      "[(''RD_ADDR'', BVar ''ra'' 2), (''RD_DATA'', BVar ''rd'' 8), (''RD_EN'', BVar ''re'' 1),
       (''WR_EN'', BVar ''we'' 32), (''WR_ADDR'', BVar ''wa'' 2), (''WR_DATA'', BVar ''wd'' 8)]"
      "BVar ''ra'' 2" "BVar ''rd'' 8" "BVar ''re'' 1" "BVar ''we'' 32" "BVar ''wa'' 2" "BVar ''wd'' 8"
      "[(''m1'', AVar ''m1'' 2 8), (''m0'', AVar ''m0'' 2 8)]" "''m1''" 2 8 "''m0''" "[]"
      "\<lambda>(x, _). if x = ''we'' then 2 ^ 32 - 1 else if x = ''re'' then 1 else 0" "\<lambda>_ _. 0"]
  by (simp add: take_bit_eq_mod)

end
