(* ===== verification/ModuleData.thy ===== *)
theory ModuleData
  imports MuxFacts Memory
begin

text \<open>
  Modules (\<open>include/ducode/module.hpp\<close>, \<open>src/ducode/module.cpp\<close>): the cells of every class under
  one type, the construction of a cell from its type name, the nets and ports of a module, and
  the header of the exported text. The graph of a module is in the theory \<open>Graphs\<close>.
\<close>

section \<open>Cells of every class\<close>

text \<open>
  \<open>m_cells\<close> holds objects of the subclasses of \<open>Cell\<close>. An object is its record under the
  constructor of its class; the virtual functions are functions by cases.
\<close>

datatype anycell =
    Gate gate_class cell
  | Shift shift | Shiftx shiftx | Mux cell | PMux pmux
  | Sr sr | Dff basic_dff | Adff adff | Sdff sdff | Aldff aldff | Dffsr dffsr
  | Dffe dffe | Adffe adffe | Sdffe sdffe | Aldffe aldffe | Dffsre dffsre
  | Dlatch dlatch | Adlatch adlatch | Dlatchsr dlatchsr
  | PrintCell cell | MemV2 mem_v2 | ModuleCell cell

fun cell_base :: "anycell \<Rightarrow> cell" where
  "cell_base (Gate k c) = c"
| "cell_base (Shift c) = cell.truncate c"
| "cell_base (Shiftx c) = cell.truncate c"
| "cell_base (Mux c) = c"
| "cell_base (PMux c) = cell.truncate c"
| "cell_base (Sr c) = cell.truncate c"
| "cell_base (Dff c) = cell.truncate c"
| "cell_base (Adff c) = cell.truncate c"
| "cell_base (Sdff c) = cell.truncate c"
| "cell_base (Aldff c) = cell.truncate c"
| "cell_base (Dffsr c) = cell.truncate c"
| "cell_base (Dffe c) = cell.truncate c"
| "cell_base (Adffe c) = cell.truncate c"
| "cell_base (Sdffe c) = cell.truncate c"
| "cell_base (Aldffe c) = cell.truncate c"
| "cell_base (Dffsre c) = cell.truncate c"
| "cell_base (Dlatch c) = cell.truncate c"
| "cell_base (Adlatch c) = cell.truncate c"
| "cell_base (Dlatchsr c) = cell.truncate c"
| "cell_base (PrintCell c) = c"
| "cell_base (MemV2 c) = cell.truncate c"
| "cell_base (ModuleCell c) = c"

fun cell_export_verilog :: "params \<Rightarrow> anycell \<Rightarrow> string list res" where
  "cell_export_verilog ps (Gate k c) = gate_export_verilog k ps c"
| "cell_export_verilog ps (Shift c) = shift_export_verilog ps c"
| "cell_export_verilog ps (Shiftx c) = shiftx_export_verilog ps c"
| "cell_export_verilog ps (Mux c) = mux_export_verilog ps c"
| "cell_export_verilog ps (PMux c) = pmux_export_verilog ps c"
| "cell_export_verilog ps (Sr c) = sr_export_verilog ps c"
| "cell_export_verilog ps (Dff c) = dff_export_verilog ps c"
| "cell_export_verilog ps (Adff c) = adff_export_verilog ps c"
| "cell_export_verilog ps (Sdff c) = sdff_export_verilog ps c"
| "cell_export_verilog ps (Aldff c) = aldff_export_verilog ps c"
| "cell_export_verilog ps (Dffsr c) = dffsr_export_verilog ps c"
| "cell_export_verilog ps (Dffe c) = dffe_export_verilog ps c"
| "cell_export_verilog ps (Adffe c) = adffe_export_verilog ps c"
| "cell_export_verilog ps (Sdffe c) = sdffe_export_verilog ps c"
| "cell_export_verilog ps (Aldffe c) = aldffe_export_verilog ps c"
| "cell_export_verilog ps (Dffsre c) = dffsre_export_verilog ps c"
| "cell_export_verilog ps (Dlatch c) = dlatch_export_verilog ps c"
| "cell_export_verilog ps (Adlatch c) = adlatch_export_verilog ps c"
| "cell_export_verilog ps (Dlatchsr c) = dlatchsr_export_verilog ps c"
| "cell_export_verilog ps (PrintCell c) = print_export_verilog ps c"
| "cell_export_verilog ps (MemV2 c) = mem_v2_export_verilog ps c"
| "cell_export_verilog ps (ModuleCell c) = cell_module_export_verilog ps c"

section \<open>Construction from the type name\<close>

definition basic_binary_gates :: "string list" where
  "basic_binary_gates =
     [''$add'', ''$sub'', ''$mul'', ''$div'', ''$eq'', ''$eqx'', ''$ge'', ''$gt'', ''$le'', ''$lt'',
      ''$mod'', ''$ne'', ''$nex'', ''$pow'', ''$shl'', ''$shr'', ''$sshl'', ''$sshr'']"

definition basic_unary_gates :: "string list" where
  "basic_unary_gates = [''$not'', ''$logic_not'', ''$pos'', ''$neg'']"

text \<open>The class chosen for a type name, before the constructor of the class runs.\<close>

datatype cell_class =
    KGate gate_class
  | KShift | KShiftx | KMux | KPMux | KSr | KDff | KAdff | KSdff | KAldff | KDffsr
  | KDffe | KAdffe | KSdffe | KAldffe | KDffsre | KDlatch | KAdlatch | KDlatchsr
  | KPrint | KMemV2 | KModule

definition cell_class_of :: "string set \<Rightarrow> string \<Rightarrow> cell_class res" where
  "cell_class_of modules type =
     (if type = ''$and'' then Inr (KGate GAnd)
      else if type = ''$or'' then Inr (KGate GOr)
      else if type = ''$xor'' then Inr (KGate GXor)
      else if type = ''$xnor'' then Inr (KGate GXnor)
      else if type = ''$shift'' then Inr KShift
      else if type = ''$shiftx'' then Inr KShiftx
      else if type = ''$logic_and'' then Inr (KGate GLogicAnd)
      else if type = ''$logic_or'' then Inr (KGate GLogicOr)
      else if type \<in> set basic_binary_gates then Inr (KGate GBinary)
      else if type \<in> set basic_unary_gates then Inr (KGate GUnary)
      else if type = ''$reduce_and'' then Inr (KGate GReduceAnd)
      else if type = ''$reduce_or'' \<or> type = ''$reduce_bool'' then Inr (KGate GReduceOr)
      else if type = ''$reduce_xor'' then Inr (KGate GReduceXor)
      else if type = ''$reduce_xnor'' then Inr (KGate GReduceXnor)
      else if type = ''$mux'' then Inr KMux
      else if type = ''$pmux'' then Inr KPMux
      else if type = ''$sr'' then Inr KSr
      else if type = ''$dff'' then Inr KDff
      else if type = ''$adff'' then Inr KAdff
      else if type = ''$sdff'' then Inr KSdff
      else if type = ''$aldff'' then Inr KAldff
      else if type = ''$dffsr'' then Inr KDffsr
      else if type = ''$dffe'' then Inr KDffe
      else if type = ''$adffe'' then Inr KAdffe
      else if type = ''$sdffe'' then Inr KSdffe
      else if type = ''$aldffe'' then Inr KAldffe
      else if type = ''$dffsre'' then Inr KDffsre
      else if type = ''$dlatch'' then Inr KDlatch
      else if type = ''$adlatch'' then Inr KAdlatch
      else if type = ''$dlatchsr'' then Inr KDlatchsr
      else if type = ''$print'' then Inr KPrint
      else if type = ''$mem_v2'' then Inr KMemV2
      else if type \<in> modules then Inr KModule
      else Inl (RuntimeError ''The type is not a Cell or a Module''))"

definition lift_cell :: "('a \<Rightarrow> anycell) \<Rightarrow> 'a res \<Rightarrow> anycell res" where
  "lift_cell k r = bnd r (\<lambda>c. Inr (k c))"

fun construct ::
  "cell_class \<Rightarrow> string \<Rightarrow> string \<Rightarrow> port list \<Rightarrow> bool \<Rightarrow> json \<Rightarrow> json \<Rightarrow> anycell res"
where
  "construct (KGate k) n t ps h pa at = lift_cell (Gate k) (mk_gate n t ps h pa at)"
| "construct KShift n t ps h pa at = lift_cell Shift (mk_shift n t ps h pa at)"
| "construct KShiftx n t ps h pa at = lift_cell Shiftx (mk_shiftx n t ps h pa at)"
| "construct KMux n t ps h pa at = Inr (Mux (mk_cell n t ps h pa at))"
| "construct KPMux n t ps h pa at = lift_cell PMux (mk_pmux n t ps h pa at)"
| "construct KSr n t ps h pa at = lift_cell Sr (mk_sr n t ps h pa at)"
| "construct KDff n t ps h pa at = lift_cell Dff (mk_dff n t ps h pa at)"
| "construct KAdff n t ps h pa at = lift_cell Adff (mk_adff n t ps h pa at)"
| "construct KSdff n t ps h pa at = lift_cell Sdff (mk_sdff n t ps h pa at)"
| "construct KAldff n t ps h pa at = lift_cell Aldff (mk_aldff n t ps h pa at)"
| "construct KDffsr n t ps h pa at = lift_cell Dffsr (mk_dffsr n t ps h pa at)"
| "construct KDffe n t ps h pa at = lift_cell Dffe (mk_dffe n t ps h pa at)"
| "construct KAdffe n t ps h pa at = lift_cell Adffe (mk_adffe n t ps h pa at)"
| "construct KSdffe n t ps h pa at = lift_cell Sdffe (mk_sdffe n t ps h pa at)"
| "construct KAldffe n t ps h pa at = lift_cell Aldffe (mk_aldffe n t ps h pa at)"
| "construct KDffsre n t ps h pa at = lift_cell Dffsre (mk_dffsre n t ps h pa at)"
| "construct KDlatch n t ps h pa at = lift_cell Dlatch (mk_dlatch n t ps h pa at)"
| "construct KAdlatch n t ps h pa at = lift_cell Adlatch (mk_adlatch n t ps h pa at)"
| "construct KDlatchsr n t ps h pa at = lift_cell Dlatchsr (mk_dlatchsr n t ps h pa at)"
| "construct KPrint n t ps h pa at = Inr (PrintCell (mk_cell n t ps h pa at))"
| "construct KMemV2 n t ps h pa at = lift_cell MemV2 (mk_mem_v2 n t ps h pa at)"
| "construct KModule n t ps h pa at = Inr (ModuleCell (mk_cell (legalize_identifier n) t ps h pa at))"

section \<open>Modules\<close>

text \<open>
  The members of \<open>class Module\<close>, without the graph and the parameters, which nothing sets.
  \<open>m_cells\<close> lists the cells in the order in
  which the collection (\<open>boost::base_collection\<close>, which groups the objects by class) is iterated.
\<close>

record module =
  m_name :: string
  m_nets :: "net list"
  m_cells :: "anycell list"
  m_ports :: "port list"
  m_attributes :: json

definition new_module :: "string \<Rightarrow> module" where
  "new_module name = \<lparr>m_name = name, m_nets = [], m_cells = [], m_ports = [], m_attributes = JNull\<rparr>"

text \<open>\<open>emplace\<close> is the insertion of the collection: where in the order it puts the new cell.\<close>

definition add_cell ::
  "(anycell \<Rightarrow> anycell list \<Rightarrow> anycell list) \<Rightarrow> string set \<Rightarrow> string \<Rightarrow> string \<Rightarrow> port list \<Rightarrow> bool \<Rightarrow>
   json \<Rightarrow> json \<Rightarrow> module \<Rightarrow> module res"
where
  "add_cell emplace modules name type ports hidden parameters attributes m =
     bnd (cell_class_of modules type) (\<lambda>k.
     bnd (construct k name type ports hidden parameters attributes) (\<lambda>c.
     Inr (m\<lparr>m_cells := emplace c (m_cells m)\<rparr>)))"

definition add_port ::
  "(netbit list \<Rightarrow> 64 word) \<Rightarrow> string \<Rightarrow> direction \<Rightarrow> netbit list \<Rightarrow> module \<Rightarrow> module"
where
  "add_port hash name dir bits m =
     m\<lparr>m_ports := m_ports m @
       [mk_port hash name (fmt ''{}_{}'' [legalize_identifier (m_name m), name]) dir bits False]\<rparr>"

definition module_get_port :: "module \<Rightarrow> string \<Rightarrow> port res" where
  "module_get_port m name =
     of_opt (RuntimeError ''Port name not found!'') (find (\<lambda>p. pt_name p = name) (m_ports m))"

text \<open>The first net with the signature is replaced when it is hidden.\<close>

fun find_net :: "64 word \<Rightarrow> net list \<Rightarrow> nat option" where
  "find_net s [] = None"
| "find_net s (n # ns) =
     (if n_bits_signature n = s then Some 0 else map_option Suc (find_net s ns))"

definition add_net :: "net \<Rightarrow> module \<Rightarrow> module" where
  "add_net n m =
     (case find_net (n_bits_signature n) (m_nets m) of
        None \<Rightarrow> m\<lparr>m_nets := m_nets m @ [n]\<rparr>
      | Some i \<Rightarrow>
          if n_hidden (m_nets m ! i) then m\<lparr>m_nets := (m_nets m)[i := n]\<rparr>
          else if \<not> n_hidden n then m\<lparr>m_nets := m_nets m @ [n]\<rparr>
          else m)"

definition names_of :: "direction \<Rightarrow> module \<Rightarrow> string list" where
  "names_of d m = map pt_name (filter (\<lambda>p. pt_direction p = d) (m_ports m))"

definition get_input_names :: "module \<Rightarrow> string list" where
  "get_input_names m = names_of Input m"

definition get_output_names :: "module \<Rightarrow> string list" where
  "get_output_names m = names_of Output m"

definition get_inout_names :: "module \<Rightarrow> string list" where
  "get_inout_names m = names_of Inout m"

section \<open>Header\<close>

definition with_tags :: "string list \<Rightarrow> string list" where
  "with_tags names =
     concat (map (\<lambda>n. [legalize_identifier n, fmt ''{}{}'' [legalize_identifier n, ift_tag]]) names)"

definition port_declaration :: "bool \<Rightarrow> 32 word \<Rightarrow> port \<Rightarrow> string list res" where
  "port_declaration ift tag_size p =
     bnd (case pt_direction p of
            Input \<Rightarrow> Inr ''input'' | Output \<Rightarrow> Inr ''output'' | Inout \<Rightarrow> Inr ''inout''
          | UnknownDir \<Rightarrow> Inl (RuntimeError ''port direction not recognized'')) (\<lambda>direction_string.
     Inr ([fmt ''{} {} {};\<newline>''
            [direction_string, width_string (pt_bits p), legalize_identifier (pt_name p)]]
        @ only ift [fmt ''{} [{}:0] {}{};\<newline>''
            [direction_string, show_word (tag_size - 1), legalize_identifier (pt_name p), ift_tag]]))"

definition export_verilog_header :: "params \<Rightarrow> module \<Rightarrow> string list res" where
  "export_verilog_header ps m =
     bnd (of_opt Contract (p_ift ps)) (\<lambda>ift.
     bnd (of_opt Contract (p_tag_size ps)) (\<lambda>tag_size.
     let tags = (if ift then with_tags else id);
         all_ports = tags (get_input_names m) @ tags (get_output_names m) @ tags (get_inout_names m)
     in bnd (mapM (port_declaration ift tag_size) (m_ports m)) (\<lambda>decls.
        Inr (fmt ''module {}({});\<newline>'' [legalize_identifier (m_name m), join '', '' all_ports]
             # concat decls))))"

end
