(* ===== verification/Walks.thy ===== *)
theory Walks
  imports ModuleData
begin

text \<open>
  The graph of a module (\<open>include/ducode/detail/module_graph.hpp\<close>) and the walks over its nets
  (\<open>include/ducode/utility/graph.hpp\<close>): the detection of loops and the test whether one vertex
  reaches another. The laws of the two walks are proved once, in the locales \<open>net_walk\<close> and
  \<open>net_search\<close>, and used through their interpretations on the walks of the code.
\<close>

section \<open>Graphs\<close>

datatype vertex_type = KCell | KModulePort | KCellPort | KNet | KUndefined

text \<open>
  The pointers of a vertex are the objects they point to; the pointer to a net carries the
  position of the net in the module, which decides whether two pointers are equal.
\<close>

record vertex_info =
  v_label :: string
  v_type :: vertex_type
  v_port_type :: vertex_type
  v_cell :: "anycell option"
  v_port :: "port option"
  v_net :: "(nat \<times> net) option"

definition blank_vertex :: vertex_info where
  "blank_vertex =
     \<lparr>v_label = '''', v_type = KUndefined, v_port_type = KUndefined,
      v_cell = None, v_port = None, v_net = None\<rparr>"

text \<open>
  An adjacency list with vectors: a vertex is its position, parallel edges are kept, and the
  neighbours of a vertex are listed in the order in which the edges were added.
\<close>

record mgraph =
  g_verts :: "vertex_info list"
  g_edges :: "(nat \<times> nat) list"

definition empty_graph :: mgraph where
  "empty_graph = \<lparr>g_verts = [], g_edges = []\<rparr>"

definition nverts :: "mgraph \<Rightarrow> nat" where
  "nverts g = length (g_verts g)"

definition add_vertex :: "vertex_info \<Rightarrow> mgraph \<Rightarrow> nat \<times> mgraph" where
  "add_vertex v g = (nverts g, g\<lparr>g_verts := g_verts g @ [v]\<rparr>)"

definition add_edge :: "nat \<Rightarrow> nat \<Rightarrow> mgraph \<Rightarrow> mgraph" where
  "add_edge u v g = g\<lparr>g_edges := g_edges g @ [(u, v)]\<rparr>"

definition adjacent :: "mgraph \<Rightarrow> nat \<Rightarrow> nat list" where
  "adjacent g v = map snd (filter (\<lambda>e. fst e = v) (g_edges g))"

definition inv_adjacent :: "mgraph \<Rightarrow> nat \<Rightarrow> nat list" where
  "inv_adjacent g v = map fst (filter (\<lambda>e. snd e = v) (g_edges g))"

definition is_net :: "mgraph \<Rightarrow> nat \<Rightarrow> bool" where
  "is_net g v = (v < nverts g \<and> v_type (g_verts g ! v) = KNet)"

definition wf_graph :: "mgraph \<Rightarrow> bool" where
  "wf_graph g = (\<forall>(u, v) \<in> set (g_edges g). u < nverts g \<and> v < nverts g)"

text \<open>The neighbours on which a walk continues.\<close>

definition net_succ :: "mgraph \<Rightarrow> nat \<Rightarrow> nat list" where
  "net_succ g v = filter (is_net g) (adjacent g v)"

lemma net_succ_iff [simp]: "w \<in> set (net_succ g v) \<longleftrightarrow> (v, w) \<in> set (g_edges g) \<and> is_net g w"
  by (force simp: net_succ_def adjacent_def)

section \<open>Walks that remember their path\<close>

definition sources :: "mgraph \<Rightarrow> nat set" where
  "sources g = fst ` set (g_edges g)"

lemma finite_sources [simp]: "finite (sources g)"
  by (simp add: sources_def)

text \<open>
  \<open>follow_path\<close> with a path: the walk stops with true at a net that is already on the path. The
  loop over the neighbours has no early exit, but its result is whether one of the walks
  returned true; whether the labels are also logged does not change it.
\<close>

function follow_path :: "mgraph \<Rightarrow> nat \<Rightarrow> nat list \<Rightarrow> bool" where
  "follow_path g v path =
     (if is_net g v \<and> v \<in> set path then True
      else list_ex (\<lambda>w. follow_path g w (path @ [v])) (net_succ g v))"
  by pat_completeness auto

termination
proof (relation "measure (\<lambda>(g, v, path).
    2 * card (sources g - set path) + (if is_net g v then 0 else 1))")
  fix g v path w
  assume go: "\<not> (is_net g v \<and> v \<in> set path)" and w: "w \<in> set (net_succ g v)"
  have v: "v \<in> sources g" and net: "is_net g w"
    using w by (auto simp: sources_def intro: rev_image_eqI)
  have le: "card (sources g - set (path @ [v])) \<le> card (sources g - set path)"
    by (rule card_mono) auto
  have "v \<notin> set path \<Longrightarrow> card (sources g - set (path @ [v])) < card (sources g - set path)"
    by (rule psubset_card_mono) (use v in auto)
  then show "((g, w, path @ [v]), (g, v, path)) \<in> measure (\<lambda>(g, v, path).
      2 * card (sources g - set path) + (if is_net g v then 0 else 1))"
    using go le net by (cases "v \<in> set path") auto
qed simp

declare follow_path.simps [simp del]

definition contains_loops :: "mgraph \<Rightarrow> bool" where
  "contains_loops g = list_ex (\<lambda>v. is_net g v \<and> follow_path g v []) [0..<nverts g]"

section \<open>Walks to a vertex\<close>

text \<open>
  \<open>follow_path\<close> with a source: nothing is remembered, so the walk may not end. \<open>any_result\<close> is the
  loop over the neighbours, which follows all of them; a walk that does not return within the
  given number of steps is \<open>None\<close>.
\<close>

definition any_result :: "bool option list \<Rightarrow> bool option" where
  "any_result rs = (if None \<in> set rs then None else Some (Some True \<in> set rs))"

fun follow_to :: "nat \<Rightarrow> mgraph \<Rightarrow> nat \<Rightarrow> nat \<Rightarrow> bool option" where
  "follow_to 0 g v source = None"
| "follow_to (Suc k) g v source =
     (if is_net g v \<and> v = source then Some True
      else any_result (map (\<lambda>w. follow_to k g w source) (net_succ g v)))"

definition source_reachable :: "nat \<Rightarrow> mgraph \<Rightarrow> nat \<Rightarrow> nat \<Rightarrow> bool option" where
  "source_reachable fuel g source target = follow_to fuel g target source"

section \<open>Laws of the walks\<close>

definition walk_rel :: "('v \<Rightarrow> 'v list) \<Rightarrow> ('v \<times> 'v) set" where
  "walk_rel succ = {(v, w). w \<in> set (succ v)}"

text \<open>The steps of a walk that stops at the net \<open>s\<close>.\<close>

definition search_rel :: "('v \<Rightarrow> 'v list) \<Rightarrow> ('v \<Rightarrow> bool) \<Rightarrow> 'v \<Rightarrow> ('v \<times> 'v) set" where
  "search_rel succ net s = {(v, w). w \<in> set (succ v) \<and> \<not> (net v \<and> v = s)}"

locale net_graph =
  fixes succ :: "'g \<Rightarrow> 'v \<Rightarrow> 'v list" and net :: "'g \<Rightarrow> 'v \<Rightarrow> bool"
  assumes succ_net: "w \<in> set (succ g v) \<Longrightarrow> net g w"
    and finite_net: "finite (Collect (net g))"
begin

lemma card_unvisited_insert:
  assumes "net g v" "v \<notin> P"
  shows "Suc (card (Collect (net g) - insert v P)) = card (Collect (net g) - P)"
proof -
  have "Collect (net g) - P = insert v (Collect (net g) - insert v P)" using assms by auto
  then show ?thesis by (metis DiffE card_insert_disjoint finite_Diff finite_net insertI1)
qed

lemma cycle_net: "(x, x) \<in> (walk_rel (succ g))\<^sup>+ \<Longrightarrow> net g x"
  by (erule tranclE) (auto simp: walk_rel_def intro: succ_net)

end

locale net_walk = net_graph +
  fixes walk :: "'g \<Rightarrow> 'v \<Rightarrow> 'v list \<Rightarrow> bool"
  assumes walk_eq: "walk g v path \<longleftrightarrow>
    net g v \<and> v \<in> set path \<or> (\<exists>w \<in> set (succ g v). walk g w (path @ [v]))"
begin

lemma cycle_if_walk:
  assumes "walk g v path" "\<And>u. u \<in> set path \<Longrightarrow> (u, v) \<in> (walk_rel (succ g))\<^sup>+" "net g v"
  shows "\<exists>x. (x, x) \<in> (walk_rel (succ g))\<^sup>+"
  using assms
proof (induction "card (Collect (net g) - set path)" arbitrary: v path rule: less_induct)
  case less
  show ?case
  proof (cases "v \<in> set path")
    case False
    then obtain w where w: "w \<in> set (succ g v)" "walk g w (path @ [v])"
      using less.prems(1) walk_eq [of g v path] by auto
    have e: "(v, w) \<in> walk_rel (succ g)" using w by (simp add: walk_rel_def)
    have "card (Collect (net g) - set (path @ [v])) < card (Collect (net g) - set path)"
      using card_unvisited_insert [OF less.prems(3) False] by simp
    then show ?thesis
    proof (rule less.hyps [OF _ w(2)])
      show "(u, w) \<in> (walk_rel (succ g))\<^sup>+" if "u \<in> set (path @ [v])" for u
        using that e less.prems(2) by (auto intro: trancl_into_trancl)
    qed (rule succ_net [OF w(1)])
  qed (use less.prems(2) in blast)
qed

lemma no_cycle_if_no_walk:
  assumes "\<not> walk g v path" "net g v" "(v, x) \<in> (walk_rel (succ g))\<^sup>*"
  shows "(x, x) \<notin> (walk_rel (succ g))\<^sup>+"
  using assms
proof (induction "card (Collect (net g) - set path)" arbitrary: v path rule: less_induct)
  case less
  have new: "v \<notin> set path" and
    step: "\<And>w. w \<in> set (succ g v) \<Longrightarrow> \<not> walk g w (path @ [v])"
    using less.prems(1,2) walk_eq [of g v path] by auto
  have fewer: "card (Collect (net g) - set (path @ [v])) < card (Collect (net g) - set path)"
    using card_unvisited_insert [OF less.prems(2) new] by simp
  have IH: "(x, x) \<notin> (walk_rel (succ g))\<^sup>+"
    if "w \<in> set (succ g v)" "(w, x) \<in> (walk_rel (succ g))\<^sup>*" for w
    by (rule less.hyps [OF fewer step [OF that(1)] succ_net [OF that(1)] that(2)])
  show ?case
  proof (cases "v = x")
    case True
    show ?thesis
    proof
      assume c: "(x, x) \<in> (walk_rel (succ g))\<^sup>+"
      then obtain w where "(x, w) \<in> walk_rel (succ g)" "(w, x) \<in> (walk_rel (succ g))\<^sup>*"
        by (metis tranclD)
      then show False using IH c True by (auto simp: walk_rel_def)
    qed
  next
    case False
    then obtain w where "(v, w) \<in> walk_rel (succ g)" "(w, x) \<in> (walk_rel (succ g))\<^sup>*"
      using less.prems(3) by (meson converse_rtranclE)
    then show ?thesis using IH by (auto simp: walk_rel_def)
  qed
qed

lemma walk_finds_loops:
  "(\<exists>v. net g v \<and> walk g v []) \<longleftrightarrow> \<not> acyclic (walk_rel (succ g))"
proof
  assume "\<exists>v. net g v \<and> walk g v []"
  then show "\<not> acyclic (walk_rel (succ g))"
    unfolding acyclic_def using cycle_if_walk [of g _ "[]"] by auto
next
  assume "\<not> acyclic (walk_rel (succ g))"
  then obtain x where x: "(x, x) \<in> (walk_rel (succ g))\<^sup>+" unfolding acyclic_def by blast
  then have "walk g x []" using no_cycle_if_no_walk [of g x "[]" x] cycle_net by blast
  then show "\<exists>v. net g v \<and> walk g v []" using cycle_net [OF x] by blast
qed

end

lemma any_None: "any_result (map f vs) = None \<longleftrightarrow> (\<exists>w \<in> set vs. f w = None)"
  by (force simp: any_result_def)

lemma any_Some:
  assumes "any_result (map f vs) = Some b"
  shows "\<forall>w \<in> set vs. f w \<noteq> None" "b \<longleftrightarrow> (\<exists>w \<in> set vs. f w = Some True)"
proof -
  show "\<forall>w \<in> set vs. f w \<noteq> None" using any_None [of f vs] assms by auto
  then show "b \<longleftrightarrow> (\<exists>w \<in> set vs. f w = Some True)"
    using assms unfolding any_result_def by (force split: if_splits)
qed

locale net_search = net_graph +
  fixes search :: "nat \<Rightarrow> 'g \<Rightarrow> 'v \<Rightarrow> 'v \<Rightarrow> bool option"
  assumes search_0: "search 0 g v s = None"
    and search_Suc: "search (Suc k) g v s =
      (if net g v \<and> v = s then Some True
       else any_result (map (\<lambda>w. search k g w s) (succ g v)))"
begin

abbreviation R :: "'g \<Rightarrow> 'v \<Rightarrow> ('v \<times> 'v) set" where
  "R g s \<equiv> search_rel (succ g) (net g) s"

lemma search_result:
  "search k g v s = Some b \<Longrightarrow> b \<longleftrightarrow> net g s \<and> (v, s) \<in> (R g s)\<^sup>*"
proof (induction k arbitrary: v b)
  case (Suc k)
  show ?case
  proof (cases "net g v \<and> v = s")
    case False
    then have all: "\<forall>w \<in> set (succ g v). search k g w s \<noteq> None"
      and b: "b \<longleftrightarrow> (\<exists>w \<in> set (succ g v). search k g w s = Some True)"
      using Suc.prems False any_Some [of "\<lambda>w. search k g w s" "succ g v" b]
      unfolding search_Suc by (simp_all add: False)
    have child: "search k g w s = Some True \<longleftrightarrow> net g s \<and> (w, s) \<in> (R g s)\<^sup>*"
      if "w \<in> set (succ g v)" for w
    proof -
      obtain c where "search k g w s = Some c" using all \<open>w \<in> set (succ g v)\<close> by blast
      then show ?thesis using Suc.IH [of w c] by auto
    qed
    have step: "(v, w) \<in> R g s \<longleftrightarrow> w \<in> set (succ g v)" for w
      using False by (simp add: search_rel_def)
    show ?thesis unfolding b
      using child step False by (metis converse_rtrancl_into_rtrancl converse_rtranclE)
  qed (use Suc.prems in \<open>auto simp: search_Suc\<close>)
qed (simp add: search_0)

lemma search_diverges:
  "(v, x) \<in> (R g s)\<^sup>* \<Longrightarrow> (x, x) \<in> (R g s)\<^sup>+ \<Longrightarrow> search k g v s = None"
proof (induction k arbitrary: v)
  case (Suc k)
  obtain w where w: "(v, w) \<in> R g s" "(w, x) \<in> (R g s)\<^sup>*"
    using Suc.prems by (metis converse_rtranclE tranclD)
  have "search k g w s = None" by (rule Suc.IH [OF w(2) Suc.prems(2)])
  then show ?case using w(1) by (force simp: search_Suc any_result_def search_rel_def)
qed (simp add: search_0)

lemma search_none_cycle:
  assumes "search k g v s = None" "\<And>u. u \<in> P \<Longrightarrow> (u, v) \<in> (R g s)\<^sup>+"
    and "card (Collect (net g) - P) + (if net g v then 0 else 1) < k"
  shows "\<exists>x. (v, x) \<in> (R g s)\<^sup>* \<and> (x, x) \<in> (R g s)\<^sup>+"
  using assms
proof (induction k arbitrary: v P)
  case (Suc k)
  from Suc.prems(1) obtain w where nv: "\<not> (net g v \<and> v = s)"
    and w: "w \<in> set (succ g v)" "search k g w s = None"
    by (force simp: search_Suc any_result_def split: if_splits)
  have e: "(v, w) \<in> R g s" using nv w by (simp add: search_rel_def)
  show ?case
  proof (cases "v \<in> P")
    case False
    let ?P = "if net g v then insert v P else P"
    have "card (Collect (net g) - ?P) + (if net g w then 0 else 1) < k"
      using Suc.prems(3) succ_net [OF w(1)] card_unvisited_insert [of g v P] False by auto
    moreover have "(u, w) \<in> (R g s)\<^sup>+" if "u \<in> ?P" for u
      using that e Suc.prems(2) by (auto split: if_splits intro: trancl_into_trancl)
    ultimately obtain x where "(w, x) \<in> (R g s)\<^sup>*" "(x, x) \<in> (R g s)\<^sup>+"
      using Suc.IH [OF w(2), of ?P] by blast
    then show ?thesis using e by (meson converse_rtrancl_into_rtrancl)
  qed (use Suc.prems(2) in blast)
qed simp

lemma search_returns:
  assumes "card (Collect (net g)) + 1 < k"
  shows "search k g v s \<noteq> None \<longleftrightarrow> (\<nexists>x. (v, x) \<in> (R g s)\<^sup>* \<and> (x, x) \<in> (R g s)\<^sup>+)"
proof
  assume "search k g v s \<noteq> None"
  then show "\<nexists>x. (v, x) \<in> (R g s)\<^sup>* \<and> (x, x) \<in> (R g s)\<^sup>+"
    using search_diverges [of v _ g s k] by auto
next
  assume "\<nexists>x. (v, x) \<in> (R g s)\<^sup>* \<and> (x, x) \<in> (R g s)\<^sup>+"
  moreover have "card (Collect (net g) - {}) + (if net g v then 0 else 1) < k" using assms by auto
  ultimately show "search k g v s \<noteq> None" using search_none_cycle [of k g v s "{}"] by blast
qed

end

section \<open>The walks of the code\<close>

lemma finite_nets: "finite (Collect (is_net g))"
  by (rule finite_subset [of _ "{..<nverts g}"]) (auto simp: is_net_def)

lemma card_nets: "card (Collect (is_net g)) \<le> nverts g"
proof -
  have "Collect (is_net g) \<subseteq> {..<nverts g}" by (auto simp: is_net_def)
  from card_mono [OF _ this] show ?thesis by simp
qed

lemma follow_path_eq:
  "follow_path g v path \<longleftrightarrow>
   is_net g v \<and> v \<in> set path \<or> (\<exists>w \<in> set (net_succ g v). follow_path g w (path @ [v]))"
  by (subst follow_path.simps) (auto simp: list_ex_iff)

interpretation loops: net_walk net_succ is_net follow_path
proof unfold_locales
  show "finite (Collect (is_net g))" for g by (rule finite_nets)
qed (simp, rule follow_path_eq)

interpretation search: net_search net_succ is_net follow_to
  by unfold_locales (simp_all only: follow_to.simps)

definition net_edges :: "mgraph \<Rightarrow> (nat \<times> nat) set" where
  "net_edges g = {(v, w). (v, w) \<in> set (g_edges g) \<and> is_net g v \<and> is_net g w}"

lemma walk_rel_trancl_net:
  "(v, w) \<in> (walk_rel (net_succ g))\<^sup>+ \<Longrightarrow> is_net g v \<Longrightarrow> (v, w) \<in> (net_edges g)\<^sup>+"
proof (induction rule: trancl_induct)
  case (base y)
  then show ?case by (auto simp: walk_rel_def net_edges_def intro!: r_into_trancl)
next
  case (step y z)
  have "is_net g y" using step.IH [OF step.prems] by (auto elim!: tranclE simp: net_edges_def)
  then show ?case using step by (auto simp: walk_rel_def net_edges_def intro: trancl_into_trancl)
qed

lemma net_edges_trancl: "(v, w) \<in> (net_edges g)\<^sup>+ \<Longrightarrow> (v, w) \<in> (walk_rel (net_succ g))\<^sup>+"
  by (erule trancl_mono) (auto simp: net_edges_def walk_rel_def)

lemma contains_loops_iff: "contains_loops g \<longleftrightarrow> (\<exists>v. is_net g v \<and> follow_path g v [])"
  by (auto simp: contains_loops_def list_ex_iff is_net_def)

lemma acyclic_nets: "acyclic (walk_rel (net_succ g)) \<longleftrightarrow> acyclic (net_edges g)"
  unfolding acyclic_def
  using walk_rel_trancl_net net_edges_trancl loops.cycle_net by meson

lemma search_rel_trancl:
  "(x, x) \<in> (search_rel (net_succ g) (is_net g) s)\<^sup>+ \<Longrightarrow> (x, x) \<in> (net_edges g)\<^sup>+"
proof -
  assume "(x, x) \<in> (search_rel (net_succ g) (is_net g) s)\<^sup>+"
  then have "(x, x) \<in> (walk_rel (net_succ g))\<^sup>+"
    by (rule trancl_mono) (auto simp: search_rel_def walk_rel_def)
  then show ?thesis using walk_rel_trancl_net loops.cycle_net by blast
qed

text \<open>
  \<^bold>\<open>C33.\<close> \<open>contains_loops\<close> ends on every graph (it is a total function) and returns true exactly
  when the edges between nets have a cycle.
\<close>

theorem contains_loops_correct: "contains_loops g \<longleftrightarrow> \<not> acyclic (net_edges g)"
  by (simp add: contains_loops_iff loops.walk_finds_loops acyclic_nets)

text \<open>
  \<^bold>\<open>C34.\<close> \<open>source_reachable\<close> follows the edges from the target, never past the source. When those
  walks meet no cycle of nets, a number of steps above that of the vertices is enough, and it
  returns whether the source is a net that the target leads to. When they meet a cycle it never
  returns, whatever the number of steps: nothing remembers the vertices already visited.
\<close>

theorem source_reachable_correct:
  assumes "nverts g + 1 < fuel"
  shows "if (\<exists>x. (target, x) \<in> (search_rel (net_succ g) (is_net g) source)\<^sup>* \<and>
                 (x, x) \<in> (search_rel (net_succ g) (is_net g) source)\<^sup>+)
         then (\<forall>k. source_reachable k g source target = None)
         else source_reachable fuel g source target =
           Some (is_net g source \<and>
             (target, source) \<in> (search_rel (net_succ g) (is_net g) source)\<^sup>*)"
proof -
  let ?S = "search_rel (net_succ g) (is_net g) source"
  have k: "card (Collect (is_net g)) + 1 < fuel" using card_nets [of g] assms by simp
  show ?thesis
  proof (cases "\<exists>x. (target, x) \<in> ?S\<^sup>* \<and> (x, x) \<in> ?S\<^sup>+")
    case True
    then show ?thesis by (auto simp: source_reachable_def intro: search.search_diverges)
  next
    case False
    then obtain b where b: "follow_to fuel g target source = Some b"
      using search.search_returns [OF k, of target source] by auto
    show ?thesis unfolding if_not_P [OF False] source_reachable_def
      using search.search_result [OF b] b by simp
  qed
qed

text \<open>Three nets in a row, and a net that drives itself.\<close>

definition net_vertex :: vertex_info where
  "net_vertex = blank_vertex\<lparr>v_type := KNet\<rparr>"

definition chain_graph :: mgraph where
  "chain_graph = \<lparr>g_verts = replicate 3 net_vertex, g_edges = [(0, 1), (1, 2)]\<rparr>"

lemma chain_nets [simp]: "nverts chain_graph = 3" "is_net chain_graph v \<longleftrightarrow> v < 3"
  by (auto simp: nverts_def is_net_def chain_graph_def net_vertex_def)

lemma chain_graph_reaches:
  "source_reachable 5 chain_graph 2 0 = Some True" "source_reachable 5 chain_graph 0 2 = Some False"
  by code_simp+

theorem source_reachable_correct_witness:
  "(0, 2) \<in> (search_rel (net_succ chain_graph) (is_net chain_graph) 2)\<^sup>* \<and>
   (2, 0) \<notin> (search_rel (net_succ chain_graph) (is_net chain_graph) 0)\<^sup>*"
proof -
  have "nverts chain_graph + 1 < 5" by simp
  note th = source_reachable_correct [OF this]
  from th [of 0 2] th [of 2 0] chain_graph_reaches show ?thesis by (simp split: if_splits)
qed

end
