(* ===== verification/GraphFacts.thy ===== *)
theory GraphFacts
  imports Graphs "HOL-Library.Multiset"
begin

text \<open>
  Facts about the construction of the graph: the invariant \<open>graph_ok\<close> of every step, and from it
  that the construction ends without an error, that no nets are connected in a loop, which edges
  there are, and that every port of a cell is connected.
\<close>

section \<open>Invariant\<close>

definition vsig :: "vertex_info \<Rightarrow> 64 word option" where
  "vsig i = (case v_net i of Some (k, n) \<Rightarrow> Some (n_bits_signature n)
             | None \<Rightarrow> map_option pt_bits_signature (v_port i))"

definition vbits :: "vertex_info \<Rightarrow> netbit set" where
  "vbits i = (case v_net i of Some (k, n) \<Rightarrow> n_fast_search_bits n
              | None \<Rightarrow> (case v_port i of Some p \<Rightarrow> pt_fast_search_bits p | None \<Rightarrow> {}))"

text \<open>Which pointers a vertex of each type has.\<close>

definition vertex_ok :: "vertex_info \<Rightarrow> bool" where
  "vertex_ok i =
     (case v_type i of
        KNet \<Rightarrow> v_net i \<noteq> None \<and> (v_port_type i = KModulePort \<longrightarrow> v_port i \<noteq> None)
      | KCellPort \<Rightarrow>
          v_port i \<noteq> None \<and> v_cell i \<noteq> None \<and> v_net i = None \<and> v_port_type i = KUndefined
      | KCell \<Rightarrow> v_cell i \<noteq> None \<and> v_port i = None \<and> v_port_type i = KUndefined
      | KModulePort \<Rightarrow> False
      | KUndefined \<Rightarrow> False)"

text \<open>
  What an edge may be: from a cell to a vertex with the signature of one of its outputs, from a
  vertex with the signature of one of its inputs to a cell, or between two vertices that are not
  cells and have the same signature or a common bit.
\<close>

definition edge_ok :: "(nat \<Rightarrow> vertex_info) \<Rightarrow> nat \<times> nat \<Rightarrow> bool" where
  "edge_ok at e =
     (case e of (u, v) \<Rightarrow>
      if v_type (at u) = KCell then
        v_type (at v) \<noteq> KCell \<and>
        (\<exists>c p. v_cell (at u) = Some c \<and> p \<in> set (c_ports (cell_base c)) \<and>
           (pt_direction p = Output \<or> pt_direction p = Inout) \<and>
           vsig (at v) = Some (pt_bits_signature p))
      else if v_type (at v) = KCell then
        (\<exists>c p. v_cell (at v) = Some c \<and> p \<in> set (c_ports (cell_base c)) \<and>
           pt_direction p = Input \<and> vsig (at u) = Some (pt_bits_signature p))
      else vsig (at u) = vsig (at v) \<or> vbits (at u) \<inter> vbits (at v) \<noteq> {})"

definition graph_ok :: "(vertex_info \<Rightarrow> bool) \<Rightarrow> mgraph \<Rightarrow> bool" where
  "graph_ok Q g \<longleftrightarrow>
     wf_graph g \<and> acyclic (net_edges g) \<and>
     (\<forall>v < nverts g. vertex_ok (vert g v) \<and> Q (vert g v)) \<and>
     (\<forall>e \<in> set (g_edges g). edge_ok (vert g) e)"

definition entries_ok :: "vertex_type \<Rightarrow> mgraph \<Rightarrow> sigs \<Rightarrow> bool" where
  "entries_ok k g xs \<longleftrightarrow>
     (\<forall>(s, v) \<in> set xs. v < nverts g \<and> v_type (vert g v) = k \<and> vsig (vert g v) = Some s)"

definition build_ok :: "(vertex_info \<Rightarrow> bool) \<Rightarrow> build \<Rightarrow> bool" where
  "build_ok Q b \<longleftrightarrow>
     graph_ok Q (b_graph b) \<and>
     entries_ok KNet (b_graph b) (b_nets b) \<and> entries_ok KNet (b_graph b) (b_ports b) \<and>
     entries_ok KCellPort (b_graph b) (b_cell_ports b)"

section \<open>Adding vertices and edges\<close>

lemma nverts_simps [simp]:
  "nverts (snd (add_vertex i g)) = Suc (nverts g)" "nverts (add_edge u v g) = nverts g"
  "fst (add_vertex i g) = nverts g" "nverts empty_graph = 0"
  by (simp_all add: nverts_def add_vertex_def add_edge_def empty_graph_def)

lemma edges_simps [simp]:
  "g_edges (snd (add_vertex i g)) = g_edges g" "g_edges (add_edge u v g) = g_edges g @ [(u, v)]"
  by (simp_all add: add_vertex_def add_edge_def)

lemma vert_simps [simp]:
  "vert (add_edge u v g) = vert g" "vert (snd (add_vertex i g)) (nverts g) = i"
  "w < nverts g \<Longrightarrow> vert (snd (add_vertex i g)) w = vert g w"
  by (auto simp: vert_def add_edge_def add_vertex_def nverts_def nth_append)

lemma is_net_vert: "is_net g v \<longleftrightarrow> v < nverts g \<and> v_type (vert g v) = KNet"
  by (simp add: is_net_def vert_def)

lemma wf_graph_edge: "wf_graph g \<Longrightarrow> (u, v) \<in> set (g_edges g) \<Longrightarrow> u < nverts g \<and> v < nverts g"
  by (auto simp: wf_graph_def)

lemma net_edges_add_vertex:
  assumes "wf_graph g"
  shows "net_edges (snd (add_vertex i g)) = net_edges g"
  using wf_graph_edge [OF assms] by (force simp: net_edges_def is_net_vert)

lemma net_edges_add_edge:
  "net_edges (add_edge u v g) =
     (if is_net g u \<and> is_net g v then insert (u, v) (net_edges g) else net_edges g)"
  by (auto simp: net_edges_def is_net_vert)

lemma edge_ok_cong:
  "at u = at' u \<Longrightarrow> at v = at' v \<Longrightarrow> edge_ok at (u, v) = edge_ok at' (u, v)"
  by (simp add: edge_ok_def)

lemma graph_ok_add_vertex:
  assumes "graph_ok Q g" "vertex_ok i" "Q i"
  shows "graph_ok Q (snd (add_vertex i g))"
proof -
  have wf: "wf_graph g" and e: "\<forall>e \<in> set (g_edges g). edge_ok (vert g) e"
    using assms(1) by (auto simp: graph_ok_def)
  have "edge_ok (vert (snd (add_vertex i g))) (u, v)" if "(u, v) \<in> set (g_edges g)" for u v
    using wf_graph_edge [OF wf that] e that
    by (subst edge_ok_cong [where at' = "vert g"]) auto
  then show ?thesis
    using assms wf by (auto simp: graph_ok_def net_edges_add_vertex less_Suc_eq)
      (auto simp: wf_graph_def)
qed

lemma graph_ok_add_edge:
  assumes "graph_ok Q g" "u < nverts g" "v < nverts g" "edge_ok (vert g) (u, v)"
    and "is_net g u \<Longrightarrow> is_net g v \<Longrightarrow> (v, u) \<notin> (net_edges g)\<^sup>*"
  shows "graph_ok Q (add_edge u v g)"
  using assms by (auto simp: graph_ok_def net_edges_add_edge wf_graph_def)

lemma entries_ok_add_edge [simp]: "entries_ok k (add_edge u v g) xs = entries_ok k g xs"
  by (simp add: entries_ok_def)

lemma entries_ok_add_vertex: "entries_ok k g xs \<Longrightarrow> entries_ok k (snd (add_vertex i g)) xs"
  by (fastforce simp: entries_ok_def)

lemma entries_ok_cong:
  "nverts g = nverts g' \<Longrightarrow> vert g = vert g' \<Longrightarrow> entries_ok k g xs = entries_ok k g' xs"
  by (simp add: entries_ok_def)

lemma entries_ok_append:
  "entries_ok k g (xs @ [(s, v)]) \<longleftrightarrow>
   entries_ok k g xs \<and> v < nverts g \<and> v_type (vert g v) = k \<and> vsig (vert g v) = Some s"
  by (auto simp: entries_ok_def)

lemma info_ok [simp]:
  "vertex_ok (net_info i n)" "vertex_ok (port_net_info i n p)" "vertex_ok (cell_info c)"
  "vertex_ok (cell_port_info c p)"
  by (simp_all add: vertex_ok_def net_info_def port_net_info_def cell_info_def cell_port_info_def
      blank_vertex_def)

lemma info_simps [simp]:
  "v_type (net_info i n) = KNet" "v_type (port_net_info i n p) = KNet"
  "v_type (cell_info c) = KCell" "v_type (cell_port_info c p) = KCellPort"
  "vsig (net_info i n) = Some (n_bits_signature n)"
  "vsig (port_net_info i n p) = Some (n_bits_signature n)"
  "vsig (cell_port_info c p) = Some (pt_bits_signature p)"
  "v_cell (cell_info c) = Some c"
  by (simp_all add: vsig_def net_info_def port_net_info_def cell_info_def cell_port_info_def
      blank_vertex_def)

lemma vertex_ok_cell: "vertex_ok i \<Longrightarrow> v_type i = KCell \<Longrightarrow> v_cell i \<noteq> None"
  by (simp add: vertex_ok_def)

section \<open>Steps keep the invariant\<close>

definition keeps_order :: "(sigs \<Rightarrow> sigs) \<Rightarrow> bool" where
  "keeps_order mm \<longleftrightarrow> (\<forall>xs. mset (mm xs) = mset xs)"

lemma mm_set: "keeps_order mm \<Longrightarrow> set (mm xs) = set xs"
  by (metis keeps_order_def mset_eq_setD)

lemma equal_range_iff:
  "keeps_order mm \<Longrightarrow> v \<in> set (equal_range mm s xs) \<longleftrightarrow> (s, v) \<in> set xs"
  by (force simp: equal_range_def mm_set)

lemma find_sig_range: "find_sig mm s xs = Some v \<Longrightarrow> v \<in> set (equal_range mm s xs)"
  by (simp add: find_sig_def split: list.splits)

lemma entries_okD:
  "entries_ok k g xs \<Longrightarrow> (s, v) \<in> set xs \<Longrightarrow>
   v < nverts g \<and> v_type (vert g v) = k \<and> vsig (vert g v) = Some s"
  by (auto simp: entries_ok_def)

lemma matching_vertex_ok:
  assumes "build_ok Q b" "keeps_order mm" "matching_vertex mm s b = Some v"
  shows "v < nverts (b_graph b) \<and> v_type (vert (b_graph b) v) = KNet \<and>
    vsig (vert (b_graph b) v) = Some s"
  using assms
  by (auto simp: matching_vertex_def build_ok_def equal_range_iff split: option.splits
      dest!: find_sig_range dest: entries_okD)

text \<open>Edges between a new vertex, which has no edge on its other side, and older nets.\<close>

definition quiet :: "direction \<Rightarrow> nat \<Rightarrow> mgraph \<Rightarrow> bool" where
  "quiet d v g \<longleftrightarrow> (\<forall>e \<in> set (g_edges g). if d = Input then snd e \<noteq> v else fst e \<noteq> v)"

lemma quiet_unreachable:
  assumes "quiet d v g" "w \<noteq> v"
  shows "if d = Input then (w, v) \<notin> (net_edges g)\<^sup>* else (v, w) \<notin> (net_edges g)\<^sup>*"
proof (cases "d = Input")
  case True
  then have "(u, v) \<notin> net_edges g" for u using assms(1) by (force simp: quiet_def net_edges_def)
  then show ?thesis using True assms(2) by (metis rtranclE)
next
  case False
  then have "(v, u) \<notin> net_edges g" for u using assms(1) by (force simp: quiet_def net_edges_def)
  then show ?thesis using False assms(2) by (metis converse_rtranclE)
qed

lemma connect_net_ok:
  assumes "connect d v w g = Inr g'" "graph_ok Q g" "quiet d v g" "w < nverts g" "v < nverts g"
    and "w \<noteq> v" "v_type (vert g v) = KNet" "v_type (vert g w) = KNet"
    and "vsig (vert g v) = vsig (vert g w)"
  shows "graph_ok Q g' \<and> quiet d v g' \<and> nverts g' = nverts g \<and> vert g' = vert g"
proof -
  have e: "edge_ok (vert g) (v, w)" "edge_ok (vert g) (w, v)"
    using assms(7-9) by (simp_all add: edge_ok_def)
  show ?thesis
    using assms(1) quiet_unreachable [OF assms(3,6)] assms(3-6)
      graph_ok_add_edge [OF assms(2) assms(5,4) e(1)] graph_ok_add_edge [OF assms(2) assms(4,5) e(2)]
    by (cases d) (auto simp: connect_def quiet_def)
qed

lemma build_ok_simps [simp]:
  "build_ok Q \<lparr>b_graph = g, b_nets = ns, b_ports = ps, b_cell_ports = cs\<rparr> \<longleftrightarrow>
   graph_ok Q g \<and> entries_ok KNet g ns \<and> entries_ok KNet g ps \<and> entries_ok KCellPort g cs"
  by (simp add: build_ok_def)

lemma net_step_ok:
  assumes step: "net_step mm ports (i, n) b = Inr b'" and b: "build_ok Q b" and mm: "keeps_order mm"
    and Q: "Q (net_info i n)" "\<And>p. p \<in> set ports \<Longrightarrow> Q (port_net_info i n p)"
  shows "build_ok Q b'"
proof (cases "port_of_net ports n")
  case None
  then show ?thesis
    using step b Q graph_ok_add_vertex [of Q "b_graph b" "net_info i n"]
    by (auto simp: net_step_def build_ok_def split_beta entries_ok_append
        intro!: entries_ok_add_vertex)
next
  case (Some p)
  define g where "g = snd (add_vertex (port_net_info i n p) (b_graph b))"
  let ?v = "nverts (b_graph b)" and ?vs = "equal_range mm (n_bits_signature n) (b_nets b)"
  obtain g' where loop: "foldM (\<lambda>w. connect (pt_direction p) ?v w) ?vs g = Inr g'"
    and b': "b' = b\<lparr>b_graph := g', b_ports := b_ports b @ [(n_bits_signature n, ?v)]\<rparr>"
    using step Some by (auto simp: net_step_def split_beta bnd_eq_Inr g_def)
  let ?P = "\<lambda>h. graph_ok Q h \<and> quiet (pt_direction p) ?v h \<and> nverts h = nverts g \<and> vert h = vert g"
  have "?P g'"
  proof (rule foldM_invariant [OF loop])
    have "p \<in> set ports" using Some by (auto simp: port_of_net_def find_Some_iff)
    then have "graph_ok Q g" using b Q unfolding g_def build_ok_def
      by (intro graph_ok_add_vertex) auto
    moreover have "quiet (pt_direction p) ?v g"
      using b wf_graph_edge [of "b_graph b"]
      by (force simp: quiet_def g_def build_ok_def graph_ok_def)
    ultimately show "?P g" by simp
  next
    fix w h h' assume w: "w \<in> set ?vs" and h: "?P h" "connect (pt_direction p) ?v w h = Inr h'"
    have "(n_bits_signature n, w) \<in> set (b_nets b)" using w mm by (simp add: equal_range_iff)
    then have "w < ?v" "v_type (vert (b_graph b) w) = KNet"
      "vsig (vert (b_graph b) w) = Some (n_bits_signature n)"
      using b by (auto simp: build_ok_def dest: entries_okD)
    then show "?P h'" using connect_net_ok [OF h(2), of Q] h(1) by (simp add: g_def)
  qed
  moreover from this have "entries_ok k g' xs = entries_ok k g xs" for k xs
    by (intro entries_ok_cong) auto
  ultimately show ?thesis using b
    by (auto simp: b' build_ok_def entries_ok_append g_def intro: entries_ok_add_vertex)
qed

lemma connect_cell_ok:
  assumes "connect (pt_direction p) v cv g = Inr g'" "graph_ok Q g" "v < nverts g" "cv < nverts g"
    and "v_type (vert g v) \<noteq> KCell" "vsig (vert g v) = Some (pt_bits_signature p)"
    and "v_type (vert g cv) = KCell" "v_cell (vert g cv) = Some c" "p \<in> set (c_ports (cell_base c))"
  shows "graph_ok Q g' \<and> nverts g' = nverts g \<and> vert g' = vert g \<and>
    (if pt_direction p = Input then (v, cv) \<in> set (g_edges g') else (cv, v) \<in> set (g_edges g')) \<and>
    set (g_edges g) \<subseteq> set (g_edges g')"
proof -
  have "\<not> is_net g cv" using assms(7) by (simp add: is_net_vert)
  then have add: "edge_ok (vert g) (v, cv) \<Longrightarrow> graph_ok Q (add_edge v cv g)"
    "edge_ok (vert g) (cv, v) \<Longrightarrow> graph_ok Q (add_edge cv v g)"
    using graph_ok_add_edge [OF assms(2)] assms(3,4) by blast+
  show ?thesis
    using assms(1,5-9) add by (cases "pt_direction p") (auto simp: connect_def edge_ok_def)
qed

text \<open>What a step over a cell's port keeps of the cell's vertex, beside the invariant.\<close>

definition cell_at :: "anycell \<Rightarrow> nat \<Rightarrow> mgraph \<Rightarrow> bool" where
  "cell_at c cv g \<longleftrightarrow> cv < nverts g \<and> v_type (vert g cv) = KCell \<and> v_cell (vert g cv) = Some c"

definition port_connected :: "nat \<Rightarrow> port \<Rightarrow> mgraph \<Rightarrow> bool" where
  "port_connected cv p g \<longleftrightarrow>
     pt_bits p = [] \<or>
     (\<exists>w < nverts g. vsig (vert g w) = Some (pt_bits_signature p) \<and>
        (if pt_direction p = Input then (w, cv) \<in> set (g_edges g) else (cv, w) \<in> set (g_edges g)))"

definition extends :: "mgraph \<Rightarrow> mgraph \<Rightarrow> bool" where
  "extends g g' \<longleftrightarrow>
     nverts g \<le> nverts g' \<and> (\<forall>v < nverts g. vert g' v = vert g v) \<and>
     set (g_edges g) \<subseteq> set (g_edges g')"

definition no_new_cells :: "mgraph \<Rightarrow> mgraph \<Rightarrow> bool" where
  "no_new_cells g g' \<longleftrightarrow> (\<forall>v < nverts g'. v_type (vert g' v) = KCell \<longrightarrow> v < nverts g)"

lemma extends_refl [simp]: "extends g g"
  by (simp add: extends_def)

lemma extends_trans: "extends g g' \<Longrightarrow> extends g' g'' \<Longrightarrow> extends g g''"
  by (auto simp: extends_def)

lemma extends_cell_at: "extends g g' \<Longrightarrow> cell_at c cv g \<Longrightarrow> cell_at c cv g'"
  by (auto simp: extends_def cell_at_def)

lemma extends_port_connected: "extends g g' \<Longrightarrow> port_connected cv p g \<Longrightarrow> port_connected cv p g'"
  unfolding extends_def port_connected_def by (metis order_less_le_trans subsetD)

lemma cell_port_step_ok:
  assumes step: "cell_port_step mm c cv p b = Inr b'" and b: "build_ok Q b"
    and cv: "cell_at c cv (b_graph b)" and p: "p \<in> set (c_ports (cell_base c))"
    and mm: "keeps_order mm" and Q: "Q (cell_port_info c p)"
  shows "build_ok Q b' \<and> extends (b_graph b) (b_graph b') \<and> port_connected cv p (b_graph b') \<and>
    no_new_cells (b_graph b) (b_graph b')"
proof (cases "matching_vertex mm (pt_bits_signature p) b")
  case (Some v)
  note v = matching_vertex_ok [OF b mm Some]
  obtain g' where g': "connect (pt_direction p) v cv (b_graph b) = Inr g'"
    and b': "b' = b\<lparr>b_graph := g'\<rparr>"
    using step Some by (auto simp: cell_port_step_def bnd_eq_Inr)
  have new: "graph_ok Q g' \<and> nverts g' = nverts (b_graph b) \<and> vert g' = vert (b_graph b) \<and>
    (if pt_direction p = Input then (v, cv) \<in> set (g_edges g') else (cv, v) \<in> set (g_edges g')) \<and>
    set (g_edges (b_graph b)) \<subseteq> set (g_edges g')"
    by (rule connect_cell_ok [OF g']) (use b v cv p in \<open>auto simp: build_ok_def cell_at_def\<close>)
  then have "entries_ok k g' xs = entries_ok k (b_graph b) xs" for k xs
    by (intro entries_ok_cong) auto
  then show ?thesis using new b v
    by (auto simp: b' build_ok_def extends_def port_connected_def no_new_cells_def)
next
  case None
  show ?thesis
  proof (cases "pt_bits p = []")
    case True
    then show ?thesis using step None b 
      by (simp add: cell_port_step_def port_connected_def no_new_cells_def)
  next
    case False
    define g where "g = snd (add_vertex (cell_port_info c p) (b_graph b))"
    let ?v = "nverts (b_graph b)"
    obtain g' where g': "connect (pt_direction p) ?v cv g = Inr g'"
      and b': "b' = b\<lparr>b_graph := g', b_cell_ports := b_cell_ports b @ [(pt_bits_signature p, ?v)]\<rparr>"
      using step None False by (auto simp: cell_port_step_def split_beta bnd_eq_Inr g_def)
    have "graph_ok Q g" using b Q unfolding g_def build_ok_def
      by (intro graph_ok_add_vertex) auto
    then have new: "graph_ok Q g' \<and> nverts g' = nverts g \<and> vert g' = vert g \<and>
      (if pt_direction p = Input then (?v, cv) \<in> set (g_edges g') else (cv, ?v) \<in> set (g_edges g')) \<and>
      set (g_edges g) \<subseteq> set (g_edges g')"
      by (rule connect_cell_ok [OF g']) (use cv p in \<open>auto simp: g_def cell_at_def\<close>)
    then have "entries_ok k g' xs = entries_ok k g xs" for k xs
      by (intro entries_ok_cong) auto
    then have "build_ok Q b'" using new b
      by (auto simp: b' build_ok_def entries_ok_append g_def intro: entries_ok_add_vertex)
    moreover have "extends (b_graph b) (b_graph b')" using new by (auto simp: b' extends_def g_def)
    moreover have "port_connected cv p (b_graph b')" using new
      unfolding port_connected_def b' by (intro disjI2 exI [of _ ?v]) (auto simp: g_def)
    moreover have "no_new_cells (b_graph b) (b_graph b')" using new
      by (auto simp: no_new_cells_def b' g_def less_Suc_eq)
    ultimately show ?thesis by blast
  qed
qed

definition cells_connected :: "nat \<Rightarrow> mgraph \<Rightarrow> bool" where
  "cells_connected n g \<longleftrightarrow>
     (\<forall>v c p. n \<le> v \<longrightarrow> cell_at c v g \<longrightarrow> p \<in> set (c_ports (cell_base c)) \<longrightarrow> port_connected v p g)"

lemma cell_step_ok:
  assumes step: "cell_step mm c b = Inr b'" and b: "build_ok Q b" and mm: "keeps_order mm"
    and Q: "Q (cell_info c)" "\<And>p. p \<in> set (c_ports (cell_base c)) \<Longrightarrow> Q (cell_port_info c p)"
    and old: "cells_connected n (b_graph b)"
  shows "build_ok Q b' \<and> extends (b_graph b) (b_graph b') \<and> cells_connected n (b_graph b')"
proof -
  define g where "g = snd (add_vertex (cell_info c) (b_graph b))"
  let ?v = "nverts (b_graph b)"
  have loop: "foldM (cell_port_step mm c ?v) (c_ports (cell_base c)) (b\<lparr>b_graph := g\<rparr>) = Inr b'"
    using step by (simp add: cell_step_def split_beta g_def)
  let ?P = "\<lambda>h. build_ok Q h \<and> extends g (b_graph h) \<and> cell_at c ?v (b_graph h) \<and>
    no_new_cells g (b_graph h)"
  have "?P b' \<and> (\<forall>p \<in> set (c_ports (cell_base c)). port_connected ?v p (b_graph b'))"
  proof (rule foldM_each [OF loop])
    show "?P (b\<lparr>b_graph := g\<rparr>)" using b Q(1)
      by (auto simp: build_ok_def g_def cell_at_def no_new_cells_def
          intro: graph_ok_add_vertex entries_ok_add_vertex)
  next
    fix p h h'
    assume p: "p \<in> set (c_ports (cell_base c))" and h: "?P h" and s: "cell_port_step mm c ?v p h = Inr h'"
    note ok = cell_port_step_ok [where Q = Q, OF s _ _ p mm Q(2) [OF p]]
    have ok: "build_ok Q h'" "extends (b_graph h) (b_graph h')" "port_connected ?v p (b_graph h')"
      "no_new_cells (b_graph h) (b_graph h')" using ok h by blast+
    have "no_new_cells g (b_graph h')"
      using ok(2,4) h unfolding no_new_cells_def extends_def by metis
    then show "?P h' \<and> port_connected ?v p (b_graph h')"
      using h ok extends_trans extends_cell_at by blast
  next
    fix p q h h'
    assume p: "p \<in> set (c_ports (cell_base c))" and h: "?P h" and s: "cell_port_step mm c ?v p h = Inr h'"
      and q: "port_connected ?v q (b_graph h)"
    then show "port_connected ?v q (b_graph h')"
      using cell_port_step_ok [where Q = Q, OF s _ _ p mm Q(2) [OF p]] extends_port_connected by blast
  qed
  then have ok: "build_ok Q b'" "extends g (b_graph b')" "no_new_cells g (b_graph b')"
    "cell_at c ?v (b_graph b')"
    and new: "\<And>p. p \<in> set (c_ports (cell_base c)) \<Longrightarrow> port_connected ?v p (b_graph b')" by auto
  have ext: "extends (b_graph b) (b_graph b')"
    using ok(2) by (rule extends_trans [rotated]) (auto simp: extends_def g_def)
  have "port_connected v p (b_graph b')"
    if "n \<le> v" "cell_at d v (b_graph b')" "p \<in> set (c_ports (cell_base d))" for v d p
  proof (cases "v = ?v")
    case True
    then show ?thesis using that new ok(4) by (auto simp: cell_at_def)
  next
    case False
    then have "v < nverts (b_graph b)"
      using that(2) ok(3) by (auto simp: cell_at_def no_new_cells_def g_def less_Suc_eq)
    then have "cell_at d v (b_graph b)" using that(2) ext by (auto simp: cell_at_def extends_def)
    then show ?thesis using old that extends_port_connected [OF ext]
      unfolding cells_connected_def by blast
  qed
  then show ?thesis using ok ext by (auto simp: cells_connected_def)
qed

section \<open>Remaining connections keep the invariant\<close>

lemma reachable_total: "acyclic (net_edges g) \<Longrightarrow> \<exists>r. reachable g v t = Inr r"
proof -
  assume ac: "acyclic (net_edges g)"
  have "card (Collect (is_net g)) + 1 < nverts g + 2" using card_nets [of g] by simp
  from search.search_returns [OF this, of t v] obtain r
    where "follow_to (nverts g + 2) g t v = Some r"
    using ac search_rel_trancl unfolding acyclic_def by blast
  then show ?thesis by (auto simp: reachable_def source_reachable_def)
qed

lemma search_rel_rtrancl:
  "(t, v) \<in> (net_edges g)\<^sup>* \<Longrightarrow> (t, v) \<in> (search_rel (net_succ g) (is_net g) v)\<^sup>*"
proof (induction rule: converse_rtrancl_induct)
  case (step y z)
  show ?case
  proof (cases "y = v")
    case False
    then have "(y, z) \<in> search_rel (net_succ g) (is_net g) v"
      using step.hyps(1) by (auto simp: search_rel_def net_edges_def)
    then show ?thesis using step.IH by (rule converse_rtrancl_into_rtrancl)
  qed simp
qed simp

lemma not_reachable:
  assumes "reachable g v t = Inr False" "is_net g v"
  shows "(t, v) \<notin> (net_edges g)\<^sup>*"
proof -
  have "follow_to (nverts g + 2) g t v = Some False"
    using assms(1) by (simp add: reachable_def source_reachable_def of_opt_eq_Inr)
  from search.search_result [OF this] show ?thesis using assms(2) search_rel_rtrancl by blast
qed

text \<open>A vertex from which an edge to the target \<open>t\<close> may be drawn.\<close>

definition source_ok :: "mgraph \<Rightarrow> nat \<Rightarrow> nat \<Rightarrow> bool" where
  "source_ok g t v \<longleftrightarrow>
     v < nverts g \<and> v_type (vert g v) \<noteq> KCell \<and> (is_net g v \<longrightarrow> (t, v) \<notin> (net_edges g)\<^sup>*) \<and>
     (vsig (vert g v) = vsig (vert g t) \<or> vbits (vert g v) \<inter> vbits (vert g t) \<noteq> {})"

lemma source_ok_add_edge:
  assumes "source_ok g t u" "source_ok g t v"
  shows "source_ok (add_edge u t g) t v"
proof -
  have "(t, v) \<notin> (net_edges (add_edge u t g))\<^sup>*" if net: "is_net g v"
  proof (cases "is_net g u \<and> is_net g t")
    case True
    then have "net_edges (add_edge u t g) = insert (u, t) (net_edges g)"
      by (simp add: net_edges_add_edge)
    then show ?thesis using assms net True by (auto simp: source_ok_def rtrancl_insert)
  next
    case False
    then show ?thesis using assms net by (auto simp: source_ok_def net_edges_add_edge)
  qed
  then show ?thesis using assms(2) by (auto simp: source_ok_def is_net_vert)
qed

lemma add_sources_ok:
  assumes "graph_ok Q g" "t < nverts g" "v_type (vert g t) \<noteq> KCell" "\<forall>v \<in> set vs. source_ok g t v"
  shows "graph_ok Q (fold (\<lambda>v. add_edge v t) vs g) \<and> extends g (fold (\<lambda>v. add_edge v t) vs g) \<and>
    nverts (fold (\<lambda>v. add_edge v t) vs g) = nverts g"
  using assms
proof (induction vs arbitrary: g)
  case (Cons v vs)
  have v: "source_ok g t v" using Cons.prems(4) by simp
  have ok: "graph_ok Q (add_edge v t g)"
    by (rule graph_ok_add_edge) (use v Cons.prems in \<open>auto simp: source_ok_def edge_ok_def\<close>)
  have "extends g (add_edge v t g)" by (auto simp: extends_def)
  moreover have "graph_ok Q (fold (\<lambda>v. add_edge v t) vs (add_edge v t g)) \<and>
      extends (add_edge v t g) (fold (\<lambda>v. add_edge v t) vs (add_edge v t g)) \<and>
      nverts (fold (\<lambda>v. add_edge v t) vs (add_edge v t g)) = nverts (add_edge v t g)"
    by (rule Cons.IH [OF ok]) (use Cons.prems source_ok_add_edge [OF v] in auto)
  ultimately show ?case using extends_trans by auto
qed simp

lemma first_source_ok:
  "first_source g t vs = Inr (Some v) \<Longrightarrow> v \<in> set vs \<and> v \<noteq> t \<and> reachable g v t = Inr False"
  by (induction vs) (auto simp: bnd_eq_Inr split: if_splits)

text \<open>What the loops over the maps keep: the bits still wanted, and the sources found.\<close>

definition scan_ok :: "mgraph \<Rightarrow> nat \<Rightarrow> netbit set \<times> nat list \<Rightarrow> bool" where
  "scan_ok g t st \<longleftrightarrow>
     fst st \<subseteq> vbits (vert g t) \<and> (\<forall>v \<in> set (snd st). source_ok g t v)"

lemma source_step_cases:
  assumes step: "source_step g bits_at t tsig (s, v) (want, found) = Inr st'"
  obtains "st' = (want, found)"
  | sb hit where "bits_at v = Inr (Some sb)" "reachable g v t = Inr False"
    "(if s = tsig then Inr True else vectors_intersection sb want) = Inr hit"
    "st' = (if hit then (want - sb, found @ [v]) else (want, found))"
proof (cases "want = {} \<or> v = t")
  case True
  then show thesis using step that(1) by (simp add: source_step_def)
next
  case go: False
  then obtain ob where ob: "bits_at v = Inr ob"
    using step by (auto simp: source_step_def bnd_eq_Inr)
  show thesis
  proof (cases ob)
    case None
    then show thesis using step that(1) ob go by (simp add: source_step_def)
  next
    case (Some sb)
    then obtain r where r: "reachable g v t = Inr r"
      using step ob go by (auto simp: source_step_def bnd_eq_Inr)
    show thesis
    proof (cases r)
      case True
      then show thesis using step that(1) ob Some r go by (simp add: source_step_def)
    next
      case False
      then obtain hit where "(if s = tsig then Inr True else vectors_intersection sb want) = Inr hit"
        "st' = (if hit then (want - sb, found @ [v]) else (want, found))"
        using step ob Some r go by (simp add: source_step_def bnd_eq_Inr) metis
      then show thesis using ob Some r False by (intro that(2)) auto
    qed
  qed
qed

lemma source_step_ok:
  assumes step: "source_step g bits_at t tsig (s, v) st = Inr st'" and st: "scan_ok g t st"
    and v: "v < nverts g" "v_type (vert g v) \<noteq> KCell" "vsig (vert g v) = Some s"
    and bits: "\<And>sb. bits_at v = Inr (Some sb) \<Longrightarrow> sb = vbits (vert g v)"
    and t: "vsig (vert g t) = Some tsig"
  shows "scan_ok g t st'"
proof -
  obtain want found where st_eq: "st = (want, found)" by (cases st)
  from step show ?thesis unfolding st_eq
  proof (cases rule: source_step_cases)
    case (2 sb hit)
    have "hit \<Longrightarrow> s = tsig \<or> sb \<inter> want \<noteq> {}"
      using 2(3) by (auto simp: vectors_intersection_def chk_eq_Inr split: if_splits)
    then have "hit \<Longrightarrow> source_ok g t v"
      using v t bits [OF 2(1)] st not_reachable [OF 2(2)]
      by (auto simp: source_ok_def scan_ok_def st_eq)
    then show ?thesis using st by (auto simp: scan_ok_def st_eq 2(4))
  qed (use st st_eq in simp)
qed

lemma scan_loop_ok:
  assumes "foldM (source_step g bits_at t tsig) xs st = Inr st'" "scan_ok g t st"
    and "\<And>s v. (s, v) \<in> set xs \<Longrightarrow>
      v < nverts g \<and> v_type (vert g v) \<noteq> KCell \<and> vsig (vert g v) = Some s \<and>
      (\<forall>sb. bits_at v = Inr (Some sb) \<longrightarrow> sb = vbits (vert g v))"
    and "vsig (vert g t) = Some tsig"
  shows "scan_ok g t st'"
proof (rule foldM_invariant [where P = "scan_ok g t", OF assms(1,2)])
  fix e a b assume e: "e \<in> set xs" and a: "scan_ok g t a" "source_step g bits_at t tsig e a = Inr b"
  obtain s v where sv: "e = (s, v)" by (cases e)
  show "scan_ok g t b"
    by (rule source_step_ok [OF a(2) [unfolded sv] a(1) _ _ _ _ assms(4)])
      (use assms(3) [of s v] e sv in auto)
qed

lemma net_bits_at_vbits: "net_bits_at g v = Inr (Some sb) \<Longrightarrow> sb = vbits (vert g v)"
  by (auto simp: net_bits_at_def bnd_eq_Inr of_opt_eq_Inr vbits_def split: if_splits)

lemma cell_port_bits_at_vbits:
  "cell_port_bits_at g v = Inr (Some sb) \<Longrightarrow> vertex_ok (vert g v) \<Longrightarrow>
   v_type (vert g v) = KCellPort \<Longrightarrow> sb = vbits (vert g v)"
  by (auto simp: cell_port_bits_at_def port_at_def bnd_eq_Inr of_opt_eq_Inr vbits_def vertex_ok_def
      split: if_splits)

lemma target_at_ok:
  "target_at g t = Inr (Some (tsig, bits)) \<Longrightarrow>
   vsig (vert g t) = Some tsig \<and> bits = vbits (vert g t)"
  by (auto simp: target_at_def vsig_def vbits_def split: option.splits if_splits)

text \<open>The maps, read against the graph that the construction has reached.\<close>

definition target_inv :: "(vertex_info \<Rightarrow> bool) \<Rightarrow> build \<Rightarrow> mgraph \<Rightarrow> bool" where
  "target_inv Q b g \<longleftrightarrow>
     graph_ok Q g \<and> extends (b_graph b) g \<and> nverts g = nverts (b_graph b) \<and>
     entries_ok KNet g (b_nets b) \<and> entries_ok KNet g (b_ports b) \<and>
     entries_ok KCellPort g (b_cell_ports b)"

lemma find_sources_ok:
  assumes find: "find_sources mm b g t tsig bits = Inr vs" and inv: "target_inv Q b g"
    and mm: "keeps_order mm" and t: "vsig (vert g t) = Some tsig" "bits = vbits (vert g t)"
  shows "\<forall>v \<in> set vs. source_ok g t v"
proof -
  have e: "entries_ok KNet g (b_nets b)" "entries_ok KNet g (b_ports b)"
    "entries_ok KCellPort g (b_cell_ports b)" and verts: "\<And>v. v < nverts g \<Longrightarrow> vertex_ok (vert g v)"
    using inv by (auto simp: target_inv_def graph_ok_def)
  from find obtain first s1 s2 s3 where
    first: "first_source g t (equal_range mm tsig (b_ports b) @ equal_range mm tsig (b_nets b)
      @ equal_range mm tsig (b_cell_ports b)) = Inr first"
    and s1: "foldM (source_step g (net_bits_at g) t tsig) (mm (b_ports b))
      (case first of None \<Rightarrow> (bits, []) | Some v \<Rightarrow> ({}, [v])) = Inr s1"
    and s2: "foldM (source_step g (net_bits_at g) t tsig) (mm (b_nets b)) s1 = Inr s2"
    and s3: "foldM (source_step g (cell_port_bits_at g) t tsig) (mm (b_cell_ports b)) s2 = Inr s3"
    and vs: "vs = snd s3"
    by (auto simp: find_sources_def bnd_eq_Inr)
  have "scan_ok g t (case first of None \<Rightarrow> (bits, []) | Some v \<Rightarrow> ({}, [v]))"
  proof (cases first)
    case (Some v)
    with first_source_ok first have v: "reachable g v t = Inr False"
      "v \<in> set (equal_range mm tsig (b_ports b) @ equal_range mm tsig (b_nets b)
        @ equal_range mm tsig (b_cell_ports b))" by blast+
    have "v < nverts g \<and> v_type (vert g v) \<noteq> KCell \<and> vsig (vert g v) = Some tsig"
      using v(2) e by (auto simp: equal_range_iff [OF mm] dest: entries_okD)
    then show ?thesis using Some t(1) not_reachable [OF v(1)] by (simp add: scan_ok_def source_ok_def)
  qed (use t in \<open>simp add: scan_ok_def\<close>)
  then have "scan_ok g t s1"
    by (rule scan_loop_ok [OF s1])
      (use t(1) entries_okD [OF e(2)] net_bits_at_vbits in \<open>auto simp: mm_set [OF mm]\<close>)
  then have "scan_ok g t s2"
    by (rule scan_loop_ok [OF s2])
      (use t(1) entries_okD [OF e(1)] net_bits_at_vbits in \<open>auto simp: mm_set [OF mm]\<close>)
  then have "scan_ok g t s3"
    by (rule scan_loop_ok [OF s3])
      (use t(1) entries_okD [OF e(3)] verts cell_port_bits_at_vbits in \<open>auto simp: mm_set [OF mm]\<close>)
  then show ?thesis by (simp add: vs scan_ok_def)
qed

lemma target_step_ok:
  assumes step: "target_step mm b t g = Inr g'" and inv: "target_inv Q b g"
    and mm: "keeps_order mm" and t: "t < nverts (b_graph b)"
  shows "target_inv Q b g'"
proof (cases "g' = g")
  case False
  then obtain tsig bits vs where cell: "v_type (vert g t) \<noteq> KCell"
    and tgt: "target_at g t = Inr (Some (tsig, bits))"
    and vs: "find_sources mm b g t tsig bits = Inr vs" and g': "g' = fold (\<lambda>v. add_edge v t) vs g"
    using step by (auto simp: target_step_def bnd_eq_Inr split: if_splits option.splits)
  have srcs: "\<forall>v \<in> set vs. source_ok g t v"
    using find_sources_ok [OF vs inv mm] target_at_ok [OF tgt] by blast
  have "graph_ok Q g" "t < nverts g" using inv t by (auto simp: target_inv_def)
  from add_sources_ok [OF this cell srcs]
  have new: "graph_ok Q g'" "extends g g'" "nverts g' = nverts g" by (auto simp: g')
  have "entries_ok k g' xs \<longleftrightarrow> entries_ok k g xs" for k xs
    using new(2,3) by (fastforce simp: entries_ok_def extends_def)
  then show ?thesis using inv new extends_trans by (auto simp: target_inv_def)
qed (use inv in simp)

section \<open>The whole construction keeps the invariant\<close>

lemma empty_graph_ok [simp]: "graph_ok Q empty_graph"
  by (simp add: graph_ok_def wf_graph_def empty_graph_def nverts_def net_edges_def is_net_def
      acyclic_def)

definition start :: "mgraph \<Rightarrow> build" where
  "start g0 = \<lparr>b_graph = g0, b_nets = [], b_ports = [], b_cell_ports = []\<rparr>"

lemma start_ok [simp]: "build_ok Q (start g0) \<longleftrightarrow> graph_ok Q g0" "b_graph (start g0) = g0"
  by (simp_all add: start_def entries_ok_def)

lemma nets_ok:
  assumes "foldM (net_step mm ports) (enumerate k ns) b = Inr b'" "build_ok Q b" "keeps_order mm"
    and "\<And>i n. n \<in> set ns \<Longrightarrow> Q (net_info i n)"
    and "\<And>i n p. n \<in> set ns \<Longrightarrow> p \<in> set ports \<Longrightarrow> Q (port_net_info i n p)"
  shows "build_ok Q b'"
proof (rule foldM_invariant [OF assms(1), of "build_ok Q", OF assms(2)])
  fix e b b' assume e: "e \<in> set (enumerate k ns)" "build_ok Q b" "net_step mm ports e b = Inr b'"
  obtain i n where e_eq: "e = (i, n)" by (cases e)
  have "n \<in> set ns" using e(1) by (auto simp: e_eq in_set_enumerate_eq)
  then show "build_ok Q b'" using net_step_ok [OF e(3) [unfolded e_eq] e(2)] assms(3-5) by blast
qed

lemma cells_ok:
  assumes loop: "foldM (cell_step mm) cs b = Inr b'" and b: "build_ok Q b" and mm: "keeps_order mm"
    and Q: "\<And>c. c \<in> set cs \<Longrightarrow> Q (cell_info c)"
      "\<And>c p. c \<in> set cs \<Longrightarrow> p \<in> set (c_ports (cell_base c)) \<Longrightarrow> Q (cell_port_info c p)"
    and n: "cells_connected n (b_graph b)"
  shows "build_ok Q b' \<and> cells_connected n (b_graph b')"
proof (rule foldM_invariant [OF loop, of "\<lambda>b. build_ok Q b \<and> cells_connected n (b_graph b)"])
  fix c b b' assume c: "c \<in> set cs" and inv: "build_ok Q b \<and> cells_connected n (b_graph b)"
    and step: "cell_step mm c b = Inr b'"
  from inv have b: "build_ok Q b" and n: "cells_connected n (b_graph b)" by auto
  from cell_step_ok [OF step b mm Q(1) [OF c] Q(2) [OF c] n]
  show "build_ok Q b' \<and> cells_connected n (b_graph b')" by blast
qed (use b n in simp)

lemma targets_ok:
  assumes "foldM (target_step mm b) [0..<nverts (b_graph b)] (b_graph b) = Inr g" "build_ok Q b"
    and "keeps_order mm"
  shows "target_inv Q b g"
  by (rule foldM_invariant [OF assms(1)])
    (use assms(2) target_step_ok [OF _ _ assms(3)] in \<open>auto simp: target_inv_def build_ok_def\<close>)

text \<open>The vertices of the nets, and those of the cells and their ports.\<close>

definition good_infos :: "(vertex_info \<Rightarrow> bool) \<Rightarrow> module \<Rightarrow> bool" where
  "good_infos Q m \<longleftrightarrow>
     (\<forall>n \<in> set (m_nets m). \<forall>i. Q (net_info i n) \<and> (\<forall>p \<in> set (m_ports m). Q (port_net_info i n p))) \<and>
     (\<forall>c \<in> set (m_cells m). Q (cell_info c) \<and>
        (\<forall>p \<in> set (c_ports (cell_base c)). Q (cell_port_info c p)))"

lemma populate_graph_ok:
  assumes pop: "populate_graph mm m g0 = Inr g" and g0: "graph_ok Q g0" and mm: "keeps_order mm"
    and Q: "good_infos Q m"
  shows "graph_ok Q g"
proof -
  from pop obtain b1 b2 where
    b1: "foldM (net_step mm (m_ports m)) (enumerate 0 (m_nets m)) (start g0) = Inr b1"
    and b2: "foldM (cell_step mm) (m_cells m) b1 = Inr b2"
    and g: "foldM (target_step mm b2) [0..<nverts (b_graph b2)] (b_graph b2) = Inr g"
    by (auto simp: populate_graph_def start_def bnd_eq_Inr)
  have "build_ok Q b1"
    using nets_ok [OF b1 _ mm, of Q] g0 Q by (simp add: good_infos_def)
  moreover have "cells_connected (nverts (b_graph b1)) (b_graph b1)"
    by (auto simp: cells_connected_def cell_at_def)
  ultimately have "build_ok Q b2" using cells_ok [OF b2 _ mm, of Q] Q by (simp add: good_infos_def)
  then show ?thesis using targets_ok [OF g _ mm] by (simp add: target_inv_def)
qed

text \<open>In a graph built from the empty one, every cell's vertex comes after those of the nets.\<close>

lemma populate_graph_cells:
  assumes pop: "populate_graph mm m empty_graph = Inr g" and mm: "keeps_order mm"
  shows "cells_connected 0 g"
proof -
  let ?T = "\<lambda>_. True" and ?N = "\<lambda>i. v_type i = KNet"
  from pop obtain b1 b2 where
    b1: "foldM (net_step mm (m_ports m)) (enumerate 0 (m_nets m)) (start empty_graph) = Inr b1"
    and b2: "foldM (cell_step mm) (m_cells m) b1 = Inr b2"
    and g: "foldM (target_step mm b2) [0..<nverts (b_graph b2)] (b_graph b2) = Inr g"
    by (auto simp: populate_graph_def start_def bnd_eq_Inr)
  have "build_ok ?N b1" using nets_ok [OF b1 _ mm, of ?N] by simp
  then have "cells_connected 0 (b_graph b1)"
    by (auto simp: build_ok_def graph_ok_def cells_connected_def cell_at_def)
  moreover have "build_ok ?T b1" using nets_ok [OF b1 _ mm, of ?T] by simp
  ultimately have "build_ok ?T b2 \<and> cells_connected 0 (b_graph b2)"
    using cells_ok [OF b2 _ mm, of ?T 0] by simp
  then have con: "cells_connected 0 (b_graph b2)" and ext: "extends (b_graph b2) g"
    and same: "nverts g = nverts (b_graph b2)"
    using targets_ok [OF g _ mm, of ?T] by (auto simp: target_inv_def)
  have "cell_at c v (b_graph b2)" if "cell_at c v g" for c v
    using that ext same by (auto simp: cell_at_def extends_def)
  then show ?thesis using con extends_port_connected [OF ext] unfolding cells_connected_def by blast
qed

section \<open>The construction returns\<close>

text \<open>
  What the constructors of \<open>Net\<close> and \<open>Port\<close> give: when a bit is not constant, the set of bits is
  not empty.
\<close>

definition rich :: "vertex_info \<Rightarrow> bool" where
  "rich i =
     (case v_net i of
        Some (k, n) \<Rightarrow> contains_only_constants n \<or> n_fast_search_bits n \<noteq> {}
      | None \<Rightarrow> (case v_port i of
          Some p \<Rightarrow> \<not> pt_contains_non_constant p \<or> pt_fast_search_bits p \<noteq> {}
        | None \<Rightarrow> True))"

definition port_ok :: "port \<Rightarrow> bool" where
  "port_ok p \<longleftrightarrow> pt_direction p \<noteq> UnknownDir \<and>
     (\<not> pt_contains_non_constant p \<or> pt_fast_search_bits p \<noteq> {})"

definition module_ok :: "module \<Rightarrow> bool" where
  "module_ok m \<longleftrightarrow>
     (\<forall>n \<in> set (m_nets m). contains_only_constants n \<or> n_fast_search_bits n \<noteq> {}) \<and>
     (\<forall>p \<in> set (m_ports m). port_ok p) \<and>
     (\<forall>c \<in> set (m_cells m). \<forall>p \<in> set (c_ports (cell_base c)). port_ok p)"

lemma module_ok_rich: "module_ok m \<Longrightarrow> good_infos rich m"
  by (auto simp: good_infos_def module_ok_def port_ok_def rich_def net_info_def port_net_info_def
      cell_info_def cell_port_info_def blank_vertex_def)

lemma connect_total: "d \<noteq> UnknownDir \<Longrightarrow> \<exists>g'. connect d u v g = Inr g'"
  by (cases d) (auto simp: connect_def)

lemma net_step_total:
  assumes "\<forall>p \<in> set ports. port_ok p"
  shows "\<exists>b'. net_step mm ports (i, n) b = Inr b'"
proof (cases "port_of_net ports n")
  case (Some p)
  then have d: "pt_direction p \<noteq> UnknownDir"
    using assms by (auto simp: port_of_net_def port_ok_def find_Some_iff)
  have "\<exists>g'. foldM (\<lambda>w. connect (pt_direction p) v w) ws g = Inr g' \<and> True" for v ws g
    by (rule foldM_total) (use connect_total [OF d] in auto)
  then show ?thesis using Some by (simp add: net_step_def split_beta) (metis bnd_Inr)
qed (simp add: net_step_def split_beta)

lemma cell_port_step_total:
  assumes "port_ok p"
  shows "\<exists>b'. cell_port_step mm c cv p b = Inr b'"
proof -
  have d: "pt_direction p \<noteq> UnknownDir" using assms by (simp add: port_ok_def)
  show ?thesis using connect_total [OF d]
    by (simp add: cell_port_step_def split_beta split: option.split) (metis bnd_Inr)
qed

lemma cell_step_total:
  assumes "\<forall>p \<in> set (c_ports (cell_base c)). port_ok p"
  shows "\<exists>b'. cell_step mm c b = Inr b'"
proof -
  have "\<exists>b'. foldM (cell_port_step mm c v) (c_ports (cell_base c)) b = Inr b' \<and> True" for v b
    by (rule foldM_total) (use assms cell_port_step_total in auto)
  then show ?thesis by (simp add: cell_step_def split_beta)
qed

lemma is_input_at_total:
  assumes "vertex_ok (vert g v)"
  shows "\<exists>r. is_input_at (v_type (vert g v)) KCellPort g v = Inr r"
    "\<exists>r. is_input_at (v_port_type (vert g v)) KModulePort g v = Inr r"
  using assms
  by (auto simp: is_input_at_def port_at_def vertex_ok_def split: vertex_type.splits)

lemma first_source_total:
  assumes "acyclic (net_edges g)" "\<And>v. v \<in> set vs \<Longrightarrow> vertex_ok (vert g v)"
  shows "\<exists>r. first_source g t vs = Inr r"
  using assms(2)
proof (induction vs)
  case (Cons v vs)
  obtain i r where "is_input_at (v_type (vert g v)) KCellPort g v = Inr i" "reachable g v t = Inr r"
    using is_input_at_total(1) Cons.prems reachable_total [OF assms(1)] by (meson list.set_intros(1))
  then show ?case using Cons.IH Cons.prems by simp
qed simp

lemma bits_at_total:
  assumes "vertex_ok (vert g v)" "rich (vert g v)"
  shows "v_type (vert g v) = KNet \<Longrightarrow> \<exists>r. net_bits_at g v = Inr r \<and> r \<noteq> Some {}"
    "v_type (vert g v) = KCellPort \<Longrightarrow> \<exists>r. cell_port_bits_at g v = Inr r \<and> r \<noteq> Some {}"
  using assms
  by (auto simp: vertex_ok_def rich_def net_bits_at_def cell_port_bits_at_def port_at_def)

lemma source_step_total:
  assumes "acyclic (net_edges g)" "\<exists>r. bits_at v = Inr r \<and> r \<noteq> Some {}"
  shows "\<exists>st'. source_step g bits_at t tsig (s, v) st = Inr st'"
proof -
  obtain want found where st: "st = (want, found)" by (cases st)
  obtain r where r: "reachable g v t = Inr r" using reachable_total [OF assms(1)] by blast
  obtain ob where ob: "bits_at v = Inr ob" "ob \<noteq> Some {}" using assms(2) by blast
  show ?thesis
  proof (cases "want = {}")
    case False
    then have "\<exists>h. vectors_intersection sb want = Inr h" if "ob = Some sb" for sb
      using ob(2) that by (auto simp: vectors_intersection_def)
    then show ?thesis using r ob(1)
      by (cases ob; cases "s = tsig") (fastforce simp: source_step_def st)+
  qed (simp add: source_step_def st)
qed

lemma scan_total:
  assumes "acyclic (net_edges g)"
    and "\<And>s v. (s, v) \<in> set xs \<Longrightarrow> \<exists>r. bits_at v = Inr r \<and> r \<noteq> Some {}"
  shows "\<exists>st'. foldM (source_step g bits_at t tsig) xs st = Inr st'"
proof -
  have "\<exists>st'. foldM (source_step g bits_at t tsig) xs st = Inr st' \<and> True"
    by (rule foldM_total) (use source_step_total [OF assms(1)] assms(2) in auto)
  then show ?thesis by blast
qed

lemma target_step_total:
  assumes inv: "target_inv rich b g" and mm: "keeps_order mm" and t: "t < nverts (b_graph b)"
  shows "\<exists>g'. target_step mm b t g = Inr g'"
proof -
  have ac: "acyclic (net_edges g)" and ok: "\<And>v. v < nverts g \<Longrightarrow> vertex_ok (vert g v) \<and> rich (vert g v)"
    and e: "entries_ok KNet g (b_nets b)" "entries_ok KNet g (b_ports b)"
      "entries_ok KCellPort g (b_cell_ports b)" and tv: "vertex_ok (vert g t)"
    using inv t by (auto simp: target_inv_def graph_ok_def)
  have "\<exists>vs. find_sources mm b g t tsig bits = Inr vs" for tsig bits
  proof -
    have "vertex_ok (vert g v)" if "v \<in> set (equal_range mm tsig (b_ports b)
        @ equal_range mm tsig (b_nets b) @ equal_range mm tsig (b_cell_ports b))" for v
      using that ok entries_okD [OF e(1), of tsig v] entries_okD [OF e(2), of tsig v]
        entries_okD [OF e(3), of tsig v] by (auto simp: equal_range_iff [OF mm])
    from first_source_total [OF ac this, of _ t] obtain first
      where f: "first_source g t (equal_range mm tsig (b_ports b)
        @ equal_range mm tsig (b_nets b) @ equal_range mm tsig (b_cell_ports b)) = Inr first" by blast
    have p: "\<exists>st'. foldM (source_step g (net_bits_at g) t tsig) (mm (b_ports b)) st = Inr st'" for st
      by (rule scan_total [OF ac])
        (use entries_okD [OF e(2)] ok bits_at_total(1) in \<open>simp add: mm_set [OF mm]\<close>)
    have n: "\<exists>st'. foldM (source_step g (net_bits_at g) t tsig) (mm (b_nets b)) st = Inr st'" for st
      by (rule scan_total [OF ac])
        (use entries_okD [OF e(1)] ok bits_at_total(1) in \<open>simp add: mm_set [OF mm]\<close>)
    have c: "\<exists>st'. foldM (source_step g (cell_port_bits_at g) t tsig) (mm (b_cell_ports b)) st = Inr st'" for st
      by (rule scan_total [OF ac])
        (use entries_okD [OF e(3)] ok bits_at_total(2) in \<open>simp add: mm_set [OF mm]\<close>)
    obtain s1 s2 s3 where
      "foldM (source_step g (net_bits_at g) t tsig) (mm (b_ports b))
        (case first of None \<Rightarrow> (bits, []) | Some v \<Rightarrow> ({}, [v])) = Inr s1"
      "foldM (source_step g (net_bits_at g) t tsig) (mm (b_nets b)) s1 = Inr s2"
      "foldM (source_step g (cell_port_bits_at g) t tsig) (mm (b_cell_ports b)) s2 = Inr s3"
      using p n c by meson
    then have "find_sources mm b g t tsig bits = Inr (snd s3)"
      unfolding find_sources_def f bnd_Inr by (simp only: bnd_Inr)
    then show ?thesis by blast
  qed
  moreover obtain skip where "is_input_at (v_port_type (vert g t)) KModulePort g t = Inr skip"
    using is_input_at_total(2) [OF tv] by blast
  moreover have "v_type (vert g t) \<noteq> KCell \<Longrightarrow> \<exists>r. target_at g t = Inr r"
    using tv by (auto simp: target_at_def vertex_ok_def split: vertex_type.splits option.splits)
  ultimately show ?thesis
    by (auto simp: target_step_def split: option.split) (metis bnd_Inr)
qed
lemma populate_graph_total_aux:
  assumes mm: "keeps_order mm" and m: "module_ok m" and g0: "graph_ok rich g0"
  shows "\<exists>g. populate_graph mm m g0 = Inr g"
proof -
  have Q: "good_infos rich m" by (rule module_ok_rich [OF m])
  have "\<exists>b1. foldM (net_step mm (m_ports m)) (enumerate 0 (m_nets m)) (start g0) = Inr b1 \<and> True"
    by (rule foldM_total) (use m net_step_total in \<open>auto simp: module_ok_def\<close>)
  then obtain b1 where b1:
    "foldM (net_step mm (m_ports m)) (enumerate 0 (m_nets m)) (start g0) = Inr b1" by blast
  have "\<exists>b2. foldM (cell_step mm) (m_cells m) b1 = Inr b2 \<and> True"
    by (rule foldM_total) (use m cell_step_total in \<open>auto simp: module_ok_def\<close>)
  then obtain b2 where b2: "foldM (cell_step mm) (m_cells m) b1 = Inr b2" by blast
  have "build_ok rich b1" using nets_ok [OF b1 _ mm, of rich] g0 Q by (simp add: good_infos_def)
  moreover have "cells_connected (nverts (b_graph b1)) (b_graph b1)"
    by (auto simp: cells_connected_def cell_at_def)
  ultimately have "build_ok rich b2" using cells_ok [OF b2 _ mm, of rich] Q
    by (simp add: good_infos_def)
  then have inv: "target_inv rich b2 (b_graph b2)" by (simp add: target_inv_def build_ok_def)
  have "\<exists>g. foldM (target_step mm b2) [0..<nverts (b_graph b2)] (b_graph b2) = Inr g \<and>
      target_inv rich b2 g"
    by (rule foldM_total [where P = "target_inv rich b2", OF inv])
      (use target_step_ok [OF _ _ mm] target_step_total [OF _ mm] in auto)
  then show ?thesis using b1 b2 by (auto simp: populate_graph_def start_def)
qed

section \<open>Properties\<close>

text \<open>
  \<^bold>\<open>C2.\<close> \<open>populate_graph\<close> returns for every module whose nets and ports are as their constructors
  make them and have a known direction: no walk of \<open>source_reachable\<close> runs forever, no null
  pointer is followed, no check fails and the error for empty bits is never raised. This holds
  for every order in which the multimaps are iterated, also when the module already had a graph
  that the construction has built.
\<close>

theorem populate_graph_returns:
  assumes "keeps_order mm" "module_ok m" "graph_ok rich g0"
  shows "\<exists>g. populate_graph mm m g0 = Inr g \<and> graph_ok rich g"
  using populate_graph_total_aux [OF assms]
    populate_graph_ok [OF _ assms(3,1) module_ok_rich [OF assms(2)]] by blast

text \<open>
  \<^bold>\<open>C1.\<close> The graph that \<open>populate_graph\<close> builds has no loop of nets: \<open>contains_loops\<close>, the check
  the program offers for it, returns false. So the exported assignments between nets never
  depend on each other in a circle, and \<open>source_reachable\<close> ends on the graph. Every edge leads
  between vertices of the graph and is justified by the module: the port of a cell and a vertex
  with its signature, or two vertices with the same signature or a common bit.
\<close>

theorem populate_graph_loop_free:
  assumes "keeps_order mm" "populate_graph mm m empty_graph = Inr g"
  shows "\<not> contains_loops g \<and> wf_graph g \<and> (\<forall>e \<in> set (g_edges g). edge_ok (vert g) e)"
proof -
  have "graph_ok (\<lambda>_. True) g"
    by (rule populate_graph_ok [OF assms(2) _ assms(1)]) (simp_all add: good_infos_def)
  then show ?thesis
    by (simp add: graph_ok_def loops.walk_finds_loops acyclic_nets [symmetric]
        contains_loops_iff)
qed

text \<open>
  \<^bold>\<open>C3.\<close> In the graph that \<open>populate_graph\<close> builds, every port with bits of every cell is
  connected: an edge joins the vertex of the cell to a vertex with the signature of the port,
  into the cell for an input and out of it for the other directions.
\<close>

theorem populate_graph_connects_ports:
  assumes "keeps_order mm" "populate_graph mm m empty_graph = Inr g"
    and "cv < nverts g" "v_type (vert g cv) = KCell" "v_cell (vert g cv) = Some c"
    and "p \<in> set (c_ports (cell_base c))" "pt_bits p \<noteq> []"
  shows "\<exists>w < nverts g. vsig (vert g w) = Some (pt_bits_signature p) \<and>
    (if pt_direction p = Input then (w, cv) \<in> set (g_edges g) else (cv, w) \<in> set (g_edges g))"
  using populate_graph_cells [OF assms(2,1)] assms(3-7)
  unfolding cells_connected_def cell_at_def port_connected_def by blast

section \<open>A module with an inverter\<close>

definition sample_hash :: "netbit list \<Rightarrow> 64 word" where
  "sample_hash bs = foldr (\<lambda>b h. 31 * h + m_bit b) bs 7"

definition sample_module :: module where
  "sample_module =
     \<lparr>m_name = ''top'',
      m_nets = [mk_net sample_hash ''a'' False [Bit 2], mk_net sample_hash ''w'' False [Bit 3],
                mk_net sample_hash ''y'' False [Bit 3, Bit 2]],
      m_cells = [Gate GUnary (mk_cell ''g'' ''$not''
         [mk_port sample_hash ''A'' [] Input [Bit 2] False,
          mk_port sample_hash ''Y'' [] Output [Bit 3] False] False JNull JNull)],
      m_ports = [mk_port sample_hash ''a'' ''top_a'' Input [Bit 2] False,
                 mk_port sample_hash ''y'' ''top_y'' Output [Bit 3, Bit 2] False],
      m_attributes = JNull\<rparr>"

definition sample_graph :: mgraph where
  "sample_graph = (case populate_graph rev sample_module empty_graph of
     Inr g \<Rightarrow> g | Inl _ \<Rightarrow> empty_graph)"

lemma keeps_order_rev [simp]: "keeps_order rev"
  by (simp add: keeps_order_def)

lemma sample_module_ok: "module_ok sample_module"
  unfolding module_ok_def by code_simp

lemma sample_graph_built: "populate_graph rev sample_module empty_graph = Inr sample_graph"
  using populate_graph_total_aux [OF keeps_order_rev sample_module_ok empty_graph_ok]
  by (auto simp: sample_graph_def)

theorem populate_graph_returns_witness:
  "\<exists>g. populate_graph rev sample_module empty_graph = Inr g \<and> graph_ok rich g"
  by (rule populate_graph_returns [OF keeps_order_rev sample_module_ok empty_graph_ok])

theorem populate_graph_loop_free_witness:
  "\<not> contains_loops sample_graph \<and> wf_graph sample_graph \<and>
   edge_ok (vert sample_graph) (0, 3) \<and> edge_ok (vert sample_graph) (1, 2) \<and>
   g_edges sample_graph = [(0, 3), (3, 1), (0, 2), (1, 2)]"
proof -
  have "g_edges sample_graph = [(0, 3), (3, 1), (0, 2), (1, 2)]" by code_simp
  then show ?thesis using populate_graph_loop_free [OF keeps_order_rev sample_graph_built] by simp
qed

theorem populate_graph_connects_ports_witness:
  "\<exists>c p w. v_cell (vert sample_graph 3) = Some c \<and> p \<in> set (c_ports (cell_base c)) \<and>
     pt_direction p = Output \<and> w < nverts sample_graph \<and>
     vsig (vert sample_graph w) = Some (pt_bits_signature p) \<and> (3, w) \<in> set (g_edges sample_graph)"
proof -
  define c where "c = the (v_cell (vert sample_graph 3))"
  define p where "p = c_ports (cell_base c) ! 1"
  have v: "3 < nverts sample_graph" "v_type (vert sample_graph 3) = KCell" by code_simp+
  have "\<not> Option.is_none (v_cell (vert sample_graph 3))" by code_simp
  then have c: "v_cell (vert sample_graph 3) = Some c" by (simp add: c_def Option.is_none_def)
  have "1 < length (c_ports (cell_base c))" unfolding c_def by code_simp
  then have p: "p \<in> set (c_ports (cell_base c))" by (simp add: p_def)
  have b: "pt_bits p \<noteq> []" "pt_direction p = Output" unfolding p_def c_def by code_simp+
  show ?thesis
    using populate_graph_connects_ports [OF keeps_order_rev sample_graph_built v c p b(1)] c p b
    by auto
qed

end
