(* ===== verification/ModuleExport.thy ===== *)
theory ModuleExport
  imports GraphFacts
begin

text \<open>
  The text exported for a module from its graph (\<open>Module::export_verilog\<close> of
  \<open>src/ducode/module.cpp\<close>) and the two checks of its clocks. The text is the header, the
  declarations of the vertices, the assignments along the edges, and the cells.
\<close>

section \<open>Declarations\<close>

definition cell_at_ptr :: "mgraph \<Rightarrow> nat \<Rightarrow> error \<Rightarrow> anycell res" where
  "cell_at_ptr g v e = of_opt e (v_cell (vert g v))"

definition is_register_source :: "mgraph \<Rightarrow> nat \<Rightarrow> bool res" where
  "is_register_source g u =
     (if v_type (vert g u) = KCell
      then bnd (cell_at_ptr g u Undefined) (\<lambda>c. Inr (c_register (cell_base c)))
      else Inr False)"

text \<open>A vertex driven by a cell with a register is declared as one.\<close>

definition vertex_params :: "params \<Rightarrow> mgraph \<Rightarrow> nat \<Rightarrow> params res" where
  "vertex_params ps g v =
     bnd (mapM (is_register_source g) (inv_adjacent g v)) (\<lambda>rs.
     Inr (if True \<in> set rs then ps\<lparr>p_is_register := Some True\<rparr> else ps))"

definition cell_port_at :: "mgraph \<Rightarrow> nat \<Rightarrow> port res" where
  "cell_port_at g v =
     bnd (of_opt Contract (v_port (vert g v))) (\<lambda>p.
     bnd (cell_at_ptr g v Contract) (\<lambda>_.
     chk (v_net (vert g v) = None) Contract (Inr p)))"

definition net_at :: "mgraph \<Rightarrow> nat \<Rightarrow> net res" where
  "net_at g v = bnd (of_opt Contract (v_net (vert g v))) (\<lambda>(i, n). Inr n)"

definition declare_vertex :: "params \<Rightarrow> mgraph \<Rightarrow> nat \<Rightarrow> string list res" where
  "declare_vertex ps g v =
     (case v_type (vert g v) of
        KNet \<Rightarrow>
          bnd (net_at g v) (\<lambda>n. bnd (vertex_params ps g v) (\<lambda>ps'. net_export_verilog ps' n))
      | KCellPort \<Rightarrow>
          bnd (cell_port_at g v) (\<lambda>p. bnd (vertex_params ps g v) (\<lambda>ps'. port_export_verilog ps' p))
      | _ \<Rightarrow> Inr [])"

section \<open>Connections\<close>

text \<open>The name and the bits of a vertex, as source (a missing pointer is one failed check).\<close>

definition source_of :: "mgraph \<Rightarrow> nat \<Rightarrow> (string \<times> netbit list) option res" where
  "source_of g u =
     (case v_type (vert g u) of
        KCellPort \<Rightarrow>
          bnd (of_opt Contract (v_port (vert g u))) (\<lambda>p.
          Inr (Some (legalize_identifier (pt_identifier p), pt_bits p)))
      | KNet \<Rightarrow> bnd (net_at g u) (\<lambda>n. Inr (Some (legalize_identifier (n_name n), n_bits n)))
      | _ \<Rightarrow> Inr None)"

definition target_of :: "mgraph \<Rightarrow> nat \<Rightarrow> (string \<times> netbit list) option res" where
  "target_of g v =
     (case v_type (vert g v) of
        KNet \<Rightarrow> bnd (net_at g v) (\<lambda>n. Inr (Some (legalize_identifier (n_name n), n_bits n)))
      | KCellPort \<Rightarrow>
          bnd (cell_port_at g v) (\<lambda>p.
          Inr (Some (legalize_identifier (pt_identifier p), pt_bits p)))
      | _ \<Rightarrow> Inr None)"

definition connect_vertex :: "bool \<Rightarrow> mgraph \<Rightarrow> nat \<Rightarrow> string list res" where
  "connect_vertex ift g v =
     bnd (target_of g v) (\<lambda>tgt.
     case tgt of
       None \<Rightarrow> Inr []
     | Some (target_name, target_bits) \<Rightarrow>
         bnd (mapM (source_of g) (inv_adjacent g v)) (\<lambda>srcs.
         let sources = concat (map (\<lambda>s. case s of None \<Rightarrow> [] | Some x \<Rightarrow> [x]) srcs) in
         Inr (concat (map (\<lambda>(source_name, source_bits).
                export_connection source_name source_bits target_name target_bits) sources)
            @ only (ift \<and> sources \<noteq> [])
                [fmt '' assign {}{} = {};\<newline>''
                   [target_name, ift_tag,
                    join '' | '' (map (\<lambda>(source_name, _). source_name @ ift_tag) sources)]])))"

section \<open>Cells\<close>

text \<open>\<open>emplace\<close> leaves an entry that is there.\<close>

definition emplace_id ::
  "64 word \<Rightarrow> string \<Rightarrow> (64 word \<Rightarrow> string option) \<Rightarrow> 64 word \<Rightarrow> string option"
where
  "emplace_id s name m = (if m s = None then m(s := Some name) else m)"

definition identify :: "mgraph \<Rightarrow> nat \<Rightarrow> (64 word \<Rightarrow> string option) \<Rightarrow> (64 word \<Rightarrow> string option) res"
where
  "identify g u m =
     (if v_type (vert g u) = KNet \<or> v_type (vert g u) = KModulePort then
        bnd (net_at g u) (\<lambda>n.
        Inr (emplace_id (n_bits_signature n) (legalize_identifier (n_name n)) m))
      else if v_type (vert g u) = KCellPort then
        bnd (of_opt Contract (v_port (vert g u))) (\<lambda>p.
        Inr (emplace_id (pt_bits_signature p) (legalize_identifier (pt_identifier p)) m))
      else Inr m)"

definition identifiers_map :: "mgraph \<Rightarrow> nat \<Rightarrow> (64 word \<Rightarrow> string option) res" where
  "identifiers_map g v = foldM (identify g) (adjacent g v @ inv_adjacent g v) (\<lambda>_. None)"

definition export_cell_vertex :: "params \<Rightarrow> mgraph \<Rightarrow> nat \<Rightarrow> string list res" where
  "export_cell_vertex ps g v =
     (if v_type (vert g v) = KCell then
        bnd (cell_at_ptr g v Contract) (\<lambda>c.
        chk (v_port (vert g v) = None) Contract (
        bnd (identifiers_map g v) (\<lambda>ids.
        cell_export_verilog (ps\<lparr>p_idmap := ids\<rparr>) c)))
      else Inr [])"

section \<open>The module\<close>

definition module_export_verilog :: "params \<Rightarrow> module \<Rightarrow> mgraph \<Rightarrow> string list res" where
  "module_export_verilog ps m g =
     (let ift = (case p_ift ps of Some b \<Rightarrow> b | None \<Rightarrow> False);
          vertices = [0..<nverts g] in
      bnd (export_verilog_header ps m) (\<lambda>header.
      bnd (mapM (declare_vertex ps g) vertices) (\<lambda>decls.
      bnd (mapM (connect_vertex ift g) vertices) (\<lambda>conns.
      bnd (mapM (export_cell_vertex ps g) vertices) (\<lambda>cells.
      Inr (header @ concat decls @ concat conns @ concat cells @ [''endmodule\<newline>'']))))))"

section \<open>Clocks\<close>

text \<open>
  The search for the clock net of a register among the adjacent vertices. The state is the net
  found first, in any register; the search stops when it sets that net, and with false when it
  meets another one.
\<close>

fun clock_scan :: "mgraph \<Rightarrow> 64 word \<Rightarrow> nat list \<Rightarrow> nat option \<Rightarrow> (bool \<times> nat option) res" where
  "clock_scan g s [] clk = Inr (True, clk)"
| "clock_scan g s (u # us) clk =
     (if v_type (vert g u) = KNet \<or> v_type (vert g u) = KModulePort then
        bnd (of_opt Contract (v_net (vert g u))) (\<lambda>(i, n).
        if n_bits_signature n = s then
          (case clk of
             None \<Rightarrow> Inr (True, Some i)
           | Some j \<Rightarrow> if j \<noteq> i then Inr (False, clk) else clock_scan g s us clk)
        else clock_scan g s us clk)
      else clock_scan g s us clk)"

fun clock_loop :: "mgraph \<Rightarrow> nat list \<Rightarrow> nat option \<Rightarrow> bool res" where
  "clock_loop g [] clk = Inr True"
| "clock_loop g (v # vs) clk =
     (if v_type (vert g v) = KCell then
        bnd (cell_at_ptr g v Contract) (\<lambda>c.
        chk (v_port (vert g v) = None) Contract (
        if c_register (cell_base c) \<and> has_port (cell_base c) ''CLK'' then
          bnd (get_port (cell_base c) ''CLK'') (\<lambda>p.
          bnd (clock_scan g (pt_bits_signature p) (adjacent g v @ inv_adjacent g v) clk) (\<lambda>(ok, clk').
          if ok then clock_loop g vs clk' else Inr False))
        else clock_loop g vs clk))
      else clock_loop g vs clk)"

definition check_clock_signal_consistency :: "mgraph \<Rightarrow> bool res" where
  "check_clock_signal_consistency g = clock_loop g [0..<nverts g] None"

definition check_rising_edge :: "mgraph \<Rightarrow> nat \<Rightarrow> bool res" where
  "check_rising_edge g v =
     (if v_type (vert g v) = KCell then
        bnd (cell_at_ptr g v Contract) (\<lambda>c.
        chk (v_port (vert g v) = None) Contract (
        if c_register (cell_base c) \<and> has_port (cell_base c) ''CLK'' \<and>
           jcontains (c_parameters (cell_base c)) ''CLK_POLARITY''
        then bnd (jat (c_parameters (cell_base c)) ''CLK_POLARITY'') (\<lambda>j.
             bnd (get_string j) (\<lambda>s. Inr (s = ''1'')))
        else Inr True))
      else Inr True)"

text \<open>\<open>all_of\<close> stops at the first vertex that fails.\<close>

fun all_of :: "('a \<Rightarrow> bool res) \<Rightarrow> 'a list \<Rightarrow> bool res" where
  "all_of f [] = Inr True"
| "all_of f (x # xs) = bnd (f x) (\<lambda>b. if b then all_of f xs else Inr False)"

definition check_clock_rising_edge_consistency :: "mgraph \<Rightarrow> bool res" where
  "check_clock_rising_edge_consistency g = all_of (check_rising_edge g) [0..<nverts g]"

end
