(* ===== verification/ModuleFacts.thy ===== *)
theory ModuleFacts
  imports ModuleExport
begin

text \<open>
  Facts about modules: what adding a net keeps, which cell an added type name gives, the ports of
  the header, and when the clock check of a module passes.
\<close>

section \<open>Nets\<close>

definition hidden_unique :: "net list \<Rightarrow> bool" where
  "hidden_unique ns \<longleftrightarrow>
     (\<forall>i < length ns. \<forall>j < length ns. i \<noteq> j \<longrightarrow>
        n_bits_signature (ns ! i) = n_bits_signature (ns ! j) \<longrightarrow> \<not> n_hidden (ns ! i))"

lemma find_net_Some:
  "find_net s ns = Some i \<Longrightarrow> i < length ns \<and> n_bits_signature (ns ! i) = s"
  by (induction ns arbitrary: i) (auto split: if_splits)

lemma find_net_None: "find_net s ns = None \<longleftrightarrow> (\<forall>n \<in> set ns. n_bits_signature n \<noteq> s)"
  by (induction ns) auto

lemma hidden_unique_append:
  assumes "hidden_unique ns"
    "\<And>x. x \<in> set ns \<Longrightarrow> n_bits_signature x = n_bits_signature n \<Longrightarrow> \<not> n_hidden x \<and> \<not> n_hidden n"
  shows "hidden_unique (ns @ [n])"
  unfolding hidden_unique_def
proof (intro allI impI)
  fix i j assume "i < length (ns @ [n])" "j < length (ns @ [n])" "i \<noteq> j"
    "n_bits_signature ((ns @ [n]) ! i) = n_bits_signature ((ns @ [n]) ! j)"
  then show "\<not> n_hidden ((ns @ [n]) ! i)"
    using assms(1) assms(2) [of "ns ! i"] assms(2) [of "ns ! j"]
    by (cases "i < length ns"; cases "j < length ns")
      (auto simp: nth_append less_Suc_eq hidden_unique_def)
qed

lemma hidden_unique_first:
  assumes "hidden_unique ns" "i < length ns" "\<not> n_hidden (ns ! i)" "x \<in> set ns"
    and "n_bits_signature x = n_bits_signature (ns ! i)"
  shows "\<not> n_hidden x"
  using assms by (metis hidden_unique_def in_set_conv_nth)

lemma hidden_unique_update:
  assumes u: "hidden_unique ns" and i: "i < length ns" "n_hidden (ns ! i)"
    and s: "n_bits_signature (ns ! i) = n_bits_signature n"
  shows "hidden_unique (ns[i := n])"
proof -
  have alone: "j = i" if "j < length ns" "n_bits_signature (ns ! j) = n_bits_signature n" for j
    using u i s that by (metis hidden_unique_def)
  show ?thesis unfolding hidden_unique_def
  proof (intro allI impI)
    fix j k assume "j < length (ns[i := n])" "k < length (ns[i := n])" "j \<noteq> k"
      "n_bits_signature (ns[i := n] ! j) = n_bits_signature (ns[i := n] ! k)"
    then have jk: "j < length ns" "k < length ns" "j \<noteq> k"
      "n_bits_signature (ns[i := n] ! j) = n_bits_signature (ns[i := n] ! k)" by simp_all
    have "j \<noteq> i" using alone [of k] jk by (cases "k = i") auto
    moreover have "k \<noteq> i" using alone [of j] jk by (cases "j = i") auto
    ultimately show "\<not> n_hidden (ns[i := n] ! j)"
      using u jk unfolding hidden_unique_def by (metis nth_list_update_neq)
  qed
qed

lemma add_net_nets:
  assumes "hidden_unique (m_nets m)"
  shows "hidden_unique (m_nets (add_net n m)) \<and>
    n_bits_signature ` set (m_nets (add_net n m)) =
      insert (n_bits_signature n) (n_bits_signature ` set (m_nets m)) \<and>
    (\<forall>x \<in> set (m_nets m). \<not> n_hidden x \<longrightarrow> x \<in> set (m_nets (add_net n m))) \<and>
    (n \<in> set (m_nets (add_net n m)) \<or>
     n_hidden n \<and> (\<exists>x \<in> set (m_nets m). \<not> n_hidden x \<and> n_bits_signature x = n_bits_signature n))"
proof (cases "find_net (n_bits_signature n) (m_nets m)")
  case None
  then have "m_nets (add_net n m) = m_nets m @ [n]" by (simp add: add_net_def)
  moreover have "\<forall>x \<in> set (m_nets m). n_bits_signature x \<noteq> n_bits_signature n"
    using None by (simp add: find_net_None)
  ultimately show ?thesis using assms by (auto intro: hidden_unique_append)
next
  case (Some i)
  then have i: "i < length (m_nets m)" "n_bits_signature (m_nets m ! i) = n_bits_signature n"
    using find_net_Some by blast+
  show ?thesis
  proof (cases "n_hidden (m_nets m ! i)")
    case True
    then have new: "m_nets (add_net n m) = (m_nets m)[i := n]" by (simp add: add_net_def Some)
    have sigs: "map n_bits_signature ((m_nets m)[i := n]) = map n_bits_signature (m_nets m)"
      using i by (simp add: map_update) (metis list_update_id nth_map)
    have "n_bits_signature ` set ((m_nets m)[i := n]) = n_bits_signature ` set (m_nets m)"
      using sigs by (metis set_map)
    moreover have "x \<in> set ((m_nets m)[i := n])" if x: "x \<in> set (m_nets m)" "\<not> n_hidden x" for x
    proof -
      obtain j where "j < length (m_nets m)" "x = m_nets m ! j"
        using x(1) by (auto simp: in_set_conv_nth)
      moreover have "j \<noteq> i" using x(2) True calculation by auto
      ultimately have "(m_nets m)[i := n] ! j = x" "j < length ((m_nets m)[i := n])" by simp_all
      then show ?thesis by (metis nth_mem)
    qed
    moreover have "n_bits_signature n \<in> n_bits_signature ` set (m_nets m)"
      using i by (metis image_eqI nth_mem)
    moreover have "hidden_unique ((m_nets m)[i := n])" "n \<in> set ((m_nets m)[i := n])"
      using hidden_unique_update [OF assms i(1) True i(2)] i(1) by (simp_all add: set_update_memI)
    ultimately show ?thesis unfolding new by (simp add: insert_absorb)
  next
    case False
    have "\<not> n_hidden x" if "x \<in> set (m_nets m)" "n_bits_signature x = n_bits_signature n" for x
      using hidden_unique_first [OF assms i(1) False that(1)] that(2) i(2) by simp
    moreover have "n_bits_signature n \<in> n_bits_signature ` set (m_nets m)"
      "m_nets m ! i \<in> set (m_nets m)" using i by (metis image_eqI nth_mem, simp)
    moreover have "m_nets (add_net n m) = (if n_hidden n then m_nets m else m_nets m @ [n])"
      using False by (simp add: add_net_def Some)
    moreover have "\<exists>x \<in> set (m_nets m). \<not> n_hidden x \<and> n_bits_signature x = n_bits_signature n"
      using False i nth_mem by blast
    ultimately show ?thesis using assms
      by (cases "n_hidden n") (auto intro: hidden_unique_append)
  qed
qed

text \<open>
  \<^bold>\<open>C32.\<close> Adding a net keeps that a hidden net is the only one with its signature, adds exactly its
  signature to those of the module, and keeps every net that is not hidden. The net itself is
  added unless it is hidden and a net that is not hidden has its signature.
\<close>

theorem add_net_keeps_nets:
  assumes "hidden_unique (m_nets m)"
  shows "hidden_unique (m_nets (add_net n m)) \<and>
    n_bits_signature ` set (m_nets (add_net n m)) =
      insert (n_bits_signature n) (n_bits_signature ` set (m_nets m)) \<and>
    (\<forall>x \<in> set (m_nets m). \<not> n_hidden x \<longrightarrow> x \<in> set (m_nets (add_net n m))) \<and>
    (n \<in> set (m_nets (add_net n m)) \<or>
     n_hidden n \<and> (\<exists>x \<in> set (m_nets m). \<not> n_hidden x \<and> n_bits_signature x = n_bits_signature n))"
  by (rule add_net_nets [OF assms])

definition hidden_module :: module where
  "hidden_module = (new_module ''top'')\<lparr>m_nets := [mk_net sample_hash ''$1'' True [Bit 2]]\<rparr>"

theorem add_net_keeps_nets_witness:
  "hidden_unique (m_nets (add_net (mk_net sample_hash ''a'' False [Bit 2]) hidden_module)) \<and>
   mk_net sample_hash ''a'' False [Bit 2] \<in>
     set (m_nets (add_net (mk_net sample_hash ''a'' False [Bit 2]) hidden_module))"
proof -
  have "hidden_unique (m_nets hidden_module)" by (simp add: hidden_unique_def hidden_module_def)
  from add_net_keeps_nets [OF this, of "mk_net sample_hash ''a'' False [Bit 2]"]
  show ?thesis by (auto simp: mk_net_def)
qed

section \<open>Cells\<close>

definition built_in_types :: "string list" where
  "built_in_types =
     [''$and'', ''$or'', ''$xor'', ''$xnor'', ''$shift'', ''$shiftx'', ''$logic_and'', ''$logic_or'']
     @ basic_binary_gates @ basic_unary_gates
     @ [''$reduce_and'', ''$reduce_or'', ''$reduce_bool'', ''$reduce_xor'', ''$reduce_xnor'',
        ''$mux'', ''$pmux'', ''$sr'', ''$dff'', ''$adff'', ''$sdff'', ''$aldff'', ''$dffsr'', ''$dffe'',
        ''$adffe'', ''$sdffe'', ''$aldffe'', ''$dffsre'', ''$dlatch'', ''$adlatch'', ''$dlatchsr'',
        ''$print'', ''$mem_v2'']"

lemma cell_class_total: "(\<exists>k. cell_class_of ms t = Inr k) \<longleftrightarrow> t \<in> set built_in_types \<or> t \<in> ms"
  unfolding cell_class_of_def built_in_types_def set_append Un_iff by simp

lemma cell_class_module: "cell_class_of ms t = Inr KModule \<longleftrightarrow> t \<notin> set built_in_types \<and> t \<in> ms"
  unfolding cell_class_of_def built_in_types_def set_append Un_iff by simp

definition register_classes :: "cell_class set" where
  "register_classes = {KSr, KDff, KAdff, KSdff, KAldff, KDffsr, KDffe, KAdffe, KSdffe, KAldffe,
     KDffsre, KDlatch, KAdlatch, KDlatchsr}"

text \<open>The part of a constructed object that is the base class.\<close>

definition registered :: "cell \<Rightarrow> cell" where
  "registered c = c\<lparr>c_register := True\<rparr>"

lemma mk_basic_dff_base:
  "mk_basic_dff n t ps h pa at = Inr x \<Longrightarrow> cell.truncate x = registered (mk_cell n t ps h pa at)"
  by (auto simp: mk_basic_dff_def bnd_eq_Inr chk_eq_Inr cell.defs registered_def)

lemma truncate_basic [simp]:
  "cell.truncate (basic_dff.truncate x) = cell.truncate x"
  by (simp add: cell.defs basic_dff.defs)

lemma mk_sr_base:
  "mk_sr n t ps h pa at = Inr x \<Longrightarrow> cell.truncate x = registered (mk_cell n t ps h pa at)"
  by (auto simp: mk_sr_def bnd_eq_Inr chk_eq_Inr cell.defs basic_dff.defs registered_def
      dest!: mk_basic_dff_base split: if_splits)

lemma mk_dff_base:
  "mk_dff n t ps h pa at = Inr x \<Longrightarrow> cell.truncate x = registered (mk_cell n t ps h pa at)"
  by (auto simp: mk_dff_def bnd_eq_Inr chk_eq_Inr cell.defs basic_dff.defs registered_def
      dest!: mk_basic_dff_base split: if_splits)

lemma mk_adff_base:
  "mk_adff n t ps h pa at = Inr x \<Longrightarrow> cell.truncate x = registered (mk_cell n t ps h pa at)"
  by (auto simp: mk_adff_def bnd_eq_Inr chk_eq_Inr cell.defs basic_dff.defs registered_def
      dest!: mk_basic_dff_base split: if_splits)

lemma mk_sdff_base:
  "mk_sdff n t ps h pa at = Inr x \<Longrightarrow> cell.truncate x = registered (mk_cell n t ps h pa at)"
  by (auto simp: mk_sdff_def bnd_eq_Inr chk_eq_Inr cell.defs basic_dff.defs registered_def
      dest!: mk_basic_dff_base split: if_splits)

lemma mk_aldff_base:
  "mk_aldff n t ps h pa at = Inr x \<Longrightarrow> cell.truncate x = registered (mk_cell n t ps h pa at)"
  by (auto simp: mk_aldff_def bnd_eq_Inr chk_eq_Inr cell.defs basic_dff.defs registered_def
      dest!: mk_basic_dff_base split: if_splits)

lemma mk_dffsr_base:
  "mk_dffsr n t ps h pa at = Inr x \<Longrightarrow> cell.truncate x = registered (mk_cell n t ps h pa at)"
  by (auto simp: mk_dffsr_def bnd_eq_Inr chk_eq_Inr cell.defs basic_dff.defs registered_def
      dest!: mk_basic_dff_base split: if_splits)

lemma mk_dffe_base:
  "mk_dffe n t ps h pa at = Inr x \<Longrightarrow> cell.truncate x = registered (mk_cell n t ps h pa at)"
  by (auto simp: mk_dffe_def bnd_eq_Inr chk_eq_Inr cell.defs basic_dff.defs registered_def
      dest!: mk_basic_dff_base split: if_splits)

lemma mk_adffe_base:
  "mk_adffe n t ps h pa at = Inr x \<Longrightarrow> cell.truncate x = registered (mk_cell n t ps h pa at)"
  by (auto simp: mk_adffe_def bnd_eq_Inr chk_eq_Inr cell.defs basic_dff.defs registered_def
      dest!: mk_basic_dff_base split: if_splits)

lemma mk_sdffe_base:
  "mk_sdffe n t ps h pa at = Inr x \<Longrightarrow> cell.truncate x = registered (mk_cell n t ps h pa at)"
  by (auto simp: mk_sdffe_def bnd_eq_Inr chk_eq_Inr cell.defs basic_dff.defs registered_def
      dest!: mk_basic_dff_base split: if_splits)

lemma mk_aldffe_base:
  "mk_aldffe n t ps h pa at = Inr x \<Longrightarrow> cell.truncate x = registered (mk_cell n t ps h pa at)"
  by (auto simp: mk_aldffe_def bnd_eq_Inr chk_eq_Inr cell.defs basic_dff.defs registered_def
      dest!: mk_basic_dff_base split: if_splits)

lemma mk_dffsre_base:
  "mk_dffsre n t ps h pa at = Inr x \<Longrightarrow> cell.truncate x = registered (mk_cell n t ps h pa at)"
  by (auto simp: mk_dffsre_def bnd_eq_Inr chk_eq_Inr cell.defs basic_dff.defs registered_def
      dest!: mk_basic_dff_base split: if_splits)

lemma mk_dlatch_base:
  "mk_dlatch n t ps h pa at = Inr x \<Longrightarrow> cell.truncate x = registered (mk_cell n t ps h pa at)"
  by (auto simp: mk_dlatch_def bnd_eq_Inr chk_eq_Inr cell.defs basic_dff.defs registered_def
      dest!: mk_basic_dff_base split: if_splits)

lemma mk_adlatch_base:
  "mk_adlatch n t ps h pa at = Inr x \<Longrightarrow> cell.truncate x = registered (mk_cell n t ps h pa at)"
  by (auto simp: mk_adlatch_def bnd_eq_Inr chk_eq_Inr cell.defs basic_dff.defs registered_def
      dest!: mk_basic_dff_base split: if_splits)

lemma mk_dlatchsr_base:
  "mk_dlatchsr n t ps h pa at = Inr x \<Longrightarrow> cell.truncate x = registered (mk_cell n t ps h pa at)"
  by (auto simp: mk_dlatchsr_def bnd_eq_Inr chk_eq_Inr cell.defs basic_dff.defs registered_def
      dest!: mk_basic_dff_base split: if_splits)

lemma port_bits_are_Inr:
  "port_bits_are f key k r = Inr y \<Longrightarrow> r = Inr y"
  by (auto simp: port_bits_are_def bnd_eq_Inr chk_eq_Inr)

lemma mk_mem_v2_base:
  "mk_mem_v2 n t ps h pa at = Inr x \<Longrightarrow> cell.truncate x = mk_cell n t ps h pa at"
  unfolding mk_mem_v2_def Let_def
  by (auto simp: bnd_eq_Inr cell.defs dest!: port_bits_are_Inr)

lemmas register_bases = mk_sr_base mk_dff_base mk_adff_base mk_sdff_base mk_aldff_base mk_dffsr_base mk_dffe_base mk_adffe_base mk_sdffe_base mk_aldffe_base mk_dffsre_base mk_dlatch_base mk_adlatch_base mk_dlatchsr_base

lemma construct_base:
  assumes "construct k n t ps h pa at = Inr c"
  shows "cell_base c = (let b = mk_cell (if k = KModule then legalize_identifier n else n) t ps h pa at
    in if k \<in> register_classes then registered b else b)"
  using assms
  by (cases k) (auto simp: lift_cell_def bnd_eq_Inr chk_eq_Inr mk_gate_def cell.defs register_classes_def
      mk_shift_def mk_shiftx_def mk_pmux_def registered_def dest!: register_bases mk_mem_v2_base)

text \<open>
  \<open>add_cell\<close> rejects every type name that is neither built in nor a module, with its
  own error, before any constructor runs. When it succeeds, one cell of the class of the type
  name is put into the collection; its base has the given name (made legal for an instance of a
  module), type, parameters and ports, each with its exported identifier, and it is a register
  exactly for the flip-flops and latches.
\<close>

theorem add_cell_result:
  "(type \<notin> set built_in_types \<union> modules \<longrightarrow>
      add_cell emplace modules name type ports hidden pa at m =
        Inl (RuntimeError ''The type is not a Cell or a Module'')) \<and>
   (\<forall>m'. add_cell emplace modules name type ports hidden pa at m = Inr m' \<longrightarrow>
      type \<in> set built_in_types \<union> modules \<and>
      (\<exists>c k. cell_class_of modules type = Inr k \<and> m' = m\<lparr>m_cells := emplace c (m_cells m)\<rparr> \<and>
         cell_base c =
           (let b = mk_cell (if k = KModule then legalize_identifier name else name)
                      type ports hidden pa at
            in if k \<in> register_classes then registered b else b)))"
proof (intro conjI impI allI)
  assume no: "type \<notin> set built_in_types \<union> modules"
  then have "cell_class_of modules type = Inl (RuntimeError ''The type is not a Cell or a Module'')"
    unfolding cell_class_of_def built_in_types_def by simp
  then show "add_cell emplace modules name type ports hidden pa at m =
      Inl (RuntimeError ''The type is not a Cell or a Module'')" by (simp add: add_cell_def)
next
  fix m' assume "add_cell emplace modules name type ports hidden pa at m = Inr m'"
  then obtain k c where k: "cell_class_of modules type = Inr k"
    and c: "construct k name type ports hidden pa at = Inr c"
    and m': "m' = m\<lparr>m_cells := emplace c (m_cells m)\<rparr>" by (auto simp: add_cell_def bnd_eq_Inr)
  show "type \<in> set built_in_types \<union> modules" using k cell_class_total [of modules type] by blast
  show "\<exists>c k. cell_class_of modules type = Inr k \<and> m' = m\<lparr>m_cells := emplace c (m_cells m)\<rparr> \<and>
         cell_base c =
           (let b = mk_cell (if k = KModule then legalize_identifier name else name)
                      type ports hidden pa at
            in if k \<in> register_classes then registered b else b)"
    using k m' construct_base [OF c] by blast
qed

theorem add_cell_result_witness:
  "\<exists>c. add_cell (#) {} ''g'' ''$not'' (c_ports (cell_base (hd (m_cells sample_module)))) False
       JNull JNull (new_module ''top'') = Inr ((new_module ''top'')\<lparr>m_cells := [c]\<rparr>) \<and>
     c_name (cell_base c) = ''g'' \<and> \<not> c_register (cell_base c)"
proof -
  let ?ps = "c_ports (cell_base (hd (m_cells sample_module)))"
  have "\<not> isl (add_cell (#) {} ''g'' ''$not'' ?ps False JNull JNull (new_module ''top''))"
    by code_simp
  then obtain m' where m': "add_cell (#) {} ''g'' ''$not'' ?ps False JNull JNull (new_module ''top'') = Inr m'"
    by (cases "add_cell (#) {} ''g'' ''$not'' ?ps False JNull JNull (new_module ''top'')") auto
  from add_cell_result [THEN conjunct2, THEN spec, THEN mp, OF m'] obtain c k where
    k: "cell_class_of {} ''$not'' = Inr k" and eq: "m' = (new_module ''top'')\<lparr>m_cells := [c]\<rparr>"
    and c: "cell_base c = (let b = mk_cell (if k = KModule then legalize_identifier ''g'' else ''g'')
                      ''$not'' ?ps False JNull JNull
            in if k \<in> register_classes then registered b else b)"
    by (auto simp: new_module_def)
  have "k = KGate GUnary" using k by (simp add: cell_class_of_def basic_binary_gates_def basic_unary_gates_def)
  then show ?thesis using m' c eq by (auto simp: register_classes_def Let_def)
qed

section \<open>Header\<close>

lemma mset_by_direction:
  assumes "\<forall>p \<in> set ps. pt_direction p \<noteq> UnknownDir"
  shows "mset (concat (map f (filter (\<lambda>p. pt_direction p = Input) ps)))
    + (mset (concat (map f (filter (\<lambda>p. pt_direction p = Output) ps)))
    + mset (concat (map f (filter (\<lambda>p. pt_direction p = Inout) ps)))) = mset (concat (map f ps))"
  using assms
proof (induction ps)
  case (Cons p ps)
  then show ?case by (cases "pt_direction p") auto
qed simp

definition listed_names :: "bool \<Rightarrow> port \<Rightarrow> string list" where
  "listed_names ift p =
     (if ift then [legalize_identifier (pt_name p), fmt ''{}{}'' [legalize_identifier (pt_name p), ift_tag]]
      else [pt_name p])"

lemma tags_names:
  "(if ift then with_tags else id) (names_of d m) =
   concat (map (listed_names ift) (filter (\<lambda>p. pt_direction p = d) (m_ports m)))"
  by (induction "m_ports m") (simp_all add: with_tags_def names_of_def listed_names_def comp_def)

definition port_line :: "string \<Rightarrow> port \<Rightarrow> string" where
  "port_line d p = fmt ''{} {} {};\<newline>'' [d, width_string (pt_bits p), legalize_identifier (pt_name p)]"

lemma port_declaration_line:
  "port_declaration ift ts p = Inr ls \<Longrightarrow>
   pt_direction p \<noteq> UnknownDir \<and>
   (\<exists>d. show_direction (pt_direction p) = Inr d \<and> port_line d p \<in> set ls)"
  unfolding port_declaration_def port_line_def
  by (cases "pt_direction p") (auto simp del: fmt.simps)

text \<open>
  The header opens with the legal form of the module's name and lists every port once,
  inputs first, then outputs, then inouts; with tags, each port is followed by its tag port.
  Every port is declared with its direction and width under its legal name. Without tags the
  list has the raw name of a port, not the legal one of its declaration.
\<close>

theorem header_lists_ports:
  assumes "export_verilog_header ps m = Inr ls" "p_ift ps = Some ift"
  shows "(\<exists>names. hd ls = fmt ''module {}({});\<newline>'' [legalize_identifier (m_name m), join '', '' names] \<and>
      mset names = mset (concat (map (listed_names ift) (m_ports m)))) \<and>
    (\<forall>p \<in> set (m_ports m). \<exists>d. pt_direction p \<noteq> UnknownDir \<and> show_direction (pt_direction p) = Inr d \<and>
      port_line d p \<in> set ls)"
proof -
  let ?names = "concat (map (\<lambda>d. (if ift then with_tags else id) (names_of d m)) [Input, Output, Inout])"
  obtain ts ds where ts: "p_tag_size ps = Some ts"
    and ds: "mapM (port_declaration ift ts) (m_ports m) = Inr ds"
    and ls: "ls = fmt ''module {}({});\<newline>'' [legalize_identifier (m_name m), join '', '' ?names] # concat ds"
    using assms by (auto simp: export_verilog_header_def bnd_eq_Inr of_opt_eq_Inr Let_def
        get_input_names_def get_output_names_def get_inout_names_def)
  have decl: "\<exists>d. pt_direction p \<noteq> UnknownDir \<and> show_direction (pt_direction p) = Inr d \<and>
      port_line d p \<in> set (concat ds)" if p: "p \<in> set (m_ports m)" for p
  proof -
    obtain i where i: "i < length (m_ports m)" "p = m_ports m ! i" using p by (auto simp: in_set_conv_nth)
    have "port_declaration ift ts p = Inr (ds ! i)" "ds ! i \<in> set ds"
      using mapM_nth [OF ds i(1)] mapM_length [OF ds] i by simp_all
    then show ?thesis using port_declaration_line by fastforce
  qed
  have known: "\<forall>p \<in> set (m_ports m). pt_direction p \<noteq> UnknownDir" using decl by blast
  have "mset ?names = mset (concat (map (listed_names ift) (m_ports m)))"
    unfolding mset_by_direction [OF known, symmetric] list.map concat.simps tags_names by simp
  then show ?thesis using decl unfolding ls by (intro conjI exI [of _ ?names]) fastforce+
qed

definition plain_params :: "bool \<Rightarrow> params" where
  "plain_params ift =
     \<lparr>p_ift = Some ift, p_tag_size = Some 4, p_is_register = None, p_idmap = (\<lambda>_. None)\<rparr>"

definition escaped_module :: module where
  "escaped_module = (new_module ''top'')
     \<lparr>m_ports := [mk_port sample_hash ''b.y'' ''top_b.y'' Output [Bit 3] False,
                mk_port sample_hash ''a'' ''top_a'' Input [Bit 2] False]\<rparr>"

theorem header_lists_ports_witness:
  "hd (projr (export_verilog_header (plain_params False) escaped_module)) = ''module top(a, b.y);\<newline>'' \<and>
   port_line ''output'' (m_ports escaped_module ! 0) = ''output  b_y;\<newline>'' \<and>
   port_line ''output'' (m_ports escaped_module ! 0)
     \<in> set (projr (export_verilog_header (plain_params False) escaped_module))"
proof -
  have ok: "\<not> isl (export_verilog_header (plain_params False) escaped_module)" by code_simp
  then have eq: "export_verilog_header (plain_params False) escaped_module =
      Inr (projr (export_verilog_header (plain_params False) escaped_module))"
    by (cases "export_verilog_header (plain_params False) escaped_module") auto
  have ift: "p_ift (plain_params False) = Some False" by (simp add: plain_params_def)
  have mem: "m_ports escaped_module ! 0 \<in> set (m_ports escaped_module)"
    by (simp add: escaped_module_def)
  have out: "show_direction (pt_direction (m_ports escaped_module ! 0)) = Inr ''output''"
    by code_simp
  have "port_line ''output'' (m_ports escaped_module ! 0)
      \<in> set (projr (export_verilog_header (plain_params False) escaped_module))"
    using header_lists_ports [OF eq ift, THEN conjunct2, THEN bspec, OF mem] out by auto
  moreover have
    "hd (projr (export_verilog_header (plain_params False) escaped_module)) = ''module top(a, b.y);\<newline>''"
    "port_line ''output'' (m_ports escaped_module ! 0) = ''output  b_y;\<newline>''" by code_simp+
  ultimately show ?thesis by blast
qed

section \<open>Clocks\<close>


text \<open>The nets of the module that carry the clock of a register's vertex, in the order met.\<close>

definition matching_nets :: "mgraph \<Rightarrow> 64 word \<Rightarrow> nat list \<Rightarrow> nat list" where
  "matching_nets g s us =
     concat (map (\<lambda>u. case v_net (vert g u) of
       Some (i, n) \<Rightarrow> if v_type (vert g u) = KNet \<and> n_bits_signature n = s then [i] else []
     | None \<Rightarrow> []) us)"

definition clock_nets :: "mgraph \<Rightarrow> nat \<Rightarrow> nat list" where
  "clock_nets g v =
     (case v_cell (vert g v) of
        Some c \<Rightarrow>
          (if v_type (vert g v) = KCell \<and> c_register (cell_base c) then
             (case get_port (cell_base c) ''CLK'' of
                Inr p \<Rightarrow> matching_nets g (pt_bits_signature p) (adjacent g v @ inv_adjacent g v)
              | Inl _ \<Rightarrow> [])
           else [])
      | None \<Rightarrow> [])"

lemma matching_nets_simps [simp]:
  "matching_nets g s [] = []"
  "matching_nets g s (u # us) =
     (case v_net (vert g u) of
       Some (i, n) \<Rightarrow> if v_type (vert g u) = KNet \<and> n_bits_signature n = s then [i] else []
     | None \<Rightarrow> []) @ matching_nets g s us"
  by (simp_all add: matching_nets_def)

lemma clock_scan_Some:
  assumes "\<forall>u \<in> set us. vertex_ok (vert g u)"
  shows "clock_scan g s us (Some j) = Inr (\<forall>i \<in> set (matching_nets g s us). i = j, Some j)"
  using assms
proof (induction us)
  case (Cons u us)
  then have IH: "clock_scan g s us (Some j) = Inr (\<forall>i \<in> set (matching_nets g s us). i = j, Some j)"
    by auto
  have ok: "vertex_ok (vert g u)" using Cons.prems by simp
  show ?case
  proof (cases "v_type (vert g u) = KNet")
    case True
    then obtain i n where "v_net (vert g u) = Some (i, n)" using ok by (auto simp: vertex_ok_def)
    then show ?thesis using True IH by (cases "i = j") auto
  next
    case False
    then have "v_type (vert g u) \<noteq> KModulePort" using ok by (auto simp: vertex_ok_def)
    then show ?thesis using False IH by (auto split: option.split)
  qed
qed simp

lemma clock_scan_None:
  assumes "\<forall>u \<in> set us. vertex_ok (vert g u)"
  shows "clock_scan g s us None =
    Inr (True, case matching_nets g s us of [] \<Rightarrow> None | i # _ \<Rightarrow> Some i)"
  using assms
proof (induction us)
  case (Cons u us)
  have ok: "vertex_ok (vert g u)" using Cons.prems by simp
  show ?case
  proof (cases "v_type (vert g u) = KNet")
    case True
    then obtain i n where "v_net (vert g u) = Some (i, n)" using ok by (auto simp: vertex_ok_def)
    then show ?thesis using True Cons by simp
  next
    case False
    then have "v_type (vert g u) \<noteq> KModulePort" using ok by (auto simp: vertex_ok_def)
    then show ?thesis using False Cons by (auto split: option.split)
  qed
qed simp

lemma has_port_get: "has_port c n \<longleftrightarrow> (\<exists>p. get_port c n = Inr p)"
proof (cases "find (\<lambda>p. pt_name p = n) (c_ports c)")
  case None
  then have "\<not> has_port c n" by (auto simp: has_port_def list_ex_iff find_None_iff)
  then show ?thesis by (simp add: get_port_def None)
next
  case (Some p)
  then have "has_port c n" by (auto simp: has_port_def list_ex_iff find_Some_iff)
  then show ?thesis by (simp add: get_port_def Some)
qed

text \<open>One vertex of the loop, under the invariant of the graph.\<close>

lemma neighbours_ok:
  assumes "graph_ok Q g" "v < nverts g"
  shows "\<forall>u \<in> set (adjacent g v @ inv_adjacent g v). vertex_ok (vert g u)"
  using assms wf_graph_edge [of g]
  by (fastforce simp: graph_ok_def adjacent_def inv_adjacent_def)

lemma clock_loop_step:
  assumes "graph_ok Q g" "v < nverts g"
  shows "clock_loop g (v # vs) clk =
    (case clk of
       None \<Rightarrow> clock_loop g vs (case clock_nets g v of [] \<Rightarrow> None | i # _ \<Rightarrow> Some i)
     | Some j \<Rightarrow> if \<forall>i \<in> set (clock_nets g v). i = j then clock_loop g vs (Some j) else Inr False)"
proof -
  have ok: "vertex_ok (vert g v)" using assms by (simp add: graph_ok_def)
  note nb = neighbours_ok [OF assms]
  show ?thesis
  proof (cases "v_type (vert g v) = KCell")
    case True
    then obtain c where c: "v_cell (vert g v) = Some c" "v_port (vert g v) = None"
      using ok by (auto simp: vertex_ok_def)
    show ?thesis
    proof (cases "c_register (cell_base c) \<and> has_port (cell_base c) ''CLK''")
      case reg: True
      then obtain p where "get_port (cell_base c) ''CLK'' = Inr p" by (auto simp: has_port_get)
      then show ?thesis using True c reg clock_scan_None [OF nb] clock_scan_Some [OF nb]
        by (cases clk) (simp_all add: cell_at_ptr_def clock_nets_def)
    next
      case False
      then have "clock_nets g v = []"
        using c by (auto simp: clock_nets_def has_port_get split: sum.split)
      then show ?thesis using True c False by (auto simp: cell_at_ptr_def split: option.split)
    qed
  next
    case False
    then have "clock_nets g v = []" by (simp add: clock_nets_def split: option.split)
    then show ?thesis using False by (simp split: option.split)
  qed
qed

lemma clock_loop_Some:
  assumes "graph_ok Q g" "\<forall>v \<in> set vs. v < nverts g"
  shows "clock_loop g vs (Some j) = Inr (\<forall>v \<in> set vs. \<forall>i \<in> set (clock_nets g v). i = j)"
  using assms(2)
  by (induction vs) (auto simp: clock_loop_step [OF assms(1)] simp del: clock_loop.simps(2))

definition same_clock :: "nat list list \<Rightarrow> bool" where
  "same_clock Ls = (case filter (\<lambda>L. L \<noteq> []) Ls of
     [] \<Rightarrow> True
   | L # rest \<Rightarrow> \<forall>i \<in> set (concat rest). i = hd L)"

lemma clock_loop_None:
  assumes "graph_ok Q g" "\<forall>v \<in> set vs. v < nverts g"
  shows "clock_loop g vs None = Inr (same_clock (map (clock_nets g) vs))"
  using assms(2)
proof (induction vs)
  case (Cons v vs)
  have vs: "\<forall>v \<in> set vs. v < nverts g" using Cons.prems by simp
  show ?case
  proof (cases "clock_nets g v")
    case Nil
    then show ?thesis using Cons by (simp add: clock_loop_step [OF assms(1)] same_clock_def
          del: clock_loop.simps(2))
  next
    case (Cons i ns)
    have "(\<forall>v \<in> set vs. \<forall>k \<in> set (clock_nets g v). k = i) \<longleftrightarrow>
      (\<forall>k \<in> set (concat (filter (\<lambda>L. L \<noteq> []) (map (clock_nets g) vs))). k = i)" by auto
    then show ?thesis using Cons \<open>\<forall>v \<in> set (v # vs). v < nverts g\<close>
      by (simp add: clock_loop_step [OF assms(1)] clock_loop_Some [OF assms(1) vs] same_clock_def
          del: clock_loop.simps(2))
  qed
qed (simp add: same_clock_def)

text \<open>
  On a graph that \<open>populate_graph\<close> can build, the clock check returns, and it returns true
  exactly when every net that carries the clock of a later register is the net found for the
  first register that has one.
\<close>

theorem clock_consistency_correct:
  assumes "graph_ok Q g"
  shows "check_clock_signal_consistency g =
    Inr (same_clock (map (clock_nets g) [0..<nverts g]))"
  unfolding check_clock_signal_consistency_def by (rule clock_loop_None [OF assms]) simp


definition sample_dff :: "string \<Rightarrow> netbit \<Rightarrow> netbit \<Rightarrow> netbit \<Rightarrow> anycell" where
  "sample_dff name clk d q = Dff (cell.extend
     ((mk_cell name ''$dff''
       [mk_port sample_hash ''CLK'' [] Input [clk] False, mk_port sample_hash ''D'' [] Input [d] False,
        mk_port sample_hash ''Q'' [] Output [q] False] False JNull JNull)\<lparr>c_register := True\<rparr>)
     (basic_dff.fields True 1))"

definition two_clocks :: "netbit \<Rightarrow> module" where
  "two_clocks clk =
     \<lparr>m_name = ''top'',
      m_nets = [mk_net sample_hash ''c'' False [Bit 2], mk_net sample_hash ''e'' False [Bit 3],
                mk_net sample_hash ''q'' False [Bit 4]],
      m_cells = [sample_dff ''r'' (Bit 2) (Bit 4) (Bit 4), sample_dff ''s'' clk (Bit 4) (Bit 4)],
      m_ports = [], m_attributes = JNull\<rparr>"

definition clock_graph :: "netbit \<Rightarrow> mgraph" where
  "clock_graph clk = projr (populate_graph rev (two_clocks clk) empty_graph)"

theorem clock_consistency_correct_witness:
  "check_clock_signal_consistency (clock_graph (Bit 3)) = Inr False \<and>
   check_clock_signal_consistency (clock_graph (Bit 2)) = Inr True"
proof -
  have ok: "graph_ok rich (clock_graph clk)" if m: "module_ok (two_clocks clk)" for clk
  proof -
    obtain g where g: "populate_graph rev (two_clocks clk) empty_graph = Inr g"
      using populate_graph_total_aux [OF keeps_order_rev m empty_graph_ok] by blast
    from populate_graph_ok [OF g empty_graph_ok keeps_order_rev module_ok_rich [OF m]]
    show ?thesis by (simp add: clock_graph_def g)
  qed
  have m: "module_ok (two_clocks clk)" if "\<not> is_constant clk" for clk
    using that by (auto simp: two_clocks_def sample_dff_def module_ok_def port_ok_def mk_port_def mk_net_def
        contains_only_constants_def cell.defs mk_cell_def)
  have n: "same_clock (map (clock_nets (clock_graph (Bit 3))) [0..<nverts (clock_graph (Bit 3))]) = False"
    "same_clock (map (clock_nets (clock_graph (Bit 2))) [0..<nverts (clock_graph (Bit 2))]) = True"
    by code_simp+
  have k: "\<not> is_constant (Bit 3)" "\<not> is_constant (Bit 2)" by code_simp+
  show ?thesis
    using clock_consistency_correct [OF ok [OF m [OF k(1)]]]
      clock_consistency_correct [OF ok [OF m [OF k(2)]]] n by simp
qed

end
