(* ===== verification/Signals.thy ===== *)
theory Signals
  imports Identifiers
begin

text \<open>
  Values of signals over time (\<open>include/ducode/instantiation_graph_traits.hpp\<close>,
  \<open>utility/parser_utility.hpp\<close>) and the waveform files they are read from. The waveform library is
  not part of the program: a file is the record of what its accessors return, a value the one of
  its kinds that \<open>get_type\<close> names, with what the accessor of this kind returns.
\<close>

section \<open>Waveform files\<close>

datatype vcd_bit = VCD_0 | VCD_1 | VCD_X | VCD_Z

text \<open>A real number is kept as its bit pattern; no code calculates with it.\<close>

datatype vcd_value =
    VScalar vcd_bit
  | VVector "vcd_bit list"
  | VReal "64 word"
  | VEmpty

record vcd_signal =
  vs_reference :: string
  vs_size :: int
  vs_hash :: string
  vs_scope :: nat

text \<open>Pointers between scopes are positions in the list of all scopes.\<close>

record vcd_scope =
  sc_name :: string
  sc_is_module :: bool
  sc_parent :: "nat option"
  sc_children :: "nat list"
  sc_signals :: "vcd_signal list"

record vcd_file =
  vf_timestamps :: "int list"
  vf_values :: "string \<Rightarrow> (int \<times> vcd_value) list res"
  vf_value_at :: "string \<Rightarrow> int \<Rightarrow> vcd_value res"
  vf_signals :: "vcd_signal list"
  vf_scopes :: "vcd_scope list"
  vf_scope :: "string \<Rightarrow> vcd_scope res"
  vf_root :: "nat option"

text \<open>The library promises the vector of a value only where the value is one.\<close>

fun vcd_vector :: "vcd_value \<Rightarrow> vcd_bit list res" where
  "vcd_vector (VVector bs) = Inr bs"
| "vcd_vector _ = Inl Undefined"

definition at_index :: "'a list \<Rightarrow> nat \<Rightarrow> 'a res" where
  "at_index xs i = (if i < length xs then Inr (xs ! i) else Inl Undefined)"

text \<open>\<open>gsl::narrow\<close> to unsigned numbers of 64 and 32 bits.\<close>

definition narrow_size :: "int \<Rightarrow> 64 word res" where
  "narrow_size i = (if 0 \<le> i \<and> i < 2 ^ 64 then Inr (word_of_int i) else Inl NarrowingError)"

definition narrow_u32 :: "int \<Rightarrow> 32 word res" where
  "narrow_u32 i = (if 0 \<le> i \<and> i < 2 ^ 32 then Inr (word_of_int i) else Inl NarrowingError)"

section \<open>Values of signals\<close>

datatype signal_type = SCALAR | VECTOR | REAL | EMPTY

datatype signal_bit = BIT_0 | BIT_1 | BIT_X | BIT_Z

datatype signal_variant =
    SBit signal_bit
  | SVector "signal_bit list"
  | SReal "64 word"

record signal_value =
  sv_type :: signal_type
  sv_value :: signal_variant

record signal_info =
  si_reference :: string
  si_size :: "64 word"
  si_hash :: string

record signal_id =
  id_name :: string
  id_hierarchy :: "string list"

type_synonym signal_values = "(int \<times> signal_value) list"

fun signal_bit_to_char :: "signal_bit \<Rightarrow> char" where
  "signal_bit_to_char BIT_0 = CHR ''0''"
| "signal_bit_to_char BIT_1 = CHR ''1''"
| "signal_bit_to_char BIT_Z = CHR ''Z''"
| "signal_bit_to_char BIT_X = CHR ''X''"

definition default_value :: signal_value where
  "default_value = \<lparr>sv_type = EMPTY, sv_value = SBit BIT_0\<rparr>"

definition scalar_value :: "signal_bit \<Rightarrow> signal_value" where
  "scalar_value b = \<lparr>sv_type = SCALAR, sv_value = SBit b\<rparr>"

definition vector_value :: "signal_bit list \<Rightarrow> signal_value" where
  "vector_value bs = \<lparr>sv_type = VECTOR, sv_value = SVector bs\<rparr>"

definition real_value :: "64 word \<Rightarrow> signal_value" where
  "real_value r = \<lparr>sv_type = REAL, sv_value = SReal r\<rparr>"

definition char_bit :: "char \<Rightarrow> signal_bit res" where
  "char_bit c =
     (if c = CHR ''0'' then Inr BIT_0 else if c = CHR ''1'' then Inr BIT_1 else Inl OutOfRange)"

text \<open>A bitstring has the most significant bit after the prefix.\<close>

definition value_of_bitstring :: "string \<Rightarrow> signal_value res" where
  "value_of_bitstring s =
     (if length s < 3 then Inl OutOfRange
      else if s ! 0 \<noteq> CHR ''#'' \<or> s ! 1 \<noteq> CHR ''b'' \<and> s ! 1 \<noteq> CHR ''x'' then Inl OutOfRange
      else if s ! 1 = CHR ''b'' then
        (if length s = 3 then bnd (char_bit (s ! 2)) (\<lambda>b. Inr (scalar_value b))
         else bnd (mapM char_bit (drop 2 s)) (\<lambda>bs. Inr (vector_value bs)))
      else Inl OutOfRange)"

fun signal_bit_of :: "vcd_bit \<Rightarrow> signal_bit" where
  "signal_bit_of VCD_0 = BIT_0"
| "signal_bit_of VCD_1 = BIT_1"
| "signal_bit_of VCD_Z = BIT_Z"
| "signal_bit_of VCD_X = BIT_X"

fun value_of_vcd :: "vcd_value \<Rightarrow> signal_value" where
  "value_of_vcd (VScalar b) = scalar_value (signal_bit_of b)"
| "value_of_vcd (VVector bs) = vector_value (map signal_bit_of bs)"
| "value_of_vcd (VReal r) = real_value r"
| "value_of_vcd VEmpty = default_value"

text \<open>The accessors are \<open>std::get\<close> on the variant.\<close>

definition get_value_bit :: "signal_value \<Rightarrow> signal_bit res" where
  "get_value_bit v = (case sv_value v of SBit b \<Rightarrow> Inr b | _ \<Rightarrow> Inl BadVariant)"

definition get_value_vector :: "signal_value \<Rightarrow> signal_bit list res" where
  "get_value_vector v = (case sv_value v of SVector bs \<Rightarrow> Inr bs | _ \<Rightarrow> Inl BadVariant)"

definition get_value_real :: "signal_value \<Rightarrow> 64 word res" where
  "get_value_real v = (case sv_value v of SReal r \<Rightarrow> Inr r | _ \<Rightarrow> Inl BadVariant)"

text \<open>The loop of \<open>to_string\<close> counts down to zero and ends when the unsigned position wraps.\<close>

fun bits_down :: "signal_bit list \<Rightarrow> nat \<Rightarrow> string" where
  "bits_down bs 0 = []"
| "bits_down bs (Suc pos) = signal_bit_to_char (bs ! pos) # bits_down bs pos"

definition value_to_string :: "signal_value \<Rightarrow> string res" where
  "value_to_string v =
     (case sv_type v of
        SCALAR \<Rightarrow> bnd (get_value_bit v) (\<lambda>b. Inr [signal_bit_to_char b])
      | VECTOR \<Rightarrow> bnd (get_value_vector v) (\<lambda>bs. Inr (bits_down bs (length bs)))
      | _ \<Rightarrow> Inl (RuntimeError ''String conversion for value type not implemented, yet!''))"

text \<open>\<open>bit_to_vector\<close> of \<open>parser_utility.hpp\<close>.\<close>

definition bit_to_vector :: "signal_value \<Rightarrow> signal_bit list res" where
  "bit_to_vector v =
     (case sv_type v of
        SCALAR \<Rightarrow> bnd (get_value_bit v) (\<lambda>b. Inr [b])
      | VECTOR \<Rightarrow> get_value_vector v
      | _ \<Rightarrow> Inl InvalidArgument)"

definition values_of_vcd :: "(int \<times> vcd_value) list \<Rightarrow> signal_values" where
  "values_of_vcd vs = map (\<lambda>(t, v). (t, value_of_vcd v)) vs"

definition info_of_signal :: "vcd_signal \<Rightarrow> signal_info res" where
  "info_of_signal s = bnd (narrow_size (vs_size s)) (\<lambda>n.
     Inr \<lparr>si_reference = vs_reference s, si_size = n, si_hash = vs_hash s\<rparr>)"

definition id_to_string :: "signal_id \<Rightarrow> string" where
  "id_to_string s = concat (map (\<lambda>m. m @ ''.'') (id_hierarchy s)) @ id_name s"

end
