(* ===== verification/Designs.thy ===== *)
theory Designs
  imports ModuleFacts Signals
begin

text \<open>
  Designs (\<open>include/ducode/design.hpp\<close>, \<open>src/ducode/design.cpp\<close>): the reading of a netlist from
  its json value, the hierarchy of instances, the export of all modules, and the lookups. The
  text of the json file is parsed by a library, so the functions start from the value.
\<close>

section \<open>Reading a module\<close>

text \<open>\<open>items()\<close> iterates the members of an object, the elements of an array with their indices as
  keys, nothing for null, and any other value once.\<close>

fun items :: "json \<Rightarrow> (string \<times> json) list" where
  "items (JObj ms) = ms"
| "items (JArr js) = map (\<lambda>(i, j). (show_nat i, j)) (enumerate 0 js)"
| "items JNull = []"
| "items j = [('''', j)]"

definition add_attributes :: "json \<Rightarrow> module \<Rightarrow> module res" where
  "add_attributes module_json m =
     bnd (jindex module_json ''attributes'') (\<lambda>a. Inr (m\<lparr>m_attributes := a\<rparr>))"

text \<open>\<open>boost::split\<close> at every colon.\<close>

fun split_colon :: "string \<Rightarrow> string list" where
  "split_colon [] = [[]]"
| "split_colon (c # cs) =
     (if c = CHR '':'' then [] # split_colon cs
      else (case split_colon cs of w # rest \<Rightarrow> (c # w) # rest | [] \<Rightarrow> [[c]]))"

text \<open>The file and the line of a source attribute.\<close>

definition parse_source :: "string \<Rightarrow> (string \<times> 32 word) res" where
  "parse_source src =
     (let result = split_colon src in
      bnd (stoull 10 (last result)) (\<lambda>n.
      bnd (narrow32 n) (\<lambda>line.
      Inr (join '':'' (butlast result), word_of_nat line))))"

text \<open>One attribute of a net; the state is the name and line of the source and the initial value.\<close>

definition net_attribute ::
  "string \<times> json \<Rightarrow> string \<times> 32 word \<times> string \<Rightarrow> (string \<times> 32 word \<times> string) res"
where
  "net_attribute attribute st =
     (case (attribute, st) of ((key, value), (src_name, line, initial)) \<Rightarrow>
      if key = ''src'' then
        bnd (get_string value) (\<lambda>src.
        bnd (parse_source src) (\<lambda>(src_name', line'). Inr (src_name', line', initial)))
      else if key = ''init'' then
        bnd (get_string value) (\<lambda>init'. Inr (src_name, line, init'))
      else Inr st)"

definition read_net :: "(netbit list \<Rightarrow> 64 word) \<Rightarrow> string \<times> json \<Rightarrow> net res" where
  "read_net hash e =
     (case e of (netname_key, netname) \<Rightarrow>
      bnd (bnd (jindex netname ''hide_name'') get_int) (\<lambda>hide.
      bnd (jindex netname ''attributes'') (\<lambda>attributes.
      bnd (foldM net_attribute (items attributes) ('''', 0, '''')) (\<lambda>(src_name, line, initial).
      bnd (bnd (jindex netname ''bits'') to_bit_vector) (\<lambda>bits.
      Inr (set_init_value initial (set_source_info src_name line
             (mk_net hash netname_key (hide = 1) bits))))))))"

definition add_nets :: "(netbit list \<Rightarrow> 64 word) \<Rightarrow> json \<Rightarrow> module \<Rightarrow> module res" where
  "add_nets hash module_json m =
     chk (jcontains module_json ''netnames'') Contract (
     bnd (jindex module_json ''netnames'') (\<lambda>netnames.
     foldM (\<lambda>e m. bnd (read_net hash e) (\<lambda>n. Inr (add_net n m))) (items netnames) m))"

definition read_direction :: "string \<Rightarrow> direction res" where
  "read_direction s =
     (if s = ''input'' then Inr Input
      else if s = ''output'' then Inr Output
      else if s = ''inout'' then Inr Inout
      else Inl (RuntimeError ''Port type is not supported''))"

definition add_ports :: "(netbit list \<Rightarrow> 64 word) \<Rightarrow> json \<Rightarrow> module \<Rightarrow> module res" where
  "add_ports hash module_json m =
     chk (jcontains module_json ''ports'') (RuntimeError ''No ports in this module'') (
     bnd (jindex module_json ''ports'') (\<lambda>ports.
     foldM (\<lambda>(port_name, port) m.
       bnd (bnd (jindex port ''bits'') to_bit_vector) (\<lambda>bits.
       bnd (bnd (jindex port ''direction'') get_string) (\<lambda>type.
       bnd (read_direction type) (\<lambda>d.
       Inr (add_port hash port_name d bits m))))) (items ports) m))"

text \<open>\<open>find(key).value()\<close> is undefined for a missing key.\<close>

definition find_value :: "json \<Rightarrow> string \<Rightarrow> json res" where
  "find_value j k = (case j of JObj ms \<Rightarrow> of_opt Undefined (map_of ms k) | _ \<Rightarrow> Inl Undefined)"

definition read_width :: "json \<Rightarrow> 64 word res" where
  "read_width j =
     (if is_number_integer j then get_size_t j else bnd (get_string j) (stoull 2))"

definition read_sign :: "json \<Rightarrow> int res" where
  "read_sign j = (if is_number_integer j then get_int j else bnd (get_string j) (stoi 2))"

definition read_cell_port ::
  "(netbit list \<Rightarrow> 64 word) \<Rightarrow> json \<Rightarrow> string \<times> json \<Rightarrow> port res"
where
  "read_cell_port hash cell_json e =
     (case e of (port_name, direction_json) \<Rightarrow>
      bnd (bnd (get_string direction_json) read_direction) (\<lambda>d.
      bnd (bnd (jindex cell_json ''connections'') (\<lambda>c. find_value c port_name)) (\<lambda>port_bits.
      bnd (jindex cell_json ''parameters'') (\<lambda>parameters.
      bnd (if jcontains parameters (port_name @ ''_WIDTH'') then
             bnd (bnd (jindex parameters (port_name @ ''_WIDTH'')) read_width) (\<lambda>width.
             chk (width = word_of_nat (length (items port_bits))) Contract (Inr ()))
           else Inr ()) (\<lambda>_.
      bnd (if d = Input \<and> jcontains parameters (port_name @ ''_SIGNED'') then
             bnd (bnd (jindex parameters (port_name @ ''_SIGNED'')) read_sign) (\<lambda>sign.
             chk (sign = 0 \<or> sign = 1) Contract (Inr (sign \<noteq> 0)))
           else Inr False) (\<lambda>port_signed.
      bnd (to_bit_vector port_bits) (\<lambda>bits.
      Inr (mk_port hash port_name '''' d bits port_signed))))))))"

definition read_cell ::
  "(netbit list \<Rightarrow> 64 word) \<Rightarrow> (anycell \<Rightarrow> anycell list \<Rightarrow> anycell list) \<Rightarrow> string set \<Rightarrow>
   string \<times> json \<Rightarrow> module \<Rightarrow> module res"
where
  "read_cell hash emplace modules e m =
     (case e of (cell_key, cell_json) \<Rightarrow>
      bnd (bnd (jindex cell_json ''type'') get_string) (\<lambda>type.
      bnd (bnd (jindex cell_json ''hide_name'') get_int) (\<lambda>hide.
      bnd (jindex cell_json ''port_directions'') (\<lambda>directions.
      bnd (mapM (read_cell_port hash cell_json) (items directions)) (\<lambda>ports.
      bnd (jat cell_json ''parameters'') (\<lambda>parameters.
      bnd (jat cell_json ''attributes'') (\<lambda>attributes.
      add_cell emplace modules cell_key type ports (hide = 1) parameters attributes m)))))))"

definition add_cells ::
  "(netbit list \<Rightarrow> 64 word) \<Rightarrow> (anycell \<Rightarrow> anycell list \<Rightarrow> anycell list) \<Rightarrow> json \<Rightarrow> string set \<Rightarrow>
   module \<Rightarrow> module res"
where
  "add_cells hash emplace module_json modules m =
     chk (jcontains module_json ''cells'') Contract (
     bnd (jindex module_json ''cells'') (\<lambda>cells.
     foldM (read_cell hash emplace modules) (items cells) m))"

text \<open>One module with its graph. \<open>mm\<close> is the iteration order of the maps of \<open>populate_graph\<close>.\<close>

definition read_module ::
  "(netbit list \<Rightarrow> 64 word) \<Rightarrow> (anycell \<Rightarrow> anycell list \<Rightarrow> anycell list) \<Rightarrow> (sigs \<Rightarrow> sigs) \<Rightarrow>
   string set \<Rightarrow> string \<times> json \<Rightarrow> (module \<times> mgraph) res"
where
  "read_module hash emplace mm modules e =
     (case e of (module_key, module_json) \<Rightarrow>
      bnd (if jcontains module_json ''attributes''
           then add_attributes module_json (new_module module_key)
           else Inr (new_module module_key)) (\<lambda>m.
      bnd (add_nets hash module_json m) (\<lambda>m.
      bnd (add_ports hash module_json m) (\<lambda>m.
      bnd (add_cells hash emplace module_json modules m) (\<lambda>m.
      bnd (populate_graph mm m empty_graph) (\<lambda>g. Inr (m, g)))))))"

section \<open>Designs\<close>

text \<open>The hierarchy is a graph of names: \<open>h_names\<close> lists its vertices, \<open>h_edges\<close> its edges.\<close>

record hierarchy =
  h_names :: "string list"
  h_edges :: "(nat \<times> nat) list"

record design =
  d_top :: string
  d_clk :: string
  d_modules :: "(module \<times> mgraph) list"
  d_hierarchy :: hierarchy

definition set_top_module_name :: "string \<Rightarrow> design \<Rightarrow> design" where
  "set_top_module_name name d = d\<lparr>d_top := name\<rparr>"

definition set_clk_signal_name :: "string \<Rightarrow> design \<Rightarrow> design" where
  "set_clk_signal_name name d = d\<lparr>d_clk := name\<rparr>"

definition add_child :: "nat \<Rightarrow> string \<Rightarrow> hierarchy \<Rightarrow> nat \<times> hierarchy" where
  "add_child parent name h =
     (length (h_names h),
      h\<lparr>h_names := h_names h @ [name], h_edges := h_edges h @ [(parent, length (h_names h))]\<rparr>)"

definition cell_type :: "json \<Rightarrow> string res" where
  "cell_type cell_json = bnd (jindex cell_json ''type'') get_string"

text \<open>
  The recursion over the instances. It takes as many steps as there are nested instances, and
  never returns for a module that contains itself: \<open>Diverges\<close> when the fuel is used up.
\<close>

fun populate_hierarchy ::
  "nat \<Rightarrow> json \<Rightarrow> string set \<Rightarrow> json \<Rightarrow> nat \<Rightarrow> hierarchy \<Rightarrow> hierarchy res"
where
  "populate_hierarchy 0 mods modules current v h = Inl Diverges"
| "populate_hierarchy (Suc k) mods modules current v h =
     bnd (jindex current ''cells'') (\<lambda>cells.
     foldM (\<lambda>(cell_key, cell_json) h.
       bnd (cell_type cell_json) (\<lambda>type.
       if type \<in> modules then
         bnd (jindex mods type) (\<lambda>module_json.
         let (child, h') = add_child v cell_key h in
         populate_hierarchy k mods modules module_json child h')
       else Inr h)) (items cells) h)"

definition is_top :: "string \<times> json \<Rightarrow> bool" where
  "is_top e =
     (case jindex (snd e) ''attributes'' of Inr a \<Rightarrow> jcontains a ''top'' | Inl _ \<Rightarrow> False)"

text \<open>
  The only module is the root, whatever its attributes; of several, or for an empty name, the
  first one with the attribute \<open>top\<close>. A module without attributes gets empty ones here.
\<close>

definition find_root :: "json \<Rightarrow> (string \<times> json) res" where
  "find_root mods =
     bnd (if length (items mods) = 1
          then (case mods of JObj _ \<Rightarrow> Inr (hd (items mods)) | _ \<Rightarrow> Inl TypeError)
          else Inr ('''', JNull)) (\<lambda>root.
     if fst root = '''' then
       of_opt (RuntimeError ''Json does not specify a root module'') (find is_top (items mods))
     else Inr root)"

definition parse_json ::
  "(netbit list \<Rightarrow> 64 word) \<Rightarrow> (anycell \<Rightarrow> anycell list \<Rightarrow> anycell list) \<Rightarrow> (sigs \<Rightarrow> sigs) \<Rightarrow>
   json \<Rightarrow> design res"
where
  "parse_json hash emplace mm content =
     chk (jcontains content ''modules'') (RuntimeError ''json does not contain modules'') (
     bnd (jindex content ''modules'') (\<lambda>mods.
     let modules = set (map fst (items mods)) in
     bnd (mapM (read_module hash emplace mm modules) (items mods)) (\<lambda>ms.
     bnd (find_root mods) (\<lambda>(root_name, root_module).
     bnd (populate_hierarchy (length (items mods) + 1) mods modules root_module 0
            \<lparr>h_names = [''root''], h_edges = []\<rparr>) (\<lambda>h.
     Inr (set_top_module_name root_name
            \<lparr>d_top = '''', d_clk = '''', d_modules = ms, d_hierarchy = h\<rparr>))))))"

section \<open>Lookups and export\<close>

definition get_module :: "design \<Rightarrow> string \<Rightarrow> (module \<times> mgraph) res" where
  "get_module d name =
     of_opt (RuntimeError (fmt ''Module {} not found!'' [name]))
       (find (\<lambda>(m, g). m_name m = name) (d_modules d))"

definition get_top_module :: "design \<Rightarrow> (module \<times> mgraph) res" where
  "get_top_module d =
     chk (d_top d \<noteq> []) (RuntimeError ''Top module name is not set'') (get_module d (d_top d))"

text \<open>A signal is its name with the names of the modules around it.\<close>

definition get_input_signal_ids :: "design \<Rightarrow> signal_id list res" where
  "get_input_signal_ids d =
     bnd (get_top_module d) (\<lambda>(m, g).
     Inr (map (\<lambda>name. \<lparr>id_name = name, id_hierarchy = [m_name m]\<rparr>) (get_input_names m)))"

definition get_output_signal_ids :: "design \<Rightarrow> signal_id list res" where
  "get_output_signal_ids d =
     bnd (get_top_module d) (\<lambda>(m, g).
     Inr (map (\<lambda>name. \<lparr>id_name = name, id_hierarchy = [m_name m]\<rparr>) (get_output_names m)))"

text \<open>The check copies the top module, and a copy builds its own graph.\<close>

definition design_check_clock :: "(sigs \<Rightarrow> sigs) \<Rightarrow> design \<Rightarrow> bool res" where
  "design_check_clock mm d =
     bnd (get_top_module d) (\<lambda>(m, _).
     bnd (populate_graph mm m empty_graph) check_clock_signal_consistency)"

definition export_design :: "params \<Rightarrow> design \<Rightarrow> string list res" where
  "export_design ps d =
     bnd (mapM (\<lambda>(m, g). module_export_verilog ps m g) (d_modules d)) (\<lambda>texts.
     Inr (concat (map (\<lambda>t. t @ [nl]) texts)))"

end
