(* ===== verification/DesignContents.thy ===== *)
theory DesignContents
  imports Designs
begin

text \<open>
  What a module that was read contains, stated on the json value and not on the reader: the
  relations \<open>port_from\<close>, \<open>cell_port_from\<close>, \<open>cell_from\<close>, \<open>net_from\<close> and \<open>module_from\<close> list the texts,
  numbers and members of the value that each member of a module stands for. Reading a module
  establishes them.
\<close>

section \<open>Texts and numbers\<close>

fun direction_text :: "direction \<Rightarrow> string option" where
  "direction_text Input = Some ''input''"
| "direction_text Output = Some ''output''"
| "direction_text Inout = Some ''inout''"
| "direction_text UnknownDir = None"

definition bit_from :: "json \<Rightarrow> netbit \<Rightarrow> bool" where
  "bit_from j b \<longleftrightarrow>
     j = JStr ''0'' \<and> b = Bit const_bit_0 \<or> j = JStr ''1'' \<and> b = Bit const_bit_1 \<or>
     j = JStr ''x'' \<and> b = Bit const_bit_X \<or> j = JStr ''z'' \<and> b = Bit const_bit_Z \<or>
     (\<exists>i. j = JInt i \<and> b = Bit (word_of_int i))"

definition bits_from :: "json \<Rightarrow> netbit list \<Rightarrow> bool" where
  "bits_from j bs \<longleftrightarrow> (\<exists>js. j = JArr js \<and> list_all2 bit_from js bs)"

text \<open>A number is one in the 32 bits of an \<open>int\<close>, a parameter also as a binary text.\<close>

definition is_one :: "json \<Rightarrow> bool" where
  "is_one j \<longleftrightarrow> j = JBool True \<or> (\<exists>i. j = JInt i \<and> i mod 2 ^ 32 = 1)"

definition param_one :: "json \<Rightarrow> bool" where
  "param_one j \<longleftrightarrow> (\<exists>i. j = JInt i \<and> i mod 2 ^ 32 = 1) \<or> (\<exists>s. j = JStr s \<and> strto 2 s = Some (False, 1))"

lemma read_direction_text: "read_direction s = Inr d \<longleftrightarrow> direction_text d = Some s"
  by (cases d) (auto simp: read_direction_def)

lemma get_string_Inr: "get_string j = Inr s \<longleftrightarrow> j = JStr s"
  by (cases j) auto

lemma json_bit_from: "json_bit j = Inr b \<longleftrightarrow> bit_from j b"
  by (cases j) (auto simp: json_bit_def bit_from_def)

lemma mapM_list_all2: "mapM f xs = Inr ys \<longleftrightarrow> list_all2 (\<lambda>x y. f x = Inr y) xs ys"
  by (induction xs arbitrary: ys) (auto simp: bnd_eq_Inr list_all2_Cons1)

lemma to_bit_vector_from: "to_bit_vector j = Inr bs \<longleftrightarrow> bits_from j bs"
  by (simp add: to_bit_vector_Inr mapM_list_all2 json_bit_from bits_from_def)

lemma int_one: "sint (word_of_int i :: 32 word) = 1 \<longleftrightarrow> i mod 2 ^ 32 = 1"
proof -
  have "sint (word_of_int i :: 32 word) = 1 \<longleftrightarrow> (word_of_int i :: 32 word) = 1"
    by (rule iffI) (auto intro: signed_word_eqI)
  also have "\<dots> \<longleftrightarrow> uint (word_of_int i :: 32 word) = 1" by (metis uint_1 word_uint_eqI)
  finally show ?thesis by (simp add: uint_word_of_int)
qed

lemma get_int_one: "get_int j = Inr h \<Longrightarrow> h = 1 \<longleftrightarrow> is_one j"
  using int_one [simplified] by (cases j) (auto simp: is_one_def split: if_splits)

lemma read_sign_one: "read_sign j = Inr s \<Longrightarrow> s = 1 \<longleftrightarrow> param_one j"
  using int_one [simplified]
  by (cases j) (auto simp: read_sign_def param_one_def stoi_def Let_def split: option.splits if_splits)

section \<open>Ports\<close>

definition port_from :: "(netbit list \<Rightarrow> 64 word) \<Rightarrow> string \<Rightarrow> string \<times> json \<Rightarrow> port \<Rightarrow> bool" where
  "port_from hash module_name e p \<longleftrightarrow>
     pt_name p = fst e \<and>
     pt_identifier p = legalize_identifier module_name @ ''_'' @ fst e \<and>
     (\<exists>s. jindex (snd e) ''direction'' = Inr (JStr s) \<and> direction_text (pt_direction p) = Some s) \<and>
     (\<exists>j. jindex (snd e) ''bits'' = Inr j \<and> bits_from j (pt_bits p)) \<and>
     pt_bits_signature p = hash (pt_bits p) \<and> \<not> pt_signed p"

lemma add_ports_from:
  assumes "add_ports hash j m = Inr m'" "m_ports m = []"
  shows "\<exists>ports. jindex j ''ports'' = Inr ports \<and> list_all2 (port_from hash (m_name m)) (items ports) (m_ports m') \<and>
    m' = m\<lparr>m_ports := m_ports m'\<rparr>"
proof -
  let ?step = "\<lambda>(port_name, port) m.
       bnd (bnd (jindex port ''bits'') to_bit_vector) (\<lambda>bits.
       bnd (bnd (jindex port ''direction'') get_string) (\<lambda>type.
       bnd (read_direction type) (\<lambda>d.
       Inr (add_port hash port_name d bits m))))"
  obtain ports where j: "jindex j ''ports'' = Inr ports" and loop: "foldM ?step (items ports) m = Inr m'"
    using assms(1) by (auto simp: add_ports_def chk_eq_Inr bnd_eq_Inr)
  have "foldM ?step es x = Inr y \<Longrightarrow> m_name x = m_name m \<Longrightarrow>
      \<exists>ps. list_all2 (port_from hash (m_name m)) es ps \<and> y = x\<lparr>m_ports := m_ports x @ ps\<rparr>" for es x y
  proof (induction es arbitrary: x)
    case (Cons e es)
    obtain name pj where e: "e = (name, pj)" by (cases e)
    obtain bj bits s d where r: "jindex pj ''bits'' = Inr bj" "bits_from bj bits" "jindex pj ''direction'' = Inr (JStr s)"
      "direction_text d = Some s" and loop: "foldM ?step es (add_port hash name d bits x) = Inr y"
      using Cons.prems(1) by (auto simp: e bnd_eq_Inr get_string_Inr read_direction_text to_bit_vector_from)
    obtain p where p: "add_port hash name d bits x = x\<lparr>m_ports := m_ports x @ [p]\<rparr>" "port_from hash (m_name m) e p"
      using r Cons.prems(2) by (auto simp: add_port_def port_from_def mk_port_def e)
    obtain ps where "list_all2 (port_from hash (m_name m)) es ps" "y = x\<lparr>m_ports := m_ports x @ p # ps\<rparr>"
      using Cons.IH [OF loop] Cons.prems(2) p(1) by auto
    then show ?case using p(2) by (intro exI [of _ "p # ps"]) simp
  qed simp
  from this [OF loop refl] show ?thesis using j assms(2) by auto
qed

section \<open>Cells\<close>

definition cell_port_from :: "(netbit list \<Rightarrow> 64 word) \<Rightarrow> json \<Rightarrow> string \<Rightarrow> string \<times> json \<Rightarrow> port \<Rightarrow> bool" where
  "cell_port_from hash cell_json cell_name e p \<longleftrightarrow>
     pt_name p = fst e \<and>
     pt_identifier p = legalize_identifier cell_name @ ''_'' @ fst e @ ''_port'' \<and>
     (\<exists>s. snd e = JStr s \<and> direction_text (pt_direction p) = Some s) \<and>
     (\<exists>c j. jindex cell_json ''connections'' = Inr c \<and> jindex c (fst e) = Inr j \<and> bits_from j (pt_bits p)) \<and>
     pt_bits_signature p = hash (pt_bits p) \<and>
     (pt_signed p \<longleftrightarrow> pt_direction p = Input \<and>
        (\<exists>ps j. jindex cell_json ''parameters'' = Inr ps \<and> jindex ps (fst e @ ''_SIGNED'') = Inr j \<and> param_one j))"

fun class_of_cell :: "anycell \<Rightarrow> cell_class" where
  "class_of_cell (Gate k _) = KGate k"
| "class_of_cell (Shift _) = KShift" | "class_of_cell (Shiftx _) = KShiftx" | "class_of_cell (Mux _) = KMux"
| "class_of_cell (PMux _) = KPMux" | "class_of_cell (Sr _) = KSr" | "class_of_cell (Dff _) = KDff"
| "class_of_cell (Adff _) = KAdff" | "class_of_cell (Sdff _) = KSdff" | "class_of_cell (Aldff _) = KAldff"
| "class_of_cell (Dffsr _) = KDffsr" | "class_of_cell (Dffe _) = KDffe" | "class_of_cell (Adffe _) = KAdffe"
| "class_of_cell (Sdffe _) = KSdffe" | "class_of_cell (Aldffe _) = KAldffe" | "class_of_cell (Dffsre _) = KDffsre"
| "class_of_cell (Dlatch _) = KDlatch" | "class_of_cell (Adlatch _) = KAdlatch" | "class_of_cell (Dlatchsr _) = KDlatchsr"
| "class_of_cell (PrintCell _) = KPrint" | "class_of_cell (MemV2 _) = KMemV2" | "class_of_cell (ModuleCell _) = KModule"

definition cell_from :: "(netbit list \<Rightarrow> 64 word) \<Rightarrow> string set \<Rightarrow> string \<times> json \<Rightarrow> anycell \<Rightarrow> bool" where
  "cell_from hash modules e c \<longleftrightarrow>
     jindex (snd e) ''type'' = Inr (JStr (c_type (cell_base c))) \<and>
     cell_class_of modules (c_type (cell_base c)) = Inr (class_of_cell c) \<and>
     c_name (cell_base c) = (if class_of_cell c = KModule then legalize_identifier (fst e) else fst e) \<and>
     (\<exists>h. jindex (snd e) ''hide_name'' = Inr h \<and> (c_hidden (cell_base c) \<longleftrightarrow> is_one h)) \<and>
     jindex (snd e) ''parameters'' = Inr (c_parameters (cell_base c)) \<and>
     jindex (snd e) ''attributes'' = Inr (c_attributes (cell_base c)) \<and>
     (\<exists>ds. jindex (snd e) ''port_directions'' = Inr ds \<and>
        list_all2 (cell_port_from hash (snd e) (c_name (cell_base c))) (items ds) (c_ports (cell_base c)))"

lemma class_of_constructed: "construct k n t ps h pa at = Inr c \<Longrightarrow> class_of_cell c = k"
  by (cases k) (auto simp: lift_cell_def bnd_eq_Inr)

lemma find_value_Inr: "find_value c k = Inr j \<Longrightarrow> jindex c k = Inr j"
  by (cases c) (auto simp: find_value_def of_opt_eq_Inr)

lemma jat_Inr: "jat c k = Inr j \<Longrightarrow> jindex c k = Inr j"
  by (cases c) (auto simp: of_opt_eq_Inr)

lemma jindex_jcontains: "jindex c k = Inr j \<Longrightarrow> jcontains c k"
  by (cases c) (auto simp: of_opt_eq_Inr)

lemma read_cell_port_from:
  assumes "read_cell_port hash cj e = Inr p"
  shows "cell_port_from hash cj name e (p\<lparr>pt_identifier := fmt ''{}_{}_port'' [legalize_identifier name, pt_name p]\<rparr>)"
proof -
  obtain key dj where e: "e = (key, dj)" by (cases e)
  obtain s d c bj bits pa sign where r: "dj = JStr s" "direction_text d = Some s" "jindex cj ''connections'' = Inr c"
    "jindex c key = Inr bj" "bits_from bj bits" "jindex cj ''parameters'' = Inr pa" "p = mk_port hash key '''' d bits sign"
    and sign: "(if d = Input \<and> jcontains pa (key @ ''_SIGNED'') then
             bnd (bnd (jindex pa (key @ ''_SIGNED'')) read_sign) (\<lambda>sign.
             chk (sign = 0 \<or> sign = 1) Contract (Inr (sign \<noteq> 0)))
           else Inr False) = Inr sign"
    using assms by (auto simp: read_cell_port_def e bnd_eq_Inr get_string_Inr read_direction_text to_bit_vector_from
        dest!: find_value_Inr)
  have "sign \<longleftrightarrow> d = Input \<and> (\<exists>j. jindex pa (key @ ''_SIGNED'') = Inr j \<and> param_one j)"
    using sign by (auto simp: bnd_eq_Inr chk_eq_Inr dest: jindex_jcontains read_sign_one split: if_splits)
  then show ?thesis using r by (simp add: cell_port_from_def mk_port_def e)
qed

lemma read_cell_from:
  assumes "read_cell hash emplace modules e m = Inr m'"
  shows "\<exists>c. cell_from hash modules e c \<and> m' = m\<lparr>m_cells := emplace c (m_cells m)\<rparr>"
proof -
  obtain key cj where e: "e = (key, cj)" by (cases e)
  obtain type hj h ds ports pa at where r: "jindex cj ''type'' = Inr (JStr type)" "jindex cj ''hide_name'' = Inr hj"
    "get_int hj = Inr h" "jindex cj ''port_directions'' = Inr ds" "jindex cj ''parameters'' = Inr pa"
    "jindex cj ''attributes'' = Inr at" and ports: "mapM (read_cell_port hash cj) (items ds) = Inr ports"
    and add: "add_cell emplace modules key type ports (h = 1) pa at m = Inr m'"
    using assms by (auto simp: read_cell_def e bnd_eq_Inr get_string_Inr dest!: jat_Inr)
  obtain k c where k: "cell_class_of modules type = Inr k" and c: "construct k key type ports (h = 1) pa at = Inr c"
    and m': "m' = m\<lparr>m_cells := emplace c (m_cells m)\<rparr>"
    using add by (auto simp: add_cell_def bnd_eq_Inr)
  let ?name = "if k = KModule then legalize_identifier key else key"
  let ?ports = "map (\<lambda>p. p\<lparr>pt_identifier := fmt ''{}_{}_port'' [legalize_identifier ?name, pt_name p]\<rparr>) ports"
  have base: "c_name (cell_base c) = ?name" "c_type (cell_base c) = type" "c_hidden (cell_base c) = (h = 1)"
    "c_parameters (cell_base c) = pa" "c_attributes (cell_base c) = at" "c_ports (cell_base c) = ?ports"
    using construct_base [OF c] by (auto simp: Let_def registered_def mk_cell_def)
  have "list_all2 (cell_port_from hash cj ?name) (items ds) ?ports"
    unfolding list_all2_map2
    by (rule list_all2_mono [OF ports [unfolded mapM_list_all2]]) (rule read_cell_port_from)
  then have "cell_from hash modules e c"
    using r k by (simp add: cell_from_def base e class_of_constructed [OF c] get_int_one)
  then show ?thesis using m' by blast
qed

lemma add_cells_from:
  assumes "add_cells hash emplace j modules m = Inr m'" "m_cells m = []"
    and emplace: "\<forall>c cs. mset (emplace c cs) = add_mset c (mset cs)"
  shows "\<exists>cells cs. jindex j ''cells'' = Inr cells \<and> list_all2 (cell_from hash modules) (items cells) cs \<and>
    mset (m_cells m') = mset cs \<and> m' = m\<lparr>m_cells := m_cells m'\<rparr>"
proof -
  obtain cells where j: "jindex j ''cells'' = Inr cells" and loop: "foldM (read_cell hash emplace modules) (items cells) m = Inr m'"
    using assms(1) by (auto simp: add_cells_def chk_eq_Inr bnd_eq_Inr)
  have "foldM (read_cell hash emplace modules) es x = Inr y \<Longrightarrow>
      \<exists>cs. list_all2 (cell_from hash modules) es cs \<and> mset (m_cells y) = mset (m_cells x) + mset cs \<and>
        y = x\<lparr>m_cells := m_cells y\<rparr>" for es x y
  proof (induction es arbitrary: x)
    case (Cons e es)
    obtain x' where x': "read_cell hash emplace modules e x = Inr x'" "foldM (read_cell hash emplace modules) es x' = Inr y"
      using Cons.prems by (auto simp: bnd_eq_Inr)
    obtain c where c: "cell_from hash modules e c" "x' = x\<lparr>m_cells := emplace c (m_cells x)\<rparr>"
      using read_cell_from [OF x'(1)] by blast
    obtain cs where cs: "list_all2 (cell_from hash modules) es cs" "mset (m_cells y) = mset (m_cells x') + mset cs"
      "y = x'\<lparr>m_cells := m_cells y\<rparr>" using Cons.IH [OF x'(2)] by blast
    have "y = x\<lparr>m_cells := m_cells y\<rparr>" by (subst cs(3)) (simp add: c(2))
    then show ?case using c cs(1,2) emplace by (intro exI [of _ "c # cs"]) simp
  qed simp
  from this [OF loop] show ?thesis using j assms(2) by auto
qed

section \<open>Nets\<close>

text \<open>Of several attributes with the same name the last one counts.\<close>

definition net_from :: "(netbit list \<Rightarrow> 64 word) \<Rightarrow> string \<times> json \<Rightarrow> net \<Rightarrow> bool" where
  "net_from hash e n \<longleftrightarrow>
     n_name n = fst e \<and>
     (\<exists>h. jindex (snd e) ''hide_name'' = Inr h \<and> (n_hidden n \<longleftrightarrow> is_one h)) \<and>
     (\<exists>j. jindex (snd e) ''bits'' = Inr j \<and> bits_from j (n_bits n)) \<and>
     n_bits_signature n = hash (n_bits n) \<and>
     (\<exists>at. jindex (snd e) ''attributes'' = Inr at \<and>
        (case map_of (rev (items at)) ''init'' of None \<Rightarrow> n_init_value n = '''' | Some j \<Rightarrow> j = JStr (n_init_value n)) \<and>
        (case map_of (rev (items at)) ''src'' of None \<Rightarrow> n_src_name n = '''' \<and> n_src_line n = 0
         | Some j \<Rightarrow> \<exists>s. j = JStr s \<and> parse_source s = Inr (n_src_name n, n_src_line n)))"

lemma net_attributes_from:
  "foldM net_attribute es ('''', 0, '''') = Inr (src_name, line, ini) \<Longrightarrow>
    (case map_of (rev es) ''init'' of None \<Rightarrow> ini = '''' | Some j \<Rightarrow> j = JStr ini) \<and>
    (case map_of (rev es) ''src'' of None \<Rightarrow> src_name = '''' \<and> line = 0
     | Some j \<Rightarrow> \<exists>s. j = JStr s \<and> parse_source s = Inr (src_name, line))"
proof (induction es arbitrary: src_name line ini rule: rev_induct)
  case (snoc e es)
  obtain st where st: "foldM net_attribute es ('''', 0, '''') = Inr st" "net_attribute e st = Inr (src_name, line, ini)"
    using snoc.prems by (auto simp: foldM_append bnd_eq_Inr)
  obtain n l i where s: "st = (n, l, i)" by (cases st)
  obtain key j where e: "e = (key, j)" by (cases e)
  show ?case using snoc.IH [OF st(1) [unfolded s]] st(2)
    by (auto simp: net_attribute_def e s bnd_eq_Inr get_string_Inr split: if_splits)
qed simp

lemma read_net_from: "read_net hash e = Inr n \<Longrightarrow> net_from hash e n"
  by (cases e) (auto simp: read_net_def bnd_eq_Inr net_from_def get_int_one to_bit_vector_from mk_net_def
      set_init_value_def set_source_info_def split: option.splits dest!: net_attributes_from)

text \<open>
  The nets that a module keeps of those it was given: all that are not hidden, and of the hidden
  ones with one signature the last, when no other net has this signature.
\<close>

definition net_kept :: "net list \<Rightarrow> net \<Rightarrow> bool" where
  "net_kept ns n \<longleftrightarrow> (\<exists>us vs. ns = us @ n # vs \<and>
     (n_hidden n \<longrightarrow> (\<forall>x \<in> set us. n_bits_signature x = n_bits_signature n \<longrightarrow> n_hidden x) \<and>
        (\<forall>x \<in> set vs. n_bits_signature x \<noteq> n_bits_signature n)))"

lemma net_kept_visible: "\<not> n_hidden n \<Longrightarrow> net_kept ns n \<longleftrightarrow> n \<in> set ns"
  by (auto simp: net_kept_def in_set_conv_decomp)

lemma add_net_members:
  assumes "hidden_unique (m_nets m)"
  shows "x \<in> set (m_nets (add_net n m)) \<longleftrightarrow>
    x = n \<and> (n_hidden n \<longrightarrow> \<not> (\<exists>y \<in> set (m_nets m). n_bits_signature y = n_bits_signature n \<and> \<not> n_hidden y)) \<or>
    x \<in> set (m_nets m) \<and> (n_hidden x \<longrightarrow> n_bits_signature n \<noteq> n_bits_signature x)"
proof (cases "find_net (n_bits_signature n) (m_nets m)")
  case None
  then have "m_nets (add_net n m) = m_nets m @ [n]" by (simp add: add_net_def)
  then show ?thesis using None by (auto simp: find_net_None)
next
  case (Some i)
  then have i: "i < length (m_nets m)" "n_bits_signature (m_nets m ! i) = n_bits_signature n"
    using find_net_Some by blast+
  show ?thesis
  proof (cases "n_hidden (m_nets m ! i)")
    case True
    have alone: "j = i" if "j < length (m_nets m)" "n_bits_signature (m_nets m ! j) = n_bits_signature n" for j
      using assms i that True by (metis hidden_unique_def)
    have "x \<in> set ((m_nets m)[i := n]) \<longleftrightarrow> x = n \<or> x \<in> set (m_nets m) \<and> n_bits_signature x \<noteq> n_bits_signature n"
      (is "?l \<longleftrightarrow> ?r")
    proof
      assume ?l
      then obtain j where j: "j < length (m_nets m)" "x = (m_nets m)[i := n] ! j" by (auto simp: in_set_conv_nth)
      then show ?r using alone [OF j(1)] by (cases "j = i") auto
    next
      assume ?r
      then show ?l
      proof
        assume x: "x \<in> set (m_nets m) \<and> n_bits_signature x \<noteq> n_bits_signature n"
        then obtain j where "j < length (m_nets m)" "m_nets m ! j = x" by (metis in_set_conv_nth)
        then show ?l using x i by (metis length_list_update nth_list_update_neq nth_mem)
      qed (simp add: i set_update_memI)
    qed
    moreover have "y \<in> set (m_nets m) \<Longrightarrow> n_bits_signature y = n_bits_signature n \<Longrightarrow> n_hidden y" for y
      using alone True by (metis in_set_conv_nth)
    ultimately show ?thesis using True by (auto simp: add_net_def Some)
  next
    case False
    have "\<not> n_hidden y" if "y \<in> set (m_nets m)" "n_bits_signature y = n_bits_signature n" for y
      using hidden_unique_first [OF assms i(1) False that(1)] that(2) i(2) by simp
    moreover have "m_nets m ! i \<in> set (m_nets m)" using i by simp
    ultimately show ?thesis using False i(2) by (auto simp: add_net_def Some)
  qed
qed

lemma net_kept_snoc:
  "net_kept (ns @ [n]) x \<longleftrightarrow>
     x = n \<and> (n_hidden n \<longrightarrow> (\<forall>y \<in> set ns. n_bits_signature y = n_bits_signature n \<longrightarrow> n_hidden y)) \<or>
     net_kept ns x \<and> (n_hidden x \<longrightarrow> n_bits_signature n \<noteq> n_bits_signature x)"
proof -
  have split: "(\<exists>us vs. ns @ [n] = us @ x # vs \<and> P us vs) \<longleftrightarrow>
      x = n \<and> P ns [] \<or> (\<exists>us vs. ns = us @ x # vs \<and> P us (vs @ [n]))" (is "?l \<longleftrightarrow> ?r") for P
  proof
    assume ?l
    then obtain us vs where "ns @ [n] = us @ x # vs" "P us vs" by blast
    then show ?r by (cases vs rule: rev_cases) auto
  next
    assume ?r
    then show ?l by (metis append_Cons append_assoc)
  qed
  show ?thesis unfolding net_kept_def split by auto
qed

lemma kept_nets_fold:
  assumes "m_nets m = []"
  shows "hidden_unique (m_nets (fold add_net ns m)) \<and> (\<forall>x. x \<in> set (m_nets (fold add_net ns m)) \<longleftrightarrow> net_kept ns x)"
proof (induction ns rule: rev_induct)
  case (snoc n ns)
  let ?m = "fold add_net ns m"
  note IH = snoc.IH [THEN conjunct1] snoc.IH [THEN conjunct2, rule_format]
  have "(\<exists>y \<in> set ns. n_bits_signature y = n_bits_signature n \<and> \<not> n_hidden y) \<longleftrightarrow>
      (\<exists>y \<in> set (m_nets ?m). n_bits_signature y = n_bits_signature n \<and> \<not> n_hidden y)"
    using IH(2) by (metis net_kept_visible)
  then have "x \<in> set (m_nets (add_net n ?m)) \<longleftrightarrow> net_kept (ns @ [n]) x" for x
    unfolding net_kept_snoc IH(2) [symmetric] using add_net_members [OF IH(1), of x n] by auto
  then show ?case using add_net_nets [OF IH(1), of n] by simp
qed (use assms in \<open>auto simp: hidden_unique_def net_kept_def\<close>)

lemma add_net_simps [simp]:
  "m_name (add_net n m) = m_name m" "m_ports (add_net n m) = m_ports m"
  "m_cells (add_net n m) = m_cells m" "m_attributes (add_net n m) = m_attributes m"
  by (simp_all add: add_net_def split: option.split)

lemma fold_add_net_simps:
  "m_name (fold add_net ns m) = m_name m" "m_ports (fold add_net ns m) = m_ports m"
  "m_cells (fold add_net ns m) = m_cells m" "m_attributes (fold add_net ns m) = m_attributes m"
  by (induction ns arbitrary: m) simp_all

lemma add_nets_from:
  assumes "add_nets hash j m = Inr m'"
  shows "\<exists>nets ns. jindex j ''netnames'' = Inr nets \<and> list_all2 (net_from hash) (items nets) ns \<and> m' = fold add_net ns m"
proof -
  let ?step = "\<lambda>e m. bnd (read_net hash e) (\<lambda>n. Inr (add_net n m))"
  obtain nets where j: "jindex j ''netnames'' = Inr nets" and loop: "foldM ?step (items nets) m = Inr m'"
    using assms by (auto simp: add_nets_def chk_eq_Inr bnd_eq_Inr)
  have "foldM ?step es x = Inr y \<Longrightarrow> \<exists>ns. list_all2 (net_from hash) es ns \<and> y = fold add_net ns x" for es x y
  proof (induction es arbitrary: x)
    case (Cons e es)
    obtain n where n: "read_net hash e = Inr n" "foldM ?step es (add_net n x) = Inr y"
      using Cons.prems by (auto simp: bnd_eq_Inr)
    obtain ns where "list_all2 (net_from hash) es ns" "y = fold add_net ns (add_net n x)"
      using Cons.IH [OF n(2)] by blast
    then show ?case using read_net_from [OF n(1)] by (intro exI [of _ "n # ns"]) simp
  qed simp
  from this [OF loop] show ?thesis using j by blast
qed

section \<open>Modules\<close>

definition module_from :: "(netbit list \<Rightarrow> 64 word) \<Rightarrow> string set \<Rightarrow> string \<times> json \<Rightarrow> module \<Rightarrow> bool" where
  "module_from hash modules e m \<longleftrightarrow>
     m_name m = fst e \<and>
     (if jcontains (snd e) ''attributes'' then jindex (snd e) ''attributes'' = Inr (m_attributes m)
      else m_attributes m = JNull) \<and>
     (\<exists>j. jindex (snd e) ''ports'' = Inr j \<and> list_all2 (port_from hash (fst e)) (items j) (m_ports m)) \<and>
     (\<exists>j ns. jindex (snd e) ''netnames'' = Inr j \<and> list_all2 (net_from hash) (items j) ns \<and>
        (\<forall>n. n \<in> set (m_nets m) \<longleftrightarrow> net_kept ns n)) \<and>
     (\<exists>j cs. jindex (snd e) ''cells'' = Inr j \<and> list_all2 (cell_from hash modules) (items j) cs \<and>
        mset (m_cells m) = mset cs)"

lemma read_module_from:
  assumes "read_module hash emplace mm modules e = Inr (m, g)"
    and "\<forall>c cs. mset (emplace c cs) = add_mset c (mset cs)"
  shows "module_from hash modules e m"
proof -
  obtain key j where e: "e = (key, j)" by (cases e)
  from assms(1) obtain m1 m2 m3 where
    m1: "(if jcontains j ''attributes'' then add_attributes j (new_module key) else Inr (new_module key)) = Inr m1"
    and m2: "add_nets hash j m1 = Inr m2" and m3: "add_ports hash j m2 = Inr m3"
    and m: "add_cells hash emplace j modules m3 = Inr m"
    by (auto simp: read_module_def e bnd_eq_Inr)
  have one: "m_name m1 = key" "m_nets m1 = []" "m_ports m1 = []" "m_cells m1 = []"
    "if jcontains j ''attributes'' then jindex j ''attributes'' = Inr (m_attributes m1) else m_attributes m1 = JNull"
    using m1 by (auto simp: add_attributes_def bnd_eq_Inr new_module_def split: if_splits)
  obtain nets ns where nets: "jindex j ''netnames'' = Inr nets" "list_all2 (net_from hash) (items nets) ns"
    "m2 = fold add_net ns m1" using add_nets_from [OF m2] by blast
  note two = fold_add_net_simps [of ns m1, folded nets(3)]
  obtain ports where ports: "jindex j ''ports'' = Inr ports" "list_all2 (port_from hash key) (items ports) (m_ports m3)"
    "m3 = m2\<lparr>m_ports := m_ports m3\<rparr>"
    using add_ports_from [OF m3] two one by auto
  have three: "m_cells m3 = []" by (subst ports(3)) (simp add: two one)
  obtain cells cs where cells: "jindex j ''cells'' = Inr cells" "list_all2 (cell_from hash modules) (items cells) cs"
    "mset (m_cells m) = mset cs" "m = m3\<lparr>m_cells := m_cells m\<rparr>"
    using add_cells_from [OF m three assms(2)] by blast
  have "m = m2\<lparr>m_ports := m_ports m3, m_cells := m_cells m\<rparr>" using cells(4) ports(3) by simp
  then have parts: "m_name m = key" "m_attributes m = m_attributes m1" "m_ports m = m_ports m3" "m_nets m = m_nets m2"
    using two one by (cases m; cases m2; cases m3; simp)+
  then show ?thesis
    unfolding module_from_def e using one(5) ports(1,2) nets(1,2) cells(1-3) kept_nets_fold [OF one(2), of ns] nets(3) by auto
qed

end
