(* ===== verification/DesignFacts.thy ===== *)
theory DesignFacts
  imports DesignContents
begin

text \<open>
  Correctness of the reading of designs: the modules and their graphs, the choice of the top
  module, the hierarchy of instances with the exact condition for its end, and the source
  attributes.
\<close>


section \<open>Modules as they are read\<close>

definition net_good :: "net \<Rightarrow> bool" where
  "net_good n \<longleftrightarrow> contains_only_constants n \<or> n_fast_search_bits n \<noteq> {}"

lemma fast_bits_empty: "fast_bits bs = {} \<longleftrightarrow> (\<forall>b \<in> set bs. is_constant b)"
  using fast_bits_iff by blast

lemma read_net_good: "read_net hash e = Inr n \<Longrightarrow> net_good n"
  by (cases e) (auto simp: read_net_def bnd_eq_Inr net_good_def contains_only_constants_def
      set_init_value_def set_source_info_def mk_net_def list_ex_iff fast_bits_empty)

lemma add_net_subset: "set (m_nets (add_net n m)) \<subseteq> insert n (set (m_nets m))"
  by (auto simp: add_net_def split: option.splits dest: set_update_subset_insert [THEN subsetD])

lemma mk_port_ok: "d \<noteq> UnknownDir \<Longrightarrow> port_ok (mk_port hash name identifier d bits sign)"
  by (auto simp: port_ok_def mk_port_def list_ex_iff)

lemma read_direction_known: "read_direction s = Inr d \<Longrightarrow> d \<noteq> UnknownDir"
  by (auto simp: read_direction_def split: if_splits)

text \<open>What the steps of the reading keep, and the name of the module.\<close>

definition read_inv :: "string \<Rightarrow> module \<Rightarrow> bool" where
  "read_inv name m \<longleftrightarrow> m_name m = name \<and> module_ok m \<and> hidden_unique (m_nets m)"

lemma module_ok_iff:
  "module_ok m \<longleftrightarrow> (\<forall>n \<in> set (m_nets m). net_good n) \<and> (\<forall>p \<in> set (m_ports m). port_ok p) \<and>
     (\<forall>c \<in> set (m_cells m). \<forall>p \<in> set (c_ports (cell_base c)). port_ok p)"
  by (simp add: module_ok_def net_good_def)

lemma add_nets_inv:
  assumes "add_nets hash j m = Inr m'" "read_inv name m"
  shows "read_inv name m'"
proof -
  obtain ns where ns: "foldM (\<lambda>e m. bnd (read_net hash e) (\<lambda>n. Inr (add_net n m))) (items ns) m = Inr m'"
    using assms(1) by (auto simp: add_nets_def chk_eq_Inr bnd_eq_Inr)
  show ?thesis
  proof (rule foldM_invariant [OF ns, of "read_inv name", OF assms(2)])
    fix e m m' assume m: "read_inv name m" and step: "bnd (read_net hash e) (\<lambda>n. Inr (add_net n m)) = Inr m'"
    then obtain n where n: "read_net hash e = Inr n" "m' = add_net n m" by (auto simp: bnd_eq_Inr)
    have "\<forall>x \<in> set (m_nets m'). net_good x"
      using m add_net_subset [of n m] read_net_good [OF n(1)]
      by (auto simp: read_inv_def module_ok_iff n(2))
    then show "read_inv name m'" using m add_net_nets [of m n]
      by (simp add: read_inv_def module_ok_iff n(2))
  qed
qed

lemma add_ports_inv:
  assumes "add_ports hash j m = Inr m'" "read_inv name m"
  shows "read_inv name m'"
proof -
  obtain ps where ps: "foldM (\<lambda>(port_name, port) m.
       bnd (bnd (jindex port ''bits'') to_bit_vector) (\<lambda>bits.
       bnd (bnd (jindex port ''direction'') get_string) (\<lambda>type.
       bnd (read_direction type) (\<lambda>d.
       Inr (add_port hash port_name d bits m))))) (items ps) m = Inr m'"
    using assms(1) by (auto simp: add_ports_def chk_eq_Inr bnd_eq_Inr)
  show ?thesis
    by (rule foldM_invariant [OF ps, of "read_inv name", OF assms(2)])
      (auto simp: bnd_eq_Inr read_inv_def module_ok_iff add_port_def mk_port_ok
        dest!: read_direction_known)
qed

lemma read_cell_port_ok: "read_cell_port hash cj e = Inr p \<Longrightarrow> port_ok p"
  by (cases e) (auto simp: read_cell_port_def bnd_eq_Inr dest!: read_direction_known intro!: mk_port_ok)

definition inserts :: "(anycell \<Rightarrow> anycell list \<Rightarrow> anycell list) \<Rightarrow> bool" where
  "inserts emplace \<longleftrightarrow> (\<forall>c cs. mset (emplace c cs) = add_mset c (mset cs))"

lemma inserts_set: "inserts emplace \<Longrightarrow> set (emplace c cs) = insert c (set cs)"
  by (metis inserts_def set_mset_add_mset_insert set_mset_mset)

lemma add_cell_inv:
  assumes "add_cell emplace modules n t ps h pa at m = Inr m'" "read_inv name m" "inserts emplace"
    and "\<forall>p \<in> set ps. port_ok p"
  shows "read_inv name m'"
proof -
  obtain k c where c: "construct k n t ps h pa at = Inr c" "m' = m\<lparr>m_cells := emplace c (m_cells m)\<rparr>"
    using assms(1) by (auto simp: add_cell_def bnd_eq_Inr)
  have "port_ok p" if "p \<in> set (c_ports (cell_base c))" for p
    using that assms(4) construct_base [OF c(1)]
    by (auto simp: registered_def mk_cell_def port_ok_def Let_def split: if_splits)
  then show ?thesis using assms(2) by (auto simp: read_inv_def module_ok_iff c(2) inserts_set [OF assms(3)])
qed

lemma add_cells_inv:
  assumes "add_cells hash emplace j modules m = Inr m'" "read_inv name m" "inserts emplace"
  shows "read_inv name m'"
proof -
  obtain cs where cs: "foldM (read_cell hash emplace modules) (items cs) m = Inr m'"
    using assms(1) by (auto simp: add_cells_def chk_eq_Inr bnd_eq_Inr)
  show ?thesis
  proof (rule foldM_invariant [OF cs, of "read_inv name", OF assms(2)])
    fix e m m' assume m: "read_inv name m" and step: "read_cell hash emplace modules e m = Inr m'"
    obtain key cj where e: "e = (key, cj)" by (cases e)
    from step obtain type hide dirs ports pa at where
      ports: "mapM (read_cell_port hash cj) (items dirs) = Inr ports"
      and add: "add_cell emplace modules key type ports (hide = (1::int)) pa at m = Inr m'"
      by (auto simp: read_cell_def e bnd_eq_Inr)
    have "\<forall>p \<in> set ports. port_ok p"
    proof
      fix p assume "p \<in> set ports"
      then obtain i where i: "i < length ports" "p = ports ! i" by (auto simp: in_set_conv_nth)
      then show "port_ok p" using mapM_nth [OF ports, of i] mapM_length [OF ports] read_cell_port_ok
        by metis
    qed
    then show "read_inv name m'" by (rule add_cell_inv [OF add m assms(3)])
  qed
qed

lemma read_module_inv:
  assumes "read_module hash emplace mm modules (key, j) = Inr (m, g)" "inserts emplace"
  shows "read_inv key m \<and> populate_graph mm m empty_graph = Inr g"
proof -
  from assms(1) obtain m1 m2 m3 where
    m1: "(if jcontains j ''attributes'' then add_attributes j (new_module key)
          else Inr (new_module key)) = Inr m1"
    and m2: "add_nets hash j m1 = Inr m2" and m3: "add_ports hash j m2 = Inr m3"
    and m: "add_cells hash emplace j modules m3 = Inr m" and g: "populate_graph mm m empty_graph = Inr g"
    by (auto simp: read_module_def bnd_eq_Inr)
  have "read_inv key m1" using m1
    by (auto simp: add_attributes_def bnd_eq_Inr new_module_def read_inv_def module_ok_iff
        hidden_unique_def split: if_splits)
  then show ?thesis using add_nets_inv [OF m2] add_ports_inv [OF m3] add_cells_inv [OF m _ assms(2)] g
    by blast
qed

lemma design_modules:
  assumes "parse_json hash emplace mm content = Inr d" "keeps_order mm" "inserts emplace"
  shows "(\<exists>mods. jindex content ''modules'' = Inr mods \<and>
      list_all2 (module_from hash (set (map fst (items mods)))) (items mods) (map fst (d_modules d))) \<and>
    (\<forall>(m, g) \<in> set (d_modules d). module_ok m \<and> hidden_unique (m_nets m) \<and>
      populate_graph mm m empty_graph = Inr g \<and> \<not> contains_loops g)"
proof -
  obtain mods ms where mods: "jindex content ''modules'' = Inr mods"
    and ms: "mapM (read_module hash emplace mm (set (map fst (items mods)))) (items mods) = Inr ms"
    and d: "d_modules d = ms"
    using assms(1) by (auto simp: parse_json_def set_top_module_name_def chk_eq_Inr bnd_eq_Inr Let_def)
  have each: "read_inv (fst (items mods ! i)) (fst (ms ! i)) \<and>
      populate_graph mm (fst (ms ! i)) empty_graph = Inr (snd (ms ! i))" if "i < length (items mods)" for i
    using read_module_inv [of hash emplace mm _ "fst (items mods ! i)" "snd (items mods ! i)" "fst (ms ! i)"
        "snd (ms ! i)", OF _ assms(3)] mapM_nth [OF ms that] by simp
  have len: "length ms = length (items mods)" by (rule mapM_length [OF ms])
  have "list_all2 (module_from hash (set (map fst (items mods)))) (items mods) (map fst ms)"
    unfolding list_all2_map2
    by (rule list_all2_mono [OF ms [unfolded mapM_list_all2]])
      (metis read_module_from assms(3) inserts_def prod.collapse)
  moreover have "module_ok (fst x) \<and> hidden_unique (m_nets (fst x)) \<and>
      populate_graph mm (fst x) empty_graph = Inr (snd x) \<and> \<not> contains_loops (snd x)" if x: "x \<in> set ms" for x
  proof -
    obtain i where "i < length ms" "x = ms ! i" using x by (auto simp: in_set_conv_nth)
    then have "read_inv (fst (items mods ! i)) (fst x)"
      and pop: "populate_graph mm (fst x) empty_graph = Inr (snd x)" using each len by auto
    moreover have "graph_ok (\<lambda>_. True) (snd x)"
      by (rule populate_graph_ok [OF pop _ assms(2)]) (simp_all add: good_infos_def)
    ultimately show ?thesis
      by (simp add: read_inv_def graph_ok_def contains_loops_iff loops.walk_finds_loops acyclic_nets)
  qed
  ultimately show ?thesis using mods d by auto
qed

lemma contents_names:
  "list_all2 (module_from hash modules) es ms \<Longrightarrow> map m_name ms = map fst es"
  by (induction rule: list_all2_induct) (auto simp: module_from_def)

lemma design_names:
  assumes "parse_json hash emplace mm content = Inr d" "keeps_order mm" "inserts emplace" "jindex content ''modules'' = Inr mods"
  shows "map (\<lambda>x. m_name (fst x)) (d_modules d) = map fst (items mods)"
  using design_modules [OF assms(1-3)] assms(4) by (auto dest!: contents_names simp: comp_def)

text \<open>
  \<^bold>\<open>C37.\<close> The modules of a parsed design are those of the json value, in its order and with its
  contents (\<open>module_from\<close>): each port has the name, the direction, the bits and the order of its
  entry; each cell is of the class of its type and has its names, parameters and attributes, and
  each of its ports the direction, the bits connected to it, and the sign of its parameter; the
  nets are those of the net names, with the source and the initial value of their attributes,
  without the hidden ones whose bits another net has. In each module a hidden net is the only one
  with its signature, every net and port is as its constructor makes it (\<open>module_ok\<close>), and the graph is
  the one \<open>populate_graph\<close> builds, without a loop of nets.
\<close>

theorem parse_json_modules:
  assumes "parse_json hash emplace mm content = Inr d" "keeps_order mm" "inserts emplace"
  shows "(\<exists>mods. jindex content ''modules'' = Inr mods \<and>
      list_all2 (module_from hash (set (map fst (items mods)))) (items mods) (map fst (d_modules d))) \<and>
    (\<forall>(m, g) \<in> set (d_modules d). module_ok m \<and> hidden_unique (m_nets m) \<and>
      populate_graph mm m empty_graph = Inr g \<and> \<not> contains_loops g)"
  by (rule design_modules [OF assms])

section \<open>The top module\<close>

lemma mapM_in: "mapM f xs = Inr ys \<Longrightarrow> x \<in> set xs \<Longrightarrow> \<exists>y. f x = Inr y"
  by (induction xs arbitrary: ys) (auto simp: bnd_eq_Inr)

lemma foldM_in: "foldM f xs s = Inr t \<Longrightarrow> x \<in> set xs \<Longrightarrow> \<exists>s s'. f x s = Inr s'"
  by (induction xs arbitrary: s) (auto simp: bnd_eq_Inr)

lemma find_first:
  "find P xs = Some x \<longleftrightarrow> (\<exists>us vs. xs = us @ x # vs \<and> P x \<and> (\<forall>u \<in> set us. \<not> P u))"
proof
  assume "find P xs = Some x"
  then obtain i where i: "i < length xs" "P (xs ! i)" "x = xs ! i" "\<forall>j<i. \<not> P (xs ! j)"
    by (auto simp: find_Some_iff)
  have "xs = take i xs @ x # drop (Suc i) xs" using i by (simp add: id_take_nth_drop)
  moreover have "\<not> P u" if "u \<in> set (take i xs)" for u
    using that i by (auto simp: in_set_conv_nth)
  ultimately show "\<exists>us vs. xs = us @ x # vs \<and> P x \<and> (\<forall>u \<in> set us. \<not> P u)" using i by blast
next
  assume "\<exists>us vs. xs = us @ x # vs \<and> P x \<and> (\<forall>u \<in> set us. \<not> P u)"
  then obtain us vs where "xs = us @ x # vs" "P x" "\<forall>u \<in> set us. \<not> P u" by blast
  then show "find P xs = Some x" by (induction us arbitrary: xs) auto
qed

lemma find_root_JObj:
  "find_root (JObj ms) = Inr r \<longleftrightarrow>
     ms = [r] \<and> fst r \<noteq> '''' \<or> find is_top ms = Some r \<and> (length ms = 1 \<longrightarrow> fst r = '''')"
proof (cases "length ms = 1")
  case True
  then obtain r' where ms: "ms = [r']" by (cases ms) auto
  show ?thesis by (auto simp: ms find_root_def of_opt_eq_Inr split: if_splits)
next
  case False
  then show ?thesis by (auto simp: find_root_def of_opt_eq_Inr)
qed

text \<open>
  The top module of a parsed design is its only module, or the first one with the
  attribute \<open>top\<close>; looking it up gives the module that was read at this position, unless its name
  is empty.
\<close>

theorem parse_json_top:
  assumes "parse_json hash emplace mm content = Inr d" "keeps_order mm" "inserts emplace"
    and "jindex content ''modules'' = Inr (JObj ms)" "distinct (map fst ms)"
  shows "\<exists>us k j vs. ms = us @ (k, j) # vs \<and> d_top d = k \<and>
    (us = [] \<and> vs = [] \<and> k \<noteq> '''' \<or> is_top (k, j) \<and> (\<forall>u \<in> set us. \<not> is_top u)) \<and>
    get_top_module d =
      (if k = '''' then Inl (RuntimeError ''Top module name is not set'')
       else Inr (d_modules d ! length us)) \<and>
    m_name (fst (d_modules d ! length us)) = k"
proof -
  let ?ds = "d_modules d"
  obtain r j where root: "find_root (JObj ms) = Inr (r, j)" and top: "d_top d = r"
    using assms(1,4) by (auto simp: parse_json_def set_top_module_name_def chk_eq_Inr bnd_eq_Inr Let_def split_beta)
  have "\<exists>us vs. ms = us @ (r, j) # vs \<and>
      (us = [] \<and> vs = [] \<and> r \<noteq> '''' \<or> is_top (r, j) \<and> (\<forall>u \<in> set us. \<not> is_top u))"
  proof (cases "ms = [(r, j)] \<and> r \<noteq> []")
    case False
    then have "find is_top ms = Some (r, j)" using root by (auto simp: find_root_JObj)
    then show ?thesis unfolding find_first by blast
  qed (auto intro!: exI [of _ "[]"])
  then obtain us vs where ms: "ms = us @ (r, j) # vs"
    and choice: "us = [] \<and> vs = [] \<and> r \<noteq> '''' \<or> is_top (r, j) \<and> (\<forall>u \<in> set us. \<not> is_top u)"
    by blast
  have names: "map (\<lambda>x. m_name (fst x)) ?ds = map fst ms"
    using design_names [OF assms(1-4)] by simp
  have len: "length ?ds = length ms" using arg_cong [OF names, of length] by simp
  have name: "m_name (fst (?ds ! i)) = fst (ms ! i)" if "i < length ms" for i
    using arg_cong [OF names, of "\<lambda>l. l ! i"] that len by simp
  have "find (\<lambda>(m, g). m_name m = r) ?ds = Some (?ds ! length us)"
    unfolding find_Some_iff
  proof (intro exI [of _ "length us"] conjI allI impI)
    show "case ?ds ! length us of (m, g) \<Rightarrow> m_name m = r" using name [of "length us"] by (simp add: ms split_beta)
    fix i assume i: "i < length us"
    then have "us ! i \<in> set us" by simp
    then have "fst (us ! i) \<noteq> r" using assms(5) by (force simp: ms)
    then show "\<not> (case ?ds ! i of (m, g) \<Rightarrow> m_name m = r)"
      using name [of i] i by (simp add: ms split_beta nth_append)
  qed (simp_all add: len ms)
  then have "get_top_module d = (if r = '''' then Inl (RuntimeError ''Top module name is not set'')
       else Inr (?ds ! length us))"
    by (simp add: get_top_module_def get_module_def top chk_def)
  then show ?thesis using ms choice top name [of "length us"]
    by (intro exI [of _ us] exI [of _ r] exI [of _ j] exI [of _ vs]) simp
qed

section \<open>The hierarchy\<close>

text \<open>\<open>(a, b)\<close> is in \<open>instantiates mods modules\<close> when module \<open>a\<close> has a cell of the type \<open>b\<close>.\<close>

definition instance_types :: "string set \<Rightarrow> json \<Rightarrow> string set" where
  "instance_types modules j =
     {t. t \<in> modules \<and> (\<exists>cells. jindex j ''cells'' = Inr cells \<and>
        (\<exists>e \<in> set (items cells). cell_type (snd e) = Inr t))}"

definition instantiates :: "json \<Rightarrow> string set \<Rightarrow> (string \<times> string) set" where
  "instantiates mods modules =
     {(a, b). \<exists>j. jindex mods a = Inr j \<and> b \<in> instance_types modules j}"

definition typed_cells :: "json \<Rightarrow> bool" where
  "typed_cells j \<longleftrightarrow> (\<exists>cells. jindex j ''cells'' = Inr cells \<and>
     (\<forall>e \<in> set (items cells). \<exists>t. cell_type (snd e) = Inr t))"

definition typed_modules :: "json \<Rightarrow> string set \<Rightarrow> bool" where
  "typed_modules mods modules \<longleftrightarrow> (\<forall>k \<in> modules. \<exists>j. jindex mods k = Inr j \<and> typed_cells j)"

text \<open>The first error of a loop that can only end in this error, or in a value.\<close>

lemma foldM_error:
  assumes "\<And>x s. x \<in> set xs \<Longrightarrow> (\<exists>s'. f x s = Inr s') \<or> f x s = Inl e"
    and "x \<in> set xs" "\<And>s. f x s = Inl e"
  shows "foldM f xs s = Inl e"
  using assms
proof (induction xs arbitrary: s)
  case (Cons y ys)
  show ?case
  proof (cases "f y s")
    case (Inl e')
    then show ?thesis using Cons.prems(1) [of y s] by auto
  next
    case (Inr s')
    then have "x \<in> set ys" using Cons.prems(2,3) by auto
    then have "foldM f ys s' = Inl e" using Cons.IH [OF _ _ Cons.prems(3)] Cons.prems(1) by auto
    then show ?thesis using Inr by simp
  qed
qed simp

lemma foldM_outcome:
  assumes "\<And>x s. x \<in> set xs \<Longrightarrow> (\<exists>s'. f x s = Inr s') \<or> f x s = Inl e"
  shows "(\<exists>s'. foldM f xs s = Inr s') \<or> foldM f xs s = Inl e"
  using assms
proof (induction xs arbitrary: s)
  case (Cons y ys)
  have IH: "(\<exists>t. foldM f ys s' = Inr t) \<or> foldM f ys s' = Inl e" for s'
    using Cons.IH Cons.prems by simp
  show ?case
  proof (cases "f y s")
    case (Inr s')
    then show ?thesis using IH [of s'] by simp
  qed (use Cons.prems [of y s] in auto)
qed simp

text \<open>The body of the loop over the cells.\<close>

abbreviation hier_cell :: "nat \<Rightarrow> json \<Rightarrow> string set \<Rightarrow> nat \<Rightarrow> string \<times> json \<Rightarrow> hierarchy \<Rightarrow> hierarchy res" where
  "hier_cell k mods modules v \<equiv> (\<lambda>(cell_key, cell_json) h.
       bnd (cell_type cell_json) (\<lambda>type.
       if type \<in> modules then
         bnd (jindex mods type) (\<lambda>module_json.
         let (child, h') = add_child v cell_key h in
         populate_hierarchy k mods modules module_json child h')
       else Inr h))"

lemma hier_cell_typed:
  assumes "typed_modules mods modules" "cell_type (snd e) = Inr t"
  shows "hier_cell k mods modules v e h =
    (if t \<in> modules then
       populate_hierarchy k mods modules (projr (jindex mods t)) (fst (add_child v (fst e) h))
         (snd (add_child v (fst e) h))
     else Inr h)"
  using assms by (cases e) (auto simp: typed_modules_def split: prod.split)

lemma populate_hierarchy_outcome:
  assumes "typed_modules mods modules" "typed_cells j"
  shows "(\<exists>h'. populate_hierarchy k mods modules j v h = Inr h') \<or>
    populate_hierarchy k mods modules j v h = Inl Diverges"
  using assms(2)
proof (induction k arbitrary: j v h)
  case (Suc k)
  obtain cells where cells: "jindex j ''cells'' = Inr cells"
    and typed: "\<forall>e \<in> set (items cells). \<exists>t. cell_type (snd e) = Inr t"
    using Suc.prems by (auto simp: typed_cells_def)
  have "(\<exists>h'. hier_cell k mods modules v e h = Inr h') \<or> hier_cell k mods modules v e h = Inl Diverges"
    if e: "e \<in> set (items cells)" for e h
  proof -
    obtain t where t: "cell_type (snd e) = Inr t" using typed e by auto
    have "t \<in> modules \<Longrightarrow> typed_cells (projr (jindex mods t))"
      using assms(1) by (auto simp: typed_modules_def)
    then show ?thesis using Suc.IH by (simp add: hier_cell_typed [OF assms(1) t])
  qed
  from foldM_outcome [OF this] show ?case by (simp add: cells)
qed simp

lemma instantiates_typed:
  "typed_modules mods modules \<Longrightarrow> (a, b) \<in> instantiates mods modules \<Longrightarrow> b \<in> modules"
  by (auto simp: instantiates_def instance_types_def)

text \<open>A module with a cycle below it is never finished, whatever the fuel.\<close>

lemma populate_hierarchy_cycle:
  assumes mods: "typed_modules mods modules" and k: "k \<in> modules" "jindex mods k = Inr j"
    and cycle: "(k, c) \<in> (instantiates mods modules)\<^sup>*" "(c, c) \<in> (instantiates mods modules)\<^sup>+"
  shows "populate_hierarchy n mods modules j v h = Inl Diverges"
  using k cycle
proof (induction n arbitrary: k j c v h)
  case (Suc n)
  let ?I = "instantiates mods modules"
  have "\<exists>k' c'. (k, k') \<in> ?I \<and> (k', c') \<in> ?I\<^sup>* \<and> (c', c') \<in> ?I\<^sup>+"
  proof (cases "k = c")
    case True
    then obtain k' where "(c, k') \<in> ?I" "(k', c) \<in> ?I\<^sup>*" using tranclD [OF Suc.prems(4)] by auto
    then show ?thesis using True Suc.prems(4) by blast
  next
    case False
    then obtain k' where "(k, k') \<in> ?I" "(k', c) \<in> ?I\<^sup>*" using Suc.prems(3) by (meson converse_rtranclE)
    then show ?thesis using Suc.prems(4) by blast
  qed
  then obtain k' c' where edge: "(k, k') \<in> ?I" and c': "(k', c') \<in> ?I\<^sup>*" "(c', c') \<in> ?I\<^sup>+" by blast
  obtain cells e where cells: "jindex j ''cells'' = Inr cells" and e: "e \<in> set (items cells)"
    and t: "cell_type (snd e) = Inr k'" and k': "k' \<in> modules"
    using edge Suc.prems(2) by (auto simp: instantiates_def instance_types_def)
  obtain j' where j': "jindex mods k' = Inr j'" using mods k' by (auto simp: typed_modules_def)
  have j: "typed_cells j" using mods Suc.prems(1,2) by (auto simp: typed_modules_def)
  have "foldM (hier_cell n mods modules v) (items cells) h = Inl Diverges"
  proof (rule foldM_error [where x = e])
    show "hier_cell n mods modules v e h = Inl Diverges" for h
      using Suc.IH [OF k' j' c'] by (simp add: hier_cell_typed [OF mods t] k' j')
    show "(\<exists>s'. hier_cell n mods modules v x s = Inr s') \<or> hier_cell n mods modules v x s = Inl Diverges"
      if "x \<in> set (items cells)" for x s
    proof -
      obtain t where t: "cell_type (snd x) = Inr t"
        using j cells \<open>x \<in> set (items cells)\<close> by (auto simp: typed_cells_def)
      have "t \<in> modules \<Longrightarrow> typed_cells (projr (jindex mods t))"
        using mods by (auto simp: typed_modules_def)
      then show ?thesis using populate_hierarchy_outcome [OF mods]
        by (simp add: hier_cell_typed [OF mods t])
    qed
  qed (rule e)
  then show ?case by (simp add: cells)
qed simp

text \<open>Without a cycle the number of the modules below a module is enough fuel.\<close>

lemma populate_hierarchy_acyclic:
  assumes mods: "typed_modules mods modules" "finite modules"
    and k: "k \<in> modules" "jindex mods k = Inr j"
    and acyclic: "\<And>c. (k, c) \<in> (instantiates mods modules)\<^sup>* \<Longrightarrow> (c, c) \<notin> (instantiates mods modules)\<^sup>+"
    and fuel: "card ((instantiates mods modules)\<^sup>+ `` {k}) < n"
  shows "\<exists>h'. populate_hierarchy n mods modules j v h = Inr h'"
  using k acyclic fuel
proof (induction n arbitrary: k j v h)
  case (Suc n)
  let ?I = "instantiates mods modules"
  let ?below = "\<lambda>k. ?I\<^sup>+ `` {k}"
  obtain cells where cells: "jindex j ''cells'' = Inr cells"
    and typed: "\<forall>e \<in> set (items cells). \<exists>t. cell_type (snd e) = Inr t"
    using mods Suc.prems(1,2) by (auto simp: typed_modules_def typed_cells_def)
  have finite: "finite (?below k)"
  proof (rule finite_subset [OF _ mods(2)])
    show "?below k \<subseteq> modules" using instantiates_typed [OF mods(1)] by (auto dest: tranclD2)
  qed
  have "\<exists>h'. foldM (hier_cell n mods modules v) (items cells) h = Inr h' \<and> True"
  proof (rule foldM_total)
    fix e and h :: hierarchy assume e: "e \<in> set (items cells)"
    obtain t where t: "cell_type (snd e) = Inr t" using typed e by auto
    show "\<exists>s'. hier_cell n mods modules v e h = Inr s'"
    proof (cases "t \<in> modules")
      case True
      then obtain j' where j': "jindex mods t = Inr j'" using mods by (auto simp: typed_modules_def)
      have edge: "(k, t) \<in> ?I"
        using Suc.prems(2) cells e t True by (auto simp: instantiates_def instance_types_def)
      have "?below t \<subseteq> ?below k" using edge by (auto intro: trancl_into_trancl2)
      moreover have "t \<in> ?below k" "t \<notin> ?below t" using edge Suc.prems(3) [of t] by auto
      ultimately have "card (?below t) < card (?below k)"
        using finite by (intro psubset_card_mono) auto
      then have "card (?below t) < n" using Suc.prems(4) by simp
      then show ?thesis using Suc.IH [OF True j'] Suc.prems(3) edge
        by (simp add: hier_cell_typed [OF mods(1) t] True j' converse_rtrancl_into_rtrancl)
    qed (simp add: hier_cell_typed [OF mods(1) t])
  qed simp_all
  then show ?case by (simp add: cells)
qed simp


lemma hier_cell_reads:
  assumes "read_module hash emplace mm modules (k, j) = Inr r"
  shows "typed_cells j"
proof -
  obtain m m' cells where cells: "jindex j ''cells'' = Inr cells"
    and loop: "foldM (read_cell hash emplace modules) (items cells) m = Inr m'"
    using assms by (auto simp: read_module_def add_cells_def bnd_eq_Inr chk_eq_Inr)
  have "\<exists>t. cell_type (snd e) = Inr t" if "e \<in> set (items cells)" for e
    using foldM_in [OF loop that] by (cases e) (auto simp: read_cell_def cell_type_def bnd_eq_Inr)
  then show ?thesis using cells by (auto simp: typed_cells_def)
qed

text \<open>What a parsed module contributes, from the reading of all modules.\<close>

lemma read_modules_typed:
  assumes "mapM (read_module hash emplace mm modules) ms = Inr rs" "distinct (map fst ms)"
    and "modules = set (map fst ms)"
  shows "typed_modules (JObj ms) modules"
  unfolding typed_modules_def
proof
  fix k assume "k \<in> modules"
  then obtain j where j: "(k, j) \<in> set ms" using assms(3) by auto
  then have "typed_cells j" using mapM_in [OF assms(1) j] hier_cell_reads by blast
  moreover have "jindex (JObj ms) k = Inr j" using j assms(2) by simp
  ultimately show "\<exists>j. jindex (JObj ms) k = Inr j \<and> typed_cells j" by blast
qed

lemma design_returns:
  assumes "jindex content ''modules'' = Inr (JObj ms)" "distinct (map fst ms)"
    and "mapM (read_module hash emplace mm (set (map fst ms))) ms = Inr rs"
    and "find_root (JObj ms) = Inr (root, j)"
  shows "if \<exists>c. (root, c) \<in> (instantiates (JObj ms) (set (map fst ms)))\<^sup>* \<and>
            (c, c) \<in> (instantiates (JObj ms) (set (map fst ms)))\<^sup>+
    then parse_json hash emplace mm content = Inl Diverges \<and>
         (\<forall>n v h. populate_hierarchy n (JObj ms) (set (map fst ms)) j v h = Inl Diverges)
    else \<exists>d. parse_json hash emplace mm content = Inr d \<and> d_top d = root \<and> d_modules d = rs"
proof -
  let ?M = "set (map fst ms)"
  let ?I = "instantiates (JObj ms) ?M"
  have typed: "typed_modules (JObj ms) ?M" by (rule read_modules_typed [OF assms(3,2) refl])
  have "(root, j) \<in> set ms"
    using assms(4) by (auto simp: find_root_JObj find_first)
  then have root: "root \<in> ?M" "jindex (JObj ms) root = Inr j" using assms(2) by force+
  have content: "jcontains content ''modules''"
    using assms(1) by (cases content) (auto simp: of_opt_eq_Inr)
  have parse: "parse_json hash emplace mm content =
      bnd (populate_hierarchy (length ms + 1) (JObj ms) ?M j 0 \<lparr>h_names = [''root''], h_edges = []\<rparr>)
        (\<lambda>h. Inr \<lparr>d_top = root, d_clk = [], d_modules = rs, d_hierarchy = h\<rparr>)"
    using assms(1,3,4) content by (simp add: parse_json_def set_top_module_name_def chk_def del: populate_hierarchy.simps)
  show ?thesis
  proof (cases "\<exists>c. (root, c) \<in> ?I\<^sup>* \<and> (c, c) \<in> ?I\<^sup>+")
    case True
    then have "populate_hierarchy n (JObj ms) ?M j v h = Inl Diverges" for n v h
      using populate_hierarchy_cycle [OF typed root] by blast
    then show ?thesis using True parse by (simp del: populate_hierarchy.simps)
  next
    case False
    have "?I\<^sup>+ `` {root} \<subseteq> ?M" using instantiates_typed [OF typed] by (auto dest: tranclD2)
    then have "card (?I\<^sup>+ `` {root}) \<le> card ?M" by (intro card_mono) auto
    also have "\<dots> \<le> length ms" using card_length [of "map fst ms"] by simp
    finally obtain h where "populate_hierarchy (length ms + 1) (JObj ms) ?M j 0
        \<lparr>h_names = [''root''], h_edges = []\<rparr> = Inr h"
      using populate_hierarchy_acyclic [OF typed _ root, of "length ms + 1"] False by force
    then show ?thesis using False parse by (simp del: populate_hierarchy.simps)
  qed
qed

text \<open>
  \<^bold>\<open>C38.\<close> After the modules were read and the top module found, the parsing returns a design
  exactly when no module reachable from the top module instantiates itself, directly or through
  others; otherwise the recursion over the instances never ends.
\<close>

theorem parse_json_returns:
  assumes "jindex content ''modules'' = Inr (JObj ms)" "distinct (map fst ms)"
    and "mapM (read_module hash emplace mm (set (map fst ms))) ms = Inr rs"
    and "find_root (JObj ms) = Inr (root, j)"
  shows "if \<exists>c. (root, c) \<in> (instantiates (JObj ms) (set (map fst ms)))\<^sup>* \<and>
            (c, c) \<in> (instantiates (JObj ms) (set (map fst ms)))\<^sup>+
    then parse_json hash emplace mm content = Inl Diverges \<and>
         (\<forall>n v h. populate_hierarchy n (JObj ms) (set (map fst ms)) j v h = Inl Diverges)
    else \<exists>d. parse_json hash emplace mm content = Inr d \<and> d_top d = root \<and> d_modules d = rs"
  by (rule design_returns [OF assms])

text \<open>The hierarchy is a tree: every vertex but the first has one parent, added before it.\<close>

definition tree_ok :: "hierarchy \<Rightarrow> bool" where
  "tree_ok h \<longleftrightarrow> map snd (h_edges h) = [1..<length (h_names h)] \<and>
     h_names h \<noteq> [] \<and> (\<forall>(p, c) \<in> set (h_edges h). p < c)"

lemma add_child_tree:
  "tree_ok h \<Longrightarrow> v < length (h_names h) \<Longrightarrow> add_child v name h = (c, h') \<Longrightarrow>
   tree_ok h' \<and> c < length (h_names h') \<and> length (h_names h) < length (h_names h') \<and>
   (\<exists>ns. h_names h' = h_names h @ ns)"
  by (auto simp: add_child_def tree_ok_def)

lemma populate_hierarchy_tree:
  assumes "populate_hierarchy n mods modules j v h = Inr h'" "tree_ok h" "v < length (h_names h)"
  shows "tree_ok h' \<and> (\<exists>ns. h_names h' = h_names h @ ns)"
  using assms
proof (induction n arbitrary: j v h h')
  case (Suc n)
  obtain cells where cells: "jindex j ''cells'' = Inr cells"
    and loop: "foldM (\<lambda>(cell_key, cell_json) h.
       bnd (cell_type cell_json) (\<lambda>type.
       if type \<in> modules then
         bnd (jindex mods type) (\<lambda>module_json.
         let (child, h') = add_child v cell_key h in
         populate_hierarchy n mods modules module_json child h')
       else Inr h)) (items cells) h = Inr h'"
    using Suc.prems(1) by (auto simp: bnd_eq_Inr)
  show ?case
  proof (rule foldM_invariant [OF loop, of "\<lambda>x. tree_ok x \<and> (\<exists>ns. h_names x = h_names h @ ns)"])
    fix e x y
    assume x: "tree_ok x \<and> (\<exists>ns. h_names x = h_names h @ ns)"
      and step: "(case e of (cell_key, cell_json) \<Rightarrow> \<lambda>h.
       bnd (cell_type cell_json) (\<lambda>type.
       if type \<in> modules then
         bnd (jindex mods type) (\<lambda>module_json.
         let (child, h') = add_child v cell_key h in
         populate_hierarchy n mods modules module_json child h')
       else Inr h)) x = Inr y"
    have v: "v < length (h_names x)" using x Suc.prems(3) by auto
    show "tree_ok y \<and> (\<exists>ns. h_names y = h_names h @ ns)"
    proof (cases "y = x")
      case False
      obtain key cj where e: "e = (key, cj)" by (cases e)
      obtain c x' where add: "add_child v key x = (c, x')" by (cases "add_child v key x")
      obtain mj where rec: "populate_hierarchy n mods modules mj c x' = Inr y"
        using step False by (auto simp: e add bnd_eq_Inr split: if_splits)
      show ?thesis using Suc.IH [OF rec] add_child_tree [OF _ v add] x by auto
    qed (use x in simp)
  qed (use Suc.prems(2) in simp)
qed simp

section \<open>Source attributes\<close>

lemma show_nat_digits: "set (show_nat n) \<subseteq> {c. is_digit_of 10 c}"
proof (induction n rule: show_nat.induct)
  case (1 n)
  have "n mod 10 < 10" by simp
  then show ?case using 1 by (subst show_nat.simps) (auto simp: is_digit_of_def)
qed

lemma show_nat_value: "digits_value 10 (show_nat n) = n"
proof (induction n rule: show_nat.induct)
  case (1 n)
  have "n mod 10 < 10" by simp
  then show ?case using 1 by (subst show_nat.simps) (auto simp: digits_value_snoc digit_val_def digits_value_def [of _ "[_]"])
qed

lemma show_nat_not_Nil: "show_nat n \<noteq> []" by (subst show_nat.simps) simp

lemma strto_show_nat:
  assumes "rest = [] \<or> \<not> is_digit_of 10 (hd rest)"
  shows "strto 10 (show_nat n @ rest) = Some (False, n)"
proof -
  have digits: "\<forall>c \<in> set (show_nat n). is_digit_of 10 c" using show_nat_digits by blast
  obtain c cs where s: "show_nat n = c # cs" using show_nat_not_Nil by (cases "show_nat n") auto
  then have "is_digit_of 10 c" using digits by simp
  then have c: "c \<noteq> CHR ''-''" "c \<noteq> CHR ''+''" "\<not> is_space c"
    by (auto simp: is_digit_of_def is_space_def)
  have "takeWhile (is_digit_of 10) rest = []" using assms by (cases rest) auto
  then have "takeWhile (is_digit_of 10) (show_nat n @ rest) = show_nat n"
    using digits by (simp add: takeWhile_append2)
  then show ?thesis using s c show_nat_value [of n] by (simp add: strto_def sign_of_def)
qed

lemma show_nat_no_colon: "CHR '':'' \<notin> set (show_nat n)"
  using show_nat_digits [of n] by (auto simp: is_digit_of_def)

lemma split_colon_not_Nil [simp]: "split_colon s \<noteq> []"
  by (induction s) (auto split: list.split)

lemma split_colon_plain: "CHR '':'' \<notin> set s \<Longrightarrow> split_colon s = [s]"
  by (induction s) auto

lemma split_colon_snoc: "split_colon (s @ CHR '':'' # t) = split_colon s @ split_colon t"
proof (induction s)
  case (Cons c s)
  then show ?case by (cases "split_colon s") auto
qed simp

lemma join_split_colon: "join '':'' (split_colon s) = s"
proof (induction s)
  case (Cons c s)
  then show ?case by (cases "split_colon s"; cases "tl (split_colon s)") auto
qed simp

lemma show_word_of_nat: "n < 2 ^ 32 \<Longrightarrow> show_word (word_of_nat n :: 32 word) = show_nat n"
  by (simp add: unsigned_of_nat take_bit_nat_eq_self)

text \<open>
  \<^bold>\<open>C39.\<close> A source attribute is a text, a colon, a number, and more text without a colon, such as
  the columns of \<open>f.v:7.15-7.36\<close>. The number is read as the line and the text before the last colon as the
  file name, colons and other sources of a list included. Written again, the attribute ends after the
  number, so exactly the attributes that end with their line are read and written without loss.
\<close>

theorem source_round_trip:
  assumes "n < 2 ^ 32" "CHR '':'' \<notin> set rest" "rest = [] \<or> \<not> is_digit_of 10 (hd rest)"
  shows "parse_source (file @ '':'' @ show_nat n @ rest) = Inr (file, word_of_nat n) \<and>
    get_source_info (set_source_info file (word_of_nat n) net) = file @ '':'' @ show_nat n \<and>
    (get_source_info (set_source_info file (word_of_nat n) net) = file @ '':'' @ show_nat n @ rest \<longleftrightarrow> rest = [])"
proof -
  have "split_colon (file @ CHR '':'' # show_nat n @ rest) = split_colon file @ [show_nat n @ rest]"
    by (simp add: split_colon_snoc split_colon_plain show_nat_no_colon assms(2))
  moreover have "stoull 10 (show_nat n @ rest) = Inr (word_of_nat n)"
    using assms(1) by (simp add: stoull_def strto_show_nat [OF assms(3)])
  ultimately have "parse_source (file @ '':'' @ show_nat n @ rest) = Inr (file, word_of_nat n)"
    using assms(1) by (simp add: parse_source_def narrow32_def join_split_colon unsigned_of_nat take_bit_nat_eq_self)
  then show ?thesis using show_word_of_nat [OF assms(1)]
    by (simp add: get_source_info_def set_source_info_def)
qed

text \<open>
  The hierarchy of a parsed design is a tree with the vertex \<open>root\<close> at its root.
\<close>

theorem parse_json_hierarchy:
  assumes "parse_json hash emplace mm content = Inr d"
  shows "tree_ok (d_hierarchy d) \<and> hd (h_names (d_hierarchy d)) = ''root''"
proof -
  obtain n mods modules j where
    "populate_hierarchy n mods modules j 0 \<lparr>h_names = [''root''], h_edges = []\<rparr> = Inr (d_hierarchy d)"
    using assms by (auto simp: parse_json_def set_top_module_name_def chk_eq_Inr bnd_eq_Inr Let_def split_beta
        simp del: populate_hierarchy.simps)
  from populate_hierarchy_tree [OF this] show ?thesis by (auto simp: tree_ok_def)
qed

section \<open>A design with two modules\<close>

definition sample_netname :: "nat \<Rightarrow> json" where
  "sample_netname n = JObj [(''attributes'', JObj [(''src'', JStr ''f.v:3'')]),
     (''bits'', JArr [JInt (int n)]), (''hide_name'', JInt 0)]"

definition sample_cell :: "string \<Rightarrow> json" where
  "sample_cell type = JObj [(''attributes'', JObj []),
     (''connections'', JObj [(''A'', JArr [JInt 2]), (''Y'', JArr [JInt 3])]),
     (''hide_name'', JInt 0), (''parameters'', JObj [(''A_SIGNED'', JStr ''0''), (''A_WIDTH'', JStr ''1'')]),
     (''port_directions'', JObj [(''A'', JStr ''input''), (''Y'', JStr ''output'')]),
     (''type'', JStr type)]"

definition sample_module_json :: "(string \<times> json) list \<Rightarrow> string \<Rightarrow> json" where
  "sample_module_json attrs type = JObj [(''attributes'', JObj attrs),
     (''cells'', JObj [(''u'', sample_cell type)]),
     (''netnames'', JObj [(''A'', sample_netname 2), (''Y'', sample_netname 3)]),
     (''ports'', JObj [(''A'', JObj [(''bits'', JArr [JInt 2]), (''direction'', JStr ''input'')]),
        (''Y'', JObj [(''bits'', JArr [JInt 3]), (''direction'', JStr ''output'')])])]"

definition sample_modules :: "(string \<times> json) list" where
  "sample_modules = [(''inv'', sample_module_json [] ''$not''),
     (''top'', sample_module_json [(''top'', JInt 1)] ''inv'')]"

definition sample_json :: json where
  "sample_json = JObj [(''modules'', JObj sample_modules)]"

definition sample_design :: design where
  "sample_design = projr (parse_json sample_hash (#) rev sample_json)"

lemma inserts_Cons: "inserts (#)" by (simp add: inserts_def)


lemma sample_numbers:
  "parse_source ''f.v:3'' = Inr (''f.v'', 3)" "stoull 2 ''1'' = Inr 1" "stoi 2 ''0'' = Inr 0"
  by (simp_all add: stoull_def stoi_def parse_source_def narrow32_def strto_def sign_of_def is_space_def
      is_digit_of_def digits_value_def digit_val_def)

lemmas sample_simps = sample_module_json_def sample_netname_def sample_cell_def sample_numbers
  json_bit_def chk_def split_def read_direction_def find_value_def read_width_def read_sign_def

lemma sample_nets: "\<exists>m'. add_nets sample_hash (sample_module_json attrs type) m = Inr m'"
  by (simp add: sample_simps add_nets_def read_net_def net_attribute_def)

lemma sample_ports: "\<exists>m'. add_ports sample_hash (sample_module_json attrs type) m = Inr m'"
  by (simp add: sample_simps add_ports_def)

lemma sample_classes:
  "cell_class_of modules ''$not'' = Inr (KGate GUnary)"
  "''inv'' \<in> modules \<Longrightarrow> cell_class_of modules ''inv'' = Inr KModule"
  by (simp_all add: cell_class_of_def basic_binary_gates_def basic_unary_gates_def)

lemma sample_cells:
  assumes "type \<in> {''$not'', ''inv''}" "''inv'' \<in> modules"
  shows "\<exists>m'. add_cells sample_hash (#) (sample_module_json attrs type) modules m = Inr m'"
  using assms by (elim insertE emptyE) (simp_all add: sample_simps sample_classes add_cells_def
      read_cell_def read_cell_port_def add_cell_def lift_cell_def mk_gate_def mk_port_def)

text \<open>A module whose parts are read is read, as its graph is always built.\<close>

lemma read_module_returns:
  assumes "add_nets hash j m1 = Inr m2" "add_ports hash j m2 = Inr m3"
    and "add_cells hash emplace j modules m3 = Inr m" "jindex j ''attributes'' = Inr a"
    and "m1 = (new_module k)\<lparr>m_attributes := a\<rparr>" "inserts emplace" "keeps_order mm"
  shows "\<exists>g. read_module hash emplace mm modules (k, j) = Inr (m, g)"
proof -
  have "read_inv k m1"
    by (simp add: assms(5) new_module_def read_inv_def module_ok_iff hidden_unique_def)
  then have "read_inv k m"
    using add_nets_inv [OF assms(1)] add_ports_inv [OF assms(2)] add_cells_inv [OF assms(3) _ assms(6)] by blast
  then obtain g where "populate_graph mm m empty_graph = Inr g"
    using populate_graph_total_aux [OF assms(7) _ empty_graph_ok] by (auto simp: read_inv_def)
  moreover have "jcontains j ''attributes''" using assms(4) by (cases j) (auto simp: of_opt_eq_Inr)
  ultimately show ?thesis using assms(1-5) by (simp add: read_module_def add_attributes_def)
qed

lemma sample_read:
  assumes "type \<in> {''$not'', ''inv''}" "''inv'' \<in> modules"
  shows "\<exists>r. read_module sample_hash (#) rev modules (k, sample_module_json attrs type) = Inr r"
proof -
  let ?j = "sample_module_json attrs type"
  obtain m2 where m2: "add_nets sample_hash ?j ((new_module k)\<lparr>m_attributes := JObj attrs\<rparr>) = Inr m2"
    using sample_nets by blast
  obtain m3 where m3: "add_ports sample_hash ?j m2 = Inr m3" using sample_ports by blast
  obtain m where m: "add_cells sample_hash (#) ?j modules m3 = Inr m"
    using sample_cells [OF assms] by blast
  show ?thesis using read_module_returns [OF m2 m3 m _ refl inserts_Cons keeps_order_rev]
    by (force simp: sample_module_json_def)
qed

lemma sample_mapM:
  "\<exists>rs. mapM (read_module sample_hash (#) rev (set (map fst sample_modules))) sample_modules = Inr rs"
  using sample_read [of "''$not''" "set (map fst sample_modules)" "''inv''" "[]"]
    sample_read [of "''inv''" "set (map fst sample_modules)" "''top''" "[(''top'', JInt 1)]"]
  by (auto simp: sample_modules_def)

lemma sample_root:
  "find_root (JObj sample_modules) = Inr (''top'', sample_module_json [(''top'', JInt 1)] ''inv'')"
  by (simp add: find_root_JObj) (simp add: sample_modules_def is_top_def sample_module_json_def)

lemma sample_instances:
  "instantiates (JObj sample_modules) (set (map fst sample_modules)) = {(''top'', ''inv'')}"
  by (auto simp: instantiates_def instance_types_def of_opt_eq_Inr sample_modules_def
      sample_module_json_def sample_cell_def cell_type_def split: if_splits)

lemma sample_modules_keys: "map fst sample_modules = [''inv'', ''top'']"
  by (simp add: sample_modules_def)

lemma sample_json_modules: "jindex sample_json ''modules'' = Inr (JObj sample_modules)"
  by (simp add: sample_json_def)

lemma sample_acyclic: "(c, c) \<notin> (instantiates (JObj sample_modules) (set (map fst sample_modules)))\<^sup>+"
proof -
  have "acyclic ({} :: (string \<times> string) set)" by (simp add: acyclic_def)
  then have "acyclic {(''top'', ''inv'')}" by (auto simp: acyclic_insert elim!: rtranclE)
  then show ?thesis by (simp only: sample_instances acyclic_def not_False_eq_True)
qed

lemma sample_parsed: "parse_json sample_hash (#) rev sample_json = Inr sample_design"
proof -
  obtain rs where rs: "mapM (read_module sample_hash (#) rev (set (map fst sample_modules))) sample_modules = Inr rs"
    using sample_mapM by blast
  have "\<exists>d. parse_json sample_hash (#) rev sample_json = Inr d \<and> d_top d = ''top'' \<and> d_modules d = rs"
    using design_returns [OF sample_json_modules _ rs sample_root] sample_acyclic
    by (simp add: sample_modules_keys split: if_splits)
  then show ?thesis by (auto simp: sample_design_def)
qed

text \<open>A module that contains itself.\<close>

definition loop_modules :: "(string \<times> json) list" where
  "loop_modules = [(''inv'', sample_module_json [] ''inv'')]"

lemma loop_instances: "(''inv'', ''inv'') \<in> instantiates (JObj loop_modules) (set (map fst loop_modules))"
  by (auto simp: instantiates_def instance_types_def loop_modules_def
      sample_module_json_def sample_cell_def cell_type_def)

lemma sample_directions:
  "direction_text d = Some ''input'' \<longleftrightarrow> d = Input" "direction_text d = Some ''output'' \<longleftrightarrow> d = Output"
  by (cases d; simp)+

lemma sample_bits: "bits_from (JArr [JInt 2]) bs \<longleftrightarrow> bs = [Bit 2]" "bits_from (JArr [JInt 3]) bs \<longleftrightarrow> bs = [Bit 3]"
  by (auto simp: bits_from_def bit_from_def list_all2_Cons1)

lemma sample_contents:
  assumes "module_from sample_hash modules (k, sample_module_json attrs type) m"
  shows "map (\<lambda>p. (pt_name p, pt_direction p, pt_bits p)) (m_ports m) = [(''A'', Input, [Bit 2]), (''Y'', Output, [Bit 3])] \<and>
    (\<exists>c. m_cells m = [c] \<and>
       map (\<lambda>p. (pt_name p, pt_direction p, pt_bits p, pt_signed p)) (c_ports (cell_base c)) =
         [(''A'', Input, [Bit 2], False), (''Y'', Output, [Bit 3], False)])"
proof -
  have "\<not> param_one (JStr ''0'')"
    by (simp add: param_one_def strto_def sign_of_def is_space_def is_digit_of_def digits_value_def digit_val_def)
  then show ?thesis using assms
    by (auto simp: module_from_def sample_module_json_def sample_cell_def port_from_def cell_from_def cell_port_from_def
        list_all2_Cons1 sample_directions sample_bits)
qed

lemma sample_modules_form: "e \<in> set sample_modules \<Longrightarrow> \<exists>k attrs type. e = (k, sample_module_json attrs type)"
  unfolding sample_modules_def by (simp only: list.set insert_iff empty_iff) (elim disjE; (intro exI; assumption)?; simp)

theorem parse_json_modules_witness:
  "map (\<lambda>x. m_name (fst x)) (d_modules sample_design) = [''inv'', ''top''] \<and>
   list_all (\<lambda>x. \<not> contains_loops (snd x) \<and>
      map (\<lambda>p. (pt_name p, pt_direction p, pt_bits p)) (m_ports (fst x)) = [(''A'', Input, [Bit 2]), (''Y'', Output, [Bit 3])] \<and>
      (\<exists>c. m_cells (fst x) = [c] \<and>
         map (\<lambda>p. (pt_name p, pt_direction p, pt_bits p, pt_signed p)) (c_ports (cell_base c)) =
           [(''A'', Input, [Bit 2], False), (''Y'', Output, [Bit 3], False)])) (d_modules sample_design)"
proof -
  note parsed = parse_json_modules [OF sample_parsed keeps_order_rev inserts_Cons]
  obtain modules where contents: "list_all2 (module_from sample_hash modules) sample_modules (map fst (d_modules sample_design))"
    using parsed by (auto simp: sample_json_modules)
  have each: "\<exists>k attrs type. module_from sample_hash modules (k, sample_module_json attrs type) m" if m: "m \<in> set (map fst (d_modules sample_design))" for m
  proof -
    obtain i where i: "i < length (map fst (d_modules sample_design))" "m = map fst (d_modules sample_design) ! i"
      using m unfolding in_set_conv_nth by blast
    then have "i < length sample_modules" "module_from sample_hash modules (sample_modules ! i) m"
      using contents by (simp_all only: list_all2_conv_all_nth)
    moreover from this(1) have "sample_modules ! i \<in> set sample_modules" by (rule nth_mem)
    ultimately show ?thesis using sample_modules_form by metis
  qed
  show ?thesis
    unfolding list_all_iff
  proof (intro conjI ballI)
    show "map (\<lambda>x. m_name (fst x)) (d_modules sample_design) = [''inv'', ''top'']"
      using contents_names [OF contents] by (simp add: sample_modules_keys comp_def)
    fix x assume x: "x \<in> set (d_modules sample_design)"
    then show "\<not> contains_loops (snd x)" using parsed by auto
    obtain k attrs type where "module_from sample_hash modules (k, sample_module_json attrs type) (fst x)"
      using each [of "fst x"] x by auto
    note m = sample_contents [OF this]
    show "map (\<lambda>p. (pt_name p, pt_direction p, pt_bits p)) (m_ports (fst x)) = [(''A'', Input, [Bit 2]), (''Y'', Output, [Bit 3])]"
      by (rule m [THEN conjunct1])
    show "\<exists>c. m_cells (fst x) = [c] \<and>
         map (\<lambda>p. (pt_name p, pt_direction p, pt_bits p, pt_signed p)) (c_ports (cell_base c)) =
           [(''A'', Input, [Bit 2], False), (''Y'', Output, [Bit 3], False)]"
      by (rule m [THEN conjunct2])
  qed
qed

theorem parse_json_top_witness:
  "d_top sample_design = ''top'' \<and>
   get_top_module sample_design = Inr (d_modules sample_design ! 1)"
proof -
  have inv: "\<not> is_top (''inv'', sample_module_json [] ''$not'')"
    by (simp add: is_top_def sample_module_json_def)
  show ?thesis
    using parse_json_top [OF sample_parsed keeps_order_rev inserts_Cons sample_json_modules] inv
    by (auto simp: sample_modules_def Cons_eq_append_conv)
qed

theorem parse_json_returns_witness:
  "parse_json sample_hash (#) rev (JObj [(''modules'', JObj loop_modules)]) = Inl Diverges"
proof -
  obtain rs where rs: "mapM (read_module sample_hash (#) rev (set (map fst loop_modules))) loop_modules = Inr rs"
    using sample_read [of "''inv''" "set (map fst loop_modules)" "''inv''" "[]"]
    by (auto simp: loop_modules_def)
  have root: "find_root (JObj loop_modules) = Inr (''inv'', sample_module_json [] ''inv'')"
    by (simp add: loop_modules_def find_root_def)
  have j: "jindex (JObj [(''modules'', JObj loop_modules)]) ''modules'' = Inr (JObj loop_modules)" by simp
  have "distinct (map fst loop_modules)" by (simp add: loop_modules_def)
  from parse_json_returns [OF j this rs root] show ?thesis
    using loop_instances by (auto split: if_splits)
qed

theorem source_round_trip_witness:
  "parse_source ''a:b.v:12'' = Inr (''a:b.v'', 12) \<and> parse_source ''f.v:7.15-7.36'' = Inr (''f.v'', 7) \<and>
   parse_source ''f.v:7.15-7.36|g.v:12.1-13.5'' = Inr (''f.v:7.15-7.36|g.v'', 12) \<and>
   get_source_info (set_source_info ''f.v'' 7 (mk_net sample_hash ''a'' False [Bit 2])) = ''f.v:7''"
proof -
  have n: "show_nat 12 = ''12''" "show_nat 7 = ''7''" by code_simp+
  have rest: "\<not> is_digit_of 10 (CHR ''.'')" by (simp add: is_digit_of_def)
  show ?thesis
    using source_round_trip [of 12 "[]" "''a:b.v''"] source_round_trip [of 7 "''.15-7.36''" "''f.v''" "mk_net sample_hash ''a'' False [Bit 2]"]
      source_round_trip [of 12 "''.1-13.5''" "''f.v:7.15-7.36|g.v''"] rest
    by (simp add: n)
qed

theorem parse_json_hierarchy_witness: "tree_ok (d_hierarchy sample_design)"
  using parse_json_hierarchy [OF sample_parsed] by simp

end
