(* ===== verification/SignalsData.thy ===== *)
theory SignalsData
  imports Signals "HOL-Library.AList"
begin

unbundle bit_operations_syntax

text \<open>
  The access to waveform files (\<open>src/ducode/signals_data_manager.cpp\<close>): lookup of signals by their
  hierarchical names, and the evaluation of the tags that a simulation observed. The maps that
  the code keeps in hash tables are lists of pairs; \<open>it\<close> is the order of their iteration.
\<close>

record vcd_manager =
  vm_data :: "vcd_file list"
  vm_roots :: "nat list"
  vm_simulations :: "64 word"

record if_info =
  ii_input :: signal_id
  ii_injection :: int
  ii_observation :: int

section \<open>Tag values\<close>

text \<open>The most significant bit comes first.\<close>

definition value_vector_to_uint32 :: "vcd_bit list \<Rightarrow> 32 word res" where
  "value_vector_to_uint32 bs =
     (if 32 < length bs then Inl (RuntimeError ''VCDBitVector is too large for uint32_t'')
      else foldM (\<lambda>(i, b) r.
        if b = VCD_X \<or> b = VCD_Z then Inl (RuntimeError ''VCDBitVector contains X or Z values!'')
        else if b = VCD_1 then Inr (r OR push_bit (length bs - 1 - i) 1)
        else Inr r) (enumerate 0 bs) 0)"

definition bitwise_vcd_compare :: "vcd_bit list \<Rightarrow> vcd_bit list \<Rightarrow> bool" where
  "bitwise_vcd_compare vec1 vec2 =
     (if length vec1 \<noteq> length vec2 then False
      else list_ex (\<lambda>b. b = VCD_1)
        (map (\<lambda>(a, b). if a = b \<and> a = VCD_1 \<and> b = VCD_1 then VCD_1 else VCD_0) (zip vec1 vec2)))"

text \<open>A shift of a 32-bit number by more than 31 is undefined.\<close>

definition getTagPattern :: "nat \<Rightarrow> nat \<times> vcd_bit \<Rightarrow> 32 word res" where
  "getTagPattern n value =
     (case value of (index, tag_bit) \<Rightarrow>
      if tag_bit = VCD_1 then
        bnd (narrow_u32 (int index)) (\<lambda>_.
        bnd (narrow_u32 ((int n - int index - 1) mod 2 ^ 64)) (\<lambda>p.
        if unat p < 32 then Inr (push_bit (unat p) 1) else Inl Undefined))
      else Inr 0)"

definition insertTagUpdateCount ::
  "nat \<Rightarrow> nat \<times> vcd_bit \<Rightarrow> 32 word set \<times> 32 word \<Rightarrow> (32 word set \<times> 32 word) res"
where
  "insertTagUpdateCount n value st =
     (case st of (tags, tag_cnt) \<Rightarrow>
      bnd (getTagPattern n value) (\<lambda>bitPattern.
      Inr (if bitPattern \<noteq> 0 then
             (if bitPattern \<notin> tags then (insert bitPattern tags, tag_cnt + 1) else (tags, tag_cnt))
           else (tags, tag_cnt))))"

section \<open>Lookup of signals\<close>

text \<open>The names from the root to a scope; the first two are dropped, which needs that many.\<close>

fun scope_names :: "nat \<Rightarrow> vcd_scope list \<Rightarrow> vcd_scope \<Rightarrow> string list res" where
  "scope_names 0 scopes sc = Inl Diverges"
| "scope_names (Suc k) scopes sc =
     (case sc_parent sc of
        None \<Rightarrow> Inr [sc_name sc]
      | Some p \<Rightarrow>
          bnd (at_index scopes p) (\<lambda>parent.
          bnd (scope_names k scopes parent) (\<lambda>names. Inr (names @ [sc_name sc]))))"

definition get_scope_hierarchy :: "vcd_scope list \<Rightarrow> vcd_scope \<Rightarrow> string list res" where
  "get_scope_hierarchy scopes sc =
     bnd (scope_names (length scopes + 1) scopes sc) (\<lambda>names.
     if length names < 2 then Inl Undefined else Inr (drop 2 names))"

definition compare_hierarchies :: "string list \<Rightarrow> string list \<Rightarrow> bool" where
  "compare_hierarchies hierarchy1 hierarchy2 = (drop 1 hierarchy1 = drop 1 hierarchy2)"

fun findM :: "('a \<Rightarrow> bool res) \<Rightarrow> 'a list \<Rightarrow> 'a option res" where
  "findM p [] = Inr None"
| "findM p (x # xs) = bnd (p x) (\<lambda>b. if b then Inr (Some x) else findM p xs)"

definition select_scope :: "vcd_file \<Rightarrow> vcd_scope res \<Rightarrow> signal_id \<Rightarrow> vcd_scope res" where
  "select_scope f top_scope signal =
     (if length (id_hierarchy signal) = 1 then top_scope
      else if id_hierarchy signal = [] then Inl Undefined
      else
        (let matching = filter (\<lambda>sc. sc_name sc = legalize_identifier (last (id_hierarchy signal)))
               (vf_scopes f)
         in if length matching = 1 then Inr (hd matching)
         else if 2 < length (id_hierarchy signal) then
           bnd (findM (\<lambda>sc. bnd (get_scope_hierarchy (vf_scopes f) sc) (\<lambda>names.
                  Inr (compare_hierarchies names (id_hierarchy signal)))) matching) (\<lambda>sc.
           of_opt (RuntimeError ''Scope not found.'') sc)
         else Inl (RuntimeError ''This is a strange case. Not managed for now.'')))"

definition find_signal :: "vcd_scope \<Rightarrow> string \<Rightarrow> string \<Rightarrow> vcd_signal res" where
  "find_signal sc reference name =
     of_opt (RuntimeError (fmt ''The referenced net {} was not found in the scope {}'' [name, sc_name sc]))
       (find (\<lambda>s. vs_reference s = reference) (sc_signals sc))"

definition get_vcd_signal_ptr :: "vcd_manager \<Rightarrow> signal_id \<Rightarrow> vcd_signal res" where
  "get_vcd_signal_ptr vm signal =
     bnd (at_index (vm_roots vm) 0) (\<lambda>root.
     bnd (at_index (vm_data vm) 0) (\<lambda>f.
     bnd (select_scope f (at_index (vf_scopes f) root) signal) (\<lambda>sc.
     find_signal sc (legalize_identifier (id_name signal)) (id_name signal))))"

text \<open>Tags are looked up below the first scope of the test bench.\<close>

definition get_vcd_tag_signal_ptr :: "vcd_manager \<Rightarrow> signal_id \<Rightarrow> nat \<Rightarrow> vcd_signal res" where
  "get_vcd_tag_signal_ptr vm signal vcd_index =
     bnd (at_index (vm_data vm) vcd_index) (\<lambda>f.
     bnd (of_opt Contract (vf_root f)) (\<lambda>r.
     bnd (at_index (vf_scopes f) r) (\<lambda>root.
     chk (sc_children root \<noteq> []) Contract (
     bnd (at_index (vf_scopes f) (hd (sc_children root))) (\<lambda>tb_scope.
     chk (sc_children tb_scope \<noteq> []) Contract (
     bnd (select_scope f (at_index (vf_scopes f) (hd (sc_children tb_scope))) signal) (\<lambda>sc.
     find_signal sc (legalize_identifier (fmt ''{}_t'' [id_name signal])) (id_name signal))))))))"

definition vcd_get_signal :: "vcd_manager \<Rightarrow> signal_id \<Rightarrow> signal_info res" where
  "vcd_get_signal vm signal =
     bnd (get_vcd_signal_ptr vm signal) (\<lambda>s.
     bnd (narrow_size (vs_size s)) (\<lambda>size.
     Inr \<lparr>si_reference = id_name signal, si_size = size, si_hash = vs_hash s\<rparr>))"

definition vcd_get_signal_size :: "vcd_manager \<Rightarrow> signal_id \<Rightarrow> 64 word res" where
  "vcd_get_signal_size vm signal = bnd (vcd_get_signal vm signal) (\<lambda>i. Inr (si_size i))"

definition vcd_get_signal_values :: "vcd_manager \<Rightarrow> signal_id \<Rightarrow> signal_values res" where
  "vcd_get_signal_values vm signal =
     (if vm_data vm = [] then Inl (RuntimeError ''the instantiation graph does not contain VCD data'')
      else
        bnd (get_vcd_signal_ptr vm signal) (\<lambda>s.
        bnd (vf_values (hd (vm_data vm)) (vs_hash s)) (\<lambda>vs. Inr (values_of_vcd vs))))"

definition vcd_get_signal_value :: "vcd_manager \<Rightarrow> signal_id \<Rightarrow> int \<Rightarrow> signal_value res" where
  "vcd_get_signal_value vm signal timestep =
     bnd (vcd_get_signal vm signal) (\<lambda>i.
     bnd (at_index (vm_data vm) 0) (\<lambda>f.
     bnd (vf_value_at f (si_hash i) timestep) (\<lambda>v. Inr (value_of_vcd v))))"

text \<open>The values of the inputs by their hash codes; a later input replaces an earlier one.\<close>

definition vcd_get_input_values ::
  "vcd_manager \<Rightarrow> signal_id list \<Rightarrow> (string \<rightharpoonup> signal_values) res"
where
  "vcd_get_input_values vm input_ids =
     foldM (\<lambda>input_id m.
       bnd (vcd_get_signal vm input_id) (\<lambda>i.
       bnd (at_index (vm_data vm) 0) (\<lambda>f.
       bnd (vf_values f (si_hash i)) (\<lambda>vs.
       Inr (m(si_hash i \<mapsto> values_of_vcd vs)))))) input_ids Map.empty"

definition vcd_get_timestamps :: "vcd_manager \<Rightarrow> int list res" where
  "vcd_get_timestamps vm =
     (case vm_data vm of
        [] \<Rightarrow> Inl (RuntimeError ''No VCD data found'')
      | f # _ \<Rightarrow> Inr (vf_timestamps f))"

definition vcd_get_signals :: "vcd_manager \<Rightarrow> signal_info list res" where
  "vcd_get_signals vm =
     bnd (at_index (vm_data vm) 0) (\<lambda>f.
     bnd (case vf_scopes f of [] \<Rightarrow> Inl OutOfRange | s # _ \<Rightarrow> Inr s) (\<lambda>root.
     bnd (mapM (at_index (vf_scopes f)) (sc_children root)) (\<lambda>scs.
     mapM info_of_signal (concat (map sc_signals scs)))))"

definition vcd_get_tag_values :: "vcd_manager \<Rightarrow> signal_id \<Rightarrow> signal_values list res" where
  "vcd_get_tag_values vm signal =
     mapM (\<lambda>(index, f).
       bnd (get_vcd_tag_signal_ptr vm signal index) (\<lambda>s.
       bnd (vf_values f (vs_hash s)) (\<lambda>vs. Inr (values_of_vcd vs)))) (enumerate 0 (vm_data vm))"

section \<open>Counting tags\<close>

definition count_vector ::
  "vcd_bit list \<Rightarrow> 32 word set \<times> 32 word \<Rightarrow> (32 word set \<times> 32 word) res"
where
  "count_vector bs st = foldM (insertTagUpdateCount (length bs)) (enumerate 0 bs) st"

definition count_values ::
  "(int \<times> vcd_value) list \<Rightarrow> 32 word set \<times> 32 word \<Rightarrow> (32 word set \<times> 32 word) res"
where
  "count_values vs st = foldM (\<lambda>(t, v) st. bnd (vcd_vector v) (\<lambda>bs. count_vector bs st)) vs st"

definition get_tag_count_signal :: "vcd_manager \<Rightarrow> signal_id \<Rightarrow> 32 word res" where
  "get_tag_count_signal vm signal =
     bnd (get_vcd_signal_ptr vm signal) (\<lambda>s.
     foldM (\<lambda>f cnt.
       bnd (vf_values f (vs_hash s)) (\<lambda>vs.
       bnd (count_values vs ({}, cnt)) (\<lambda>(tags, cnt'). Inr cnt'))) (vm_data vm) 0)"

text \<open>The tags of the source, file by file, then those of them that the target shows.\<close>

definition source_tags :: "vcd_file \<Rightarrow> string \<Rightarrow> 32 word set res" where
  "source_tags f hash =
     bnd (vf_values f hash) (\<lambda>vs.
     bnd (foldM (\<lambda>(t, v) tags.
            bnd (vcd_vector v) (\<lambda>bs.
            foldM (\<lambda>value tags.
              bnd (insertTagUpdateCount (length bs) value (tags, 0)) (\<lambda>(tags', cnt). Inr tags'))
              (enumerate 0 bs) tags)) vs {}) Inr)"

definition target_vector ::
  "32 word set \<Rightarrow> vcd_bit list \<Rightarrow> 32 word set \<times> 32 word \<Rightarrow> (32 word set \<times> 32 word) res"
where
  "target_vector sources bs st =
     foldM (\<lambda>value st.
       bnd (getTagPattern (length bs) value) (\<lambda>tagPattern.
       if tagPattern \<noteq> 0 \<and> tagPattern \<in> sources
       then insertTagUpdateCount (length bs) value st else Inr st)) (enumerate 0 bs) st"

definition get_tag_count_signal_to_signal :: "vcd_manager \<Rightarrow> signal_id \<Rightarrow> signal_id \<Rightarrow> 32 word res" where
  "get_tag_count_signal_to_signal vm source target =
     bnd (get_vcd_tag_signal_ptr vm source 0) (\<lambda>s.
     bnd (get_vcd_tag_signal_ptr vm target 0) (\<lambda>t.
     bnd (mapM (\<lambda>f. source_tags f (vs_hash s)) (vm_data vm)) (\<lambda>tags_ci_inputs.
     foldM (\<lambda>(f, sources) cnt.
       bnd (vf_values f (vs_hash t)) (\<lambda>vs.
       bnd (foldM (\<lambda>(_, v) st. bnd (vcd_vector v) (\<lambda>bs. target_vector sources bs st)) vs ({}, cnt))
         (\<lambda>(tags, cnt'). Inr cnt'))) (zip (vm_data vm) tags_ci_inputs) 0)))"

section \<open>Sources of the observed tags\<close>

text \<open>The last matching signal of the scope is kept for each input.\<close>

definition get_source_tag_signals ::
  "vcd_manager \<Rightarrow> nat \<Rightarrow> signal_id list \<Rightarrow> (signal_id \<times> vcd_signal) list res"
where
  "get_source_tag_signals vm index source_signals =
     bnd (at_index (vm_data vm) index) (\<lambda>f.
     bnd (bnd (at_index (vm_roots vm) index) (at_index (vf_scopes f))) (\<lambda>sc.
     Inr (foldl (\<lambda>m input_id.
            foldl (\<lambda>m s. if vs_reference s = fmt ''{}_t'' [id_name input_id]
                          then AList.update input_id s m else m) m (sc_signals sc))
          [] source_signals)))"

text \<open>The entries for one observed tag value; \<open>observed\<close> is evaluated for each of them.\<close>

definition tag_sources ::
  "vcd_file \<Rightarrow> (signal_id \<times> vcd_signal) list \<Rightarrow> 32 word \<Rightarrow> int res \<Rightarrow> if_info list res"
where
  "tag_sources f inputs tag_value observed =
     bnd (mapM (\<lambda>(input_id, s).
       bnd (vf_values f (vs_hash s)) (\<lambda>vs.
       bnd (mapM (\<lambda>(time, v).
         bnd (bnd (vcd_vector v) value_vector_to_uint32) (\<lambda>val.
         if 0 < val AND tag_value then
           bnd (narrow_u32 time) (\<lambda>t.
           bnd observed (\<lambda>observation.
           Inr [\<lparr>ii_input = input_id, ii_injection = uint t, ii_observation = observation\<rparr>]))
         else Inr [])) vs) (\<lambda>xs. Inr (concat xs)))) inputs) (\<lambda>xs. Inr (concat xs))"

definition get_sources_at ::
  "((signal_id \<times> vcd_signal) list \<Rightarrow> (signal_id \<times> vcd_signal) list) \<Rightarrow> vcd_manager \<Rightarrow>
   signal_id list \<Rightarrow> signal_id \<Rightarrow> int \<Rightarrow> if_info list res"
where
  "get_sources_at it vm source_signals target_signal timestep =
     bnd (mapM (\<lambda>(index, f).
       bnd (get_vcd_tag_signal_ptr vm target_signal 0) (\<lambda>tgt.
       bnd (vf_values f (vs_hash tgt)) (\<lambda>tags.
       bnd (case find (\<lambda>(t, _). t = timestep) tags of
              None \<Rightarrow> Inr 0
            | Some (_, v) \<Rightarrow> bnd (vcd_vector v) value_vector_to_uint32) (\<lambda>tag_value.
       if tag_value = 0 then Inr []
       else
         bnd (get_source_tag_signals vm index source_signals) (\<lambda>inputs.
         tag_sources f (it inputs) tag_value (Inr timestep)))))) (enumerate 0 (vm_data vm)))
     (\<lambda>xs. Inr (concat xs))"

definition get_sources ::
  "((signal_id \<times> vcd_signal) list \<Rightarrow> (signal_id \<times> vcd_signal) list) \<Rightarrow> vcd_manager \<Rightarrow>
   signal_id list \<Rightarrow> signal_id \<Rightarrow> if_info list res"
where
  "get_sources it vm source_signals target_signal =
     bnd (mapM (\<lambda>(index, f).
       bnd (get_source_tag_signals vm index source_signals) (\<lambda>inputs.
       bnd (get_vcd_tag_signal_ptr vm target_signal 0) (\<lambda>tgt.
       bnd (vf_values f (vs_hash tgt)) (\<lambda>tags.
       bnd (mapM (\<lambda>(time, v).
         bnd (bnd (vcd_vector v) value_vector_to_uint32) (\<lambda>tag_value.
         tag_sources f (it inputs) tag_value (bnd (narrow_u32 time) (\<lambda>t. Inr (uint t))))) tags) (\<lambda>xs. Inr (concat xs))))))
       (enumerate 0 (vm_data vm))) (\<lambda>xs. Inr (concat xs))"

section \<open>Propagation of one tag\<close>

definition find_tag_signal :: "vcd_file \<Rightarrow> signal_id \<Rightarrow> vcd_signal option res" where
  "find_tag_signal f signal =
     findM (\<lambda>s.
       if vs_reference s = legalize_identifier (id_name signal) @ ift_tag then
         bnd (at_index (vf_scopes f) (vs_scope s)) (\<lambda>sc.
         bnd (get_scope_hierarchy (vf_scopes f) sc) (\<lambda>names.
         Inr (compare_hierarchies names (id_hierarchy signal))))
       else Inr False) (vf_signals f)"

definition value_at :: "(int \<times> vcd_value) list \<Rightarrow> int \<Rightarrow> vcd_value option" where
  "value_at vs time = map_option snd (find (\<lambda>(t, _). t = time) vs)"

definition ones :: "vcd_bit list \<Rightarrow> nat" where
  "ones bs = length (filter (\<lambda>b. b = VCD_1) bs)"

text \<open>The first file in which the input has a value at this time; past the last one, if none.\<close>

fun tagged_file :: "signal_id \<Rightarrow> int \<Rightarrow> vcd_file list \<Rightarrow> nat \<Rightarrow> nat res" where
  "tagged_file input time [] i = Inr i"
| "tagged_file input time (f # fs) i =
     bnd (bnd (find_tag_signal f input) (of_opt Undefined)) (\<lambda>s.
     bnd (vf_values f (vs_hash s)) (\<lambda>vs.
     case value_at vs time of
       None \<Rightarrow> tagged_file input time fs (i + 1)
     | Some (VVector bs) \<Rightarrow>
         if ones bs \<noteq> 1 then Inl (RuntimeError (fmt ''The input signal {} has more than one tag'' [id_name input]))
         else if ones bs = 0 \<and> time \<noteq> 0 then Inl (RuntimeError (fmt ''The input signal {} has no tag'' [id_name input]))
         else Inr i
     | Some _ \<Rightarrow> Inr i))"

definition pad_front :: "nat \<Rightarrow> vcd_bit list \<Rightarrow> vcd_bit list" where
  "pad_front n bs = replicate (n - length bs) VCD_0 @ bs"

definition tags_overlap :: "vcd_bit list \<Rightarrow> vcd_bit list \<Rightarrow> bool" where
  "tags_overlap xs ys =
     (let n = max (length xs) (length ys)
      in list_ex (\<lambda>(a, b). a = VCD_1 \<and> b = VCD_1) (zip (pad_front n xs) (pad_front n ys)))"

definition vcd_is_tag_propagated ::
  "vcd_manager \<Rightarrow> signal_id \<Rightarrow> int \<Rightarrow> signal_id \<Rightarrow> int \<Rightarrow> bool option res"
where
  "vcd_is_tag_propagated vm input input_time target target_time =
     (if vm_data vm = [] then Inl (RuntimeError ''No VCD data found'')
      else
        bnd (tagged_file input input_time (vm_data vm) 0) (\<lambda>i.
        bnd (at_index (vm_data vm) i) (\<lambda>f.
        bnd (find_tag_signal f input) (\<lambda>source.
        bnd (find_tag_signal f target) (\<lambda>tgt.
        bnd (of_opt (RuntimeError (fmt ''The referenced input signal {} was not found in the VCD data''
               [id_name input])) source) (\<lambda>source.
        bnd (of_opt (RuntimeError (fmt ''The referenced target signal {} was not found in the VCD data''
               [id_name target])) tgt) (\<lambda>tgt.
        bnd (vf_values f (vs_hash source)) (\<lambda>input_tags.
        bnd (vf_values f (vs_hash tgt)) (\<lambda>target_tags.
        (case (value_at input_tags input_time, value_at target_tags target_time) of
           (Some v, Some w) \<Rightarrow>
             bnd (vcd_vector v) (\<lambda>xs.
             bnd (vcd_vector w) (\<lambda>ys.
             Inr (if tags_overlap xs ys then Some True else None)))
         | _ \<Rightarrow> Inr None))))))))))"

end
