(* ===== verification/Simulation.thy ===== *)
theory Simulation
  imports Complex_Main ModuleData Signals
begin

text \<open>
  The plan of the simulations (\<open>include/ducode/utility/simulation.hpp\<close>): the step between two clock
  edges, the number of time points of one run and of the runs, the time points that get tags, and
  their distribution over the runs. Unsigned numbers of 32 bits are words.
\<close>

section \<open>The step of the clock\<close>

text \<open>The time of the third value of the clock, from the first signal with its name.\<close>

definition third_time :: "(int \<times> vcd_value) list \<Rightarrow> int res" where
  "third_time vs = bnd (at_index vs 2) (\<lambda>(t, _). Inr t)"

definition is_testbench_name :: "string \<Rightarrow> bool" where
  "is_testbench_name name = (str_contains name ''_tb'' \<or> str_contains name ''TB'')"

fun clock_values :: "vcd_file \<Rightarrow> string \<Rightarrow> vcd_signal list \<Rightarrow> (int \<times> vcd_value) list \<Rightarrow> (int \<times> vcd_value) list res"
where
  "clock_values f clk_name [] vs = Inr vs"
| "clock_values f clk_name (s # ss) vs =
     (if vs_reference s = clk_name then vf_values f (vs_hash s) else clock_values f clk_name ss vs)"

definition get_stepsize :: "vcd_file \<Rightarrow> string \<Rightarrow> int res" where
  "get_stepsize f clk_name =
     bnd (case vf_scopes f of [] \<Rightarrow> Inl OutOfRange | r # _ \<Rightarrow> Inr r) (\<lambda>root.
     bnd (mapM (at_index (vf_scopes f)) (sc_children root)) (\<lambda>children.
     bnd (of_opt Assertion (find (\<lambda>sc. is_testbench_name (sc_name sc)) children)) (\<lambda>child_scope.
     bnd (clock_values f clk_name (sc_signals child_scope) []) (\<lambda>clk_values.
     if clk_values \<noteq> [] then third_time clk_values else Inr 1))))"

text \<open>In the scope of a given name every signal is visited until one with values was found.\<close>

fun scan_clock :: "vcd_file \<Rightarrow> string \<Rightarrow> vcd_signal list \<Rightarrow> (int \<times> vcd_value) list \<Rightarrow> int res" where
  "scan_clock f clk_name [] vs = Inr 1"
| "scan_clock f clk_name (s # ss) vs =
     bnd (if vs_reference s = clk_name then vf_values f (vs_hash s) else Inr vs) (\<lambda>vs'.
     if vs' \<noteq> [] then third_time vs' else scan_clock f clk_name ss vs')"

definition get_stepsize_in :: "vcd_file \<Rightarrow> string \<Rightarrow> string \<Rightarrow> int res" where
  "get_stepsize_in f clk_name tb_name =
     bnd (vf_scope f tb_name) (\<lambda>tb_scope. scan_clock f clk_name (sc_signals tb_scope) [])"

text \<open>The constructor of \<open>Stepsize\<close>: the state of its loop is the values and the member.\<close>

definition stepsize_of_vcd :: "vcd_file \<Rightarrow> string \<Rightarrow> 32 word res" where
  "stepsize_of_vcd f clk_name =
     bnd (case vf_scopes f of [] \<Rightarrow> Inl OutOfRange | r # _ \<Rightarrow> Inr r) (\<lambda>root.
     bnd (mapM (at_index (vf_scopes f)) (sc_children root)) (\<lambda>children.
     bnd (case children of [] \<Rightarrow> Inl OutOfRange | c # _ \<Rightarrow> Inr c) (\<lambda>child.
     chk (is_testbench_name (sc_name child)) Assertion (
     bnd (foldM (\<lambda>sc (clk_values, m_stepsize).
            bnd (clock_values f clk_name (sc_signals sc) clk_values) (\<lambda>clk_values.
            if clk_values \<noteq> [] then
              bnd (bnd (third_time clk_values) narrow_u32) (\<lambda>m. Inr (clk_values, Some m))
            else Inr (clk_values, m_stepsize))) children ([], None)) (\<lambda>(clk_values, m_stepsize).
     Inr 1)))))"

section \<open>The runs\<close>

definition timesteps_per_run :: "string list \<Rightarrow> 32 word \<Rightarrow> 32 word res" where
  "timesteps_per_run names tag_size =
     chk (0 < tag_size) Contract (
     chk (names \<noteq> []) Undefined (
     bnd (narrow_u32 (max (int (unat tag_size div length names)) 1)) Inr))"

definition get_timesteps_per_simulation_run :: "module \<Rightarrow> 32 word \<Rightarrow> 32 word res" where
  "get_timesteps_per_simulation_run top_module tag_size =
     timesteps_per_run (get_input_names top_module) tag_size"

definition get_timesteps_per_simulation_run_internal_module_tagging ::
  "module \<Rightarrow> 32 word \<Rightarrow> 32 word res"
where
  "get_timesteps_per_simulation_run_internal_module_tagging top_module tag_size =
     timesteps_per_run (get_output_names top_module) tag_size"

definition last_time :: "vcd_file \<Rightarrow> int res" where
  "last_time f = (if vf_timestamps f = [] then Inl Undefined else Inr (last (vf_timestamps f)))"

text \<open>\<open>rnd\<close> rounds a real number to a double; \<open>gsl::narrow\<close> throws when this changes an integer.\<close>

definition narrow_double :: "(real \<Rightarrow> real) \<Rightarrow> int \<Rightarrow> real res" where
  "narrow_double rnd i = (if rnd (real_of_int i) = real_of_int i then Inr (real_of_int i) else Inl NarrowingError)"

text \<open>The product of the assertion is one of 32-bit numbers.\<close>

definition get_number_of_simulation_runs ::
  "(real \<Rightarrow> real) \<Rightarrow> 32 word \<Rightarrow> 32 word \<Rightarrow> vcd_file \<Rightarrow> 32 word res"
where
  "get_number_of_simulation_runs rnd stepsize timesteps f =
     chk (0 < stepsize) Contract (
     chk (0 < timesteps) Contract (
     bnd (last_time f) (\<lambda>back.
     bnd (narrow_double rnd back) (\<lambda>a.
     bnd (narrow_double rnd (uint stepsize)) (\<lambda>b.
     bnd (narrow_double rnd (uint timesteps)) (\<lambda>c.
     bnd (narrow_u32 \<lceil>rnd (rnd (a / b) / c)\<rceil>) (\<lambda>needed_runs.
     bnd (narrow_u32 back) (\<lambda>back32.
     chk (back32 \<le> needed_runs * stepsize * timesteps) Assertion (Inr needed_runs)))))))))"

text \<open>
  The loop counts with an unsigned number of 32 bits, so it wraps and may never end. As many
  steps as there are such numbers are enough fuel.
\<close>

fun tags_loop :: "nat \<Rightarrow> int \<Rightarrow> 32 word \<Rightarrow> 32 word \<Rightarrow> int list res" where
  "tags_loop 0 back stepsize time = Inl Diverges"
| "tags_loop (Suc k) back stepsize time =
     (if uint time \<le> back then
        bnd (tags_loop k back stepsize (time + stepsize)) (\<lambda>ts. Inr (uint time # ts))
      else Inr [])"

definition get_tags_times :: "nat \<Rightarrow> vcd_file \<Rightarrow> 32 word \<Rightarrow> int list res" where
  "get_tags_times fuel f stepsize =
     chk (0 < stepsize) Contract (
     bnd (last_time f) (\<lambda>back.
     bnd (narrow_size back) (\<lambda>b. tags_loop fuel (uint b) stepsize 0)))"

text \<open>A batch of time points for each run, with the file for its tags.\<close>

definition get_exported_tags_vec ::
  "'p list \<Rightarrow> 32 word \<Rightarrow> int list \<Rightarrow> 32 word \<Rightarrow> (int list \<times> 'p) list res"
where
  "get_exported_tags_vec files runs tags_times timesteps =
     mapM (\<lambda>i.
       let items_per_batch = timesteps - 1;
           start_idx = word_of_nat i * items_per_batch
       in bnd (narrow_u32 (int (length tags_times))) (\<lambda>size.
          let end_idx = min ((word_of_nat i + 1) * items_per_batch) size
          in chk (start_idx \<le> end_idx) Undefined (
             bnd (at_index files i) (\<lambda>file.
             Inr (take (unat end_idx - unat start_idx) (drop (unat start_idx) tags_times), file)))))
       [0..<unat runs]"

end
