(* ===== verification/TagGenerators.thy ===== *)
theory TagGenerators
  imports Simulation
begin

text \<open>
  The choice of the ports and times that get a tag (\<open>include/ducode/tag_generator.hpp\<close>). The random
  numbers of the standard library are a parameter: \<open>draw coverage g\<close> is the decision that the
  distribution with the weights \<open>coverage\<close> and \<open>100 - coverage\<close> makes with the generator \<open>g\<close>, and the
  next state of the generator. \<open>hash_port\<close> is the hash of a port.
\<close>

record 'g random_generator =
  rg_injected :: "32 word"
  rg_ports :: "port list"
  rg_coverage :: "32 word"
  rg_gen :: 'g
  rg_cache :: "64 word \<times> int \<rightharpoonup> bool"

datatype 'g tag_generator =
    FullResolution "32 word"
  | DeterministicRandom "'g random_generator"

definition max_coverage :: "32 word" where "max_coverage = 100"

definition get_number_of_injected_tags :: "'g tag_generator \<Rightarrow> 32 word" where
  "get_number_of_injected_tags t =
     (case t of FullResolution n \<Rightarrow> n | DeterministicRandom r \<Rightarrow> rg_injected r)"

text \<open>All decisions for the given ports and time points, port by port.\<close>

definition decide ::
  "(32 word \<Rightarrow> 'g \<Rightarrow> bool \<times> 'g) \<Rightarrow> 64 word \<times> int \<Rightarrow> 'g random_generator \<Rightarrow>
   bool \<times> 'g random_generator"
where
  "decide draw key r =
     (let (b, g) = draw (rg_coverage r) (rg_gen r)
      in (b, r\<lparr>rg_gen := g, rg_cache := (rg_cache r)(key \<mapsto> b)\<rparr>))"

definition precompute_results ::
  "(32 word \<Rightarrow> 'g \<Rightarrow> bool \<times> 'g) \<Rightarrow> (port \<Rightarrow> 64 word) \<Rightarrow> vcd_file option \<Rightarrow>
   'g random_generator \<Rightarrow> 'g random_generator"
where
  "precompute_results draw hash_port vcd r =
     (let timepoints = (case vcd of Some f \<Rightarrow> vf_timestamps f | None \<Rightarrow> []) in
      fold (\<lambda>p. fold (\<lambda>timepoint r. snd (decide draw (hash_port p, timepoint) r)) timepoints)
        (rg_ports r) r)"

definition mk_random_generator ::
  "(32 word \<Rightarrow> 'g \<Rightarrow> bool \<times> 'g) \<Rightarrow> (port \<Rightarrow> 64 word) \<Rightarrow> port list \<Rightarrow> vcd_file option \<Rightarrow>
   32 word \<Rightarrow> 'g \<Rightarrow> 'g tag_generator res"
where
  "mk_random_generator draw hash_port ports vcd coverage gen =
     (if max_coverage < coverage then Inl (RuntimeError ''The coverage max value is 100.'')
      else Inr (DeterministicRandom (precompute_results draw hash_port vcd
        \<lparr>rg_injected = 0, rg_ports = ports, rg_coverage = coverage, rg_gen = gen,
         rg_cache = Map.empty\<rparr>)))"

fun is_tagged ::
  "(32 word \<Rightarrow> 'g \<Rightarrow> bool \<times> 'g) \<Rightarrow> (port \<Rightarrow> 64 word) \<Rightarrow> port \<Rightarrow> int \<Rightarrow> 'g tag_generator \<Rightarrow>
   bool \<times> 'g tag_generator"
where
  "is_tagged draw hash_port p timepoint (FullResolution n) = (True, FullResolution (n + 1))"
| "is_tagged draw hash_port p timepoint (DeterministicRandom r) =
     (case rg_cache r (hash_port p, timepoint) of
        Some b \<Rightarrow> (b, DeterministicRandom r)
      | None \<Rightarrow>
          (let (b, r') = decide draw (hash_port p, timepoint) r
           in (b, DeterministicRandom (r'\<lparr>rg_injected := rg_injected r' + 1\<rparr>))))"

section \<open>Decisions are stable\<close>

definition cached :: "(port \<Rightarrow> 64 word) \<Rightarrow> port \<Rightarrow> int \<Rightarrow> 'g tag_generator \<Rightarrow> bool option" where
  "cached hash_port p timepoint t =
     (case t of FullResolution n \<Rightarrow> Some True
      | DeterministicRandom r \<Rightarrow> rg_cache r (hash_port p, timepoint))"

lemma is_tagged_cached:
  assumes "is_tagged draw hash_port p timepoint t = (b, t')"
  shows "cached hash_port p timepoint t' = Some b" "cached hash_port p timepoint t \<in> {None, Some b}"
    and "cached hash_port q u t = Some c \<Longrightarrow> cached hash_port q u t' = Some c"
  using assms by (cases t; auto simp: cached_def decide_def split: option.splits prod.splits)+

text \<open>The generator after any further queries.\<close>

definition ask_all ::
  "(32 word \<Rightarrow> 'g \<Rightarrow> bool \<times> 'g) \<Rightarrow> (port \<Rightarrow> 64 word) \<Rightarrow> (port \<times> int) list \<Rightarrow> 'g tag_generator \<Rightarrow>
   'g tag_generator"
where
  "ask_all draw hash_port qs t = foldl (\<lambda>t (p, u). snd (is_tagged draw hash_port p u t)) t qs"

lemma ask_all_cached:
  "cached hash_port p u t = Some b \<Longrightarrow> cached hash_port p u (ask_all draw hash_port qs t) = Some b"
proof (induction qs arbitrary: t)
  case (Cons q qs)
  obtain p' u' where q: "q = (p', u')" by (cases q)
  have "cached hash_port p u (snd (is_tagged draw hash_port p' u' t)) = Some b"
    using is_tagged_cached(3) [of draw hash_port p' u' t _ _ p u b] Cons.prems by (metis prod.collapse)
  then show ?case using Cons.IH by (simp add: ask_all_def q)
qed (simp add: ask_all_def)

lemma is_tagged_known:
  "cached hash_port p u t = Some b \<Longrightarrow> fst (is_tagged draw hash_port p u t) = b"
  by (cases t) (auto simp: cached_def)

text \<open>
  The decision for a port and a time is made once: whatever is asked in between, the same
  question has the same answer again.
\<close>

theorem is_tagged_stable:
  assumes "is_tagged draw hash_port p timepoint t = (b, t')"
  shows "fst (is_tagged draw hash_port p timepoint (ask_all draw hash_port qs t')) = b"
  by (rule is_tagged_known [OF ask_all_cached [OF is_tagged_cached(1) [OF assms]]])

definition flip_draw :: "32 word \<Rightarrow> bool \<Rightarrow> bool \<times> bool" where
  "flip_draw coverage g = (g, \<not> g)"

definition sample_port :: port where
  "sample_port = mk_port (\<lambda>_. 0) ''a'' [] Input [Bit 2] False"

definition sample_generator :: "bool tag_generator" where
  "sample_generator = DeterministicRandom \<lparr>rg_injected = 0, rg_ports = [], rg_coverage = 20,
     rg_gen = True, rg_cache = Map.empty\<rparr>"

theorem is_tagged_stable_witness:
  "fst (is_tagged flip_draw (\<lambda>p. 0) sample_port 3 (ask_all flip_draw (\<lambda>p. 0)
     [(sample_port, 4)] (snd (is_tagged flip_draw (\<lambda>p. 0) sample_port 3 sample_generator)))) = True"
proof -
  have "is_tagged flip_draw (\<lambda>p. 0) sample_port 3 sample_generator =
      (True, snd (is_tagged flip_draw (\<lambda>p. 0) sample_port 3 sample_generator))"
    by (simp add: flip_draw_def sample_generator_def decide_def)
  then show ?thesis using is_tagged_stable by blast
qed

text \<open>The counter of the random generator counts the decisions made on demand, not the tags.\<close>

lemma decide_simps [simp]:
  "rg_injected (snd (decide draw key r)) = rg_injected r"
  "rg_cache (snd (decide draw key r)) = (rg_cache r)(key \<mapsto> fst (decide draw key r))"
  by (simp_all add: decide_def split: prod.split)

lemma fold_decide:
  "rg_injected (fold (\<lambda>k r. snd (decide draw (key k) r)) ks r) = rg_injected r \<and>
   dom (rg_cache (fold (\<lambda>k r. snd (decide draw (key k) r)) ks r)) = key ` set ks \<union> dom (rg_cache r)"
  by (induction ks arbitrary: r) auto

lemma precompute_results_cached:
  "rg_injected (precompute_results draw hash_port (Some f) r) = rg_injected r \<and>
   dom (rg_cache (precompute_results draw hash_port (Some f) r)) =
     {(hash_port p, u) |p u. p \<in> set (rg_ports r) \<and> u \<in> set (vf_timestamps f)} \<union> dom (rg_cache r)"
proof -
  let ?one = "\<lambda>p. fold (\<lambda>u r. snd (decide draw (hash_port p, u) r)) (vf_timestamps f)"
  have "rg_injected (fold ?one ps r) = rg_injected r \<and> dom (rg_cache (fold ?one ps r)) =
     {(hash_port p, u) |p u. p \<in> set ps \<and> u \<in> set (vf_timestamps f)} \<union> dom (rg_cache r)" for ps
    by (induction ps arbitrary: r) (auto simp: fold_decide)
  then show ?thesis by (simp add: precompute_results_def)
qed

text \<open>
  For the ports and time points it was made for, the random generator never counts a tag: the
  number of injected tags is zero after any sequence of such queries.
\<close>

theorem random_counter_stays_zero:
  assumes "mk_random_generator draw hash_port ports (Some f) coverage gen = Inr t"
    and "set qs \<subseteq> set ports \<times> set (vf_timestamps f)"
  shows "get_number_of_injected_tags (ask_all draw hash_port qs t) = 0"
proof -
  obtain r where t: "t = DeterministicRandom r" and r: "r = precompute_results draw hash_port (Some f)
        \<lparr>rg_injected = 0, rg_ports = ports, rg_coverage = coverage, rg_gen = gen, rg_cache = Map.empty\<rparr>"
    using assms(1) by (auto simp: mk_random_generator_def split: if_splits)
  have cached: "rg_cache r (hash_port p, u) \<noteq> None" if "(p, u) \<in> set qs" for p u
    using that assms(2) precompute_results_cached [of draw hash_port f
        "\<lparr>rg_injected = 0, rg_ports = ports, rg_coverage = coverage, rg_gen = gen, rg_cache = Map.empty\<rparr>"]
    unfolding r domIff [symmetric] by auto
  have known: "ask_all draw hash_port us t = t" if "set us \<subseteq> set qs" for us
    using that
  proof (induction us)
    case (Cons x us)
    obtain p u where x: "x = (p, u)" by (cases x)
    then obtain b where "rg_cache r (hash_port p, u) = Some b" using cached [of p u] Cons.prems by auto
    then show ?case using Cons by (simp add: ask_all_def x t)
  qed (simp add: ask_all_def)
  have "ask_all draw hash_port qs t = t" by (rule known) simp
  then show ?thesis using precompute_results_cached [of draw hash_port f
        "\<lparr>rg_injected = 0, rg_ports = ports, rg_coverage = coverage, rg_gen = gen, rg_cache = Map.empty\<rparr>"]
    by (simp add: t r get_number_of_injected_tags_def)
qed

definition sample_vcd :: vcd_file where
  "sample_vcd = \<lparr>vf_timestamps = [0, 5], vf_values = (\<lambda>_. Inr []), vf_value_at = (\<lambda>_ _. Inr VEmpty),
     vf_signals = [], vf_scopes = [], vf_scope = (\<lambda>_. Inl OutOfRange), vf_root = None\<rparr>"

theorem random_counter_stays_zero_witness:
  "get_number_of_injected_tags (ask_all flip_draw (\<lambda>p. 0) [(sample_port, 0), (sample_port, 5)]
     (projr (mk_random_generator flip_draw (\<lambda>p. 0) [sample_port] (Some sample_vcd) 20 True))) = 0"
  by (rule random_counter_stays_zero [of flip_draw _ "[sample_port]" sample_vcd 20 True])
    (simp_all add: mk_random_generator_def max_coverage_def sample_vcd_def)

end
