(* ===== verification/Testbenches.thy ===== *)
theory Testbenches
  imports Designs SignalsData TagGenerators
begin

text \<open>
  Test benches (\<open>include/ducode/testbench.hpp\<close>, \<open>src/ducode/testbench.cpp\<close>): the Verilog text that
  replays the inputs of a waveform and reads tags from a file, and the text of these files.
  \<open>tb_tagged\<close> lists the tagged ports in the order in which the code iterates over its hash table.
\<close>

record 'g testbench =
  tb_design :: design
  tb_map :: vcd_manager
  tb_tagged :: "(string \<times> string) list"
  tb_generator :: "'g tag_generator option"

definition new_testbench :: "design \<Rightarrow> vcd_manager \<Rightarrow> 'g testbench" where
  "new_testbench d vm = \<lparr>tb_design = d, tb_map = vm, tb_tagged = [], tb_generator = None\<rparr>"

definition set_tag_generator :: "'g tag_generator \<Rightarrow> 'g testbench \<Rightarrow> 'g testbench" where
  "set_tag_generator g tb = tb\<lparr>tb_generator := Some g\<rparr>"

definition add_tags :: "(string \<times> string) list \<Rightarrow> 'g testbench \<Rightarrow> 'g testbench" where
  "add_tags tagged tb = tb\<lparr>tb_tagged := tagged\<rparr>"

definition tb_number_of_injected_tags :: "'g testbench \<Rightarrow> 32 word" where
  "tb_number_of_injected_tags tb =
     (case tb_generator tb of Some g \<Rightarrow> get_number_of_injected_tags g | None \<Rightarrow> 0)"

section \<open>Input values\<close>

text \<open>The last value not after the time; the earlier ones are erased, so it is the new front.\<close>

definition get_signal_value_at ::
  "string \<Rightarrow> int \<Rightarrow> (string \<rightharpoonup> signal_values) \<Rightarrow> (signal_value \<times> (string \<rightharpoonup> signal_values)) res"
where
  "get_signal_value_at hash time vals =
     bnd (of_opt (RuntimeError ''Signal not found'') (vals hash)) (\<lambda>vs.
     if vs = [] then Inl (RuntimeError ''Empty signal'')
     else
       (let passed = length (takeWhile (\<lambda>(t, _). t \<le> time) vs)
        in if passed = 0 then Inl (RuntimeError ''Element not found'')
           else (let rest = drop (passed - 1) vs in Inr (snd (hd rest), vals(hash \<mapsto> rest)))))"

text \<open>The digits of a value, filled from the left to the size of the signal.\<close>

definition value_text :: "64 word \<Rightarrow> signal_bit list \<Rightarrow> string" where
  "value_text sz bits =
     replicate (unat (sz - word_of_nat (length bits)))
       (if bits = [BIT_X] then CHR ''X'' else CHR ''0'') @ map signal_bit_to_char bits"

definition input_assignment ::
  "vcd_manager \<Rightarrow> int \<Rightarrow> signal_id \<Rightarrow> (string \<rightharpoonup> signal_values) \<times> string list \<Rightarrow>
   ((string \<rightharpoonup> signal_values) \<times> string list) res"
where
  "input_assignment vm time signal st =
     (case st of (vals, text) \<Rightarrow>
      bnd (vcd_get_signal vm signal) (\<lambda>info.
      bnd (get_signal_value_at (si_hash info) time vals) (\<lambda>(v, vals').
      bnd (bit_to_vector v) (\<lambda>bits.
      Inr (vals', text @ [fmt ''{} = {}'b'' [si_reference info, show_word (si_size info)],
                          value_text (si_size info) bits, '';\<newline>''])))))"

definition write_testbench_inputs :: "'g testbench \<Rightarrow> string list res" where
  "write_testbench_inputs tb =
     bnd (get_input_signal_ids (tb_design tb)) (\<lambda>input_ids.
     bnd (vcd_get_input_values (tb_map tb) input_ids) (\<lambda>vals.
     bnd (vcd_get_timestamps (tb_map tb)) (\<lambda>times.
     bnd (foldM (\<lambda>time (curr, vals, text).
            bnd (foldM (input_assignment (tb_map tb) time) input_ids
                   (vals, text @ [fmt ''#{};\<newline>'' [show_int (time - curr)]])) (\<lambda>(vals, text).
            Inr (time, vals, text))) times (0, vals, [''initial begin \<newline>''])) (\<lambda>(curr, vals, text).
     Inr (text @ [''$finish;\<newline>'', ''end\<newline>\<newline>''])))))"

section \<open>The body of the test bench\<close>

abbreviation wide :: "32 word \<Rightarrow> 64 word" where "wide \<equiv> ucast"

abbreviation tab :: string where "tab \<equiv> [CHR 0x09]"

text \<open>The first and the last bit of the field of a port, and of the field of the time.\<close>

definition port_start_bit :: "32 word \<Rightarrow> nat \<Rightarrow> nat \<Rightarrow> 64 word" where
  "port_start_bit tag_size n index =
     wide tag_size * (word_of_nat n + 1) - 1 - wide tag_size * word_of_nat index"

definition port_end_bit :: "32 word \<Rightarrow> nat \<Rightarrow> nat \<Rightarrow> 64 word" where
  "port_end_bit tag_size n index = port_start_bit tag_size n index - wide (tag_size - 1)"

definition time_start_bit :: "32 word \<Rightarrow> nat \<Rightarrow> 64 word" where
  "time_start_bit tag_size n = (wide tag_size * (word_of_nat n + 1) - 1) - wide tag_size * word_of_nat n"

definition time_end_bit :: "32 word \<Rightarrow> nat \<Rightarrow> 64 word" where
  "time_end_bit tag_size n = time_start_bit tag_size n - wide (tag_size - 1)"

definition simulation_data :: "32 word \<Rightarrow> nat \<Rightarrow> 32 word \<Rightarrow> string list" where
  "simulation_data tag_size n numLines =
     [fmt ''reg [{}:0] '' [show_word (wide tag_size * word_of_nat n + wide tag_size - 1)],
      if numLines \<le> 1 then ''read_simulation_data [0:0];\<newline>''
      else fmt ''read_simulation_data [0:{}];\<newline>'' [show_word (numLines - 1)]]"

definition instance_text :: "string \<Rightarrow> bool \<Rightarrow> string list \<Rightarrow> string" where
  "instance_text top_name ift names =
     fmt ''{}  Ins({});\<newline>\<newline>'' [top_name, join '', '' (concat (map (\<lambda>e.
       fmt ''.{}({})'' [legalize_identifier e, legalize_identifier e]
       # only ift [fmt ''.{}{}({}{})'' [legalize_identifier e, ift_tag, legalize_identifier e, ift_tag]])
       names))]"

definition clear_tags :: "string \<Rightarrow> 32 word \<Rightarrow> string list \<Rightarrow> string list" where
  "clear_tags path tag_size names =
     map (\<lambda>n. fmt ''{}{}{} = {}'b0;\<newline>'' [path, legalize_identifier n, ift_tag, show_word tag_size]) names"

text \<open>
  The reading of the tag file: \<open>before\<close> clears the tags first, \<open>targets\<close> are assigned from their
  fields, \<open>after\<close> clears tags after each line.
\<close>

definition read_tags :: "32 word \<Rightarrow> 32 word \<Rightarrow> string list \<Rightarrow> string list \<Rightarrow> string list \<Rightarrow> string list"
where
  "read_tags tag_size numLines before targets after =
     (let n = length targets;
          t_start = show_word (time_start_bit tag_size n);
          t_end = show_word (time_end_bit tag_size n)
      in [''initial begin \<newline>''] @ before
        @ [(tab @ ''$readmemb(`INPUT_FILE_NAME, read_simulation_data);\<newline>''),
           fmt (tab @ tab @ ''t = read_simulation_data[0][{}:{}];\<newline>'') [t_start, t_end], (tab @ tab @ ''#t;\<newline>''),
           fmt (tab @ tab @ ''for(i = 1; i <= {}; i++) begin\<newline>'') [show_word (numLines - 1)]]
        @ map (\<lambda>(index, target). fmt (tab @ tab @ ''{} = read_simulation_data[i][{}:{}];\<newline>'')
            [target, show_word (port_start_bit tag_size n index),
             show_word (port_end_bit tag_size n index)]) (enumerate 0 targets)
        @ [fmt (tab @ tab @ ''t = read_simulation_data[i][{}:{}];\<newline>'') [t_start, t_end], (tab @ tab @ ''#t;\<newline>'')]
        @ after @ [(tab @ ''end\<newline>''), ''end\<newline>\<newline>''])"

text \<open>Tags on chosen ports: a tag is injected where the port differs from its trigger.\<close>

definition tagged_port_text :: "module \<Rightarrow> nat \<times> string \<times> string \<Rightarrow> string list res" where
  "tagged_port_text tm e =
     (case e of (index, target, trigger) \<Rightarrow>
      bnd (module_get_port tm target) (\<lambda>p.
      bnd (module_get_port tm trigger) (\<lambda>q.
      let i = show_nat index; i' = show_nat (index + 1) in
      Inr [fmt ''assign s{} = {} != {};\<newline>'' [i, pt_name p, pt_name q],
           fmt ''assign {}{} = s{} ? tag_{} : 0;\<newline>'' [pt_name p, ift_tag, i, i],
           fmt ''assign tag_{} = s{} ? tag_{} << 1 : tag_{};\<newline>'' [i', i, i, i]])))"

definition tagged_ports_text :: "module \<Rightarrow> 32 word \<Rightarrow> (string \<times> string) list \<Rightarrow> string list res" where
  "tagged_ports_text tm tag_size tagged =
     (if tagged = [] then Inr []
      else
        bnd (mapM (tagged_port_text tm) (enumerate 0 tagged)) (\<lambda>assigns.
        Inr ([fmt ''reg [{}:0] tag = 1;\<newline>'' [show_word tag_size]]
          @ concat (map (\<lambda>i. [fmt ''wire [{}:0] tag_{};\<newline>'' [show_word tag_size, show_nat i],
                               fmt ''wire s{};\<newline>'' [show_nat i]]) [0..<length tagged])
          @ [fmt ''wire [{}:0] tag_{};\<newline>'' [show_word tag_size, show_nat (length tagged)],
             ''assign tag_0 =  (^tag === 1'bx) ? 1 :  tag;\<newline>'']
          @ concat assigns
          @ map (\<lambda>p. fmt ''assign {}{} = 0;\<newline>'' [pt_name p, ift_tag])
              (filter (\<lambda>p. pt_name p \<notin> fst ` set tagged \<and> pt_direction p = Input) (m_ports tm))
          @ [''always @(posedge clk) begin\<newline>'',
             fmt ''    tag = tag_{};\<newline>'' [show_nat (length tagged)], ''end\<newline>''])))"

text \<open>The parameters, and the number of lines of the tag file when tags are read from one.\<close>

definition internals_params :: "'g testbench \<Rightarrow> json \<Rightarrow> (32 word \<times> bool \<times> 32 word) res" where
  "internals_params tb params =
     bnd (bnd (jindex params ''tag_size'') get_uint32) (\<lambda>tag_size.
     bnd (bnd (jindex params ''ift'') json_bool) (\<lambda>ift.
     bnd (if ift \<and> tb_tagged tb = [] then
            chk (jcontains params ''timesteps_per_simulation_run'') Contract (
            bnd (jindex params ''timesteps_per_simulation_run'') get_uint32)
          else Inr 0) (\<lambda>numLines.
     Inr (tag_size, ift, numLines))))"

text \<open>
  Both versions of the body: the tags of \<open>tagged\<close> (a list of names below \<open>path\<close>, assigned with
  \<open>keyword\<close>) are read from the file.
\<close>

definition internals_text ::
  "'g testbench \<Rightarrow> 32 word \<times> bool \<times> 32 word \<Rightarrow> string \<Rightarrow> string \<Rightarrow> string list \<Rightarrow> string list res"
where
  "internals_text tb ps keyword path tagged =
     (case ps of (tag_size, ift, numLines) \<Rightarrow>
      bnd (get_top_module (tb_design tb)) (\<lambda>(tm, _).
      bnd (tagged_ports_text tm tag_size (tb_tagged tb)) (\<lambda>tagged_text.
      bnd (write_testbench_inputs tb) (\<lambda>inputs.
      Inr ([''integer i;\<newline>'', ''integer t;\<newline>\<newline>'']
        @ only (ift \<and> tb_tagged tb = [])
            (only (0 < numLines) (simulation_data tag_size (length tagged) numLines) @ [''\<newline>\<newline>''])
        @ [instance_text (m_name tm) ift (get_input_names tm @ get_output_names tm)]
        @ only (ift \<and> 0 < numLines) (read_tags tag_size numLines (clear_tags path tag_size tagged)
            (map (\<lambda>n. fmt ''{}{}{}{}'' [keyword, path, legalize_identifier n, ift_tag]) tagged)
            (clear_tags [] tag_size (get_input_names tm)))
        @ tagged_text @ inputs)))))"

definition write_testbench_internals :: "'g testbench \<Rightarrow> json \<Rightarrow> string list res" where
  "write_testbench_internals tb params =
     chk (jcontains params ''tag_size'') Contract (
     chk (jcontains params ''ift'') Contract (
     bnd (internals_params tb params) (\<lambda>ps.
     bnd (get_top_module (tb_design tb)) (\<lambda>(tm, _).
     internals_text tb ps '''' '''' (get_input_names tm)))))"

text \<open>The tagged module and the path of its instance are fixed in the code.\<close>

definition write_testbench_internals_internal_module_tagging ::
  "'g testbench \<Rightarrow> json \<Rightarrow> string list res"
where
  "write_testbench_internals_internal_module_tagging tb params =
     chk (jcontains params ''tag_size'') Contract (
     chk (jcontains params ''ift'') Contract (
     chk (jcontains params ''tagged_module_name'') Contract (
     bnd (bnd (jindex params ''tagged_module_name'') get_string) (\<lambda>tagged_module_name.
     bnd (of_opt Assertion (find (\<lambda>(m, g). m_name m = ''assignerCoreSec'') (d_modules (tb_design tb))))
       (\<lambda>(tagged_module, _).
     bnd (internals_params tb params) (\<lambda>ps.
     internals_text tb ps ''force '' ''Ins.sm.ac.'' (get_output_names tagged_module)))))))"

definition port_header :: "bool \<Rightarrow> bool \<Rightarrow> 32 word \<Rightarrow> port \<Rightarrow> string list" where
  "port_header ift no_tagged tag_size p =
     (let type_string = (if pt_direction p = Input then ''reg'' else ''wire'')
      in [fmt ''{} {}{};\<newline>'' [type_string,
            fmt '' [{}:0] '' [show_word (word_of_nat (length (pt_bits p)) - 1 :: 64 word)],
            legalize_identifier (pt_name p)]]
        @ only ift
            [if no_tagged then fmt ''{} [{}:0] {}{}{};\<newline>'' [type_string, show_word (tag_size - 1),
                legalize_identifier (pt_name p), ift_tag, if type_string = ''reg'' then '' = 0'' else '''']
             else fmt ''{} [{}:0] {}{};\<newline>'' [''wire'', show_word (tag_size - 1),
                legalize_identifier (pt_name p), ift_tag]])"

definition export_testbench :: "'g testbench \<Rightarrow> json \<Rightarrow> string list res" where
  "export_testbench tb params =
     chk (jcontains params ''tag_size'') Contract (
     chk (jcontains params ''ift'') Contract (
     bnd (bnd (jindex params ''tag_size'') get_uint32) (\<lambda>tag_size.
     bnd (bnd (jindex params ''ift'') json_bool) (\<lambda>ift.
     bnd (if jcontains params ''dumpvars_lvl'' then bnd (jindex params ''dumpvars_lvl'') get_int else Inr 0)
       (\<lambda>dumpvars_lvl.
     bnd (get_module (tb_design tb) (d_top (tb_design tb))) (\<lambda>(tm, _).
     bnd (if jcontains params ''tagged_module_name''
          then write_testbench_internals_internal_module_tagging tb params
          else write_testbench_internals tb params) (\<lambda>internals.
     Inr ([fmt ''module {}_tb;\<newline>'' [m_name tm]]
       @ concat (map (port_header ift (tb_tagged tb = []) tag_size) (m_ports tm))
       @ internals
       @ [''initial\<newline>begin\<newline>'', (tab @ ''$dumpfile(`DUMP_FILE_NAME);\<newline>''),
          fmt (tab @ ''$dumpvars({});\<newline>'') [show_int dumpvars_lvl], ''end\<newline>\<newline>\<newline>endmodule'']))))))))"

end
