(* ===== verification/TagFiles.thy ===== *)
theory TagFiles
  imports Testbenches
begin

text \<open>
  The files with the tags (\<open>Testbench::export_tags\<close>, \<open>export_tags_internal_module_tagging\<close> and
  \<open>write_tags\<close> of \<open>src/ducode/testbench.cpp\<close>). A line is a bitset, the list of its bits from the
  lowest on; it is printed from the highest bit on.
\<close>

section \<open>Lines\<close>

definition bitset_of :: "64 word \<Rightarrow> 64 word \<Rightarrow> bool list" where
  "bitset_of w v = map (\<lambda>i. bit v i) [0..<unat w]"

definition bitset_text :: "bool list \<Rightarrow> string" where
  "bitset_text bs = map (\<lambda>b. if b then CHR ''1'' else CHR ''0'') (rev bs)"

text \<open>A field for each name, and one for the time.\<close>

definition line_width :: "32 word \<Rightarrow> nat \<Rightarrow> 64 word" where
  "line_width tag_size n = word_of_nat n * wide tag_size + wide tag_size"

text \<open>
  The bit of the tag for a name and a line. The index and the line number are signed 64-bit
  numbers, so the arithmetic is that of \<open>int\<close>; \<open>stride\<close> is the number of tags of a line.
\<close>

definition bit_position :: "32 word \<Rightarrow> nat \<Rightarrow> 32 word \<Rightarrow> nat \<Rightarrow> nat \<Rightarrow> int res" where
  "bit_position tag_size n stride index idx =
     bnd (narrow_u32 (uint (line_width tag_size n - wide tag_size))) (\<lambda>fields.
     Inr (uint fields - (int index * uint tag_size - int index) + int idx * uint stride))"

definition set_tag :: "int \<Rightarrow> bool list \<Rightarrow> bool list res" where
  "set_tag pos line =
     bnd (narrow_size pos) (\<lambda>p. if unat p < length line then Inr (line[unat p := True]) else Inl Undefined)"

record 'g tag_context =
  tc_draw :: "32 word \<Rightarrow> 'g \<Rightarrow> bool \<times> 'g"
  tc_hash :: "port \<Rightarrow> 64 word"

text \<open>The tag of one name; the state is the line, the generator and the number of tags.\<close>

definition tag_port ::
  "'g tag_context \<Rightarrow> module \<Rightarrow> 32 word \<Rightarrow> nat \<Rightarrow> 32 word res \<Rightarrow> nat \<Rightarrow> int \<Rightarrow> nat \<times> string \<Rightarrow>
   bool list \<times> 'g tag_generator option \<times> int \<Rightarrow> (bool list \<times> 'g tag_generator option \<times> int) res"
where
  "tag_port tc m tag_size n stride idx tag_time e st =
     (case (e, st) of ((index, name), (line, gen, number)) \<Rightarrow>
      bnd (module_get_port m name) (\<lambda>p.
      bnd (of_opt Undefined gen) (\<lambda>gen.
      let (tagged, gen') = is_tagged (tc_draw tc) (tc_hash tc) p tag_time gen in
      if tagged then
        bnd stride (\<lambda>stride.
        bnd (bit_position tag_size n stride index idx) (\<lambda>pos.
        bnd (set_tag pos line) (\<lambda>line'. Inr (line', Some gen', number + 1))))
      else Inr (line, Some gen', number))))"

text \<open>The time to the next line; the last line repeats the one before.\<close>

definition line_delta :: "int list \<Rightarrow> nat \<Rightarrow> int \<Rightarrow> int" where
  "line_delta tags_times idx prev_delta =
     (if idx + 1 < length tags_times then tags_times ! (idx + 1) - tags_times ! idx else prev_delta)"

definition tag_line ::
  "'g tag_context \<Rightarrow> module \<Rightarrow> string list \<Rightarrow> 32 word \<Rightarrow> 32 word res \<Rightarrow> 32 word \<Rightarrow> int list \<Rightarrow> nat \<times> int \<Rightarrow>
   string list \<times> int \<times> 'g tag_generator option \<times> int \<Rightarrow>
   (string list \<times> int \<times> 'g tag_generator option \<times> int) res"
where
  "tag_line tc m names tag_size stride stepsize tags_times e st =
     (case (e, st) of ((idx, tag_time), (text, prev_delta, gen, number)) \<Rightarrow>
      let delta = line_delta tags_times idx prev_delta in
      bnd (narrow_u32 delta) (\<lambda>d.
      bnd (foldM (tag_port tc m tag_size (length names) stride idx tag_time) (enumerate 0 names)
             (bitset_of (line_width tag_size (length names)) (wide (max d stepsize)), gen, number))
        (\<lambda>(line, gen, number).
      Inr (text @ [bitset_text line, ''\<newline>''], delta, gen, number))))"

text \<open>
  The whole file: first the time of the first tags, then one line for each time. The result has
  the number of the tags and the generator.
\<close>

definition tag_file ::
  "'g tag_context \<Rightarrow> 'g testbench \<Rightarrow> module \<Rightarrow> string list \<Rightarrow> 32 word res \<Rightarrow> int list \<Rightarrow>
   32 word \<Rightarrow> 32 word \<Rightarrow> (string list \<times> int \<times> 'g tag_generator option) res"
where
  "tag_file tc tb m names stride tags_times tag_size stepsize =
     bnd (bnd (at_index tags_times 0) narrow_size) (\<lambda>t.
     bnd (foldM (tag_line tc m names tag_size stride stepsize tags_times) (enumerate 0 tags_times)
            ([bitset_text (bitset_of (line_width tag_size (length names)) t), ''\<newline>''],
             0, tb_generator tb, 0))
       (\<lambda>(text, prev_delta, gen, number). Inr (text, number, gen)))"

definition tags_params :: "json \<Rightarrow> (32 word \<times> 32 word) res" where
  "tags_params params =
     bnd (bnd (jindex params ''tag_size'') get_uint32) (\<lambda>tag_size.
     bnd (if jcontains params ''stepsize'' then bnd (jindex params ''stepsize'') get_uint32 else Inr 1)
       (\<lambda>stepsize. Inr (tag_size, stepsize)))"

definition export_tags ::
  "'g tag_context \<Rightarrow> 'g testbench \<Rightarrow> int list \<Rightarrow> json \<Rightarrow>
   (string list \<times> int \<times> 'g tag_generator option) res"
where
  "export_tags tc tb tags_times params =
     chk (jcontains params ''tag_size'') Contract (
     bnd (tags_params params) (\<lambda>(tag_size, stepsize).
     chk (length (tb_tagged tb) \<le> unat tag_size) (RuntimeError ''Tag size must be greater than tagged ports.'') (
     bnd (get_module (tb_design tb) (d_top (tb_design tb))) (\<lambda>(m, _).
     tag_file tc tb m (get_input_names m) (narrow_u32 (int (length (get_input_names m)))) tags_times
       tag_size stepsize))))"

text \<open>The tags go to the outputs of a named module, but the stride is that of the top module.\<close>

definition export_tags_internal_module_tagging ::
  "'g tag_context \<Rightarrow> 'g testbench \<Rightarrow> int list \<Rightarrow> json \<Rightarrow>
   (string list \<times> int \<times> 'g tag_generator option) res"
where
  "export_tags_internal_module_tagging tc tb tags_times params =
     chk (jcontains params ''tag_size'') Contract (
     bnd (tags_params params) (\<lambda>(tag_size, stepsize).
     chk (jcontains params ''tagged_module_name'') Contract (
     bnd (bnd (jindex params ''tagged_module_name'') get_string) (\<lambda>tagged_module_name.
     chk (length (tb_tagged tb) \<le> unat tag_size) (RuntimeError ''Tag size must be greater than tagged ports.'') (
     bnd (get_module (tb_design tb) tagged_module_name) (\<lambda>(m, _).
     tag_file tc tb m (get_output_names m)
       (bnd (get_module (tb_design tb) (d_top (tb_design tb))) (\<lambda>(tm, _).
        narrow_u32 (int (length (get_output_names tm))))) tags_times tag_size stepsize))))))"

text \<open>One file after the other; the generator goes on from one to the next.\<close>

definition write_tags ::
  "'g tag_context \<Rightarrow> 'g testbench \<Rightarrow> (int list \<times> 'p) list \<Rightarrow> json \<Rightarrow>
   (('p \<times> string list) list \<times> 'g testbench) res"
where
  "write_tags tc tb tags_intervals params =
     foldM (\<lambda>(tags_times, tags_file) (files, tb).
       bnd (if jcontains params ''tagged_module_name''
            then export_tags_internal_module_tagging tc tb tags_times params
            else export_tags tc tb tags_times params) (\<lambda>(text, number, gen).
       Inr (files @ [(tags_file, text)], tb\<lparr>tb_generator := gen\<rparr>))) tags_intervals ([], tb)"

end
