(* ===== verification/SimulationFacts.thy ===== *)
theory SimulationFacts
  imports Simulation
begin

text \<open>
  Correctness of the plan of the simulations: the step of the clock, the time points, the number of
  the runs in double precision, and which time points the batches of all runs cover.
\<close>

section \<open>The step of the clock\<close>

text \<open>
  The step that is read from a waveform is always 1: the constructor assigns 1 after its loop,
  whatever step the clock has.
\<close>

theorem stepsize_always_one:
  "stepsize_of_vcd f clk_name = Inr s \<Longrightarrow> s = 1"
  by (auto simp: stepsize_of_vcd_def bnd_eq_Inr chk_eq_Inr split: prod.splits)

section \<open>Time points\<close>

lemma tags_loop_step:
  assumes "0 < s" "back + int s < 2 ^ 32" "unat time = i * s" "uint (st :: 32 word) = int s"
    and "nat back div s + 1 - i < k" "0 \<le> back"
  shows "tags_loop k back st time = Inr (map (\<lambda>j. int (j * s)) [i..<nat back div s + 1])"
  using assms(3,5)
proof (induction k arbitrary: i time)
  case (Suc k)
  have time: "uint time = int (i * s)" using Suc.prems(1) by (metis uint_nat)
  show ?case
  proof (cases "uint time \<le> back")
    case True
    then have "i * s \<le> nat back" using time by linarith
    then have i: "i \<le> nat back div s" using assms(1) by (simp add: less_eq_div_iff_mult_less_eq)
    have "uint time + uint st < 2 ^ 32" using True assms(2,4) by simp
    then have "uint (time + st) = uint time + uint st" by (simp add: uint_word_ariths mod_pos_pos_trivial)
    then have nxt: "unat (time + st) = Suc i * s"
      using time assms(4) by (metis (mono_tags) add.commute mult_Suc nat_int of_nat_add unat_eq_nat_uint)
    have "tags_loop k back st (time + st) = Inr (map (\<lambda>j. int (j * s)) [Suc i..<nat back div s + 1])"
      by (rule Suc.IH [OF nxt]) (use Suc.prems(2) i in simp)
    then show ?thesis using True i time by (simp add: upt_rec)
  next
    case False
    then have "nat back < i * s" using time assms(6) by linarith
    then have "nat back div s < i" by (simp add: div_less_iff_less_mult assms(1))
    then show ?thesis using False by simp
  qed
qed simp


lemma tags_loop_endless:
  "2 ^ 32 - 1 \<le> back \<Longrightarrow> tags_loop k back st time = Inl Diverges"
proof (induction k arbitrary: time)
  case (Suc k)
  have "uint time \<le> back" using Suc.prems uint_lt2p [of time] by simp
  then show ?case using Suc by simp
qed simp

lemma tags_times_aux:
  assumes "last_time f = Inr back" "0 \<le> back" "back < 2 ^ 64" "0 < stepsize"
  shows "(back + uint stepsize < 2 ^ 32 \<longrightarrow> get_tags_times (2 ^ 32) f stepsize =
      Inr (map (\<lambda>j. int (j * unat stepsize)) [0..<nat back div unat stepsize + 1])) \<and>
    (2 ^ 32 - 1 \<le> back \<longrightarrow> (\<forall>fuel. get_tags_times fuel f stepsize = Inl Diverges))"
proof (intro conjI impI allI)
  have s: "0 < unat stepsize" using assms(4) by (simp add: word_gt_0 unat_gt_0)
  have narrow: "narrow_size back = Inr (word_of_int back)" "uint (word_of_int back :: 64 word) = back"
    using assms(2,3) by (simp_all add: narrow_size_def unsigned_of_int take_bit_int_eq_self)
  show "get_tags_times fuel f stepsize = Inl Diverges" if "2 ^ 32 - 1 \<le> back" for fuel
    using that assms narrow by (simp add: get_tags_times_def tags_loop_endless)
  assume small: "back + uint stepsize < 2 ^ 32"
  have "nat back div unat stepsize \<le> nat back" by simp
  moreover have "back < 2 ^ 32 - 1" using small s unfolding uint_nat by linarith
  then have "nat back < 2 ^ 32 - 1" using assms(2) by (simp add: nat_less_iff)
  ultimately have "nat back div unat stepsize + 1 - 0 < (2::nat) ^ 32" by linarith
  from tags_loop_step [OF s _ _ _ this assms(2)] have "tags_loop (2 ^ 32) back stepsize 0 =
      Inr (map (\<lambda>j. int (j * unat stepsize)) [0..<nat back div unat stepsize + 1])"
    using small by (simp only: uint_nat unat_0 mult_zero_left)
  then show "get_tags_times (2 ^ 32) f stepsize =
      Inr (map (\<lambda>j. int (j * unat stepsize)) [0..<nat back div unat stepsize + 1])"
    using assms narrow by (simp add: get_tags_times_def)
qed

text \<open>
  The time points that get tags are the multiples of the step up to the last time of the
  waveform, as long as this time and one more step fit into 32 bits. From the last such time on,
  the counter of the loop wraps and the loop never ends.
\<close>

theorem tags_times_multiples:
  assumes "last_time f = Inr back" "0 \<le> back" "back < 2 ^ 64" "0 < stepsize"
  shows "(back + uint stepsize < 2 ^ 32 \<longrightarrow> get_tags_times (2 ^ 32) f stepsize =
      Inr (map (\<lambda>j. int (j * unat stepsize)) [0..<nat back div unat stepsize + 1])) \<and>
    (2 ^ 32 - 1 \<le> back \<longrightarrow> (\<forall>fuel. get_tags_times fuel f stepsize = Inl Diverges))"
  by (rule tags_times_aux [OF assms])

section \<open>The number of runs\<close>

text \<open>
  What the code relies on of double precision: integers up to \<open>2 ^ 53\<close> are exact, and the relative
  error is at most \<open>1 / 2 ^ 53\<close> away from the ends of the range.
\<close>

definition rounds_doubles :: "(real \<Rightarrow> real) \<Rightarrow> bool" where
  "rounds_doubles rnd \<longleftrightarrow> (\<forall>i :: int. \<bar>i\<bar> \<le> 2 ^ 53 \<longrightarrow> rnd (real_of_int i) = real_of_int i) \<and>
     (\<forall>x. 1 / 2 ^ 100 \<le> \<bar>x\<bar> \<and> \<bar>x\<bar> \<le> 2 ^ 100 \<longrightarrow> \<bar>rnd x - x\<bar> \<le> \<bar>x\<bar> / 2 ^ 53)"

lemma rounds_doubles_int: "rounds_doubles rnd \<Longrightarrow> \<bar>i\<bar> \<le> 2 ^ 53 \<Longrightarrow> rnd (real_of_int i) = real_of_int i"
  by (simp add: rounds_doubles_def)

lemma rounds_doubles_error:
  "rounds_doubles rnd \<Longrightarrow> 1 / 2 ^ 100 \<le> x \<Longrightarrow> x \<le> 2 ^ 100 \<Longrightarrow> \<bar>rnd x - x\<bar> \<le> x / 2 ^ 53"
  unfolding rounds_doubles_def by (metis abs_of_nonneg divide_nonneg_nonneg order_trans zero_le_numeral zero_le_one zero_le_power)

lemma ceiling_quotient:
  fixes a b c :: int
  assumes "rounds_doubles rnd" "0 \<le> a" "a < 2 ^ 32" "0 < b" "b < 2 ^ 32" "0 < c" "c < 2 ^ 32"
  shows "\<lceil>rnd (rnd (real_of_int a / real_of_int b) / real_of_int c)\<rceil> = \<lceil>real_of_int a / real_of_int (b * c)\<rceil>"
proof (cases "b * c dvd a")
  case True
  then obtain k where k: "a = b * c * k" by (auto elim: dvdE)
  have "0 \<le> k" using k assms(2,4,6) by (metis zero_le_mult_iff mult_pos_pos not_le)
  have "c * k \<le> a" using k assms(4,6) \<open>0 \<le> k\<close> mult_right_mono [of 1 b "c * k"]
    by (simp add: mult.assoc)
  moreover have "k \<le> c * k" using assms(6) \<open>0 \<le> k\<close> by (simp add: mult_le_cancel_right1)
  ultimately have small: "\<bar>c * k\<bar> \<le> 2 ^ 53" "\<bar>k\<bar> \<le> 2 ^ 53" using \<open>0 \<le> k\<close> assms(3,6) by auto
  have "real_of_int a / real_of_int b = real_of_int (c * k)" using k assms(4) by simp
  moreover have "real_of_int (c * k) / real_of_int c = real_of_int k" using assms(6) by simp
  ultimately have "rnd (rnd (real_of_int a / real_of_int b) / real_of_int c) = real_of_int k"
    using rounds_doubles_int [OF assms(1)] small by metis
  then show ?thesis using k assms(4,6) by simp
next
  case False
  then have "0 < a" using assms(2) by (cases "a = 0") auto
  define B where "B = real_of_int (b * c)"
  define A where "A = real_of_int a / real_of_int b"
  define q where "q = real_of_int a / B"
  define x where "x = rnd A"
  define y where "y = rnd (x / real_of_int c)"
  have ranges: "1 \<le> real_of_int b" "1 \<le> real_of_int c" "real_of_int b < 2 ^ 32" "real_of_int c < 2 ^ 32"
    "1 \<le> real_of_int a" "real_of_int a < 2 ^ 32" using assms \<open>0 < a\<close> by auto
  have B: "B = real_of_int b * real_of_int c" "0 < B" using ranges by (simp_all add: B_def)
  have A: "1 / 2 ^ 32 \<le> A" "A \<le> 2 ^ 32" "q = A / real_of_int c"
    using ranges by (simp_all add: A_def q_def B field_simps)
  have x: "\<bar>x - A\<bar> \<le> A / 2 ^ 53"
    unfolding x_def by (rule rounds_doubles_error [OF assms(1)]) (use A in simp_all)
  then have "A - A / 2 ^ 53 \<le> x" "x \<le> A + A / 2 ^ 53" by linarith+
  moreover have "A / 2 ^ 53 \<le> A / 2" "0 \<le> A" using A(1) by simp_all
  ultimately have "A / 2 \<le> x" "x \<le> 2 * A" by linarith+
  then have xr: "1 / 2 ^ 33 \<le> x" "x \<le> 2 ^ 33" using A(1,2) by simp_all
  have zr: "1 / 2 ^ 65 \<le> x / real_of_int c" "x / real_of_int c \<le> 2 ^ 33"
    using xr ranges by (simp_all add: field_simps) 
  have y: "\<bar>y - x / real_of_int c\<bar> \<le> (x / real_of_int c) / 2 ^ 53"
    unfolding y_def
    by (rule rounds_doubles_error [OF assms(1) order_trans [OF _ zr(1)] order_trans [OF zr(2)]]) simp_all
  have "x / real_of_int c - q = (x - A) / real_of_int c" by (simp add: A(3) diff_divide_distrib)
  then have z: "\<bar>x / real_of_int c - q\<bar> \<le> q / 2 ^ 53"
    using x ranges by (simp add: A(3) abs_divide field_simps)
  have "0 < q" using A ranges by simp
  then have "q / 2 ^ 53 \<le> q" by simp
  then have "x / real_of_int c \<le> 2 * q" using z by linarith
  then have "x / real_of_int c / 2 ^ 53 \<le> 2 * (q / 2 ^ 53)" by simp
  then have "\<bar>y - q\<bar> \<le> 3 * (q / 2 ^ 53)" using y z by linarith
  moreover have "3 * (q / 2 ^ 53) < 1 / B" using ranges B(2) by (simp add: q_def field_simps)
  ultimately have close: "\<bar>y - q\<bar> < 1 / B" by simp
  define k where "k = \<lceil>q\<rceil>"
  have "real_of_int a < real_of_int k * B" 
  proof -
    have "q \<le> real_of_int k" by (simp add: k_def)
    then have "real_of_int a \<le> real_of_int k * B" using B(2) by (simp add: q_def field_simps)
    then have "a \<le> k * (b * c)" unfolding B_def by (metis of_int_le_iff of_int_mult)
    moreover have "a \<noteq> k * (b * c)" using False by auto
    ultimately show ?thesis unfolding B_def by (metis less_le of_int_less_iff of_int_mult)
  qed
  then have "a + 1 \<le> k * (b * c)" unfolding B_def by (metis of_int_less_iff of_int_mult zless_iff_Suc_zadd add1_zle_eq)
  then have "real_of_int a + 1 \<le> real_of_int k * B" unfolding B_def by (metis of_int_le_iff of_int_mult of_int_add of_int_1)
  then have up: "q + 1 / B \<le> real_of_int k" using B(2) by (simp add: q_def field_simps)
  have "real_of_int k - 1 < q" unfolding k_def by linarith
  then have "(real_of_int k - 1) * B < real_of_int a" using B(2) by (simp add: q_def field_simps)
  then have "(k - 1) * (b * c) + 1 \<le> a" unfolding B_def by (metis add1_zle_eq of_int_1 of_int_diff of_int_less_iff of_int_mult)
  then have "(real_of_int k - 1) * B + 1 \<le> real_of_int a" unfolding B_def by (metis of_int_1 of_int_add of_int_diff of_int_le_iff of_int_mult)
  then have "((real_of_int k - 1) * B + 1) / B \<le> q" using B(2) by (simp add: q_def divide_right_mono)
  then have down: "real_of_int k - 1 + 1 / B \<le> q" using B(2) by (simp add: add_divide_distrib)
  have "\<lceil>y\<rceil> = k" using close up down by (intro ceiling_unique) linarith+
  then show ?thesis by (simp add: k_def y_def x_def A_def q_def B_def)
qed


lemma ceiling_quotient_nat:
  assumes "rounds_doubles rnd" "a < 2 ^ 32" "0 < b" "b < 2 ^ 32" "0 < c" "c < 2 ^ 32"
  shows "\<lceil>rnd (rnd (real a / real b) / real c)\<rceil> = \<lceil>real a / real (b * c)\<rceil>"
  using ceiling_quotient [OF assms(1), of "int a" "int b" "int c"] assms by simp

definition ceil_div :: "nat \<Rightarrow> nat \<Rightarrow> nat" where
  "ceil_div a b = (a + b - 1) div b"

lemma ceil_div_bounds:
  assumes "0 < b"
  shows "a \<le> ceil_div a b * b" "ceil_div a b * b < a + b"
proof -
  have "a + b - 1 = (a + b - 1) div b * b + (a + b - 1) mod b" "(a + b - 1) mod b < b"
    using assms by simp_all
  then show "a \<le> ceil_div a b * b" "ceil_div a b * b < a + b"
    unfolding ceil_div_def using assms by linarith+
qed

lemma ceiling_ceil_div:
  assumes "0 < b"
  shows "\<lceil>real a / real b\<rceil> = int (ceil_div a b)"
proof (rule ceiling_unique)
  have le: "real a \<le> real (ceil_div a b * b)" "real (ceil_div a b * b) < real a + real b"
    using ceil_div_bounds [OF assms, of a] by (metis of_nat_le_iff, metis of_nat_add of_nat_less_iff)
  then show "real a / real b \<le> real_of_int (int (ceil_div a b))" using assms by (simp add: field_simps)
  have "(real (ceil_div a b) - 1) * real b < real a" using le(2) by (simp add: left_diff_distrib)
  then show "real_of_int (int (ceil_div a b)) - 1 < real a / real b" using assms by (simp add: pos_less_divide_eq)
qed

lemma number_of_runs_aux:
  assumes "rounds_doubles rnd" "last_time f = Inr back" "0 \<le> back" "0 < stepsize" "0 < timesteps"
    and "nat back + unat stepsize * unat timesteps \<le> 2 ^ 32"
  shows "get_number_of_simulation_runs rnd stepsize timesteps f =
      Inr (word_of_nat (ceil_div (nat back) (unat stepsize * unat timesteps)))" 
    and "ceil_div (nat back) (unat stepsize * unat timesteps) < 2 ^ 32"
proof -
  let ?s = "unat stepsize" and ?t = "unat timesteps"
  let ?r = "ceil_div (nat back) (?s * ?t)"
  have st: "0 < ?s" "0 < ?t" using assms(4,5) by (simp_all add: word_gt_0 unat_gt_0)
  then have pos: "0 < ?s * ?t" by simp
  have b: "nat back < 2 ^ 32" using pos assms(6) by linarith
  have total: "?r * (?s * ?t) < 2 ^ 32" "nat back \<le> ?r * (?s * ?t)"
    using ceil_div_bounds [OF pos, of "nat back"] assms(6) by linarith+
  moreover have "?r \<le> ?r * (?s * ?t)" using pos by simp
  ultimately show r: "?r < 2 ^ 32" by linarith
  have eqs: "back = int (nat back)" "uint stepsize = int ?s" "uint timesteps = int ?t"
    by (simp add: assms(3)) (rule uint_nat)+
  have lt: "unat stepsize < 2 ^ 32" "unat timesteps < 2 ^ 32"
    using unsigned_less [of stepsize] unsigned_less [of timesteps] by simp_all
  have narrow: "narrow_double rnd (int n) = Inr (real n)" if "n < 2 ^ 32" for n
    using rounds_doubles_int [OF assms(1), of "int n"] that by (simp add: narrow_double_def)
  have "\<lceil>rnd (rnd (real (nat back) / real ?s) / real ?t)\<rceil> = \<lceil>real (nat back) / real (?s * ?t)\<rceil>"
    by (rule ceiling_quotient_nat [OF assms(1)]) (use b st lt in simp_all)
  then have c: "\<lceil>rnd (rnd (real (nat back) / real ?s) / real ?t)\<rceil> = int ?r"
    using ceiling_ceil_div [OF pos] by simp
  have "?r * ?s \<le> ?r * (?s * ?t)" using st by simp
  then have "?r * ?s < 2 ^ 32" using total(1) by linarith
  then have product: "unat ((word_of_nat ?r :: 32 word) * stepsize * timesteps) = ?r * ?s * ?t"
    using r total(1) [folded mult.assoc]
    by (simp add: unat_word_ariths unsigned_of_nat take_bit_nat_eq_self)
  have holds: "word_of_nat (nat back) \<le> (word_of_nat ?r :: 32 word) * stepsize * timesteps"
    using b total(2) [folded mult.assoc]
    by (simp add: word_le_nat_alt product unsigned_of_nat take_bit_nat_eq_self)
  have reads: "narrow_double rnd back = Inr (real (nat back))"
    "narrow_double rnd (uint stepsize) = Inr (real ?s)" "narrow_double rnd (uint timesteps) = Inr (real ?t)"
    using narrow [OF b] narrow [OF lt(1)] narrow [OF lt(2)] unfolding eqs [symmetric] by blast+
  have u32: "narrow_u32 (int n) = Inr (word_of_nat n)" if "n < 2 ^ 32" for n
    using that by (simp add: narrow_u32_def)
  have "narrow_u32 back = Inr (word_of_nat (nat back))" using u32 [OF b] eqs(1) by metis
  then show "get_number_of_simulation_runs rnd stepsize timesteps f = Inr (word_of_nat ?r)"
    unfolding get_number_of_simulation_runs_def assms(2) bnd_Inr reads c u32 [OF r]
    using assms(4,5) holds by (simp only: chk_True bnd_Inr)
qed

text \<open>
  The division in double precision does not change the number of runs: it is the exact
  quotient of the last time by the time of a run, rounded up, and the assertion holds, as long as
  the last time and one run more fit into 32 bits.
\<close>

theorem number_of_runs_exact:
  assumes "rounds_doubles rnd" "last_time f = Inr back" "0 \<le> back" "0 < stepsize" "0 < timesteps"
    and "nat back + unat stepsize * unat timesteps \<le> 2 ^ 32"
  shows "\<exists>runs. get_number_of_simulation_runs rnd stepsize timesteps f = Inr runs \<and>
    nat back \<le> unat runs * (unat stepsize * unat timesteps) \<and>
    unat runs * (unat stepsize * unat timesteps) < nat back + unat stepsize * unat timesteps"
proof -
  have pos: "0 < unat stepsize * unat timesteps" using assms(4,5) by (simp add: word_gt_0 unat_gt_0)
  show ?thesis using number_of_runs_aux [OF assms] ceil_div_bounds [OF pos, of "nat back"]
    by (simp add: unsigned_of_nat take_bit_nat_eq_self)
qed

section \<open>The batches\<close>

lemma concat_batches: "concat (map (\<lambda>i. take k (drop (i * k) xs)) [0..<r]) = take (r * k) xs"
proof (induction r)
  case (Suc r)
  have "take (Suc r * k) xs = take (r * k) xs @ take k (drop (r * k) xs)"
    by (metis add.commute mult_Suc take_add)
  then show ?case using Suc by simp
qed simp

lemma exported_tags_vec_aux:
  assumes files: "unat runs \<le> length files" and steps: "0 < timesteps"
    and fits: "unat runs * (unat timesteps - 1) < 2 ^ 32" "length ts < 2 ^ 32"
    and enough: "(unat runs - 1) * (unat timesteps - 1) \<le> length ts"
  shows "get_exported_tags_vec files runs ts timesteps =
    Inr (map (\<lambda>i. (take (unat timesteps - 1) (drop (i * (unat timesteps - 1)) ts), files ! i))
      [0..<unat runs])"
  unfolding get_exported_tags_vec_def
proof (rule mapM_map)
  fix i assume "i \<in> set [0..<unat runs]"
  then have i: "i < unat runs" by simp
  let ?k = "unat timesteps - 1" and ?N = "length ts"
  have k: "unat (timesteps - 1) = ?k" using steps by (simp add: unat_minus_one word_gt_0)
  have r: "unat runs < 2 ^ 32" using unsigned_less [of runs] by simp
  have "Suc i * ?k \<le> unat runs * ?k" using i by (intro mult_right_mono) auto
  then have e: "Suc i * ?k < 2 ^ 32" using fits(1) by linarith
  then have s: "i * ?k < 2 ^ 32" by simp
  have "i * ?k \<le> (unat runs - 1) * ?k" using i by (intro mult_right_mono) auto
  then have le: "i * ?k \<le> ?N" using enough by linarith
  have start: "unat (word_of_nat i * (timesteps - 1)) = i * ?k"
    using i r s k by (simp add: unat_word_ariths unsigned_of_nat take_bit_nat_eq_self)
  have "unat ((word_of_nat (Suc i) :: 32 word) * (timesteps - 1)) = Suc i * ?k"
    using i r e k by (simp only: unat_word_ariths unsigned_of_nat) (simp add: take_bit_nat_eq_self)
  then have stop: "unat ((word_of_nat i + 1) * (timesteps - 1)) = Suc i * ?k" by (simp add: add.commute)
  let ?e = "min ((word_of_nat i + 1) * (timesteps - 1)) (word_of_nat ?N)"
  have e: "unat ?e = min (Suc i * ?k) ?N"
    using fits(2) by (simp add: min_def word_le_nat_alt stop unsigned_of_nat take_bit_nat_eq_self)
  have "word_of_nat i * (timesteps - 1) \<le> ?e" using le by (simp add: word_le_nat_alt e start)
  moreover have "take (unat ?e - i * ?k) (drop (i * ?k) ts) = take ?k (drop (i * ?k) ts)"
    unfolding e by (cases "Suc i * ?k \<le> ?N") (simp_all add: min_def)
  moreover have "narrow_u32 (int ?N) = Inr (word_of_nat ?N)" using fits(2) by (simp add: narrow_u32_def)
  ultimately show "(let items_per_batch = timesteps - 1; start_idx = word_of_nat i * items_per_batch
       in bnd (narrow_u32 (int ?N)) (\<lambda>size.
          let end_idx = min ((word_of_nat i + 1) * items_per_batch) size
          in chk (start_idx \<le> end_idx) Undefined (
             bnd (at_index files i) (\<lambda>file.
             Inr (take (unat end_idx - unat start_idx) (drop (unat start_idx) ts), file))))) =
       Inr (take ?k (drop (i * ?k) ts), files ! i)"
    using i files by (simp add: Let_def start at_index_def)
qed

text \<open>
  \<^bold>\<open>C36.\<close> The plan of the simulations leaves the end of the waveform out. A run gets one time point
  less than the number of runs was calculated with, so the batches are a proper prefix of the time
  points as soon as the waveform is as long as the time of one run taken \<open>timesteps\<close> times. The
  later time points never get a tag.
\<close>

theorem tag_plan_incomplete:
  assumes "rounds_doubles rnd" "last_time f = Inr back" "0 < stepsize" "0 < timesteps"
    and "int (unat stepsize * unat timesteps * unat timesteps) \<le> back"
    and "nat back + unat stepsize * unat timesteps < 2 ^ 32"
  shows "\<exists>ts runs. get_tags_times (2 ^ 32) f stepsize = Inr ts \<and>
    get_number_of_simulation_runs rnd stepsize timesteps f = Inr runs \<and>
    (\<forall>files. length files = unat runs \<longrightarrow>
      (\<exists>batches. get_exported_tags_vec files runs ts timesteps = Inr batches \<and>
         concat (map fst batches) = take (unat runs * (unat timesteps - 1)) ts)) \<and>
    unat runs * (unat timesteps - 1) < length ts"
proof -
  let ?s = "unat stepsize" and ?t = "unat timesteps"
  let ?b = "nat back"
  let ?r = "ceil_div ?b (?s * ?t)"
  have st: "0 < ?s" "0 < ?t" using assms(3,4) by (simp_all add: word_gt_0 unat_gt_0)
  have nonneg: "0 \<le> back" using assms(5) of_nat_0_le_iff order_trans by blast
  then have long: "?s * ?t * ?t \<le> ?b" using assms(5) by linarith
  have "?s \<le> ?s * ?t" using st by simp
  then have "?b + ?s < 2 ^ 32" using assms(6) by linarith
  then have "int (?b + ?s) < int (2 ^ 32)" by (simp only: of_nat_less_iff)
  then have small: "back + uint stepsize < 2 ^ 32" using nonneg by simp
  then have "back < 2 ^ 32" using uint_ge_0 [of stepsize] by linarith
  then have "back < 2 ^ 64" by simp
  note small = small this
  define ts where "ts = map (\<lambda>j. int (j * ?s)) [0..<?b div ?s + 1]"
  have ts: "get_tags_times (2 ^ 32) f stepsize = Inr ts" "length ts = ?b div ?s + 1"
    using tags_times_aux [OF assms(2) nonneg small(2) assms(3)] small(1) by (simp_all add: ts_def)
  have r: "get_number_of_simulation_runs rnd stepsize timesteps f = Inr (word_of_nat ?r)" "?r < 2 ^ 32"
    using number_of_runs_aux [OF assms(1,2) nonneg assms(3,4)] assms(6) by simp_all
  have runs: "unat (word_of_nat ?r :: 32 word) = ?r"
    using r(2) by (simp add: unsigned_of_nat take_bit_nat_eq_self)
  have bounds: "?b \<le> ?r * (?s * ?t)" "?r * (?s * ?t) < ?b + ?s * ?t"
    using ceil_div_bounds [of "?s * ?t" ?b] st by simp_all
  have "?s * ?t * ?t \<le> ?s * ?t * ?r" 
    by (rule order_trans [OF long]) (use bounds(1) in \<open>simp only: mult.commute\<close>)
  then have "?t \<le> ?r" using st by (simp only: mult_le_cancel1 nat_0_less_mult_iff)
  then have "?s * ?t \<le> ?s * ?r" by simp
  have short: "?r * (?t - 1) < ?b div ?s + 1"
  proof (rule ccontr)
    assume "\<not> ?thesis"
    then have "?b div ?s + 1 \<le> ?r * (?t - 1)" by simp
    then have "?s * (?b div ?s + 1) \<le> ?s * (?r * (?t - 1))" by (rule mult_le_mono2)
    moreover have "?b < ?s * (?b div ?s + 1)" using st by (simp add: dividend_less_times_div)
    moreover have "?s * (?r * (?t - 1)) + ?s * ?r = ?r * (?s * ?t)"
      using st by (cases ?t) (simp_all add: algebra_simps)
    ultimately show False using bounds(2) \<open>?s * ?t \<le> ?s * ?r\<close> by linarith
  qed
  have "?b div ?s \<le> ?b" by simp
  then have N: "length ts < 2 ^ 32" using assms(6) st ts(2) \<open>?b + ?s < 2 ^ 32\<close> by linarith
  have "(?r - 1) * (?t - 1) \<le> ?r * (?t - 1)" by (intro mult_right_mono) auto
  then have "(?r - 1) * (?t - 1) \<le> length ts" using short ts(2) by linarith
  then have batches: "get_exported_tags_vec files (word_of_nat ?r) ts timesteps =
      Inr (map (\<lambda>i. (take (?t - 1) (drop (i * (?t - 1)) ts), files ! i)) [0..<?r])"
    if "length files = ?r" for files :: "'b list"
    using exported_tags_vec_aux [of "word_of_nat ?r" files timesteps ts] that runs r(2) assms(4) short N ts(2)
    by simp
  have res: "\<exists>batches. get_exported_tags_vec files (word_of_nat ?r) ts timesteps = Inr batches \<and>
      concat (map fst batches) = take (?r * (?t - 1)) ts" if "length files = ?r" for files :: "'b list"
    using batches [OF that] by (simp add: comp_def concat_batches)
  show ?thesis
    by (intro exI [of _ ts] exI [of _ "word_of_nat ?r"] conjI allI impI, rule ts(1), rule r(1))
      (simp_all only: runs res ts(2) short)
qed

section \<open>Sample waveforms\<close>

definition clock_signal :: vcd_signal where
  "clock_signal = \<lparr>vs_reference = ''clk'', vs_size = 1, vs_hash = ''!'', vs_scope = 1\<rparr>"

text \<open>A clock with a step of 10 in the scope of a test bench.\<close>

definition clock_vcd :: vcd_file where
  "clock_vcd = \<lparr>vf_timestamps = [0, 5, 10],
     vf_values = (\<lambda>_. Inr [(0, VScalar VCD_0), (5, VScalar VCD_1), (10, VScalar VCD_0)]),
     vf_value_at = (\<lambda>_ _. Inr VEmpty), vf_signals = [clock_signal],
     vf_scopes = [\<lparr>sc_name = ''$root'', sc_is_module = False, sc_parent = None, sc_children = [1], sc_signals = []\<rparr>,
       \<lparr>sc_name = ''top_tb'', sc_is_module = True, sc_parent = Some 0, sc_children = [], sc_signals = [clock_signal]\<rparr>],
     vf_scope = (\<lambda>_. Inl OutOfRange), vf_root = Some 0\<rparr>"

lemma clock_vcd_last: "last_time clock_vcd = Inr 10"
  by (simp add: last_time_def clock_vcd_def)

lemma clock_vcd_stepsize: "stepsize_of_vcd clock_vcd ''clk'' = Inr (projr (stepsize_of_vcd clock_vcd ''clk''))"
proof -
  have "is_testbench_name ''top_tb''" by code_simp
  then show ?thesis
    by (simp add: stepsize_of_vcd_def clock_vcd_def clock_signal_def at_index_def third_time_def narrow_u32_def)
qed

theorem stepsize_always_one_witness:
  "projr (stepsize_of_vcd clock_vcd ''clk'') = 1 \<and> get_stepsize clock_vcd ''clk'' = Inr 10"
proof -
  have "is_testbench_name ''top_tb''" by code_simp
  then have "get_stepsize clock_vcd ''clk'' = Inr 10"
    by (simp add: get_stepsize_def clock_vcd_def clock_signal_def at_index_def third_time_def)
  then show ?thesis using stepsize_always_one [OF clock_vcd_stepsize] by simp
qed

lemma rounds_doubles_id: "rounds_doubles (\<lambda>x. x)"
  by (simp add: rounds_doubles_def)

theorem tags_times_multiples_witness: "get_tags_times (2 ^ 32) clock_vcd 4 = Inr [0, 4, 8]"
  using tags_times_multiples [OF clock_vcd_last, of 4] by (simp add: upt_rec)

theorem number_of_runs_exact_witness:
  "\<exists>runs. get_number_of_simulation_runs (\<lambda>x. x) 2 2 clock_vcd = Inr runs \<and> 10 \<le> unat runs * 4 \<and>
     unat runs * 4 < 14"
  using number_of_runs_exact [OF rounds_doubles_id clock_vcd_last, of 2 2] by simp

theorem tag_plan_incomplete_witness:
  "\<exists>ts runs. get_tags_times (2 ^ 32) clock_vcd 1 = Inr ts \<and>
     get_number_of_simulation_runs (\<lambda>x. x) 1 3 clock_vcd = Inr runs \<and> unat runs * 2 < length ts"
  using tag_plan_incomplete [OF rounds_doubles_id clock_vcd_last, of 1 3] by auto

end
