(* ===== verification/TagFacts.thy ===== *)
theory TagFacts
  imports TagFiles SimulationFacts
begin

text \<open>
  The tag files that \<open>Testbench::export_tags\<close> writes, read back the way the generated test bench
  reads them: a position is computed without wrap-around under \<open>line_ok\<close>, the loop over the ports sets
  the bits of their tags and nothing else, and every field of every line has the tag and the delay that
  were meant for it. For the tags of an internal module the numbers are shown not to be unique.
\<close>

section \<open>Reading a line back\<close>

text \<open>
  \<open>$readmemb\<close> reads a line from its highest bit on; a part select takes the bits of a field from its
  lowest on.
\<close>

definition read_line :: "string \<Rightarrow> bool list" where
  "read_line s = rev (map (\<lambda>c. c = CHR ''1'') s)"

definition part_select :: "bool list \<Rightarrow> 64 word \<Rightarrow> 64 word \<Rightarrow> bool list" where
  "part_select line hi lo = map (\<lambda>i. line ! i) [unat lo..<unat hi + 1]"

lemma read_line_bitset: "read_line (bitset_text line) = line"
  by (simp add: read_line_def bitset_text_def rev_map comp_def)

lemma length_bitset [simp]: "length (bitset_of w v) = unat w"
  by (simp add: bitset_of_def)

lemma nth_bitset: "i < unat w \<Longrightarrow> bitset_of w v ! i = bit v i"
  by (simp add: bitset_of_def)

section \<open>Positions\<close>

definition tag_pos :: "nat \<Rightarrow> nat \<Rightarrow> nat \<Rightarrow> nat \<Rightarrow> nat" where
  "tag_pos ts n index idx = ts * (n - index) + (idx * n + index)"

text \<open>The bounds under which nothing wraps and all tags of a line fit their fields.\<close>

definition line_ok :: "32 word \<Rightarrow> nat \<Rightarrow> nat \<Rightarrow> bool" where
  "line_ok tag_size n idx \<longleftrightarrow> 0 < tag_size \<and> (n + 1) * unat tag_size < 2 ^ 32 \<and> (idx + 1) * n \<le> unat tag_size"

lemma unat_wide [simp]: "unat (wide w) = unat w"
proof -
  have "unat w < 2 ^ 32" using unsigned_less [of w] by simp
  then have "unat w < 2 ^ 64" by simp
  then show ?thesis by (simp add: unsigned_ucast_eq take_bit_nat_eq_self)
qed

lemma unat_of_nat64: "m < 2 ^ 64 \<Longrightarrow> unat (word_of_nat m :: 64 word) = m"
  by (simp add: unsigned_of_nat take_bit_nat_eq_self)

lemma wide_of_nat: "wide w = word_of_nat (unat w)"
proof -
  have "unat w < 2 ^ 32" using unsigned_less [of w] by simp
  then show ?thesis by (simp add: word_eq_iff_unsigned unat_of_nat64 word_unat_eq_iff)
qed

lemma line_width_of_nat: "line_width tag_size n = word_of_nat ((n + 1) * unat tag_size)"
  unfolding line_width_def wide_of_nat of_nat_mult of_nat_add of_nat_1
  by (simp only: distrib_right mult_1)

lemma minus_one_minus: "a = x + 1 + y \<Longrightarrow> a - 1 - y = (x :: 64 word)"
  by simp

lemma start_bit_of_nat:
  assumes "index \<le> n" "0 < tag_size"
  shows "port_start_bit tag_size n index = word_of_nat (unat tag_size * (n - index) + (unat tag_size - 1))"
    and "port_end_bit tag_size n index = word_of_nat (unat tag_size * (n - index))"
proof -
  let ?t = "unat tag_size"
  have t: "0 < ?t" using assms(2) by (simp add: word_gt_0 unat_gt_0)
  have "?t * (n + 1) = ?t * (n - index) + (?t - 1) + 1 + ?t * index"
  proof -
    obtain d where "n = index + d" using assms(1) le_Suc_ex by blast
    then show ?thesis using t by (cases ?t) (simp_all add: algebra_simps)
  qed
  then have "word_of_nat (?t * (n + 1)) =
      (word_of_nat (?t * (n - index) + (?t - 1) + 1 + ?t * index) :: 64 word)" by (rule arg_cong)
  then have "word_of_nat ?t * (word_of_nat n + 1) =
      (word_of_nat (?t * (n - index) + (?t - 1)) + 1 + word_of_nat ?t * word_of_nat index :: 64 word)"
    by (simp only: of_nat_mult of_nat_add of_nat_1)
  then show start: "port_start_bit tag_size n index = word_of_nat (?t * (n - index) + (?t - 1))"
    unfolding port_start_bit_def wide_of_nat by (rule minus_one_minus)
  have "unat (tag_size - 1) = ?t - 1" using assms(2) by (simp add: unat_minus_one word_gt_0)
  then show "port_end_bit tag_size n index = word_of_nat (?t * (n - index))"
    unfolding port_end_bit_def start wide_of_nat by (simp only: of_nat_add add_diff_cancel_right')
qed

lemma time_bit_of_nat:
  assumes "0 < tag_size"
  shows "time_start_bit tag_size n = word_of_nat (unat tag_size - 1)" "time_end_bit tag_size n = 0"
proof -
  have "unat (tag_size - 1) = unat tag_size - 1" using assms by (simp add: unat_minus_one word_gt_0)
  then have w: "wide (tag_size - 1) = word_of_nat (unat tag_size - 1)" by (simp only: wide_of_nat)
  show start: "time_start_bit tag_size n = word_of_nat (unat tag_size - 1)"
    using start_bit_of_nat(1) [of n n tag_size] assms by (simp add: time_start_bit_def port_start_bit_def)
  show "time_end_bit tag_size n = 0" by (simp only: time_end_bit_def start w diff_self)
qed

lemma line_okD:
  assumes "line_ok tag_size n idx"
  shows "0 < unat tag_size" "(n + 1) * unat tag_size < 2 ^ 32" "(idx + 1) * n \<le> unat tag_size"
    "n < 2 ^ 32" "unat tag_size < 2 ^ 32"
proof -
  show t: "0 < unat tag_size" and le: "(n + 1) * unat tag_size < 2 ^ 32" "(idx + 1) * n \<le> unat tag_size"
    using assms by (simp_all add: line_ok_def word_gt_0 unat_gt_0)
  have "n + 1 \<le> (n + 1) * unat tag_size" using t by (metis Suc_leI mult_le_mono2 mult_1_right One_nat_def)
  then show "n < 2 ^ 32" using le(1) by linarith
  show "unat tag_size < 2 ^ 32" using unsigned_less [of tag_size] by simp
qed

lemma narrow_u32_int: "m < 2 ^ 32 \<Longrightarrow> narrow_u32 (int m) = Inr (word_of_nat m)"
  by (simp add: narrow_u32_def)

lemma uint_of_nat32: "m < 2 ^ 32 \<Longrightarrow> uint (word_of_nat m :: 32 word) = int m"
  by (simp add: unsigned_of_nat take_bit_nat_eq_self)

lemma tag_pos_int:
  assumes "index \<le> n"
  shows "int (n * t) - (int index * int t - int index) + int idx * int n = int (tag_pos t n index idx)"
proof -
  obtain d where "n = index + d" using assms le_Suc_ex by blast
  then show ?thesis by (simp add: tag_pos_def algebra_simps)
qed

lemma bit_position_int:
  assumes "n * unat tag_size < 2 ^ 32"
  shows "bit_position tag_size n stride index idx =
    Inr (int (n * unat tag_size) - (int index * int (unat tag_size) - int index) + int idx * uint stride)"
proof -
  let ?t = "unat tag_size"
  have fields: "line_width tag_size n - wide tag_size = word_of_nat (n * ?t)"
    unfolding line_width_of_nat wide_of_nat by (simp only: distrib_right mult_1 of_nat_add add_diff_cancel_right')
  have "n * ?t < 2 ^ 64" using assms by simp
  then have u: "uint (line_width tag_size n - wide tag_size) = int (n * ?t)"
    unfolding fields uint_nat by (simp only: unat_of_nat64)
  show ?thesis
    unfolding bit_position_def u narrow_u32_int [OF assms] bnd_Inr uint_of_nat32 [OF assms]
      uint_nat [of tag_size] by (rule refl)
qed

lemma bit_position_ok:
  assumes "line_ok tag_size n idx" "index < n"
  shows "bit_position tag_size n (word_of_nat n) index idx =
    Inr (int (tag_pos (unat tag_size) n index idx))"
proof -
  note ok = line_okD [OF assms(1)]
  have nt: "n * unat tag_size < 2 ^ 32" using ok(2) by simp
  show ?thesis unfolding bit_position_int [OF nt] uint_of_nat32 [OF ok(4)]
    using tag_pos_int [of index n] assms(2) by (simp only: less_imp_le)
qed

text \<open>
  When the tags go to the outputs of a module that has more of them than the top module, tags
  are not unique: the port with the number of the stride has on a line the same tag as the first port
  on the next line.
\<close>

theorem internal_tags_collide:
  assumes "n * unat tag_size < 2 ^ 32" "index = unat stride" "index < n"
  shows "\<exists>p q. bit_position tag_size n stride index idx = Inr p \<and>
    bit_position tag_size n stride 0 (idx + 1) = Inr q \<and>
    p - int (unat tag_size * (n - index)) = q - int (unat tag_size * n)"
proof -
  obtain d where n: "n = index + d" using assms(3) le_Suc_ex less_imp_le by blast
  have stride: "uint stride = int index" using assms(2) by (simp only: uint_nat)
  note pos = bit_position_int [OF assms(1)]
  show ?thesis
    by (intro exI conjI, rule pos, rule pos) (simp add: n stride algebra_simps)
qed

theorem internal_tags_collide_witness:
  "\<exists>p q. bit_position 8 3 1 1 4 = Inr p \<and> bit_position 8 3 1 0 5 = Inr q \<and> p - 16 = q - 24"
  using internal_tags_collide [of 3 8 1 1 4] by simp

text \<open>Every tag lies inside the field of its port, at the offset of its number.\<close>

lemma tag_pos_bounds:
  assumes "line_ok tag_size n idx" "index < n"
  shows "idx * n + index < unat tag_size" "tag_pos (unat tag_size) n index idx < (n + 1) * unat tag_size"
proof -
  let ?t = "unat tag_size"
  have "idx * n + index < (idx + 1) * n" using assms(2) by simp
  then show lt: "idx * n + index < ?t" using line_okD(3) [OF assms(1)] by linarith
  have "?t * (n - index) \<le> ?t * n" by simp
  then have "?t * (n - index) + (idx * n + index) < ?t * n + ?t" using lt by linarith
  then show "tag_pos ?t n index idx < (n + 1) * ?t" by (simp add: tag_pos_def algebra_simps)
qed

lemma tag_pos_field:
  assumes "line_ok tag_size n idx" "index < n" "j \<le> n" "k < unat tag_size"
  shows "unat tag_size * (n - j) + k = tag_pos (unat tag_size) n index idx \<longleftrightarrow> j = index \<and> k = idx * n + index"
proof -
  let ?t = "unat tag_size"
  have lt: "idx * n + index < ?t" by (rule tag_pos_bounds(1) [OF assms(1,2)])
  have "?t * (n - j) + k = ?t * (n - index) + (idx * n + index) \<longleftrightarrow> n - j = n - index \<and> k = idx * n + index"
    using lt assms(4) by (metis add.commute div_mult_self2 div_less mod_mult_self2 mod_less add_0 less_zeroE)
  then show ?thesis using assms(2,3) by (auto simp: tag_pos_def)
qed


section \<open>One line\<close>

text \<open>The decision of a generator for the port of a name, and what later generators keep of it.\<close>

definition decided :: "'g tag_context \<Rightarrow> module \<Rightarrow> 'g tag_generator \<Rightarrow> string \<Rightarrow> int \<Rightarrow> bool" where
  "decided tc m gen name u \<longleftrightarrow>
     (\<exists>p. module_get_port m name = Inr p \<and> cached (tc_hash tc) p u gen = Some True)"

definition asked :: "'g tag_context \<Rightarrow> module \<Rightarrow> 'g tag_generator \<Rightarrow> string \<Rightarrow> int \<Rightarrow> bool" where
  "asked tc m gen name u \<longleftrightarrow>
     (\<exists>p. module_get_port m name = Inr p \<and> cached (tc_hash tc) p u gen \<noteq> None)"

definition keeps :: "'g tag_context \<Rightarrow> 'g tag_generator \<Rightarrow> 'g tag_generator \<Rightarrow> bool" where
  "keeps tc gen gen' \<longleftrightarrow> (\<forall>p u b. cached (tc_hash tc) p u gen = Some b \<longrightarrow> cached (tc_hash tc) p u gen' = Some b)"

lemma keeps_refl: "keeps tc gen gen" by (simp add: keeps_def)

lemma keeps_trans: "keeps tc a b \<Longrightarrow> keeps tc b c \<Longrightarrow> keeps tc a c" by (auto simp: keeps_def)

lemma keeps_asked: "keeps tc a b \<Longrightarrow> asked tc m a name u \<Longrightarrow> asked tc m b name u"
  by (fastforce simp: keeps_def asked_def)

lemma keeps_decided:
  "keeps tc a b \<Longrightarrow> asked tc m a name u \<Longrightarrow> decided tc m b name u = decided tc m a name u"
  by (fastforce simp: keeps_def asked_def decided_def)

lemma set_tag_ok:
  "pos < length line \<Longrightarrow> length line < 2 ^ 64 \<Longrightarrow> set_tag (int pos) line = Inr (line[pos := True])"
  by (simp add: set_tag_def narrow_size_def unsigned_of_nat take_bit_nat_eq_self)

text \<open>What the loop over the names makes of a line.\<close>

definition tagged_line ::
  "'g tag_context \<Rightarrow> module \<Rightarrow> nat \<Rightarrow> nat \<Rightarrow> nat \<Rightarrow> int \<Rightarrow> 'g tag_generator \<Rightarrow> nat \<Rightarrow> string list \<Rightarrow>
   bool list \<Rightarrow> bool list \<Rightarrow> bool"
where
  "tagged_line tc m t n idx u gen i names line line' \<longleftrightarrow> length line' = length line \<and>
     (\<forall>q < length line. line' ! q \<longleftrightarrow> line ! q \<or>
        (\<exists>j < length names. q = tag_pos t n (i + j) idx \<and> decided tc m gen (names ! j) u))"

lemma tag_ports_line:
  assumes "line_ok tag_size n idx" "i + length names \<le> n"
    and "\<And>name. name \<in> set names \<Longrightarrow> \<exists>p. module_get_port m name = Inr p"
    and "length line = (n + 1) * unat tag_size"
  shows "\<exists>line' gen' number'.
    foldM (tag_port tc m tag_size n (Inr (word_of_nat n)) idx u) (enumerate i names) (line, Some gen, number) =
      Inr (line', Some gen', number') \<and>
    tagged_line tc m (unat tag_size) n idx u gen' i names line line' \<and>
    keeps tc gen gen' \<and> (\<forall>name \<in> set names. asked tc m gen' name u)"
  using assms(2-)
proof (induction names arbitrary: i line gen number)
  case Nil
  then show ?case by (simp add: tagged_line_def keeps_refl)
next
  case (Cons name names)
  let ?t = "unat tag_size"
  let ?P = "tag_pos ?t n"
  obtain p where p: "module_get_port m name = Inr p" using Cons.prems(2) by auto
  obtain b gen1 where ask: "is_tagged (tc_draw tc) (tc_hash tc) p u gen = (b, gen1)"
    by (cases "is_tagged (tc_draw tc) (tc_hash tc) p u gen")
  define line1 where "line1 = (if b then line[?P i idx := True] else line)"
  have i: "i < n" using Cons.prems(1) by simp
  have pos: "?P i idx < length line" using tag_pos_bounds(2) [OF assms(1) i] Cons.prems(3) by simp
  have "length line < 2 ^ 32" using line_okD(2) [OF assms(1)] Cons.prems(3) by simp
  then have "set_tag (int (?P i idx)) line = Inr (line[?P i idx := True])"
    by (intro set_tag_ok [OF pos]) simp
  then have step: "tag_port tc m tag_size n (Inr (word_of_nat n)) idx u (i, name) (line, Some gen, number) =
      Inr (line1, Some gen1, if b then number + 1 else number)"
    using bit_position_ok [OF assms(1) i] by (simp add: tag_port_def p ask line1_def)
  have "\<exists>line' gen' number'.
    foldM (tag_port tc m tag_size n (Inr (word_of_nat n)) idx u) (enumerate (Suc i) names)
      (line1, Some gen1, if b then number + 1 else number) = Inr (line', Some gen', number') \<and>
    tagged_line tc m ?t n idx u gen' (Suc i) names line1 line' \<and>
    keeps tc gen1 gen' \<and> (\<forall>name \<in> set names. asked tc m gen' name u)"
    by (rule Cons.IH) (use Cons.prems in \<open>auto simp: line1_def\<close>)
  then obtain line' gen' number' where rest:
    "foldM (tag_port tc m tag_size n (Inr (word_of_nat n)) idx u) (enumerate (Suc i) names)
      (line1, Some gen1, if b then number + 1 else number) = Inr (line', Some gen', number')"
    and line': "tagged_line tc m ?t n idx u gen' (Suc i) names line1 line'"
    and keeps: "keeps tc gen1 gen'" and asked: "\<forall>name \<in> set names. asked tc m gen' name u" by blast
  have head: "cached (tc_hash tc) p u gen1 = Some b" by (rule is_tagged_cached(1) [OF ask])
  have keeps1: "keeps tc gen gen1" using is_tagged_cached(3) [OF ask] by (auto simp: keeps_def)
  have name: "asked tc m gen' name u" "decided tc m gen' name u = b"
    using keeps head p by (auto simp: keeps_def asked_def decided_def)
  have "tagged_line tc m ?t n idx u gen' i (name # names) line line'"
    unfolding tagged_line_def
  proof (intro conjI allI impI)
    show "length line' = length line" using line' by (simp add: tagged_line_def line1_def)
    fix q assume q: "q < length line"
    have "line' ! q \<longleftrightarrow> line1 ! q \<or> (\<exists>j < length names. q = ?P (Suc i + j) idx \<and> decided tc m gen' (names ! j) u)"
      using line' q by (simp add: tagged_line_def line1_def)
    moreover have "line1 ! q \<longleftrightarrow> line ! q \<or> q = ?P i idx \<and> b" 
      using q by (cases "q = ?P i idx") (auto simp: line1_def)
    moreover have "(\<exists>j < length (name # names). q = ?P (i + j) idx \<and> decided tc m gen' ((name # names) ! j) u) \<longleftrightarrow>
        (q = ?P i idx \<and> b) \<or> (\<exists>j < length names. q = ?P (Suc i + j) idx \<and> decided tc m gen' (names ! j) u)"
      by (auto simp: less_Suc_eq_0_disj name(2))
    ultimately show "line' ! q \<longleftrightarrow> line ! q \<or>
        (\<exists>j < length (name # names). q = ?P (i + j) idx \<and> decided tc m gen' ((name # names) ! j) u)" by blast
  qed
  moreover have "foldM (tag_port tc m tag_size n (Inr (word_of_nat n)) idx u) (enumerate i (name # names))
      (line, Some gen, number) = Inr (line', Some gen', number')"
    using step rest by simp
  ultimately show ?case using keeps_trans [OF keeps1 keeps] name(1) asked by auto
qed


lemma bit_small:
  assumes "unat (v :: 64 word) < 2 ^ t" "bit v q"
  shows "q < t"
proof -
  have "take_bit t (unat v) = unat v" using assms(1) by (rule take_bit_nat_eq_self)
  moreover have "bit (unat v) q" using assms(2) by (auto simp: bit_unsigned_iff bit_imp_le_length)
  ultimately show ?thesis by (metis bit_take_bit_iff)
qed

lemma line_width_unat:
  assumes "line_ok tag_size n idx"
  shows "unat (line_width tag_size n) = (n + 1) * unat tag_size"
proof -
  have "(n + 1) * unat tag_size < 2 ^ 32" by (rule line_okD(2) [OF assms])
  then have "(n + 1) * unat tag_size < 2 ^ 64" by simp
  then show ?thesis unfolding line_width_of_nat by (rule unat_of_nat64)
qed

lemma field_range:
  assumes "line_ok tag_size n idx" "j \<le> n"
  shows "unat (port_end_bit tag_size n j) = unat tag_size * (n - j)"
    and "unat (port_start_bit tag_size n j) = unat tag_size * (n - j) + (unat tag_size - 1)"
    and "unat tag_size * (n - j) + unat tag_size \<le> (n + 1) * unat tag_size"
    and "unat (time_start_bit tag_size n) = unat tag_size - 1"
proof -
  let ?t = "unat tag_size"
  note ok = line_okD [OF assms(1)]
  have pos: "0 < tag_size" using assms(1) by (simp add: line_ok_def)
  have "?t * (n - j) \<le> ?t * n" by simp
  then have le: "?t * (n - j) + ?t \<le> ?t * n + ?t" by linarith
  then show "?t * (n - j) + ?t \<le> (n + 1) * ?t" by (simp add: algebra_simps)
  have "?t * n + ?t < 2 ^ 32" using ok(2) by (simp add: algebra_simps)
  then have lt: "?t * (n - j) + ?t < 2 ^ 32" using le by linarith
  then have "?t * (n - j) < 2 ^ 64" "?t * (n - j) + (?t - 1) < 2 ^ 64" "?t - 1 < 2 ^ 64"
    using ok(5) by simp_all
  then show "unat (port_end_bit tag_size n j) = ?t * (n - j)"
    "unat (port_start_bit tag_size n j) = ?t * (n - j) + (?t - 1)"
    "unat (time_start_bit tag_size n) = ?t - 1"
    unfolding start_bit_of_nat [OF assms(2) pos] time_bit_of_nat [OF pos] by (simp_all only: unat_of_nat64)
qed

lemma part_select_port:
  assumes ok: "line_ok tag_size n idx" and n: "length names = n"
    and v: "unat v < 2 ^ unat tag_size"
    and line: "tagged_line tc m (unat tag_size) n idx u gen 0 names (bitset_of (line_width tag_size n) v) line"
    and j: "j < n"
  shows "part_select line (port_start_bit tag_size n j) (port_end_bit tag_size n j) =
    map (\<lambda>k. k = idx * n + j \<and> decided tc m gen (names ! j) u) [0..<unat tag_size]"
proof (rule nth_equalityI)
  let ?t = "unat tag_size"
  have t: "0 < ?t" by (rule line_okD(1) [OF ok])
  note range = field_range [OF ok, of j]
  show len: "length (part_select line (port_start_bit tag_size n j) (port_end_bit tag_size n j)) =
      length (map (\<lambda>k. k = idx * n + j \<and> decided tc m gen (names ! j) u) [0..<?t])"
    using j t by (simp add: part_select_def range)
  fix k assume "k < length (part_select line (port_start_bit tag_size n j) (port_end_bit tag_size n j))"
  then have k: "k < ?t" using len by simp
  let ?q = "?t * (n - j) + k"
  note width = line_width_unat [OF ok]
  have q: "?q < (n + 1) * ?t" using range(3) j k by linarith
  have "?t \<le> ?t * (n - j)" using j by (cases "n - j") simp_all
  then have "\<not> ?q < ?t" by linarith
  then have "\<not> bit v ?q" using bit_small [OF v] by blast
  then have "line ! ?q \<longleftrightarrow> (\<exists>i < n. ?q = tag_pos ?t n i idx \<and> decided tc m gen (names ! i) u)"
    using line q by (simp add: tagged_line_def width nth_bitset n)
  also have "\<dots> \<longleftrightarrow> k = idx * n + j \<and> decided tc m gen (names ! j) u"
    using tag_pos_field [OF ok _ _ k] j by (metis less_imp_le_nat)
  finally show "part_select line (port_start_bit tag_size n j) (port_end_bit tag_size n j) ! k =
      map (\<lambda>k. k = idx * n + j \<and> decided tc m gen (names ! j) u) [0..<?t] ! k"
    using j k t by (simp add: part_select_def range)
qed

lemma part_select_time:
  assumes ok: "line_ok tag_size n idx" and n: "length names = n"
    and line: "tagged_line tc m (unat tag_size) n idx u gen 0 names (bitset_of (line_width tag_size n) v) line"
  shows "part_select line (time_start_bit tag_size n) (time_end_bit tag_size n) =
    map (\<lambda>k. bit v k) [0..<unat tag_size]"
proof (rule nth_equalityI)
  let ?t = "unat tag_size"
  have t: "0 < ?t" by (rule line_okD(1) [OF ok])
  have pos: "0 < tag_size" using ok by (simp add: line_ok_def)
  note range = field_range [OF ok order_refl] time_bit_of_nat(2) [OF pos]
  show len: "length (part_select line (time_start_bit tag_size n) (time_end_bit tag_size n)) =
      length (map (\<lambda>k. bit v k) [0..<?t])"
    using t by (simp add: part_select_def range)
  fix k assume "k < length (part_select line (time_start_bit tag_size n) (time_end_bit tag_size n))"
  then have k: "k < ?t" using len by simp
  note width = line_width_unat [OF ok]
  have q: "k < (n + 1) * ?t" using k by simp
  have "k \<noteq> tag_pos ?t n i idx" if "i < n" for i
    using tag_pos_field [OF ok that order_refl k] that by simp
  then have "line ! k \<longleftrightarrow> bit v k"
    using line q by (auto simp: tagged_line_def width nth_bitset n)
  then show "part_select line (time_start_bit tag_size n) (time_end_bit tag_size n) ! k =
      map (\<lambda>k. bit v k) [0..<?t] ! k"
    using k t by (simp add: part_select_def range)
qed


section \<open>The whole file\<close>

definition planned_delta :: "int list \<Rightarrow> nat \<Rightarrow> int" where
  "planned_delta us idx =
     (if idx + 1 < length us then us ! (idx + 1) - us ! idx
      else if idx = 0 then 0 else us ! idx - us ! (idx - 1))"

text \<open>The time that the test bench waits after a line.\<close>

definition line_value :: "int list \<Rightarrow> 32 word \<Rightarrow> nat \<Rightarrow> 64 word" where
  "line_value us stepsize idx = wide (max (word_of_int (planned_delta us idx)) stepsize)"

definition deltas_ok :: "int list \<Rightarrow> bool" where
  "deltas_ok us \<longleftrightarrow> (\<forall>idx < length us. 0 \<le> planned_delta us idx \<and> planned_delta us idx < 2 ^ 32)"

lemma tagged_line_keeps:
  assumes "tagged_line tc m t n idx u gen i names line line'" "keeps tc gen gen'"
    and "\<forall>name \<in> set names. asked tc m gen name u"
  shows "tagged_line tc m t n idx u gen' i names line line'"
proof -
  have "decided tc m gen' (names ! j) u = decided tc m gen (names ! j) u" if "j < length names" for j
    using keeps_decided [OF assms(2)] assms(3) that by simp
  then show ?thesis using assms(1) by (auto simp: tagged_line_def)
qed

lemma line_ok_mono: "line_ok tag_size n k \<Longrightarrow> idx \<le> k \<Longrightarrow> line_ok tag_size n idx"
proof -
  assume ok: "line_ok tag_size n k" and le: "idx \<le> k"
  have "(idx + 1) * n \<le> (k + 1) * n" by (rule mult_le_mono1) (use le in simp)
  then show ?thesis using ok unfolding line_ok_def by linarith
qed

lemma tag_lines:
  assumes ok: "line_ok tag_size (length names) (length us - 1)" and deltas: "deltas_ok us"
    and ports: "\<forall>name \<in> set names. \<exists>p. module_get_port m name = Inr p"
  shows "k \<le> length us \<Longrightarrow> prev = (if k = 0 then 0 else us ! k - us ! (k - 1)) \<or> k = length us \<Longrightarrow>
    \<exists>lines prev' gen' number'.
      foldM (tag_line tc m names tag_size (Inr (word_of_nat (length names))) stepsize us)
        (enumerate k (drop k us)) (out, prev, Some gen, number) =
        Inr (out @ concat (map (\<lambda>l. [bitset_text l, ''\<newline>'']) lines), prev', Some gen', number') \<and>
      length lines = length us - k \<and> keeps tc gen gen' \<and>
      (\<forall>idx. k \<le> idx \<and> idx < length us \<longrightarrow>
        tagged_line tc m (unat tag_size) (length names) idx (us ! idx) gen' 0 names
          (bitset_of (line_width tag_size (length names)) (line_value us stepsize idx)) (lines ! (idx - k)) \<and>
        (\<forall>name \<in> set names. asked tc m gen' name (us ! idx)))"
proof (induction "length us - k" arbitrary: k out prev gen number)
  case 0
  then show ?case by (auto simp: keeps_refl intro!: exI [of _ "[]"])
next
  case (Suc d)
  let ?n = "length names" and ?t = "unat tag_size"
  have k: "k < length us" using Suc.hyps(2) by simp
  have delta: "line_delta us k prev = planned_delta us k"
    using Suc.prems(2) k by (auto simp: line_delta_def planned_delta_def)
  have narrow: "narrow_u32 (planned_delta us k) = Inr (word_of_int (planned_delta us k))"
    using deltas k by (simp add: deltas_ok_def narrow_u32_def)
  have okk: "line_ok tag_size ?n k" by (rule line_ok_mono [OF ok]) (use k in simp)
  let ?line = "bitset_of (line_width tag_size ?n) (line_value us stepsize k)"
  have "length ?line = (?n + 1) * ?t" by (simp add: line_width_unat [OF okk])
  from tag_ports_line [OF okk _ ports [rule_format] this, of 0 names tc "us ! k" gen number]
  obtain line' gen1 number1 where
    step: "foldM (tag_port tc m tag_size ?n (Inr (word_of_nat ?n)) k (us ! k)) (enumerate 0 names)
        (?line, Some gen, number) = Inr (line', Some gen1, number1)"
    and line': "tagged_line tc m ?t ?n k (us ! k) gen1 0 names ?line line'"
    and keeps1: "keeps tc gen gen1" and asked1: "\<forall>name \<in> set names. asked tc m gen1 name (us ! k)" by auto
  have tag_line: "tag_line tc m names tag_size (Inr (word_of_nat ?n)) stepsize us (k, us ! k)
      (out, prev, Some gen, number) =
      Inr (out @ [bitset_text line', ''\<newline>''], planned_delta us k, Some gen1, number1)"
    using step by (simp add: tag_line_def delta narrow line_value_def)
  have "planned_delta us k = (if Suc k = 0 then 0 else us ! Suc k - us ! (Suc k - 1)) \<or> Suc k = length us"
    using k by (auto simp: planned_delta_def)
  note IH = Suc.hyps(1) [OF _ _ this, of "out @ [bitset_text line', ''\<newline>'']" gen1 number1]
  have "d = length us - Suc k" "Suc k \<le> length us" using Suc.hyps(2) by simp_all
  from IH [OF this]
  obtain lines prev' gen' number' where
    rest: "foldM (tag_line tc m names tag_size (Inr (word_of_nat ?n)) stepsize us)
        (enumerate (Suc k) (drop (Suc k) us))
        (out @ [bitset_text line', ''\<newline>''], planned_delta us k, Some gen1, number1) =
        Inr ((out @ [bitset_text line', ''\<newline>'']) @ concat (map (\<lambda>l. [bitset_text l, ''\<newline>'']) lines),
          prev', Some gen', number')"
    and len: "length lines = length us - Suc k" and keeps': "keeps tc gen1 gen'"
    and tagged: "\<forall>idx. Suc k \<le> idx \<and> idx < length us \<longrightarrow>
        tagged_line tc m ?t ?n idx (us ! idx) gen' 0 names
          (bitset_of (line_width tag_size ?n) (line_value us stepsize idx)) (lines ! (idx - Suc k)) \<and>
        (\<forall>name \<in> set names. asked tc m gen' name (us ! idx))"
    by (elim exE conjE)
  have "foldM (tag_line tc m names tag_size (Inr (word_of_nat ?n)) stepsize us)
        (enumerate k (drop k us)) (out, prev, Some gen, number) =
      Inr (out @ concat (map (\<lambda>l. [bitset_text l, ''\<newline>'']) (line' # lines)), prev', Some gen', number')"
    using rest tag_line Cons_nth_drop_Suc [OF k, symmetric] by simp
  moreover have "tagged_line tc m ?t ?n idx (us ! idx) gen' 0 names
          (bitset_of (line_width tag_size ?n) (line_value us stepsize idx)) ((line' # lines) ! (idx - k)) \<and>
        (\<forall>name \<in> set names. asked tc m gen' name (us ! idx))" if idx: "k \<le> idx" "idx < length us" for idx
  proof (cases "idx = k")
    case True
    then show ?thesis
      using tagged_line_keeps [OF line' keeps' asked1] keeps_asked [OF keeps'] asked1 by auto
  next
    case False
    then have "Suc k \<le> idx" using idx by simp
    then show ?thesis using tagged idx by (simp add: nth_Cons')
  qed
  moreover have "length (line' # lines) = length us - k" using len k by simp
  ultimately show ?case using keeps_trans [OF keeps1 keeps'] by blast
qed

lemma input_port_exists: "name \<in> set (get_input_names m) \<Longrightarrow> \<exists>p. module_get_port m name = Inr p"
  by (cases "find (\<lambda>p. pt_name p = name) (m_ports m)")
    (auto simp: module_get_port_def get_input_names_def names_of_def find_None_iff)

text \<open>
  \<^bold>\<open>C35.\<close> The layout of the tag file: when the tags of all lines fit their fields and nothing wraps,
  the export returns one line for each time, after the line with the start. Read back with the part
  selects of the test bench, the field of port \<open>j\<close> on line \<open>idx\<close> is the one-hot tag number
  \<open>idx * n + j\<close> if the generator chose to tag the port at that time and zero otherwise, and the
  field of the time is the delay to the next line, at least the step size.
\<close>

theorem export_tags_layout:
  assumes "get_module (tb_design tb) (d_top (tb_design tb)) = Inr (m, g)"
    and "names = get_input_names m" "n = length names"
    and "jcontains params ''tag_size''" "tags_params params = Inr (tag_size, stepsize)"
    and "length (tb_tagged tb) \<le> unat tag_size" "tb_generator tb = Some gen"
    and "us \<noteq> []" "0 \<le> hd us" "hd us < 2 ^ 64" "deltas_ok us" "line_ok tag_size n (length us - 1)"
    and "\<forall>idx < length us. unat (line_value us stepsize idx) < 2 ^ unat tag_size"
  shows "\<exists>start lines number gen'.
    export_tags tc tb us params =
      Inr (concat (map (\<lambda>l. [bitset_text l, ''\<newline>'']) (start # lines)), number, Some gen') \<and>
    length lines = length us \<and>
    (\<forall>idx < length us. let line = read_line (bitset_text (lines ! idx)) in
      (\<forall>j < n. part_select line (port_start_bit tag_size n j) (port_end_bit tag_size n j) =
         map (\<lambda>k. k = idx * n + j \<and> decided tc m gen' (names ! j) (us ! idx)) [0..<unat tag_size]) \<and>
      part_select line (time_start_bit tag_size n) (time_end_bit tag_size n) =
         map (\<lambda>k. bit (line_value us stepsize idx) k) [0..<unat tag_size])"
proof -
  have n: "length names = n" using assms(3) by simp
  have ok: "line_ok tag_size (length names) (length us - 1)" using assms(12) n by simp
  have ports: "\<forall>name \<in> set names. \<exists>p. module_get_port m name = Inr p"
    using input_port_exists assms(2) by simp
  have time: "bnd (at_index us 0) narrow_size = Inr (word_of_int (hd us))"
    using assms(8-10) by (cases us) (simp_all add: at_index_def narrow_size_def)
  let ?start = "bitset_of (line_width tag_size n) (word_of_int (hd us))"
  have "(0::nat) \<le> length us" "(0::int) = (if (0::nat) = 0 then 0 else us ! 0 - us ! (0 - 1)) \<or> 0 = length us"
    by simp_all
  note lines_of = tag_lines [OF ok assms(11) ports this, of tc stepsize "[bitset_text ?start, ''\<newline>'']" gen 0]
  obtain lines prev' gen' number where
    fold: "foldM (tag_line tc m names tag_size (Inr (word_of_nat n)) stepsize us) (enumerate 0 us)
        ([bitset_text ?start, ''\<newline>''], 0, Some gen, 0) =
      Inr ([bitset_text ?start, ''\<newline>''] @ concat (map (\<lambda>l. [bitset_text l, ''\<newline>'']) lines),
        prev', Some gen', number)"
    and len: "length lines = length us"
    and tagged: "\<And>idx. idx < length us \<Longrightarrow>
        tagged_line tc m (unat tag_size) n idx (us ! idx) gen' 0 names
          (bitset_of (line_width tag_size n) (line_value us stepsize idx)) (lines ! idx)"
    using lines_of unfolding n drop_0 diff_zero
    by (elim exE conjE) (rule that, assumption, simp, drule spec, erule impE, simp, erule conjunct1)
  have "narrow_u32 (int n) = Inr (word_of_nat n)" by (rule narrow_u32_int [OF line_okD(4) [OF assms(12)]])
  then have "export_tags tc tb us params =
      Inr (concat (map (\<lambda>l. [bitset_text l, ''\<newline>'']) (?start # lines)), number, Some gen')"
    using assms(1,4-7) n time fold by (simp add: export_tags_def tag_file_def assms(2) [symmetric])
  moreover have "(\<forall>j < n. part_select (lines ! idx) (port_start_bit tag_size n j) (port_end_bit tag_size n j) =
         map (\<lambda>k. k = idx * n + j \<and> decided tc m gen' (names ! j) (us ! idx)) [0..<unat tag_size]) \<and>
      part_select (lines ! idx) (time_start_bit tag_size n) (time_end_bit tag_size n) =
         map (\<lambda>k. bit (line_value us stepsize idx) k) [0..<unat tag_size]" if idx: "idx < length us" for idx
  proof -
    have okk: "line_ok tag_size n idx" by (rule line_ok_mono [OF assms(12)]) (use idx in simp)
    show ?thesis
      using part_select_port [OF okk n assms(13) [rule_format, OF idx] tagged [OF idx]]
        part_select_time [OF okk n tagged [OF idx]] by simp
  qed
  ultimately show ?thesis using len by (auto simp: read_line_bitset Let_def)
qed

definition tagged_sample :: "bool testbench" where
  "tagged_sample = \<lparr>tb_design = \<lparr>d_top = ''top'', d_clk = ''clk'', d_modules = [(sample_module, empty_graph)],
     d_hierarchy = \<lparr>h_names = [], h_edges = []\<rparr>\<rparr>,
     tb_map = \<lparr>vm_data = [sample_vcd], vm_roots = [], vm_simulations = 1\<rparr>,
     tb_tagged = [], tb_generator = Some (FullResolution 0)\<rparr>"

theorem export_tags_layout_witness:
  "\<exists>start lines number gen'.
    export_tags \<lparr>tc_draw = flip_draw, tc_hash = \<lambda>_. 0\<rparr> tagged_sample [0, 5, 7]
        (JObj [(''tag_size'', JInt 8)]) =
      Inr (concat (map (\<lambda>l. [bitset_text l, ''\<newline>'']) (start # lines)), number, Some gen') \<and>
    length lines = 3"
proof -
  have small: "\<forall>idx < length [0, 5, 7 :: int]. unat (line_value [0, 5, 7] 1 idx) < 2 ^ unat (8 :: 32 word)"
    by (auto simp: line_value_def planned_delta_def less_Suc_eq)
  have deltas: "deltas_ok [0, 5, 7]"
    by (auto simp: deltas_ok_def planned_delta_def less_Suc_eq)
  have names: "[''a''] = get_input_names sample_module"
    by (simp add: get_input_names_def names_of_def sample_module_def mk_port_def)
  have top: "get_module (tb_design tagged_sample) (d_top (tb_design tagged_sample)) = Inr (sample_module, empty_graph)"
    by (simp add: tagged_sample_def get_module_def sample_module_def)
  have params: "tags_params (JObj [(''tag_size'', JInt 8)]) = Inr (8, 1)"
    by (simp add: tags_params_def)
  have ok: "line_ok 8 1 (length [0, 5, 7 :: int] - 1)"
    by (simp add: line_ok_def)
  have gen: "tb_generator tagged_sample = Some (FullResolution 0)" "length (tb_tagged tagged_sample) \<le> unat (8 :: 32 word)"
    by (simp_all add: tagged_sample_def)
  have rest: "1 = length [''a'']" "jcontains (JObj [(''tag_size'', JInt 8)]) ''tag_size''" "[0, 5, 7 :: int] \<noteq> []"
      "0 \<le> hd [0, 5, 7 :: int]" "hd [0, 5, 7 :: int] < 2 ^ 64" by simp_all
  show ?thesis
    using export_tags_layout [OF top names rest(1,2) params gen(2,1) rest(3-5) deltas ok small,
        of "\<lparr>tc_draw = flip_draw, tc_hash = \<lambda>_. 0\<rparr>"]
    by (elim exE conjE) (intro exI conjI, assumption, erule trans, simp)
qed

end
