(* ===== verification/Instances.thy ===== *)
theory Instances
  imports Designs
begin

text \<open>
  The flattened design (\<open>class DesignInstance\<close>: \<open>include/ducode/instantiation_graph.hpp\<close>,
  \<open>src/ducode/instantiation_graph.cpp\<close>): one vertex for each primitive cell and for each port of
  each instance of a module, an edge for each pair of an output and an input that share a bit.
\<close>

section \<open>The graph\<close>

record inst_vertex =
  iv_name :: string
  iv_type :: string
  iv_parent :: string
  iv_hierarchy :: "string list"
  iv_cell :: anycell
  iv_port :: "port option"

text \<open>A pointer to a net: the module and the position it points to, and the net.\<close>

record net_ref =
  nr_module :: nat
  nr_index :: nat
  nr_net :: net

record inst_edge =
  ie_name :: string
  ie_parent :: string
  ie_hierarchy :: "string list"
  ie_source_port :: port
  ie_target_port :: port
  ie_net :: "net_ref option"

text \<open>
  A vertex is its position. The edges are in the order in which they were added; a removal keeps
  the order, so the edges out of and into a vertex are the sublists.
\<close>

record inst_graph =
  ig_vertices :: "inst_vertex list"
  ig_edges :: "(nat \<times> nat \<times> inst_edge) list"

definition empty_inst_graph :: inst_graph where
  "empty_inst_graph = \<lparr>ig_vertices = [], ig_edges = []\<rparr>"

abbreviation nverts_of :: "inst_graph \<Rightarrow> nat" where
  "nverts_of g \<equiv> length (ig_vertices g)"

abbreviation vertex_at :: "inst_graph \<Rightarrow> nat \<Rightarrow> inst_vertex" where
  "vertex_at g v \<equiv> ig_vertices g ! v"

definition in_edges :: "inst_graph \<Rightarrow> nat \<Rightarrow> (nat \<times> nat \<times> inst_edge) list" where
  "in_edges g v = filter (\<lambda>(s, t, e). t = v) (ig_edges g)"

definition out_edges :: "inst_graph \<Rightarrow> nat \<Rightarrow> (nat \<times> nat \<times> inst_edge) list" where
  "out_edges g v = filter (\<lambda>(s, t, e). s = v) (ig_edges g)"

definition is_module_port :: "inst_vertex \<Rightarrow> bool" where
  "is_module_port v = (iv_type v = ''module_port'')"

definition deref_port :: "inst_vertex \<Rightarrow> port res" where
  "deref_port v = of_opt Undefined (iv_port v)"

definition is_module_cell :: "anycell \<Rightarrow> bool" where
  "is_module_cell c = (case c of ModuleCell _ \<Rightarrow> True | _ \<Rightarrow> False)"

definition show_bits :: "netbit list \<Rightarrow> string" where
  "show_bits bs = ''['' @ join '', '' (map show_bit bs) @ '']''"

definition mk_edge :: "port \<Rightarrow> port \<Rightarrow> inst_edge" where
  "mk_edge p q = \<lparr>ie_name = fmt ''{} -> {}'' [show_bits (pt_bits p), show_bits (pt_bits q)],
     ie_parent = '''', ie_hierarchy = [], ie_source_port = p, ie_target_port = q, ie_net = None\<rparr>"

definition remove_inst_vertex :: "nat \<Rightarrow> inst_graph \<Rightarrow> inst_graph" where
  "remove_inst_vertex v g =
     (let shift = (\<lambda>w. if v < w then w - 1 else w)
      in \<lparr>ig_vertices = take v (ig_vertices g) @ drop (Suc v) (ig_vertices g),
          ig_edges = map (\<lambda>(s, t, e). (shift s, shift t, e))
            (filter (\<lambda>(s, t, e). s \<noteq> v \<and> t \<noteq> v) (ig_edges g))\<rparr>)"

text \<open>The iteration orders of the hash tables: of the sinks of a bit, and of the nets.\<close>

record inst_orders =
  io_sinks :: "(nat \<times> nat \<times> port) list \<Rightarrow> (nat \<times> nat \<times> port) list"
  io_nets :: "net_ref list \<Rightarrow> net_ref list"

section \<open>Ports of a module\<close>

definition find_module :: "design \<Rightarrow> string \<Rightarrow> (nat \<times> module) option" where
  "find_module d name =
     find (\<lambda>(i, m). m_name m = name) (enumerate 0 (map fst (d_modules d)))"

definition port_vertices :: "string list \<Rightarrow> anycell \<Rightarrow> module \<Rightarrow> inst_vertex list" where
  "port_vertices hierarchy cell_module m =
     map (\<lambda>p. \<lparr>iv_name = fmt ''{}_{}'' [m_name m, pt_name p], iv_type = ''module_port'',
       iv_parent = m_name m, iv_hierarchy = hierarchy, iv_cell = cell_module, iv_port = Some p\<rparr>)
       (m_ports m)"

text \<open>
  The edges of the vertex of the instance are copied to the port with the name of the port they
  end at; first those into it, then those out of it, the copies of self loops included.
\<close>

definition redirect_in :: "nat \<Rightarrow> nat list \<Rightarrow> inst_graph \<Rightarrow> inst_graph res" where
  "redirect_in v news g =
     bnd (mapM (\<lambda>(s, t, e).
            mapM (\<lambda>w. bnd (deref_port (vertex_at g w)) (\<lambda>p.
              Inr (if pt_name (ie_target_port e) = pt_name p then [(s, w, e)] else []))) news)
          (in_edges g v)) (\<lambda>es.
     Inr (g\<lparr>ig_edges := ig_edges g @ concat (concat es)\<rparr>))"

definition redirect_out :: "nat \<Rightarrow> nat list \<Rightarrow> inst_graph \<Rightarrow> inst_graph res" where
  "redirect_out v news g =
     bnd (mapM (\<lambda>(s, t, e).
            mapM (\<lambda>w. bnd (deref_port (vertex_at g w)) (\<lambda>p.
              Inr (if pt_name (ie_source_port e) = pt_name p then [(w, t, e)] else []))) news)
          (out_edges g v)) (\<lambda>es.
     Inr (g\<lparr>ig_edges := ig_edges g @ concat (concat es)\<rparr>))"

definition create_module_ports_vertices ::
  "design \<Rightarrow> nat \<Rightarrow> string list \<Rightarrow> anycell \<Rightarrow> inst_graph \<Rightarrow> (nat list \<times> inst_graph) res"
where
  "create_module_ports_vertices d v hierarchy cell_module g =
     chk (is_module_cell cell_module) Contract (
     chk (v < nverts_of g) Undefined (
     chk (c_name (cell_base cell_module) = iv_name (vertex_at g v)) Contract (
     bnd (of_opt (RuntimeError ''module not found'')
            (find_module d (c_type (cell_base cell_module)))) (\<lambda>(mi, m).
     let g1 = g\<lparr>ig_vertices := ig_vertices g
           @ port_vertices (hierarchy @ [c_name (cell_base cell_module)]) cell_module m\<rparr>;
         news = [nverts_of g..<nverts_of g1]
     in bnd (redirect_in v news g1) (\<lambda>g2.
        bnd (redirect_out v news g2) (\<lambda>g3. Inr (news, g3)))))))"

section \<open>Connections inside a module\<close>

definition cell_vertices :: "string list \<Rightarrow> module \<Rightarrow> inst_vertex list" where
  "cell_vertices hierarchy m =
     map (\<lambda>c. \<lparr>iv_name = c_name (cell_base c), iv_type = c_type (cell_base c), iv_parent = m_name m,
       iv_hierarchy = hierarchy, iv_cell = c, iv_port = None\<rparr>) (m_cells m)"

text \<open>The ports a bit may drive: outputs of the module and inputs of its cells.\<close>

definition sinks_of :: "inst_graph \<Rightarrow> nat \<Rightarrow> (nat \<times> nat \<times> port) list res" where
  "sinks_of g w =
     (let v = vertex_at g w
      in if is_module_port v then
           bnd (deref_port v) (\<lambda>p. Inr (if pt_direction p = Output then [(w, 0, p)] else []))
         else Inr (map (\<lambda>(k, p). (w, k, p))
           (filter (\<lambda>(k, p). pt_direction p = Input) (enumerate 0 (c_ports (cell_base (iv_cell v)))))))"

definition sources_of :: "inst_graph \<Rightarrow> nat \<Rightarrow> port list res" where
  "sources_of g w =
     (let v = vertex_at g w
      in if is_module_port v then
           bnd (deref_port v) (\<lambda>p. Inr (if pt_direction p = Input then [p] else []))
         else Inr (filter (\<lambda>p. pt_direction p = Output) (c_ports (cell_base (iv_cell v)))))"

definition sinks_of_bit :: "(nat \<times> nat \<times> port) list \<Rightarrow> netbit \<Rightarrow> (nat \<times> nat \<times> port) list" where
  "sinks_of_bit sinks b =
     (if is_constant b then [] else filter (\<lambda>(w, k, q). b \<in> set (pt_bits q)) sinks)"

text \<open>A source is connected once to each identifier of a port.\<close>

definition connect_sink ::
  "nat \<Rightarrow> port \<Rightarrow> string \<Rightarrow> string list \<Rightarrow> nat \<times> nat \<times> port \<Rightarrow>
   string set \<times> (nat \<times> nat \<times> inst_edge) list \<Rightarrow> string set \<times> (nat \<times> nat \<times> inst_edge) list"
where
  "connect_sink v p parent hierarchy sink st =
     (case (sink, st) of ((w, k, q), (connected_ports, es)) \<Rightarrow>
      if pt_identifier q \<in> connected_ports then st
      else (insert (pt_identifier q) connected_ports,
            es @ [(v, w, (mk_edge p q)\<lparr>ie_parent := parent, ie_hierarchy := hierarchy\<rparr>)]))"

definition connect_port ::
  "inst_orders \<Rightarrow> (nat \<times> nat \<times> port) list \<Rightarrow> string \<Rightarrow> string list \<Rightarrow> nat \<Rightarrow> port \<Rightarrow>
   (nat \<times> nat \<times> inst_edge) list"
where
  "connect_port ord sinks parent hierarchy v p =
     snd (fold (\<lambda>b. fold (connect_sink v p parent hierarchy) (io_sinks ord (sinks_of_bit sinks b)))
       (pt_bits p) ({}, []))"

definition inner_edges ::
  "inst_orders \<Rightarrow> string \<Rightarrow> string list \<Rightarrow> nat list \<Rightarrow> inst_graph \<Rightarrow> (nat \<times> nat \<times> inst_edge) list res"
where
  "inner_edges ord parent hierarchy news g =
     bnd (mapM (sinks_of g) news) (\<lambda>sinks.
     bnd (mapM (\<lambda>v. bnd (sources_of g v) (\<lambda>ps.
            Inr (concat (map (connect_port ord (concat sinks) parent hierarchy v) ps)))) news) (\<lambda>es.
     Inr (concat es)))"

section \<open>Nets of the connections\<close>

definition net_table :: "nat \<Rightarrow> net list \<Rightarrow> net_ref list" where
  "net_table mi nets =
     foldl (\<lambda>table (k, n).
       if list_ex (\<lambda>r. n_bits_signature (nr_net r) = n_bits_signature n) table then table
       else table @ [\<lparr>nr_module = mi, nr_index = k, nr_net = n\<rparr>]) [] (enumerate 0 nets)"

definition net_with :: "net_ref list \<Rightarrow> 64 word \<Rightarrow> net_ref option" where
  "net_with table s = find (\<lambda>r. n_bits_signature (nr_net r) = s) table"

text \<open>The condition of the inner loop does not mention its variable.\<close>

definition alias_check :: "inst_edge \<Rightarrow> net_ref list \<Rightarrow> net_ref \<Rightarrow> unit res" where
  "alias_check e table r =
     (let n = nr_net r; tmp_net = nr_net r
      in foldM (\<lambda>_ _.
           bnd (vectors_intersection (pt_fast_search_bits (ie_source_port e)) (n_fast_search_bits n)) (\<lambda>a.
           bnd (if a then Inr True
                else vectors_intersection (pt_fast_search_bits (ie_target_port e)) (n_fast_search_bits n)) (\<lambda>b.
           if b \<and> n_name n \<noteq> n_name tmp_net \<and> n_bits_signature n \<noteq> n_bits_signature tmp_net
           then Inl (RuntimeError ''multiple nets with the same bit(s) that are not aliases!!'')
           else Inr ()))) table ())"

fun partial_net :: "inst_edge \<Rightarrow> net_ref list \<Rightarrow> net_ref list \<Rightarrow> net_ref option res" where
  "partial_net e table [] = Inr None"
| "partial_net e table (r # rs) =
     bnd (vectors_intersection (pt_fast_search_bits (ie_source_port e))
            (n_fast_search_bits (nr_net r))) (\<lambda>a.
     bnd (if a then vectors_intersection (pt_fast_search_bits (ie_target_port e))
            (n_fast_search_bits (nr_net r)) else Inr False) (\<lambda>b.
     if b then bnd (alias_check e table r) (\<lambda>_. Inr (Some r)) else partial_net e table rs))"

definition edge_net :: "inst_orders \<Rightarrow> net_ref list \<Rightarrow> inst_edge \<Rightarrow> inst_edge res" where
  "edge_net ord table e =
     (case net_with table (pt_bits_signature (ie_source_port e)) of
        Some r \<Rightarrow> Inr (e\<lparr>ie_net := Some r\<rparr>)
      | None \<Rightarrow>
          (case net_with table (pt_bits_signature (ie_target_port e)) of
             Some r \<Rightarrow> Inr (e\<lparr>ie_net := Some r\<rparr>)
           | None \<Rightarrow>
               bnd (partial_net e (io_nets ord table) (io_nets ord table)) (\<lambda>n.
               Inr (e\<lparr>ie_net := n\<rparr>))))"

section \<open>Population\<close>

text \<open>
  One instance: its ports, its cells, the edges between them with their nets. The vertex of the
  instance is removed.
\<close>

definition expand_module ::
  "inst_orders \<Rightarrow> design \<Rightarrow> nat \<Rightarrow> string list \<Rightarrow> anycell \<Rightarrow> inst_graph \<Rightarrow> (module \<times> inst_graph) res"
where
  "expand_module ord d v hierarchy cell_module g =
     bnd (create_module_ports_vertices d v hierarchy cell_module g) (\<lambda>(ports, g1).
     bnd (of_opt (RuntimeError ''module not found'')
            (find_module d (c_type (cell_base cell_module)))) (\<lambda>(mi, m).
     let inner = hierarchy @ [c_name (cell_base cell_module)];
         g2 = g1\<lparr>ig_vertices := ig_vertices g1 @ cell_vertices inner m\<rparr>
     in bnd (inner_edges ord (m_name m) inner (ports @ [nverts_of g1..<nverts_of g2]) g2) (\<lambda>es.
        bnd (mapM (\<lambda>(s, t, e). bnd (edge_net ord (net_table mi (m_nets m)) e) (\<lambda>e'. Inr (s, t, e')))
               es) (\<lambda>es'.
        Inr (m, remove_inst_vertex v (g2\<lparr>ig_edges := ig_edges g2 @ es'\<rparr>))))))"

text \<open>
  The loop over the vertices that looks for an instance; the graph changes while it runs, and the
  number of vertices is read in each step.
\<close>

fun visit_instances ::
  "nat \<Rightarrow> (nat \<Rightarrow> inst_graph \<Rightarrow> inst_graph res) \<Rightarrow> string list \<Rightarrow> string \<Rightarrow> nat \<Rightarrow> inst_graph \<Rightarrow>
   inst_graph res"
where
  "visit_instances 0 populate hierarchy name i g = Inl Diverges"
| "visit_instances (Suc k) populate hierarchy name i g =
     (if i < nverts_of g then
        bnd (if iv_hierarchy (vertex_at g i) = hierarchy \<and> iv_name (vertex_at g i) = name
             then populate i g else Inr g) (visit_instances k populate hierarchy name (Suc i))
      else Inr g)"

fun populate_module ::
  "nat \<Rightarrow> nat \<Rightarrow> inst_orders \<Rightarrow> design \<Rightarrow> nat \<Rightarrow> string list \<Rightarrow> anycell \<Rightarrow> inst_graph \<Rightarrow> inst_graph res"
where
  "populate_module 0 steps ord d v hierarchy cell_module g = Inl Diverges"
| "populate_module (Suc k) steps ord d v hierarchy cell_module g =
     bnd (expand_module ord d v hierarchy cell_module g) (\<lambda>(m, g1).
     let inner = hierarchy @ [c_name (cell_base cell_module)]
     in foldM (\<lambda>c g.
          if is_module_cell c then
            visit_instances steps (\<lambda>i. populate_module k steps ord d i inner c)
              inner (c_name (cell_base c)) 0 g
          else Inr g) (m_cells m) g1)"

section \<open>Propagation of nets\<close>

definition in_edge_ids :: "inst_graph \<Rightarrow> nat \<Rightarrow> nat list" where
  "in_edge_ids g v = filter (\<lambda>i. fst (snd (ig_edges g ! i)) = v) [0..<length (ig_edges g)]"

definition net_of_edge :: "inst_graph \<Rightarrow> nat \<Rightarrow> net_ref option" where
  "net_of_edge g i = ie_net (snd (snd (ig_edges g ! i)))"

definition set_edge_net :: "nat \<Rightarrow> net_ref option \<Rightarrow> inst_graph \<Rightarrow> inst_graph" where
  "set_edge_net i n g =
     g\<lparr>ig_edges := (ig_edges g)[i := (case ig_edges g ! i of (s, t, e) \<Rightarrow> (s, t, e\<lparr>ie_net := n\<rparr>))]\<rparr>"

fun propagate_net ::
  "nat \<Rightarrow> net_ref option \<Rightarrow> nat \<Rightarrow> inst_graph \<times> nat set \<Rightarrow> (inst_graph \<times> nat set) res"
where
  "propagate_net 0 previous i st = Inl Diverges"
| "propagate_net (Suc k) previous i st =
     (case st of (g, visited) \<Rightarrow>
      if i \<in> visited then Inr (g, visited)
      else
        (let g1 = (if net_of_edge g i = None then set_edge_net i previous g else g)
         in foldM (\<lambda>j (g, visited). propagate_net k (net_of_edge g i) j (g, visited))
              (in_edge_ids g1 (fst (ig_edges g1 ! i))) (g1, insert i visited)))"

definition propagate_port ::
  "nat \<Rightarrow> module \<Rightarrow> inst_graph \<Rightarrow> nat \<Rightarrow> port \<Rightarrow> inst_graph \<times> nat set \<Rightarrow> (inst_graph \<times> nat set) res"
where
  "propagate_port mi m g v p st =
     (if is_module_port (vertex_at g v)
         \<and> iv_name (vertex_at g v) = fmt ''{}_{}'' [m_name m, pt_name p] then
        bnd (of_opt (RuntimeError (fmt ''Net {} not found'' [pt_name p]))
               (find (\<lambda>(k, n). n_name n = pt_name p) (enumerate 0 (m_nets m)))) (\<lambda>(k, n).
        foldM (propagate_net (length (ig_edges g) + 1)
                 (Some \<lparr>nr_module = mi, nr_index = k, nr_net = n\<rparr>)) (in_edge_ids g v) st)
      else Inr st)"

definition propagate_net_pointers :: "nat \<Rightarrow> module \<Rightarrow> inst_graph \<Rightarrow> inst_graph res" where
  "propagate_net_pointers mi m g =
     bnd (foldM (\<lambda>v. foldM (propagate_port mi m g v) (m_ports m)) [0..<nverts_of g] (g, {}))
       (\<lambda>(g', visited). Inr g')"

section \<open>Creation\<close>

text \<open>A top module without ports is a test bench; its only cell is an instance of the design.\<close>

definition instance_top :: "design \<Rightarrow> (nat \<times> module) res" where
  "instance_top d =
     bnd (of_opt (RuntimeError ''This design does not contain a top module'') (find_module d (d_top d)))
       (\<lambda>(mi, m).
     if m_ports m = [] then
       chk (length (m_cells m) \<le> 1)
         (RuntimeError ''Here we assume that the testbench contains only 1 instantiated design'') (
       bnd (at_index (m_cells m) 0) (\<lambda>c.
       chk (is_module_cell c)
         (RuntimeError ''The first design contained in the testbench is not a module'') (
       of_opt Undefined (find_module d (c_type (cell_base c))))))
     else Inr (mi, m))"

definition root_cell :: "module \<Rightarrow> anycell" where
  "root_cell m = ModuleCell (mk_cell (m_name m) (m_name m) [] False JNull JNull)"

definition root_graph :: "module \<Rightarrow> inst_graph" where
  "root_graph m =
     \<lparr>ig_vertices = [\<lparr>iv_name = m_name m, iv_type = m_name m, iv_parent = ''top_module'',
        iv_hierarchy = [], iv_cell = root_cell m, iv_port = None\<rparr>], ig_edges = []\<rparr>"

definition create_instance :: "nat \<Rightarrow> nat \<Rightarrow> inst_orders \<Rightarrow> design \<Rightarrow> inst_graph res" where
  "create_instance depth steps ord d =
     bnd (instance_top d) (\<lambda>(mi, m).
     bnd (populate_module depth steps ord d 0 [] (root_cell m) (root_graph m)) (\<lambda>g.
     bnd (propagate_net_pointers mi m g) (\<lambda>g.
     bnd (foldM (\<lambda>(s, t, e) _. chk (ie_net e \<noteq> None)
            (RuntimeError (fmt ''Unrecognized net for edge: {} -> {}''
               [pt_identifier (ie_source_port e), pt_identifier (ie_target_port e)])) (Inr ()))
          (ig_edges g) ()) (\<lambda>_. Inr g))))"

end
