(* ===== verification/InstanceFacts.thy ===== *)
theory InstanceFacts
  imports Instances "HOL-Library.Multiset"
begin

text \<open>
  Facts about the flattened design: which connections an instance gets, which vertices the whole
  design has, what holds of every edge, and when the flattening returns.
\<close>

section \<open>Connections of one source\<close>

definition sink_id :: "nat \<times> nat \<times> port \<Rightarrow> string" where
  "sink_id s = pt_identifier (snd (snd s))"

definition new_edge ::
  "nat \<Rightarrow> port \<Rightarrow> string \<Rightarrow> string list \<Rightarrow> nat \<times> nat \<times> port \<Rightarrow> nat \<times> nat \<times> inst_edge"
where
  "new_edge v p parent hierarchy s =
     (v, fst s, (mk_edge p (snd (snd s)))\<lparr>ie_parent := parent, ie_hierarchy := hierarchy\<rparr>)"

text \<open>The first sink with each identifier that is not taken yet.\<close>

fun first_sinks :: "string set \<Rightarrow> (nat \<times> nat \<times> port) list \<Rightarrow> (nat \<times> nat \<times> port) list" where
  "first_sinks taken [] = []"
| "first_sinks taken (s # ss) =
     (if sink_id s \<in> taken then first_sinks taken ss
      else s # first_sinks (insert (sink_id s) taken) ss)"

lemma fold_connect_sink:
  "fold (connect_sink v p parent h) xs (taken, es) =
     (taken \<union> sink_id ` set xs, es @ map (new_edge v p parent h) (first_sinks taken xs))"
  by (induction xs arbitrary: taken es)
    (auto simp: connect_sink_def new_edge_def sink_id_def split: prod.splits)

lemma fold_fold_concat: "fold (\<lambda>b. fold f (g b)) bs = fold f (concat (map g bs))"
  by (induction bs) auto

lemma connect_port_eq:
  "connect_port ord sinks parent h v p =
     map (new_edge v p parent h)
       (first_sinks {} (concat (map (\<lambda>b. io_sinks ord (sinks_of_bit sinks b)) (pt_bits p))))"
  unfolding connect_port_def fold_fold_concat fold_connect_sink by simp

lemma first_sinks_subset: "set (first_sinks taken xs) \<subseteq> set xs"
  by (induction taken xs rule: first_sinks.induct) auto

lemma first_sinks_ids: "sink_id ` set (first_sinks taken xs) = sink_id ` set xs - taken"
  by (induction taken xs rule: first_sinks.induct) auto

lemma first_sinks_distinct: "distinct (map sink_id (first_sinks taken xs))"
proof (induction taken xs rule: first_sinks.induct)
  case (2 taken s ss)
  then show ?case using first_sinks_ids [of "insert (sink_id s) taken" ss] by auto
qed simp

definition keeps_sinks :: "inst_orders \<Rightarrow> bool" where
  "keeps_sinks ord \<longleftrightarrow> (\<forall>xs. set (io_sinks ord xs) = set xs) \<and> (\<forall>xs. set (io_nets ord xs) = set xs)"

definition shares_bit :: "port \<Rightarrow> port \<Rightarrow> bool" where
  "shares_bit p q \<longleftrightarrow> (\<exists>b \<in> set (pt_bits p) \<inter> set (pt_bits q). \<not> is_constant b)"

lemma driven_sinks:
  assumes "keeps_sinks ord"
  shows "set (concat (map (\<lambda>b. io_sinks ord (sinks_of_bit sinks b)) (pt_bits p))) =
    {s \<in> set sinks. shares_bit p (snd (snd s))}"
  using assms by (auto simp: keeps_sinks_def sinks_of_bit_def shares_bit_def split: if_splits)

lemma connect_port_edge:
  assumes "keeps_sinks ord" "e \<in> set (connect_port ord sinks parent h v p)"
  obtains s where "s \<in> set sinks" "shares_bit p (snd (snd s))" "e = new_edge v p parent h s"
  using assms(2) first_sinks_subset [of "{}" "concat (map (\<lambda>b. io_sinks ord (sinks_of_bit sinks b)) (pt_bits p))"]
  unfolding connect_port_eq driven_sinks [OF assms(1)] by auto

text \<open>The sinks in the order in which they are visited.\<close>

definition visited_sinks :: "inst_orders \<Rightarrow> (nat \<times> nat \<times> port) list \<Rightarrow> port \<Rightarrow> (nat \<times> nat \<times> port) list" where
  "visited_sinks ord sinks p =
     concat (map (\<lambda>b. io_sinks ord (filter (\<lambda>(w, k, q). b \<in> set (pt_bits q)) sinks))
       (filter (\<lambda>b. \<not> is_constant b) (pt_bits p)))"

lemma visited_sinks_eq:
  assumes "keeps_sinks ord"
  shows "concat (map (\<lambda>b. io_sinks ord (sinks_of_bit sinks b)) bs) =
    concat (map (\<lambda>b. io_sinks ord (filter (\<lambda>(w, k, q). b \<in> set (pt_bits q)) sinks)) (filter (\<lambda>b. \<not> is_constant b) bs))"
proof -
  have "io_sinks ord [] = []" using assms by (metis keeps_sinks_def set_empty)
  then show ?thesis by (induction bs) (simp_all add: sinks_of_bit_def)
qed

lemma first_sinks_nth:
  "first_sinks taken xs =
     map (nth xs) (filter (\<lambda>i. sink_id (xs ! i) \<notin> taken \<and> (\<forall>j < i. sink_id (xs ! j) \<noteq> sink_id (xs ! i))) [0..<length xs])"
proof (induction taken xs rule: first_sinks.induct)
  case (2 taken s ss)
  have split: "[0..<length (s # ss)] = 0 # map Suc [0..<length ss]" by (simp add: map_Suc_upt upt_conv_Cons del: upt_Suc)
  have all: "(\<forall>j < Suc i. P j) \<longleftrightarrow> P 0 \<and> (\<forall>j < i. P (Suc j))" for P :: "nat \<Rightarrow> bool" and i
    using less_Suc_eq_0_disj by auto
  let ?P = "\<lambda>taken xs i. sink_id (xs ! i) \<notin> taken \<and> (\<forall>j < i. sink_id (xs ! j) \<noteq> sink_id (xs ! i))"
  let ?taken = "if sink_id s \<in> taken then taken else insert (sink_id s) taken"
  have tail: "?P taken (s # ss) (Suc i) \<longleftrightarrow> ?P ?taken ss i" for i by (auto simp: all)
  show ?case
    unfolding split filter.simps filter_map comp_def tail using 2 by (simp add: comp_def)
qed simp

text \<open>
  \<^bold>\<open>C7.\<close> The connections of a source \<open>p\<close>. The sinks are visited bit by bit, in the order of the bits of \<open>p\<close>
  that are no constants and of \<open>ord\<close> for each bit; \<open>visited\<close> is this list. The edges are, in this order,
  those to the first sink of each port identifier in the list. So every edge ends at a sink that
  shares a bit with the source that is no constant, and a later sink with the same identifier stays
  unconnected; when all sinks have different identifiers, there is exactly one edge to each that
  shares such a bit.
\<close>

theorem connect_port_exact:
  assumes "keeps_sinks ord"
  shows "let visited = visited_sinks ord sinks p in
    connect_port ord sinks parent h v p =
      map (\<lambda>i. new_edge v p parent h (visited ! i))
        (filter (\<lambda>i. \<forall>j < i. sink_id (visited ! j) \<noteq> sink_id (visited ! i)) [0..<length visited]) \<and>
    set visited = {s \<in> set sinks. shares_bit p (snd (snd s))} \<and>
    (inj_on sink_id (set sinks) \<longrightarrow> set (connect_port ord sinks parent h v p) =
      new_edge v p parent h ` {s \<in> set sinks. shares_bit p (snd (snd s))})"
  unfolding Let_def
proof (intro conjI impI)
  let ?xs = "concat (map (\<lambda>b. io_sinks ord (sinks_of_bit sinks b)) (pt_bits p))"
  let ?visited = "visited_sinks ord sinks p"
  have xs: "?xs = ?visited" using visited_sinks_eq [OF assms] by (simp add: visited_sinks_def)
  show "connect_port ord sinks parent h v p = map (\<lambda>i. new_edge v p parent h (?visited ! i))
      (filter (\<lambda>i. \<forall>j < i. sink_id (?visited ! j) \<noteq> sink_id (?visited ! i)) [0..<length ?visited])"
    unfolding connect_port_eq xs first_sinks_nth [of "{}"] by (simp add: comp_def)
  show set: "set ?visited = {s \<in> set sinks. shares_bit p (snd (snd s))}"
    using driven_sinks [OF assms, of sinks p] by (simp only: xs)
  assume inj: "inj_on sink_id (set sinks)"
  have "set (first_sinks {} ?visited) = set ?visited"
  proof (rule inj_on_image_eq_iff [THEN iffD1, OF inj])
    show "set (first_sinks {} ?visited) \<subseteq> set sinks" "set ?visited \<subseteq> set sinks"
      using first_sinks_subset [of "{}" ?visited] unfolding set by auto
    show "sink_id ` set (first_sinks {} ?visited) = sink_id ` set ?visited" by (simp add: first_sinks_ids)
  qed
  then show "set (connect_port ord sinks parent h v p) = new_edge v p parent h ` {s \<in> set sinks. shares_bit p (snd (snd s))}"
    unfolding connect_port_eq set_map xs by (simp only: set)
qed


section \<open>The vertices of the flattened design\<close>

abbreviation cname :: "anycell \<Rightarrow> string" where "cname c \<equiv> c_name (cell_base c)"

definition cell_vertex :: "string list \<Rightarrow> string \<Rightarrow> anycell \<Rightarrow> inst_vertex" where
  "cell_vertex hierarchy parent c =
     \<lparr>iv_name = cname c, iv_type = c_type (cell_base c), iv_parent = parent,
      iv_hierarchy = hierarchy, iv_cell = c, iv_port = None\<rparr>"

lemma cell_vertices_eq: "cell_vertices h m = map (cell_vertex h (m_name m)) (m_cells m)"
  by (simp add: cell_vertices_def cell_vertex_def)

text \<open>The specification: the ports of an instance, its primitive cells, and those of its instances.\<close>

fun flat_vertices :: "nat \<Rightarrow> design \<Rightarrow> string list \<Rightarrow> anycell \<Rightarrow> inst_vertex list" where
  "flat_vertices 0 d h c = []"
| "flat_vertices (Suc k) d h c =
     (case find_module d (c_type (cell_base c)) of
        None \<Rightarrow> []
      | Some (mi, m) \<Rightarrow>
          port_vertices (h @ [cname c]) c m
          @ map (cell_vertex (h @ [cname c]) (m_name m)) (filter (\<lambda>c. \<not> is_module_cell c) (m_cells m))
          @ concat (map (flat_vertices k d (h @ [cname c])) (filter is_module_cell (m_cells m))))"

text \<open>The names in a module are different, and no instance is named like a vertex of a port.\<close>

definition names_ok :: "design \<Rightarrow> bool" where
  "names_ok d \<longleftrightarrow> (\<forall>m \<in> fst ` set (d_modules d). distinct (map cname (m_cells m)) \<and>
     (\<forall>c \<in> set (m_cells m). \<forall>p \<in> set (m_ports m).
        is_module_cell c \<longrightarrow> cname c \<noteq> fmt ''{}_{}'' [m_name m, pt_name p]))"

lemma find_module_Some: "find_module d t = Some (i, m) \<Longrightarrow> m \<in> fst ` set (d_modules d) \<and> m_name m = t"
  unfolding find_module_def find_Some_iff
  by (auto simp: nth_enumerate_eq)

lemma redirect_vertices:
  "redirect_in v news g = Inr g' \<Longrightarrow> ig_vertices g' = ig_vertices g"
  "redirect_out v news g = Inr g' \<Longrightarrow> ig_vertices g' = ig_vertices g"
  by (auto simp: redirect_in_def redirect_out_def bnd_eq_Inr)

lemma create_ports_vertices:
  assumes "create_module_ports_vertices d v h c g = Inr (news, g')"
  obtains mi m where "find_module d (c_type (cell_base c)) = Some (mi, m)" "is_module_cell c"
    "v < nverts_of g" "iv_name (vertex_at g v) = cname c"
    "ig_vertices g' = ig_vertices g @ port_vertices (h @ [cname c]) c m"
    "news = [nverts_of g..<nverts_of g']"
  using assms unfolding create_module_ports_vertices_def
  by (auto simp: bnd_eq_Inr chk_eq_Inr of_opt_eq_Inr Let_def redirect_vertices)

lemma expand_vertices:
  assumes "expand_module ord d v h c g = Inr (m, g')"
  obtains mi where "find_module d (c_type (cell_base c)) = Some (mi, m)" "is_module_cell c"
    "v < nverts_of g" "iv_name (vertex_at g v) = cname c"
    "ig_vertices g' = take v (ig_vertices g) @ drop (Suc v) (ig_vertices g)
       @ port_vertices (h @ [cname c]) c m @ cell_vertices (h @ [cname c]) m"
proof -
  from assms obtain ports g1 mi where ports: "create_module_ports_vertices d v h c g = Inr (ports, g1)"
    and m: "find_module d (c_type (cell_base c)) = Some (mi, m)"
    and g': "ig_vertices g' = take v (ig_vertices g1 @ cell_vertices (h @ [cname c]) m)
       @ drop (Suc v) (ig_vertices g1 @ cell_vertices (h @ [cname c]) m)"
    by (auto simp: expand_module_def bnd_eq_Inr of_opt_eq_Inr Let_def remove_inst_vertex_def)
  from ports show thesis
    by (rule create_ports_vertices) (rule that, use m g' in auto)
qed

definition fresh :: "string list \<Rightarrow> inst_graph \<Rightarrow> bool" where
  "fresh h g \<longleftrightarrow> (\<forall>x \<in> set (ig_vertices g). \<not> prefix h (iv_hierarchy x))"

lemma flat_hierarchy: "x \<in> set (flat_vertices k d h c) \<Longrightarrow> prefix (h @ [cname c]) (iv_hierarchy x)"
proof (induction k arbitrary: h c)
  case (Suc k)
  show ?case
  proof (cases "find_module d (c_type (cell_base c))")
    case (Some p)
    obtain mi m where p: "p = (mi, m)" by (cases p)
    from Suc.prems Some p consider "x \<in> set (port_vertices (h @ [cname c]) c m)"
      | c' where "x = cell_vertex (h @ [cname c]) (m_name m) c'"
      | c' where "x \<in> set (flat_vertices k d (h @ [cname c]) c')"
      by auto
    then show ?thesis
    proof cases
      case (3 c')
      then show ?thesis using Suc.IH [of "h @ [cname c]" c'] by (meson append_prefixD)
    qed (auto simp: port_vertices_def cell_vertex_def)
  qed (use Suc.prems in simp)
qed simp

definition match :: "string list \<Rightarrow> string \<Rightarrow> inst_vertex \<Rightarrow> bool" where
  "match h name x \<longleftrightarrow> iv_hierarchy x = h \<and> iv_name x = name"

lemma match_cell [simp]: "match h n (cell_vertex h' parent c) \<longleftrightarrow> h' = h \<and> cname c = n"
  by (auto simp: match_def cell_vertex_def)

lemma cell_vertex_hierarchy [simp]: "iv_hierarchy (cell_vertex h parent c) = h"
  by (simp add: cell_vertex_def)

lemma visit_none:
  "visit_instances k P h name i g = Inr g' \<Longrightarrow> filter (match h name) (drop i (ig_vertices g)) = [] \<Longrightarrow> g' = g"
proof (induction k arbitrary: i)
  case (Suc k)
  show ?case
  proof (cases "i < nverts_of g")
    case True
    then show ?thesis using Suc.prems Suc.IH [of "Suc i"]
      by (auto simp: Cons_nth_drop_Suc [symmetric] match_def split: if_splits)
  qed (use Suc.prems in simp)
qed simp

text \<open>When one vertex matches, and none after it was populated, that vertex is populated.\<close>

lemma visit_one:
  assumes "visit_instances k P h name i g = Inr g'"
    and "length (filter (match h name) (drop i (ig_vertices g))) = 1"
    and "\<And>j g1. j < nverts_of g \<Longrightarrow> match h name (vertex_at g j) \<Longrightarrow> P j g = Inr g1 \<Longrightarrow>
      filter (match h name) (ig_vertices g1) = []"
  shows "\<exists>j < nverts_of g. match h name (vertex_at g j) \<and> P j g = Inr g'"
  using assms(1,2)
proof (induction k arbitrary: i)
  case (Suc k)
  show ?case
  proof (cases "i < nverts_of g")
    case i: True
    note drop = Cons_nth_drop_Suc [OF i, symmetric]
    show ?thesis
    proof (cases "match h name (vertex_at g i)")
      case True
      with Suc.prems(1) i obtain g1 where g1: "P i g = Inr g1" "visit_instances k P h name (Suc i) g1 = Inr g'"
        by (auto simp: match_def bnd_eq_Inr)
      have "filter (match h name) (ig_vertices g1) = []" by (rule assms(3) [OF i True g1(1)])
      then have "filter (match h name) (drop (Suc i) (ig_vertices g1)) = []"
        by (metis append_take_drop_id filter_append append_is_Nil_conv)
      then have "g' = g1" by (rule visit_none [OF g1(2)])
      then show ?thesis using g1(1) i True by auto
    next
      case False
      then have "visit_instances k P h name (Suc i) g = Inr g'"
        using Suc.prems(1) i by (auto simp: match_def split: if_splits)
      then show ?thesis by (rule Suc.IH) (use Suc.prems(2) False drop in simp)
    qed
  qed (use Suc.prems in simp)
qed simp

text \<open>One step of the loop over the cells.\<close>

definition populate_cell ::
  "nat \<Rightarrow> nat \<Rightarrow> inst_orders \<Rightarrow> design \<Rightarrow> string list \<Rightarrow> anycell \<Rightarrow> inst_graph \<Rightarrow> inst_graph res"
where
  "populate_cell k steps ord d h c g =
     (if is_module_cell c then
        visit_instances steps (\<lambda>i. populate_module k steps ord d i h c) h (cname c) 0 g
      else Inr g)"

lemma populate_module_Suc:
  "populate_module (Suc k) steps ord d v h c g =
     bnd (expand_module ord d v h c g) (\<lambda>(m, g1).
       foldM (populate_cell k steps ord d (h @ [cname c])) (m_cells m) g1)"
  by (simp add: populate_cell_def [abs_def] Let_def)

declare populate_module.simps(2) [simp del]

lemma prefix_same_length: "prefix (h @ [a]) x \<Longrightarrow> prefix (h @ [b]) x \<Longrightarrow> a = b"
  by (auto simp: prefix_def)

definition apart :: "string list \<Rightarrow> anycell list \<Rightarrow> inst_vertex \<Rightarrow> bool" where
  "apart h cs x \<longleftrightarrow> (\<forall>c \<in> set cs. is_module_cell c \<longrightarrow>
     \<not> match h (cname c) x \<and> \<not> prefix (h @ [cname c]) (iv_hierarchy x))"

lemma one_match:
  assumes "mset (ig_vertices g) = add_mset (cell_vertex h parent c) M" "\<forall>x \<in># M. \<not> match h (cname c) x"
  shows "length (filter (match h (cname c)) (ig_vertices g)) = 1"
    and "j < nverts_of g \<Longrightarrow> match h (cname c) (vertex_at g j) \<Longrightarrow> vertex_at g j = cell_vertex h parent c"
proof -
  let ?m = "match h (cname c)"
  have "filter_mset ?m (mset (ig_vertices g)) = {#cell_vertex h parent c#}"
    unfolding assms(1) using assms(2) by (simp add: filter_mset_eq_mempty_iff)
  then have one: "mset (filter ?m (ig_vertices g)) = {#cell_vertex h parent c#}" by simp
  then show "length (filter ?m (ig_vertices g)) = 1" by (metis size_mset size_single)
  assume "j < nverts_of g" "?m (vertex_at g j)"
  then have "vertex_at g j \<in># mset (filter ?m (ig_vertices g))" by simp
  then show "vertex_at g j = cell_vertex h parent c" unfolding one by simp
qed

lemma populate_cells_vertices:
  assumes IH: "\<And>v c g g'. populate_module k steps ord d v h c g = Inr g' \<Longrightarrow> fresh (h @ [cname c]) g \<Longrightarrow>
      vertex_at g v = cell_vertex h parent c \<Longrightarrow> Inv g \<Longrightarrow>
      mset (ig_vertices g') + {#vertex_at g v#} = mset (ig_vertices g) + mset (flat_vertices k d h c) \<and> Inv g'"
    and "foldM (populate_cell k steps ord d h) cs g = Inr g'" "distinct (map cname cs)"
    and "mset (ig_vertices g) = B + mset (map (cell_vertex h parent) cs)" "\<forall>x \<in># B. apart h cs x" "Inv g"
  shows "mset (ig_vertices g') = B + mset (map (cell_vertex h parent) (filter (\<lambda>c. \<not> is_module_cell c) cs))
    + mset (concat (map (flat_vertices k d h) (filter is_module_cell cs))) \<and> Inv g'"
  using assms(2-)
proof (induction cs arbitrary: g B)
  case (Cons c cs)
  note names = Cons.prems(2)
  from Cons.prems(1) obtain g1 where step: "populate_cell k steps ord d h c g = Inr g1"
    and rest: "foldM (populate_cell k steps ord d h) cs g1 = Inr g'" by (auto simp: bnd_eq_Inr)
  have distinct: "distinct (map cname cs)" using names by simp
  show ?case
  proof (cases "is_module_cell c")
    case False
    then have "g1 = g" using step by (simp add: populate_cell_def)
    have "mset (ig_vertices g1) = (B + {#cell_vertex h parent c#}) + mset (map (cell_vertex h parent) cs)"
      using Cons.prems(3) \<open>g1 = g\<close> by simp
    moreover have "\<forall>x \<in># B + {#cell_vertex h parent c#}. apart h cs x"
      using Cons.prems(4) names False by (auto simp: apart_def intro: rev_image_eqI)
    ultimately show ?thesis
      using Cons.IH [OF rest distinct] Cons.prems(5) \<open>g1 = g\<close> False by fastforce
  next
    case True
    let ?m = "match h (cname c)"
    have other: "\<not> ?m x" if "x \<in># B + mset (map (cell_vertex h parent) cs)" for x
      using that Cons.prems(4) names True by (auto simp: apart_def intro: rev_image_eqI)
    have split: "mset (ig_vertices g) = add_mset (cell_vertex h parent c) (B + mset (map (cell_vertex h parent) cs))"
      using Cons.prems(3) by simp
    have others: "\<forall>x \<in># B + mset (map (cell_vertex h parent) cs). \<not> ?m x" using other by blast
    note only_c = one_match(2) [OF split others]
    have fresh: "fresh (h @ [cname c]) g"
      unfolding fresh_def set_mset_mset [symmetric] split
      using Cons.prems(4) True by (auto simp: apart_def cell_vertex_def)
    have after: "mset (ig_vertices g1) = (B + mset (flat_vertices k d h c)) + mset (map (cell_vertex h parent) cs) \<and> Inv g1"
      if "j < nverts_of g" "?m (vertex_at g j)" "populate_module k steps ord d j h c g = Inr g1" for j g1
      using IH [OF that(3) fresh only_c [OF that(1,2)] Cons.prems(5)]
      unfolding only_c [OF that(1,2)] split by simp
    have deeper: "\<not> match h n x" if "x \<in> set (flat_vertices k d h c)" for x n
      using flat_hierarchy [OF that] by (auto simp: match_def)
    have "\<exists>j < nverts_of g. ?m (vertex_at g j) \<and> populate_module k steps ord d j h c g = Inr g1"
    proof (rule visit_one)
      show "visit_instances steps (\<lambda>i. populate_module k steps ord d i h c) h (cname c) 0 g = Inr g1"
        using step True by (simp add: populate_cell_def)
      show "length (filter ?m (drop 0 (ig_vertices g))) = 1" using one_match(1) [OF split others] by simp
      fix j g1 assume j: "j < nverts_of g" "?m (vertex_at g j)" "populate_module k steps ord d j h c g = Inr g1"
      show "filter ?m (ig_vertices g1) = []"
        unfolding filter_empty_conv set_mset_mset [symmetric] after [OF j, THEN conjunct1]
        using other deeper by auto
    qed
    then have g1: "mset (ig_vertices g1) = (B + mset (flat_vertices k d h c)) + mset (map (cell_vertex h parent) cs)"
      and inv: "Inv g1" using after by blast+
    have "apart h cs x" if "x \<in># B + mset (flat_vertices k d h c)" for x
    proof (cases "x \<in> set (flat_vertices k d h c)")
      case True
      show ?thesis
        unfolding apart_def using deeper [OF True] prefix_same_length [OF flat_hierarchy [OF True]] names by force
    next
      case False
      then show ?thesis using that Cons.prems(4) by (auto simp: apart_def)
    qed
    with Cons.IH [OF rest distinct g1 _ inv] True show ?thesis by simp
  qed
qed simp

lemma expand_names:
  assumes "names_ok d" "find_module d t = Some (mi, m)"
  shows "distinct (map cname (m_cells m))"
    and "c \<in> set (m_cells m) \<Longrightarrow> p \<in> set (m_ports m) \<Longrightarrow> is_module_cell c \<Longrightarrow>
      cname c \<noteq> fmt ''{}_{}'' [m_name m, pt_name p]"
  using assms(1) find_module_Some [OF assms(2)] by (auto simp: names_ok_def)

text \<open>The instances of a module are apart from the vertices that were there before.\<close>

lemma expand_apart:
  assumes "names_ok d" "find_module d t = Some (mi, m)" "fresh h g"
    and "x \<in> set (take v (ig_vertices g) @ drop (Suc v) (ig_vertices g) @ port_vertices h c m)"
  shows "apart h (m_cells m) x"
proof (cases "x \<in> set (port_vertices h c m)")
  case True
  then obtain p where p: "p \<in> set (m_ports m)" "iv_hierarchy x = h" "iv_name x = fmt ''{}_{}'' [m_name m, pt_name p]"
    by (auto simp: port_vertices_def)
  then show ?thesis using expand_names(2) [OF assms(1,2)] by (force simp: apart_def match_def)
next
  case False
  then have "\<not> prefix h (iv_hierarchy x)"
    using assms(3,4) by (auto simp: fresh_def dest: in_set_takeD in_set_dropD)
  then have "\<not> prefix (h @ [n]) (iv_hierarchy x)" "iv_hierarchy x \<noteq> h" for n
    using append_prefixD [of h "[n]"] by auto
  then show ?thesis by (auto simp: apart_def match_def)
qed

text \<open>What every expansion keeps, the whole population keeps.\<close>

lemma populate_invariant:
  assumes "names_ok d"
    and Inv: "\<And>v h c g m g' parent. expand_module ord d v h c g = Inr (m, g') \<Longrightarrow>
      vertex_at g v = cell_vertex h parent c \<Longrightarrow> Inv g \<Longrightarrow> Inv g'"
  shows "populate_module k steps ord d v h c g = Inr g' \<Longrightarrow> fresh (h @ [cname c]) g \<Longrightarrow>
    vertex_at g v = cell_vertex h parent c \<Longrightarrow> Inv g \<Longrightarrow>
    mset (ig_vertices g') + {#vertex_at g v#} = mset (ig_vertices g) + mset (flat_vertices k d h c) \<and> Inv g'"
proof (induction k arbitrary: v h c g g' parent)
  case (Suc k)
  let ?h = "h @ [cname c]"
  from Suc.prems(1) obtain m g1 where g1: "expand_module ord d v h c g = Inr (m, g1)"
    and loop: "foldM (populate_cell k steps ord d ?h) (m_cells m) g1 = Inr g'"
    by (auto simp: populate_module_Suc bnd_eq_Inr)
  from g1 obtain mi where m: "find_module d (c_type (cell_base c)) = Some (mi, m)" and v: "v < nverts_of g"
    and vs: "ig_vertices g1 = take v (ig_vertices g) @ drop (Suc v) (ig_vertices g)
       @ port_vertices ?h c m @ cell_vertices ?h m" by (rule expand_vertices)
  let ?B = "mset (take v (ig_vertices g)) + mset (drop (Suc v) (ig_vertices g)) + mset (port_vertices ?h c m)"
  have "apart ?h (m_cells m) x" if "x \<in># ?B" for x
    using that by (intro expand_apart [OF assms(1) m Suc.prems(2)]) auto
  moreover have "mset (ig_vertices g1) = ?B + mset (map (cell_vertex ?h (m_name m)) (m_cells m))"
    by (simp add: vs cell_vertices_eq)
  ultimately have "mset (ig_vertices g') = ?B
      + mset (map (cell_vertex ?h (m_name m)) (filter (\<lambda>c. \<not> is_module_cell c) (m_cells m)))
      + mset (concat (map (flat_vertices k d ?h) (filter is_module_cell (m_cells m)))) \<and> Inv g'"
    by (intro populate_cells_vertices [OF Suc.IH loop expand_names(1) [OF assms(1) m]] Inv [OF g1 Suc.prems(3,4)]) auto
  moreover have "mset (ig_vertices g) =
      mset (take v (ig_vertices g)) + {#vertex_at g v#} + mset (drop (Suc v) (ig_vertices g))"
    by (subst id_take_nth_drop [OF v]) simp
  ultimately show ?case using m by simp
qed simp

section \<open>Propagation changes nets only\<close>

definition skeleton :: "inst_graph \<Rightarrow> inst_graph" where
  "skeleton g = g\<lparr>ig_edges := map (\<lambda>(s, t, e). (s, t, e\<lparr>ie_net := None\<rparr>)) (ig_edges g)\<rparr>"

lemma skeleton_vertices: "skeleton g = skeleton g' \<Longrightarrow> ig_vertices g = ig_vertices g'"
  by (drule arg_cong [where f = ig_vertices]) (simp add: skeleton_def)

lemma skeleton_set_edge_net: "i < length (ig_edges g) \<Longrightarrow> skeleton (set_edge_net i n g) = skeleton g"
proof -
  assume i: "i < length (ig_edges g)"
  obtain s t' e where e: "ig_edges g ! i = (s, t', e)" by (cases "ig_edges g ! i")
  let ?f = "\<lambda>(s, t, e). (s, t, e\<lparr>ie_net := None\<rparr>)"
  have "(map ?f (ig_edges g))[i := (s, t', e\<lparr>ie_net := None\<rparr>)] = map ?f (ig_edges g)"
    by (rule list_update_same_conv [THEN iffD2]) (simp_all add: i e)
  then show ?thesis by (simp add: skeleton_def set_edge_net_def map_update e)
qed

lemma skeleton_edges: "skeleton g = skeleton g' \<Longrightarrow> length (ig_edges g) = length (ig_edges g')"
  by (drule arg_cong [where f = "\<lambda>g. length (ig_edges g)"]) (simp add: skeleton_def)

lemma in_edge_ids_bound: "i \<in> set (in_edge_ids g v) \<Longrightarrow> i < length (ig_edges g)"
  by (simp add: in_edge_ids_def)

lemma propagate_net_skeleton:
  "propagate_net k n i st = Inr st' \<Longrightarrow> i < length (ig_edges (fst st)) \<Longrightarrow> skeleton (fst st') = skeleton (fst st)"
proof (induction k arbitrary: n i st st')
  case (Suc k)
  obtain g visited where st: "st = (g, visited)" by (cases st)
  show ?case
  proof (cases "i \<in> visited")
    case False
    define g1 where "g1 = (if net_of_edge g i = None then set_edge_net i n g else g)"
    have g1: "skeleton g1 = skeleton g" using Suc.prems(2) by (simp add: g1_def st skeleton_set_edge_net)
    from Suc.prems(1) False have loop: "foldM (\<lambda>j (g, visited). propagate_net k (net_of_edge g i) j (g, visited))
        (in_edge_ids g1 (fst (ig_edges g1 ! i))) (g1, insert i visited) = Inr st'"
      by (simp add: st g1_def Let_def)
    have "skeleton (fst st') = skeleton g1"
    proof (rule foldM_invariant [OF loop, where P = "\<lambda>st. skeleton (fst st) = skeleton g1"])
      fix j s s' assume j: "j \<in> set (in_edge_ids g1 (fst (ig_edges g1 ! i)))" "skeleton (fst s) = skeleton g1"
        "(case s of (g, visited) \<Rightarrow> propagate_net k (net_of_edge g i) j (g, visited)) = Inr s'"
      have "j < length (ig_edges (fst s))" using in_edge_ids_bound [OF j(1)] skeleton_edges [OF j(2)] by simp
      then show "skeleton (fst s') = skeleton g1"
        using Suc.IH [of "net_of_edge (fst s) i" j s s'] j(2,3) by (cases s) simp
    qed simp
    then show ?thesis by (simp add: g1 st)
  qed (use Suc.prems in \<open>simp add: st\<close>)
qed simp

lemma propagate_pointers_skeleton:
  assumes "propagate_net_pointers mi m g = Inr g'"
  shows "skeleton g' = skeleton g"
proof -
  let ?I = "\<lambda>st. skeleton (fst st) = skeleton g"
  from assms obtain visited
    where loop: "foldM (\<lambda>v. foldM (propagate_port mi m g v) (m_ports m)) [0..<nverts_of g] (g, {}) = Inr (g', visited)"
    by (auto simp: propagate_net_pointers_def bnd_eq_Inr)
  have edges: "?I st'" if "foldM (propagate_net k n) (in_edge_ids g v) st = Inr st'" "?I st" for k n v st st'
  proof (rule foldM_invariant [OF that(1), where P = ?I])
    fix i s s' assume i: "i \<in> set (in_edge_ids g v)" "?I s" "propagate_net k n i s = Inr s'"
    then show "?I s'" using propagate_net_skeleton [OF i(3)] in_edge_ids_bound [OF i(1)] skeleton_edges [OF i(2)] by simp
  qed (rule that(2))
  have port: "?I st'" if "propagate_port mi m g v p st = Inr st'" "?I st" for v p st st'
    using that by (auto simp: propagate_port_def bnd_eq_Inr dest: edges split: if_splits)
  have vertex: "?I st'" if "foldM (propagate_port mi m g v) (m_ports m) st = Inr st'" "?I st" for v st st'
    by (rule foldM_invariant [OF that(1), where P = ?I, OF that(2) port])
  have "?I (g', visited)"
    by (rule foldM_invariant [OF loop, where P = ?I, OF _ vertex]) simp
  then show ?thesis by simp
qed

lemma instance_top_module: "instance_top d = Inr (mi, m) \<Longrightarrow> find_module d (m_name m) = Some (mi, m)"
  using find_module_Some [of d] unfolding instance_top_def
  by (simp add: bnd_eq_Inr chk_eq_Inr of_opt_eq_Inr split_beta split: if_splits) metis+

lemma create_instance_cases:
  assumes "create_instance depth steps ord d = Inr g"
  obtains mi m g0 where "instance_top d = Inr (mi, m)"
    "populate_module depth steps ord d 0 [] (root_cell m) (root_graph m) = Inr g0"
    "skeleton g = skeleton g0" "\<forall>(s, t, e) \<in> set (ig_edges g). ie_net e \<noteq> None"
proof -
  from assms obtain mi m g0 where *: "instance_top d = Inr (mi, m)"
    "populate_module depth steps ord d 0 [] (root_cell m) (root_graph m) = Inr g0"
    "propagate_net_pointers mi m g0 = Inr g"
    and check: "foldM (\<lambda>(s, t, e) _. chk (ie_net e \<noteq> None)
            (RuntimeError (fmt ''Unrecognized net for edge: {} -> {}''
               [pt_identifier (ie_source_port e), pt_identifier (ie_target_port e)])) (Inr ()))
          (ig_edges g) () = Inr ()"
    unfolding create_instance_def by (auto simp: bnd_eq_Inr)
  have "\<forall>x \<in> set (ig_edges g). ie_net (snd (snd x)) \<noteq> None"
    by (rule foldM_each [OF check, where P = "\<lambda>_. True", THEN conjunct2])
      (auto simp: chk_eq_Inr split: prod.splits)
  then show thesis by (intro that [OF *(1,2) propagate_pointers_skeleton [OF *(3)]]) auto
qed

lemma root_vertex: "vertex_at (root_graph m) 0 = cell_vertex [] ''top_module'' (root_cell m)"
  by (simp add: root_graph_def cell_vertex_def root_cell_def mk_cell_def)

text \<open>
  \<^bold>\<open>C4.\<close> The flattened design has exactly the vertices of the specification: one for each port of each
  instance, one for each primitive cell of each instance, with the path of the instance, and none
  for an instance itself, when the names in each module are different.
\<close>

theorem create_instance_vertices:
  assumes "create_instance depth steps ord d = Inr g" and "names_ok d"
  shows "\<exists>mi m. instance_top d = Inr (mi, m) \<and>
    mset (ig_vertices g) = mset (flat_vertices depth d [] (root_cell m))"
  using assms(1)
proof (rule create_instance_cases)
  fix mi m g0
  assume "instance_top d = Inr (mi, m)" "skeleton g = skeleton g0"
    and g0: "populate_module depth steps ord d 0 [] (root_cell m) (root_graph m) = Inr g0"
  have "fresh ([] @ [cname (root_cell m)]) (root_graph m)"
    by (simp add: fresh_def root_graph_def)
  with populate_invariant [OF assms(2), of ord "\<lambda>_. True", OF _ g0] root_vertex
  have "mset (ig_vertices g0) + {#vertex_at (root_graph m) 0#} =
      mset (ig_vertices (root_graph m)) + mset (flat_vertices depth d [] (root_cell m))" by blast
  then have "mset (ig_vertices g0) = mset (flat_vertices depth d [] (root_cell m))"
    by (simp add: root_graph_def)
  with \<open>instance_top d = Inr (mi, m)\<close> skeleton_vertices [OF \<open>skeleton g = skeleton g0\<close>] show ?thesis by simp
qed


section \<open>The edges of the flattened design\<close>

text \<open>
  What an edge leaves: an output of a primitive cell, an input of an instance seen from the inside,
  or an output of an instance seen from the outside, by its name. What it enters is dual.
\<close>

definition source_end :: "inst_vertex \<Rightarrow> inst_edge \<Rightarrow> bool" where
  "source_end x e \<longleftrightarrow>
     (case iv_port x of
        None \<Rightarrow> ie_source_port e \<in> set (c_ports (cell_base (iv_cell x)))
          \<and> pt_direction (ie_source_port e) = Output \<and> ie_hierarchy e = iv_hierarchy x
      | Some p \<Rightarrow> ie_source_port e = p \<and> pt_direction p = Input \<and> ie_hierarchy e = iv_hierarchy x
          \<or> pt_name (ie_source_port e) = pt_name p \<and> ie_source_port e \<in> set (c_ports (cell_base (iv_cell x)))
            \<and> pt_direction (ie_source_port e) = Output \<and> ie_hierarchy e = butlast (iv_hierarchy x))"

definition target_end :: "inst_vertex \<Rightarrow> inst_edge \<Rightarrow> bool" where
  "target_end x e \<longleftrightarrow>
     (case iv_port x of
        None \<Rightarrow> ie_target_port e \<in> set (c_ports (cell_base (iv_cell x)))
          \<and> pt_direction (ie_target_port e) = Input \<and> ie_hierarchy e = iv_hierarchy x
      | Some p \<Rightarrow> ie_target_port e = p \<and> pt_direction p = Output \<and> ie_hierarchy e = iv_hierarchy x
          \<or> pt_name (ie_target_port e) = pt_name p \<and> ie_target_port e \<in> set (c_ports (cell_base (iv_cell x)))
            \<and> pt_direction (ie_target_port e) = Input \<and> ie_hierarchy e = butlast (iv_hierarchy x))"

definition edge_ok :: "inst_vertex list \<Rightarrow> nat \<times> nat \<times> inst_edge \<Rightarrow> bool" where
  "edge_ok vs = (\<lambda>(s, t, e). s < length vs \<and> t < length vs \<and> shares_bit (ie_source_port e) (ie_target_port e)
     \<and> source_end (vs ! s) e \<and> target_end (vs ! t) e)"

definition edges_ok :: "inst_graph \<Rightarrow> bool" where
  "edges_ok g \<longleftrightarrow> (\<forall>x \<in> set (ig_edges g). edge_ok (ig_vertices g) x)"

lemma edge_ok_append: "edge_ok vs x \<Longrightarrow> edge_ok (vs @ us) x"
  by (auto simp: edge_ok_def nth_append)

lemma end_net [simp]:
  "source_end x (e\<lparr>ie_net := n\<rparr>) = source_end x e" "target_end x (e\<lparr>ie_net := n\<rparr>) = target_end x e"
  by (simp_all add: source_end_def target_end_def split: option.split)

lemma edge_ok_net [simp]: "edge_ok vs (s, t, e\<lparr>ie_net := n\<rparr>) = edge_ok vs (s, t, e)"
  by (simp add: edge_ok_def)

lemma edges_ok_skeleton: "skeleton g = skeleton g' \<Longrightarrow> edges_ok g = edges_ok g'"
proof -
  have "edges_ok g \<longleftrightarrow> edges_ok (skeleton g)" for g
    by (auto simp: edges_ok_def skeleton_def)
  then show "skeleton g = skeleton g' \<Longrightarrow> edges_ok g = edges_ok g'" by metis
qed

lemma nth_removed:
  assumes "i < length xs" "i \<noteq> v" "v < length xs"
  shows "(take v xs @ drop (Suc v) xs) ! (if v < i then i - 1 else i) = xs ! i"
  using assms by (auto simp: nth_append min_def)

lemma edges_ok_remove:
  assumes "edges_ok g" "v < nverts_of g"
  shows "edges_ok (remove_inst_vertex v g)"
proof -
  let ?i = "\<lambda>i. if v < i then i - 1 else i"
  let ?vs = "take v (ig_vertices g) @ drop (Suc v) (ig_vertices g)"
  have "edge_ok ?vs (?i s, ?i t, e)" if "(s, t, e) \<in> set (ig_edges g)" "s \<noteq> v" "t \<noteq> v" for s t e
  proof -
    have ok: "edge_ok (ig_vertices g) (s, t, e)" using assms(1) that(1) by (auto simp: edges_ok_def)
    then have "s < nverts_of g" "t < nverts_of g" by (auto simp: edge_ok_def)
    then have "?vs ! ?i s = vertex_at g s" "?vs ! ?i t = vertex_at g t" "?i s < length ?vs" "?i t < length ?vs"
      using nth_removed [of _ "ig_vertices g" v] that(2,3) assms(2) by auto
    then show ?thesis using ok by (simp add: edge_ok_def)
  qed
  then show ?thesis by (auto simp: edges_ok_def remove_inst_vertex_def Let_def)
qed

lemma mapM_set: "mapM f xs = Inr ys \<Longrightarrow> y \<in> set ys \<Longrightarrow> \<exists>x \<in> set xs. f x = Inr y"
  by (induction xs arbitrary: ys) (auto simp: bnd_eq_Inr)

lemma mapM_mapM_set:
  assumes "mapM (\<lambda>x. mapM (f x) us) xs = Inr yss" "y \<in> set (concat (concat yss))"
  obtains x w ys where "x \<in> set xs" "w \<in> set us" "f x w = Inr ys" "y \<in> set ys"
proof -
  from assms(2) obtain ys row where row: "row \<in> set yss" "ys \<in> set row" "y \<in> set ys" by auto
  from mapM_set [OF assms(1) row(1)] obtain x where x: "x \<in> set xs" "mapM (f x) us = Inr row" by auto
  from mapM_set [OF x(2) row(2)] obtain w where "w \<in> set us" "f x w = Inr ys" by auto
  with x(1) row(3) show thesis using that by blast
qed

text \<open>The copies of an edge end at the port with the name of the port of the instance.\<close>

lemma redirect_ok:
  assumes "edges_ok g" "iv_port (vertex_at g v) = None" "\<forall>w \<in> set news. w < nverts_of g \<and>
      (\<exists>p. iv_port (vertex_at g w) = Some p) \<and> iv_cell (vertex_at g w) = iv_cell (vertex_at g v) \<and>
      butlast (iv_hierarchy (vertex_at g w)) = iv_hierarchy (vertex_at g v)"
  shows "redirect_in v news g = Inr g' \<Longrightarrow> edges_ok g'"
    and "redirect_out v news g = Inr g' \<Longrightarrow> edges_ok g'"
proof -
  have old: "edge_ok (ig_vertices g) (s, t, e)" if "(s, t, e) \<in> set (ig_edges g)" for s t e
    using assms(1) that by (auto simp: edges_ok_def)
  { assume "redirect_in v news g = Inr g'"
    then obtain es where es: "mapM (\<lambda>x. mapM (\<lambda>w. bnd (deref_port (vertex_at g w)) (\<lambda>p.
              Inr (if pt_name (ie_target_port (snd (snd x))) = pt_name p then [(fst x, w, snd (snd x))] else []))) news)
          (in_edges g v) = Inr es" and g': "g' = g\<lparr>ig_edges := ig_edges g @ concat (concat es)\<rparr>"
      unfolding redirect_in_def case_prod_unfold by (auto simp: bnd_eq_Inr)
    have "edge_ok (ig_vertices g) y" if "y \<in> set (concat (concat es))" for y
      using es that
    proof (rule mapM_mapM_set)
      fix x w ys assume *: "x \<in> set (in_edges g v)" "w \<in> set news" "y \<in> set ys"
        "bnd (deref_port (vertex_at g w)) (\<lambda>p.
              Inr (if pt_name (ie_target_port (snd (snd x))) = pt_name p then [(fst x, w, snd (snd x))] else [])) = Inr ys"
      obtain s e where x: "x = (s, v, e)" "(s, v, e) \<in> set (ig_edges g)" using *(1) by (auto simp: in_edges_def)
      obtain p where p: "iv_port (vertex_at g w) = Some p" using assms(3) *(2) by auto
      have y: "y = (s, w, e)" "pt_name (ie_target_port e) = pt_name p"
        using *(3,4) by (auto simp: x(1) p deref_port_def split: if_splits)
      have "target_end (vertex_at g w) e"
        using old [OF x(2)] assms(2,3) *(2) y(2) p by (auto simp: edge_ok_def target_end_def)
      then show ?thesis using old [OF x(2)] assms(3) *(2) by (simp add: y(1) edge_ok_def)
    qed
    then show "edges_ok g'" using assms(1) unfolding edges_ok_def g' by (simp add: ball_Un del: set_concat) }
  { assume "redirect_out v news g = Inr g'"
    then obtain es where es: "mapM (\<lambda>x. mapM (\<lambda>w. bnd (deref_port (vertex_at g w)) (\<lambda>p.
              Inr (if pt_name (ie_source_port (snd (snd x))) = pt_name p then [(w, fst (snd x), snd (snd x))] else []))) news)
          (out_edges g v) = Inr es" and g': "g' = g\<lparr>ig_edges := ig_edges g @ concat (concat es)\<rparr>"
      unfolding redirect_out_def case_prod_unfold by (auto simp: bnd_eq_Inr)
    have "edge_ok (ig_vertices g) y" if "y \<in> set (concat (concat es))" for y
      using es that
    proof (rule mapM_mapM_set)
      fix x w ys assume *: "x \<in> set (out_edges g v)" "w \<in> set news" "y \<in> set ys"
        "bnd (deref_port (vertex_at g w)) (\<lambda>p.
              Inr (if pt_name (ie_source_port (snd (snd x))) = pt_name p then [(w, fst (snd x), snd (snd x))] else [])) = Inr ys"
      obtain t e where x: "x = (v, t, e)" "(v, t, e) \<in> set (ig_edges g)" using *(1) by (auto simp: out_edges_def)
      obtain p where p: "iv_port (vertex_at g w) = Some p" using assms(3) *(2) by auto
      have y: "y = (w, t, e)" "pt_name (ie_source_port e) = pt_name p"
        using *(3,4) by (auto simp: x(1) p deref_port_def split: if_splits)
      have "source_end (vertex_at g w) e"
        using old [OF x(2)] assms(2,3) *(2) y(2) p by (auto simp: edge_ok_def source_end_def)
      then show ?thesis using old [OF x(2)] assms(3) *(2) by (simp add: y(1) edge_ok_def)
    qed
    then show "edges_ok g'" using assms(1) unfolding edges_ok_def g' by (simp add: ball_Un del: set_concat) }
qed


lemma in_enumerate: "x \<in> set (enumerate n xs) \<Longrightarrow> snd x \<in> set xs"
  by (metis list.set_map map_snd_enumerate image_eqI)

lemma sinks_of_end:
  assumes "sinks_of g w = Inr ss" "s \<in> set ss" "iv_port (vertex_at g w) = None \<or> is_module_port (vertex_at g w)"
    and "ie_target_port e = snd (snd s)" "ie_hierarchy e = iv_hierarchy (vertex_at g w)"
  shows "fst s = w \<and> target_end (vertex_at g w) e"
proof (cases "is_module_port (vertex_at g w)")
  case True
  then show ?thesis using assms
    by (auto simp: sinks_of_def Let_def target_end_def deref_port_def of_opt_eq_Inr bnd_eq_Inr split: if_splits)
next
  case False
  with assms(1,2) obtain x where x: "x \<in> set (enumerate 0 (c_ports (cell_base (iv_cell (vertex_at g w)))))"
    "pt_direction (snd x) = Input" "s = (w, x)" by (auto simp: sinks_of_def Let_def)
  then show ?thesis using assms(3-) in_enumerate [OF x(1)] False by (simp add: target_end_def)
qed

lemma sources_of_end:
  assumes "sources_of g w = Inr ps" "ie_source_port e \<in> set ps"
    "iv_port (vertex_at g w) = None \<or> is_module_port (vertex_at g w)"
    and "ie_hierarchy e = iv_hierarchy (vertex_at g w)"
  shows "source_end (vertex_at g w) e"
  using assms
  by (auto simp: sources_of_def Let_def source_end_def deref_port_def of_opt_eq_Inr bnd_eq_Inr
      split: if_splits option.splits)

text \<open>The new edges between the vertices of one instance.\<close>

lemma inner_edges_ok:
  assumes "inner_edges ord parent h news g = Inr es" "keeps_sinks ord"
    and "\<forall>w \<in> set news. w < nverts_of g \<and> iv_hierarchy (vertex_at g w) = h \<and>
      (iv_port (vertex_at g w) = None \<or> is_module_port (vertex_at g w))"
    and "x \<in> set es"
  shows "edge_ok (ig_vertices g) x"
proof -
  from assms(1) obtain sinks ess where sinks: "mapM (sinks_of g) news = Inr sinks"
    and ess: "mapM (\<lambda>v. bnd (sources_of g v) (\<lambda>ps.
            Inr (concat (map (connect_port ord (concat sinks) parent h v) ps)))) news = Inr ess"
    and es: "es = concat ess" by (auto simp: inner_edges_def bnd_eq_Inr)
  from assms(4) es obtain row where row: "row \<in> set ess" "x \<in> set row" by auto
  from mapM_set [OF ess row(1)] obtain v ps where v: "v \<in> set news" "sources_of g v = Inr ps"
    and "row = concat (map (connect_port ord (concat sinks) parent h v) ps)" by (auto simp: bnd_eq_Inr)
  with row(2) obtain p where p: "p \<in> set ps" "x \<in> set (connect_port ord (concat sinks) parent h v p)" by auto
  from connect_port_edge [OF assms(2) p(2)] obtain s where s: "s \<in> set (concat sinks)"
    "shares_bit p (snd (snd s))" and x: "x = new_edge v p parent h s" .
  from s(1) obtain ss where ss: "ss \<in> set sinks" "s \<in> set ss" by auto
  from mapM_set [OF sinks ss(1)] obtain w where w: "w \<in> set news" "sinks_of g w = Inr ss" by auto
  let ?e = "snd (snd x)"
  have e: "ie_source_port ?e = p" "ie_target_port ?e = snd (snd s)" "ie_hierarchy ?e = h" "x = (v, fst s, ?e)"
    by (simp_all add: x new_edge_def mk_edge_def)
  have "fst s = w \<and> target_end (vertex_at g w) ?e"
    using sinks_of_end [OF w(2) ss(2), of ?e] assms(3) w(1) e by auto
  moreover have "source_end (vertex_at g v) ?e"
    using sources_of_end [OF v(2), of ?e] assms(3) v(1) p(1) e by auto
  ultimately show ?thesis using assms(3) v(1) w(1) s(2) by (subst e(4)) (simp add: edge_ok_def e(1,2))
qed

lemma create_ports_edges:
  assumes "create_module_ports_vertices d v h c g = Inr (news, g')"
    and "edges_ok g" "vertex_at g v = cell_vertex h parent c"
  shows "edges_ok g'"
proof -
  from assms(1) obtain mi m g1 g2 where v: "v < nverts_of g"
    and g1: "g1 = g\<lparr>ig_vertices := ig_vertices g @ port_vertices (h @ [cname c]) c m\<rparr>"
    and news: "news = [nverts_of g..<nverts_of g1]"
    and g2: "redirect_in v news g1 = Inr g2" and g': "redirect_out v news g2 = Inr g'"
    unfolding create_module_ports_vertices_def by (auto simp: bnd_eq_Inr chk_eq_Inr Let_def)
  have vertex_v: "vertex_at g1 v = cell_vertex h parent c" using v assms(3) by (simp add: g1 nth_append)
  have new: "\<forall>w \<in> set news. w < nverts_of g1 \<and>
      (\<exists>p. iv_port (vertex_at g1 w) = Some p) \<and> iv_cell (vertex_at g1 w) = iv_cell (vertex_at g1 v) \<and>
      butlast (iv_hierarchy (vertex_at g1 w)) = iv_hierarchy (vertex_at g1 v)"
  proof
    fix w assume "w \<in> set news"
    then have w: "nverts_of g \<le> w" "w < nverts_of g1" by (auto simp: news)
    then have "vertex_at g1 w \<in> set (port_vertices (h @ [cname c]) c m)" by (auto simp: g1 nth_append)
    then show "w < nverts_of g1 \<and>
      (\<exists>p. iv_port (vertex_at g1 w) = Some p) \<and> iv_cell (vertex_at g1 w) = iv_cell (vertex_at g1 v) \<and>
      butlast (iv_hierarchy (vertex_at g1 w)) = iv_hierarchy (vertex_at g1 v)"
      unfolding vertex_v using w by (auto simp: port_vertices_def cell_vertex_def)
  qed
  have "edges_ok g1" using assms(2) by (auto simp: g1 edges_ok_def intro: edge_ok_append)
  then have "edges_ok g2" using redirect_ok(1) [OF _ _ new g2] vertex_v by (simp add: cell_vertex_def)
  then show ?thesis
    using redirect_ok(2) [OF _ _ _ g', of] new vertex_v redirect_vertices(1) [OF g2]
    by (simp add: cell_vertex_def)
qed

lemma expand_edges:
  assumes "expand_module ord d v h c g = Inr (m, g')" "keeps_sinks ord"
    and "vertex_at g v = cell_vertex h parent c" "edges_ok g"
  shows "edges_ok g'"
proof -
  let ?h = "h @ [cname c]"
  from assms(1) obtain ports g1 g2 mi es es' where
    ports: "create_module_ports_vertices d v h c g = Inr (ports, g1)"
    and m: "find_module d (c_type (cell_base c)) = Some (mi, m)"
    and g2: "g2 = g1\<lparr>ig_vertices := ig_vertices g1 @ cell_vertices ?h m\<rparr>"
    and es: "inner_edges ord (m_name m) ?h (ports @ [nverts_of g1..<nverts_of g2]) g2 = Inr es"
    and es': "mapM (\<lambda>(s, t, e). bnd (edge_net ord (net_table mi (m_nets m)) e) (\<lambda>e'. Inr (s, t, e'))) es = Inr es'"
    and g': "g' = remove_inst_vertex v (g2\<lparr>ig_edges := ig_edges g2 @ es'\<rparr>)"
    by (auto simp: expand_module_def bnd_eq_Inr of_opt_eq_Inr Let_def)
  from ports obtain m' where v: "v < nverts_of g"
    and vs: "ig_vertices g1 = ig_vertices g @ port_vertices ?h c m'" and news: "ports = [nverts_of g..<nverts_of g1]"
    by (rule create_ports_vertices)
  have "edges_ok g1" by (rule create_ports_edges [OF ports assms(4,3)])
  then have old: "edge_ok (ig_vertices g2) x" if "x \<in> set (ig_edges g2)" for x
    using that by (auto simp: g2 edges_ok_def intro: edge_ok_append)
  have vs2: "ig_vertices g2 = ig_vertices g @ port_vertices ?h c m' @ map (cell_vertex ?h (m_name m)) (m_cells m)"
    by (simp add: g2 vs cell_vertices_eq)
  have "\<forall>w \<in> set (ports @ [nverts_of g1..<nverts_of g2]). w < nverts_of g2 \<and> iv_hierarchy (vertex_at g2 w) = ?h \<and>
      (iv_port (vertex_at g2 w) = None \<or> is_module_port (vertex_at g2 w))"
  proof
    fix w assume "w \<in> set (ports @ [nverts_of g1..<nverts_of g2])"
    then have w: "nverts_of g \<le> w" "w < nverts_of g2" by (auto simp: news vs vs2)
    then have "vertex_at g2 w \<in> set (port_vertices ?h c m' @ map (cell_vertex ?h (m_name m)) (m_cells m))"
      by (auto simp: vs2 nth_append)
    then show "w < nverts_of g2 \<and> iv_hierarchy (vertex_at g2 w) = ?h \<and>
      (iv_port (vertex_at g2 w) = None \<or> is_module_port (vertex_at g2 w))"
      using w by (auto simp: port_vertices_def cell_vertex_def is_module_port_def)
  qed
  from inner_edges_ok [OF es assms(2) this] have new: "edge_ok (ig_vertices g2) x" if "x \<in> set es" for x
    using that .
  have net: "edge_net ord table e = Inr e' \<Longrightarrow> \<exists>n. e' = e\<lparr>ie_net := n\<rparr>" for table e e'
    by (auto simp: edge_net_def bnd_eq_Inr split: option.splits)
  have "edge_ok (ig_vertices g2) x" if "x \<in> set es'" for x
    using mapM_set [OF es' that] new by (auto simp: bnd_eq_Inr dest!: net)
  with old have "edges_ok (g2\<lparr>ig_edges := ig_edges g2 @ es'\<rparr>)" by (auto simp: edges_ok_def)
  then show ?thesis unfolding g' by (rule edges_ok_remove) (use v in \<open>simp add: vs2\<close>)
qed

text \<open>
  \<^bold>\<open>C5.\<close> Every edge of the flattened design goes from a driver to a reader in the hierarchy in which the
  connection was made. A driver is an output of a primitive cell, an input port of a module seen from
  its inside, or an output port of an instance seen from its outside; a reader is an input of a
  primitive cell, an output port of a module seen from its inside, or an input port of an instance
  seen from its outside. Both ends are vertices of the design that have these ports, the two ports
  share a bit that is no constant, and the edge has a net.
\<close>

theorem create_instance_edges:
  assumes "create_instance depth steps ord d = Inr g" and "names_ok d" and "keeps_sinks ord"
  shows "edges_ok g \<and> (\<forall>x \<in> set (ig_edges g). ie_net (snd (snd x)) \<noteq> None)"
  using assms(1)
proof (rule create_instance_cases)
  fix mi m g0
  assume nets: "\<forall>(s, t, e) \<in> set (ig_edges g). ie_net e \<noteq> None"
    and skeleton: "skeleton g = skeleton g0"
    and g0: "populate_module depth steps ord d 0 [] (root_cell m) (root_graph m) = Inr g0"
  have "fresh ([] @ [cname (root_cell m)]) (root_graph m)" "edges_ok (root_graph m)"
    by (simp_all add: fresh_def root_graph_def edges_ok_def)
  moreover have "edges_ok g'" if "expand_module ord d v h c g = Inr (m, g')"
    "vertex_at g v = cell_vertex h parent c" "edges_ok g" for v h c g m g' parent
    using expand_edges [OF that(1) assms(3) that(2,3)] .
  ultimately have "edges_ok g0"
    using populate_invariant [where Inv = edges_ok, OF assms(2) _ g0] root_vertex by blast
  then show ?thesis using edges_ok_skeleton [OF skeleton] nets by auto
qed


section \<open>A design with one instance\<close>

definition sample_flat :: design where
  "sample_flat =
     \<lparr>d_top = ''t'', d_clk = '''',
      d_modules = map (\<lambda>m. (m, empty_graph))
        [\<lparr>m_name = ''u'',
          m_nets = [mk_net sample_hash ''a'' False [Bit 5], mk_net sample_hash ''y'' False [Bit 6]],
          m_cells = [Gate GUnary (mk_cell ''g'' ''$not''
            [mk_port sample_hash ''A'' [] Input [Bit 5] False,
             mk_port sample_hash ''Y'' [] Output [Bit 6] False] False JNull JNull)],
          m_ports = [mk_port sample_hash ''a'' ''u_a'' Input [Bit 5] False,
                     mk_port sample_hash ''y'' ''u_y'' Output [Bit 6] False],
          m_attributes = JNull\<rparr>,
         \<lparr>m_name = ''t'',
          m_nets = [mk_net sample_hash ''x'' False [Bit 7], mk_net sample_hash ''z'' False [Bit 8]],
          m_cells = [ModuleCell (mk_cell ''i'' ''u''
            [mk_port sample_hash ''a'' [] Input [Bit 7] False,
             mk_port sample_hash ''y'' [] Output [Bit 8] False] False JNull JNull)],
          m_ports = [mk_port sample_hash ''x'' ''t_x'' Input [Bit 7] False,
                     mk_port sample_hash ''z'' ''t_z'' Output [Bit 8] False],
          m_attributes = JNull\<rparr>],
      d_hierarchy = \<lparr>h_names = [''t''], h_edges = []\<rparr>\<rparr>"

definition sample_orders :: inst_orders where
  "sample_orders = \<lparr>io_sinks = rev, io_nets = rev\<rparr>"

definition sample_instance :: inst_graph where
  "sample_instance = (case create_instance 4 9 sample_orders sample_flat of
     Inr g \<Rightarrow> g | Inl _ \<Rightarrow> empty_inst_graph)"

lemma sample_created:
  "create_instance 4 9 sample_orders sample_flat = Inr sample_instance \<and>
   map iv_name (ig_vertices sample_instance) = [''t_x'', ''t_z'', ''u_a'', ''u_y'', ''g''] \<and>
   map (\<lambda>(s, t, e). (s, t)) (ig_edges sample_instance) = [(0, 2), (3, 1), (2, 4), (4, 3)]"
proof -
  have "(case create_instance 4 9 sample_orders sample_flat of Inl _ \<Rightarrow> False | Inr g \<Rightarrow>
      map iv_name (ig_vertices g) = [''t_x'', ''t_z'', ''u_a'', ''u_y'', ''g''] \<and>
      map (\<lambda>(s, t, e). (s, t)) (ig_edges g) = [(0, 2), (3, 1), (2, 4), (4, 3)])" by code_simp
  then show ?thesis by (auto simp: sample_instance_def split: sum.splits)
qed

lemma sample_flat_ok: "names_ok sample_flat"
  unfolding names_ok_def by code_simp

lemma sample_orders_ok: "keeps_sinks sample_orders"
  by (simp add: keeps_sinks_def sample_orders_def)

theorem create_instance_vertices_witness:
  "(\<exists>mi m. instance_top sample_flat = Inr (mi, m) \<and>
     mset (ig_vertices sample_instance) = mset (flat_vertices 4 sample_flat [] (root_cell m))) \<and>
   map iv_name (ig_vertices sample_instance) = [''t_x'', ''t_z'', ''u_a'', ''u_y'', ''g'']"
  using create_instance_vertices [OF sample_created [THEN conjunct1] sample_flat_ok] sample_created by simp

theorem create_instance_edges_witness:
  "edges_ok sample_instance \<and>
   map (\<lambda>(s, t, e). (s, t)) (ig_edges sample_instance) = [(0, 2), (3, 1), (2, 4), (4, 3)]"
  using create_instance_edges [OF sample_created [THEN conjunct1] sample_flat_ok sample_orders_ok] sample_created
  by simp

text \<open>
  Two inputs with the same identifier. The first bit of the source is in the second of them, so that
  one gets the edge.
\<close>

theorem connect_port_exact_witness:
  "map (\<lambda>(s, t, e). t) (connect_port sample_orders
       [(4, 0, mk_port sample_hash ''A'' ''i_A'' Input [Bit 7] False),
        (5, 0, mk_port sample_hash ''A'' ''i_A'' Input [Bit 6] False)] ''t'' [''t''] 3
       (mk_port sample_hash ''Y'' ''j_Y'' Output [Bit 6, Bit 7] False)) = [5]"
proof -
  let ?sinks = "[(4 :: nat, 0 :: nat, mk_port sample_hash ''A'' ''i_A'' Input [Bit 7] False),
        (5, 0, mk_port sample_hash ''A'' ''i_A'' Input [Bit 6] False)]"
  let ?p = "mk_port sample_hash ''Y'' ''j_Y'' Output [Bit 6, Bit 7] False"
  have v: "visited_sinks sample_orders ?sinks ?p = rev ?sinks"
    by (simp add: visited_sinks_def sample_orders_def mk_port_def is_constant_def const_bit_defs)
  have "connect_port sample_orders ?sinks ''t'' [''t''] 3 ?p =
      map (\<lambda>i. new_edge 3 ?p ''t'' [''t''] (rev ?sinks ! i))
        (filter (\<lambda>i. \<forall>j < i. sink_id (rev ?sinks ! j) \<noteq> sink_id (rev ?sinks ! i)) [0..<length (rev ?sinks)])"
    using connect_port_exact [OF sample_orders_ok, where sinks = ?sinks and p = ?p and v = 3
        and parent = "''t''" and h = "[''t'']"] unfolding v Let_def by blast
  then show ?thesis by (simp add: new_edge_def sink_id_def mk_port_def)
qed

end
