(* ===== verification/InstanceReturns.thy ===== *)
theory InstanceReturns
  imports InstanceFacts
begin

text \<open>
  When the flattening of a design returns: \<open>returns\<close> says that an operation ends with a value or
  with an exception.
\<close>

section \<open>The flattening returns\<close>

text \<open>Operations that return a value or raise an exception, whatever they do.\<close>

named_theorems returns_intros

definition returns :: "'a res \<Rightarrow> bool" where
  "returns r \<longleftrightarrow> r \<noteq> Inl Diverges"

lemma returns_Inr [returns_intros]: "returns (Inr x)"
  by (simp add: returns_def)

lemma returns_Inl [returns_intros]: "e \<noteq> Diverges \<Longrightarrow> returns (Inl e)"
  by (simp add: returns_def)

lemma returns_bnd [returns_intros]: "returns m \<Longrightarrow> (\<And>x. m = Inr x \<Longrightarrow> returns (f x)) \<Longrightarrow> returns (bnd m f)"
  by (cases m) (auto simp: returns_def)

lemma returns_chk [returns_intros]: "e \<noteq> Diverges \<Longrightarrow> (c \<Longrightarrow> returns k) \<Longrightarrow> returns (chk c e k)"
  by (simp add: chk_def returns_def)

lemma returns_of_opt [returns_intros]: "e \<noteq> Diverges \<Longrightarrow> returns (of_opt e x)"
  by (cases x) (auto simp: returns_def)

lemma returns_if [returns_intros]: "(c \<Longrightarrow> returns a) \<Longrightarrow> (\<not> c \<Longrightarrow> returns b) \<Longrightarrow> returns (if c then a else b)"
  by simp

lemma returns_case_prod [returns_intros]: "(\<And>a b. x = (a, b) \<Longrightarrow> returns (f a b)) \<Longrightarrow> returns (case x of (a, b) \<Rightarrow> f a b)"
  by (cases x) simp

lemma returns_case_option [returns_intros]:
  "returns a \<Longrightarrow> (\<And>y. x = Some y \<Longrightarrow> returns (f y)) \<Longrightarrow> returns (case x of None \<Rightarrow> a | Some y \<Rightarrow> f y)"
  by (cases x) simp_all

lemma returns_mapM [returns_intros]: "(\<And>x. x \<in> set xs \<Longrightarrow> returns (f x)) \<Longrightarrow> returns (mapM f xs)"
  by (induction xs) (auto intro!: returns_intros)

lemma returns_foldM [returns_intros]: "(\<And>x s. x \<in> set xs \<Longrightarrow> returns (f x s)) \<Longrightarrow> returns (foldM f xs s)"
  by (induction xs arbitrary: s) (auto intro!: returns_intros)

text \<open>A loop returns when each step returns after the steps before it.\<close>

lemma returns_foldM_steps:
  assumes "\<And>ys x zs t. xs = ys @ x # zs \<Longrightarrow> foldM f ys s = Inr t \<Longrightarrow> returns (f x t)"
  shows "returns (foldM f xs s)"
  using assms
proof (induction xs arbitrary: s)
  case (Cons x xs)
  show ?case
  proof (simp, rule returns_bnd)
    show "returns (f x s)" using Cons.prems [of "[]" x xs s] by simp
    fix s' assume s': "f x s = Inr s'"
    show "returns (foldM f xs s')"
      by (rule Cons.IH) (use Cons.prems [of "x # ys" for ys] s' in simp)
  qed
qed (simp add: returns_Inr)

lemma returns_vectors_intersection [returns_intros]: "returns (vectors_intersection a b)"
  unfolding vectors_intersection_def by (intro returns_intros) simp

lemma partial_net_returns [returns_intros]: "returns (partial_net e table rs)"
  by (induction rs) (auto simp: alias_check_def Let_def intro!: returns_intros)

lemma expand_returns: "returns (expand_module ord d v h c g)"
  unfolding expand_module_def create_module_ports_vertices_def redirect_in_def redirect_out_def Let_def
    inner_edges_def sinks_of_def sources_of_def deref_port_def edge_net_def
  by (intro returns_intros) simp_all

text \<open>The loop over the vertices, with a bound on the number of vertices.\<close>

lemma visit_none_returns:
  "filter (match h name) (drop i (ig_vertices g)) = [] \<Longrightarrow> nverts_of g - i < k \<Longrightarrow>
   returns (visit_instances k P h name i g)"
proof (induction k arbitrary: i)
  case (Suc k)
  show ?case
  proof (cases "i < nverts_of g")
    case True
    then show ?thesis using Suc.prems Suc.IH [of "Suc i"]
      by (auto simp: Cons_nth_drop_Suc [symmetric] match_def returns_Inr split: if_splits)
  qed (simp add: returns_Inr)
qed simp

lemma visit_one_returns:
  assumes "length (filter (match h name) (drop i (ig_vertices g))) = 1" and "nverts_of g \<le> B" "B - i < k"
    and "\<And>j. j < nverts_of g \<Longrightarrow> match h name (vertex_at g j) \<Longrightarrow> returns (P j g)"
    and "\<And>j g1. j < nverts_of g \<Longrightarrow> match h name (vertex_at g j) \<Longrightarrow> P j g = Inr g1 \<Longrightarrow>
      filter (match h name) (ig_vertices g1) = [] \<and> nverts_of g1 \<le> B"
  shows "returns (visit_instances k P h name i g)"
  using assms(1,3)
proof (induction k arbitrary: i)
  case (Suc k)
  show ?case
  proof (cases "i < nverts_of g")
    case i: True
    note drop = Cons_nth_drop_Suc [OF i, symmetric]
    show ?thesis
    proof (cases "match h name (vertex_at g i)")
      case True
      have "returns (visit_instances k P h name (Suc i) g1)" if "P i g = Inr g1" for g1
      proof (rule visit_none_returns)
        note after = assms(5) [OF i True that]
        show "filter (match h name) (drop (Suc i) (ig_vertices g1)) = []"
          using after by (metis append_take_drop_id filter_append append_is_Nil_conv)
        show "nverts_of g1 - Suc i < k" using after [THEN conjunct2] Suc.prems(2) i assms(2) by linarith
      qed
      then show ?thesis using assms(4) [OF i True] i True by (auto simp: match_def intro!: returns_bnd)
    next
      case False
      then have "returns (visit_instances k P h name (Suc i) g)"
        using Suc.IH [of "Suc i"] Suc.prems drop i assms(2) by simp
      then show ?thesis using i False by (auto simp: match_def)
    qed
  qed (simp add: returns_Inr)
qed simp


text \<open>The number of vertices that the population of an instance creates.\<close>

fun created :: "nat \<Rightarrow> design \<Rightarrow> anycell \<Rightarrow> nat" where
  "created 0 d c = 0"
| "created (Suc k) d c =
     (case find_module d (c_type (cell_base c)) of
        None \<Rightarrow> 0
      | Some (mi, m) \<Rightarrow> length (m_ports m) + length (m_cells m)
          + sum_list (map (created k d) (filter is_module_cell (m_cells m))))"

lemma flat_vertices_created: "length (flat_vertices k d h c) \<le> created k d c"
proof (induction k arbitrary: h c)
  case (Suc k)
  show ?case
  proof (cases "find_module d (c_type (cell_base c))")
    case (Some p)
    obtain mi m where p: "p = (mi, m)" by (cases p)
    have "length (concat (map (flat_vertices k d (h @ [cname c])) cs)) \<le> sum_list (map (created k d) cs)" for cs
      by (induction cs) (auto intro: add_mono Suc.IH)
    then show ?thesis by (simp add: Some p port_vertices_def del: length_concat) (meson add_mono length_filter_le)
  qed simp
qed simp

text \<open>No module instantiates itself, directly or not: a rank falls along the instances.\<close>

definition ranked :: "(string \<Rightarrow> nat) \<Rightarrow> design \<Rightarrow> bool" where
  "ranked rank d \<longleftrightarrow> (\<forall>m \<in> fst ` set (d_modules d). \<forall>c \<in> set (m_cells m).
     is_module_cell c \<longrightarrow> rank (c_type (cell_base c)) < rank (m_name m))"

lemma populate_size:
  assumes "names_ok d" "populate_module k steps ord d v h c g = Inr g'" "fresh (h @ [cname c]) g"
    and "vertex_at g v = cell_vertex h parent c"
  shows "nverts_of g' + 1 = nverts_of g + length (flat_vertices k d h c)"
proof -
  have "mset (ig_vertices g') + {#vertex_at g v#} = mset (ig_vertices g) + mset (flat_vertices k d h c)"
    using populate_invariant [OF assms(1), where Inv = "\<lambda>_. True", OF _ assms(2-4)] by blast
  then have "size (mset (ig_vertices g') + {#vertex_at g v#}) = size (mset (ig_vertices g) + mset (flat_vertices k d h c))"
    by (rule arg_cong)
  then show ?thesis by simp
qed

lemma cells_return:
  assumes "names_ok d" and "distinct (map cname cs)"
    and IH: "\<And>v c g. c \<in> set cs \<Longrightarrow> is_module_cell c \<Longrightarrow> fresh (h @ [cname c]) g \<Longrightarrow>
      vertex_at g v = cell_vertex h parent c \<Longrightarrow> nverts_of g + created k d c < steps \<Longrightarrow>
      returns (populate_module k steps ord d v h c g)"
    and "mset (ig_vertices g) = B + mset (map (cell_vertex h parent) cs)" "\<forall>x \<in># B. apart h cs x"
    and "nverts_of g + sum_list (map (created k d) (filter is_module_cell cs)) < steps"
  shows "returns (foldM (populate_cell k steps ord d h) cs g)"
proof (rule returns_foldM_steps)
  fix ys c zs t
  assume cs: "cs = ys @ c # zs" and t: "foldM (populate_cell k steps ord d h) ys g = Inr t"
  note distinct = assms(2) [unfolded cs]
  let ?flats = "concat (map (flat_vertices k d h) (filter is_module_cell ys))"
  let ?M = "B + mset (map (cell_vertex h parent) zs)
    + mset (map (cell_vertex h parent) (filter (\<lambda>c. \<not> is_module_cell c) ys)) + mset ?flats"
  have "mset (ig_vertices t) = (B + mset (map (cell_vertex h parent) (c # zs)))
      + mset (map (cell_vertex h parent) (filter (\<lambda>c. \<not> is_module_cell c) ys)) + mset ?flats \<and> True"
  proof (rule populate_cells_vertices [where Inv = "\<lambda>_. True", OF _ t])
    fix v c g g' assume "populate_module k steps ord d v h c g = Inr g'" "fresh (h @ [cname c]) g"
      "vertex_at g v = cell_vertex h parent c"
    then show "mset (ig_vertices g') + {#vertex_at g v#} = mset (ig_vertices g) + mset (flat_vertices k d h c) \<and> True"
      using populate_invariant [OF assms(1), where Inv = "\<lambda>_. True"] by blast
  next
    show "distinct (map cname ys)" using distinct by simp
    show "mset (ig_vertices g) = B + mset (map (cell_vertex h parent) (c # zs)) + mset (map (cell_vertex h parent) ys)"
      using assms(4) by (simp add: cs)
    show "\<forall>x \<in># B + mset (map (cell_vertex h parent) (c # zs)). apart h ys x"
      using assms(5) distinct by (fastforce simp: cs apart_def)
  qed simp
  then have vs: "mset (ig_vertices t) = add_mset (cell_vertex h parent c) ?M" by simp
  show "returns (populate_cell k steps ord d h c t)"
  proof (cases "is_module_cell c")
    case True
    have apart: "\<not> match h (cname c) x \<and> \<not> prefix (h @ [cname c]) (iv_hierarchy x)" if "x \<in># ?M" for x
    proof -
      consider "x \<in># B" | c' where "x = cell_vertex h parent c'" "c' \<in> set (ys @ zs)"
        | c' where "c' \<in> set ys" "x \<in> set (flat_vertices k d h c')" using \<open>x \<in># ?M\<close> by auto
      then show ?thesis
      proof cases
        case 1
        then show ?thesis using assms(5) True by (auto simp: apart_def cs)
      next
        case (2 c')
        have "cname c' \<in> cname ` set (ys @ zs)" using 2(2) by (rule imageI)
        moreover have "cname c \<notin> cname ` set (ys @ zs)" using distinct by auto
        ultimately have "cname c' \<noteq> cname c" by metis
        then show ?thesis unfolding 2(1) match_cell cell_vertex_hierarchy by auto
      next
        case (3 c')
        have "cname c \<notin> cname ` set ys" using distinct by simp
        then have "cname c' \<noteq> cname c" using imageI [OF 3(1), of cname] by metis
        then have "\<not> prefix (h @ [cname c]) (iv_hierarchy x)"
          using prefix_same_length [OF flat_hierarchy [OF 3(2)], of "cname c"] by blast
        then show ?thesis using flat_hierarchy [OF 3(2)] by (auto simp: match_def)
      qed
    qed
    then have other: "\<forall>x \<in># ?M. \<not> match h (cname c) x" by blast
    note one = one_match [OF vs other]
    have fresh: "fresh (h @ [cname c]) t"
      unfolding fresh_def set_mset_mset [symmetric] vs using apart by (auto simp: cell_vertex_def)
    have size_t: "nverts_of t + created k d c < steps"
    proof -
      have "length (concat (map (flat_vertices k d h) cs)) \<le> sum_list (map (created k d) cs)" for cs
        by (induction cs) (auto intro: add_mono flat_vertices_created)
      then have flats: "length ?flats \<le> sum_list (map (created k d) (filter is_module_cell ys))" .
      have "nverts_of t = size (mset (ig_vertices t))" by simp
      also have "\<dots> \<le> nverts_of g + length ?flats"
      proof -
        have "nverts_of g = size (mset (ig_vertices g))" by simp
        also have "\<dots> = size B + Suc (length ys + length zs)" unfolding assms(4) by (simp add: cs)
        finally show ?thesis unfolding vs using size_filter_mset_lesseq [of "\<lambda>c. \<not> is_module_cell c" "mset ys"] by simp
      qed
      finally show ?thesis using flats assms(6) True by (simp add: cs)
    qed
    have "returns (visit_instances steps (\<lambda>i. populate_module k steps ord d i h c) h (cname c) 0 t)"
    proof (rule visit_one_returns [where B = "nverts_of t + created k d c"])
      show "length (filter (match h (cname c)) (drop 0 (ig_vertices t))) = 1" using one(1) by simp
      show "nverts_of t + created k d c - 0 < steps" using size_t by simp
      fix j assume j: "j < nverts_of t" "match h (cname c) (vertex_at t j)"
      show "returns (populate_module k steps ord d j h c t)"
        by (rule IH [OF _ True fresh one(2) [OF j] size_t]) (simp add: cs)
      fix g1 assume g1: "populate_module k steps ord d j h c t = Inr g1"
      have "mset (ig_vertices g1) + {#vertex_at t j#} = mset (ig_vertices t) + mset (flat_vertices k d h c)"
        using populate_invariant [OF assms(1), where Inv = "\<lambda>_. True", OF _ g1 fresh one(2) [OF j]] by blast
      then have "mset (ig_vertices g1) = ?M + mset (flat_vertices k d h c)"
        unfolding vs one(2) [OF j] by simp
      moreover have "\<not> match h n x" if "x \<in> set (flat_vertices k d h c)" for x n
        using flat_hierarchy [OF that] by (auto simp: match_def)
      ultimately have "\<forall>x \<in># mset (ig_vertices g1). \<not> match h (cname c) x" using other by auto
      then show "filter (match h (cname c)) (ig_vertices g1) = [] \<and> nverts_of g1 \<le> nverts_of t + created k d c"
        using populate_size [OF assms(1) g1 fresh one(2) [OF j]] flat_vertices_created [of k d h c]
        by (simp add: filter_empty_conv)
    qed simp
    then show ?thesis using True by (simp add: populate_cell_def)
  qed (simp add: populate_cell_def returns_Inr)
qed

lemma populate_returns:
  assumes "names_ok d" "ranked rank d"
  shows "fresh (h @ [cname c]) g \<Longrightarrow> vertex_at g v = cell_vertex h parent c \<Longrightarrow>
    nverts_of g + created k d c < steps \<Longrightarrow> rank (c_type (cell_base c)) < k \<Longrightarrow>
    returns (populate_module k steps ord d v h c g)"
proof (induction k arbitrary: v h c g parent)
  case (Suc k)
  let ?h = "h @ [cname c]"
  show ?case
    unfolding populate_module_Suc
  proof (intro returns_bnd returns_case_prod expand_returns)
    fix x m g1 assume "expand_module ord d v h c g = Inr x" "x = (m, g1)"
    then have g1: "expand_module ord d v h c g = Inr (m, g1)" by simp
    then obtain mi where m: "find_module d (c_type (cell_base c)) = Some (mi, m)" and v: "v < nverts_of g"
      and vs: "ig_vertices g1 = take v (ig_vertices g) @ drop (Suc v) (ig_vertices g)
         @ port_vertices ?h c m @ cell_vertices ?h m" by (rule expand_vertices)
    let ?old = "take v (ig_vertices g) @ drop (Suc v) (ig_vertices g) @ port_vertices ?h c m"
    have "m_name m = c_type (cell_base c)" "m \<in> fst ` set (d_modules d)" using find_module_Some [OF m] by auto
    then have rank: "rank (c_type (cell_base c')) < k" if "c' \<in> set (m_cells m)" "is_module_cell c'" for c'
      using assms(2) that Suc.prems(4) by (fastforce simp: ranked_def)
    show "returns (foldM (populate_cell k steps ord d ?h) (m_cells m) g1)"
    proof (rule cells_return [OF assms(1) expand_names(1) [OF assms(1) m] Suc.IH])
      show "mset (ig_vertices g1) = mset ?old + mset (map (cell_vertex ?h (m_name m)) (m_cells m))"
        by (simp add: vs cell_vertices_eq)
      show "\<forall>x \<in># mset ?old. apart ?h (m_cells m) x"
        using expand_apart [OF assms(1) m Suc.prems(1)] by simp
      show "nverts_of g1 + sum_list (map (created k d) (filter is_module_cell (m_cells m))) < steps"
        using Suc.prems(3) v by (simp add: m vs port_vertices_def cell_vertices_def)
    qed (use rank in auto)
  qed
qed simp


text \<open>The propagation visits each edge once, so the number of edges bounds its depth.\<close>

lemma propagate_net_total:
  "i < length (ig_edges g) \<Longrightarrow> card ({..<length (ig_edges g)} - visited) < k \<Longrightarrow>
   \<exists>g' visited'. propagate_net k n i (g, visited) = Inr (g', visited') \<and>
     length (ig_edges g') = length (ig_edges g) \<and> visited \<subseteq> visited'"
proof (induction k arbitrary: n i g visited)
  case (Suc k)
  show ?case
  proof (cases "i \<in> visited")
    case False
    define g1 where "g1 = (if net_of_edge g i = None then set_edge_net i n g else g)"
    have len: "length (ig_edges g1) = length (ig_edges g)" by (simp add: g1_def set_edge_net_def)
    let ?f = "\<lambda>j (g, visited). propagate_net k (net_of_edge g i) j (g, visited)"
    let ?P = "\<lambda>(g', visited'). length (ig_edges g') = length (ig_edges g) \<and> insert i visited \<subseteq> visited'"
    let ?all = "{..<length (ig_edges g)}"
    have "card (?all - insert i visited) < card (?all - visited)"
      by (rule psubset_card_mono) (use Suc.prems(1) False in auto)
    then have less: "card (?all - insert i visited) < k" using Suc.prems(2) by simp
    have step: "\<exists>s'. ?f j s = Inr s' \<and> ?P s'" if "j \<in> set (in_edge_ids g1 v)" "?P s" for j s v
    proof -
      obtain g2 visited2 where s: "s = (g2, visited2)" by (cases s)
      have "card (?all - visited2) \<le> card (?all - insert i visited)"
        by (rule card_mono) (use that(2) s in auto)
      then have "card ({..<length (ig_edges g2)} - visited2) < k" using less that(2) s by simp
      moreover have "j < length (ig_edges g2)" using in_edge_ids_bound [OF that(1)] len that(2) s by simp
      ultimately obtain g3 visited3 where "propagate_net k (net_of_edge g2 i) j (g2, visited2) = Inr (g3, visited3)"
        "length (ig_edges g3) = length (ig_edges g2)" "visited2 \<subseteq> visited3"
        using Suc.IH [of j g2 visited2 "net_of_edge g2 i"] by blast
      then show ?thesis using that(2) s by auto
    qed
    have "\<exists>t. foldM ?f (in_edge_ids g1 (fst (ig_edges g1 ! i))) (g1, insert i visited) = Inr t \<and> ?P t"
    proof (rule foldM_total)
      show "?P (g1, insert i visited)" by (auto simp: len)
    next
      fix j s s' assume "j \<in> set (in_edge_ids g1 (fst (ig_edges g1 ! i)))" "?P s" "?f j s = Inr s'"
      then show "?P s'" using step [of j _ s] by fastforce
    next
      fix j and s :: "inst_graph \<times> nat set"
      assume "j \<in> set (in_edge_ids g1 (fst (ig_edges g1 ! i)))" "?P s"
      then show "\<exists>s'. ?f j s = Inr s'" using step [of j "fst (ig_edges g1 ! i)" s] by blast
    qed
    then obtain g' visited' where "foldM ?f (in_edge_ids g1 (fst (ig_edges g1 ! i))) (g1, insert i visited) = Inr (g', visited')"
      "length (ig_edges g') = length (ig_edges g)" "insert i visited \<subseteq> visited'" by auto
    then show ?thesis using False unfolding g1_def by (auto simp: Let_def)
  qed simp
qed simp

lemma propagate_pointers_returns: "returns (propagate_net_pointers mi m g)"
proof -
  let ?len = "\<lambda>st :: inst_graph \<times> nat set. length (ig_edges (fst st)) = length (ig_edges g)"
  have edges: "\<exists>st'. foldM (propagate_net (length (ig_edges g) + 1) n) (in_edge_ids g v) st = Inr st' \<and> ?len st'"
    if "?len st" for n v st
  proof (rule foldM_total)
    have step: "\<exists>s'. propagate_net (length (ig_edges g) + 1) n i s = Inr s' \<and> ?len s'"
      if "i \<in> set (in_edge_ids g v)" "?len s" for i s
    proof -
      have "card ({..<length (ig_edges g)} - snd s) \<le> card {..<length (ig_edges g)}" by (rule card_mono) auto
      then have "card ({..<length (ig_edges (fst s))} - snd s) < length (ig_edges g) + 1" using that(2) by simp
      then show ?thesis
        using propagate_net_total [of i "fst s" "snd s"] in_edge_ids_bound [OF that(1)] that(2) by fastforce
    qed
    show "?len st" by (rule that)
    show "?len s'" if "i \<in> set (in_edge_ids g v)" "?len s" "propagate_net (length (ig_edges g) + 1) n i s = Inr s'"
      for i s s' using step [OF that(1,2)] that(3) by auto
    show "\<exists>s'. propagate_net (length (ig_edges g) + 1) n i s = Inr s'" if "i \<in> set (in_edge_ids g v)" "?len s" for i s
      using step [OF that] by blast
  qed
  have edges': "returns (foldM (propagate_net (length (ig_edges g) + 1) n) (in_edge_ids g v) st)" if "?len st" for n v st
    using edges [OF that, of n v] by (auto simp: returns_def)
  have port: "returns (propagate_port mi m g v p st)" if "?len st" for v p st
    unfolding propagate_port_def by (intro returns_intros edges' that) simp
  have port_len: "?len st'" if "propagate_port mi m g v p st = Inr st'" "?len st" for v p st st'
  proof -
    have "?len st'" if "foldM (propagate_net (length (ig_edges g) + 1) n) (in_edge_ids g v) st = Inr st'" for n
      using edges [OF \<open>?len st\<close>, of n v] that by auto
    then show ?thesis using that by (auto simp: propagate_port_def bnd_eq_Inr split: if_splits)
  qed
  have ports: "returns (foldM (propagate_port mi m g v) ps st)" if "?len st" for v ps st
    by (rule returns_foldM_steps, rule port, rule foldM_invariant [where P = ?len])
      (use that port_len in auto)
  have ports_len: "?len st'" if "foldM (propagate_port mi m g v) ps st = Inr st'" "?len st" for v ps st st'
    by (rule foldM_invariant [OF that(1), where P = ?len]) (use that port_len in auto)
  have "returns (foldM (\<lambda>v. foldM (propagate_port mi m g v) (m_ports m)) vs (g, {}))" for vs
  proof (rule returns_foldM_steps, rule ports)
    fix ys v zs t assume "foldM (\<lambda>v. foldM (propagate_port mi m g v) (m_ports m)) ys (g, {}) = Inr t"
    then show "?len t" by (rule foldM_invariant [where P = ?len]) (use ports_len in auto)
  qed
  then show ?thesis unfolding propagate_net_pointers_def
    by (intro returns_bnd returns_case_prod returns_Inr)
qed

text \<open>
  \<^bold>\<open>C6.\<close> The flattening returns, with the graph or with an exception, when no module instantiates itself
  and the names in each module are different: more levels than the rank of the top module, and more
  steps than the vertices it creates, are enough.
\<close>

theorem create_instance_returns:
  assumes "names_ok d" and "ranked rank d" and "instance_top d = Inr (mi, m)"
    and "rank (m_name m) < depth" and "created depth d (root_cell m) + 1 < steps"
  shows "create_instance depth steps ord d \<noteq> Inl Diverges"
proof -
  have "returns (populate_module depth steps ord d 0 [] (root_cell m) (root_graph m))"
    using assms(4,5) root_vertex
    by (intro populate_returns [OF assms(1,2)])
      (auto simp: fresh_def root_graph_def root_cell_def mk_cell_def)
  moreover have "returns (foldM (\<lambda>(s, t, e) _. chk (ie_net e \<noteq> None)
            (RuntimeError (fmt ''Unrecognized net for edge: {} -> {}''
               [pt_identifier (ie_source_port e), pt_identifier (ie_target_port e)])) (Inr ())) xs ())" for xs
    by (rule returns_foldM) (auto intro!: returns_intros simp del: fmt.simps split: prod.split)
  moreover have "returns (instance_top d)" by (simp add: assms(3) returns_Inr)
  ultimately have "returns (create_instance depth steps ord d)"
    unfolding create_instance_def
    by (intro returns_bnd returns_case_prod returns_Inr propagate_pointers_returns) (simp_all add: assms(3))
  then show ?thesis by (simp add: returns_def)
qed


theorem create_instance_returns_witness:
  "create_instance 4 9 sample_orders sample_flat \<noteq> Inl Diverges"
proof -
  let ?r = "\<lambda>s. if s = ''t'' then 1 else (0 :: nat)"
  obtain mi m where top_m: "instance_top sample_flat = Inr (mi, m)" and "m_name m = ''t''"
    and "created 4 sample_flat (root_cell m) = 6"
  proof -
    have "case instance_top sample_flat of Inl _ \<Rightarrow> False
        | Inr (mi, m) \<Rightarrow> m_name m = ''t'' \<and> created 4 sample_flat (root_cell m) = 6" by code_simp
    then show thesis using that by (auto split: sum.splits)
  qed
  moreover have "ranked ?r sample_flat" unfolding ranked_def by code_simp
  ultimately show ?thesis by (intro create_instance_returns [OF sample_flat_ok _ top_m]) auto
qed

end
