(* ===== verification/Paths.thy ===== *)
theory Paths
  imports Instances SignalsData
begin

text \<open>
  Paths through the flattened design (\<open>get_path\<close> and the searches that use it in
  \<open>include/ducode/instantiation_graph.hpp\<close>, \<open>count_common_path_elements\<close> in
  \<open>src/ducode/instantiation_graph.cpp\<close>). The values and tags of the signals come from the manager
  that was added to the design, an interface that \<open>signals\<close> lists.
\<close>

section \<open>The manager of the signals\<close>

record signals =
  sm_signal :: "signal_id \<Rightarrow> signal_info res"
  sm_values :: "signal_id \<Rightarrow> signal_values res"
  sm_value :: "signal_id \<Rightarrow> int \<Rightarrow> signal_value res"
  sm_tags :: "signal_id \<Rightarrow> signal_values list res"
  sm_is_empty :: "bool res"
  sm_tag_count :: "string \<Rightarrow> string list \<Rightarrow> 32 word res"
  sm_tag_count_between :: "signal_id \<Rightarrow> signal_id \<Rightarrow> 32 word res"
  sm_timestamps :: "int list res"
  sm_signal_size :: "signal_id \<Rightarrow> 64 word res"
  sm_is_tag_propagated :: "signal_id \<Rightarrow> int \<Rightarrow> signal_id \<Rightarrow> int \<Rightarrow> bool option res"

definition vcd_signals :: "vcd_manager \<Rightarrow> signals" where
  "vcd_signals vm =
     \<lparr>sm_signal = vcd_get_signal vm, sm_values = vcd_get_signal_values vm,
      sm_value = vcd_get_signal_value vm, sm_tags = vcd_get_tag_values vm,
      sm_is_empty = Inr (vm_data vm = []),
      sm_tag_count = (\<lambda>name h. get_tag_count_signal vm \<lparr>id_name = name, id_hierarchy = h\<rparr>),
      sm_tag_count_between = get_tag_count_signal_to_signal vm,
      sm_timestamps = vcd_get_timestamps vm, sm_signal_size = vcd_get_signal_size vm,
      sm_is_tag_propagated = vcd_is_tag_propagated vm\<rparr>"

type_synonym graph_edge = "nat \<times> nat \<times> inst_edge"

definition edge_signal :: "graph_edge \<Rightarrow> signal_id res" where
  "edge_signal x =
     (case x of (s, t, e) \<Rightarrow>
      bnd (of_opt Undefined (ie_net e)) (\<lambda>r.
      Inr \<lparr>id_name = n_name (nr_net r), id_hierarchy = ie_hierarchy e\<rparr>))"

definition edge_signal_values :: "signals \<Rightarrow> graph_edge \<Rightarrow> signal_values res" where
  "edge_signal_values sm x = bnd (edge_signal x) (sm_values sm)"

definition edge_signal_value :: "signals \<Rightarrow> graph_edge \<Rightarrow> int \<Rightarrow> signal_value res" where
  "edge_signal_value sm x time = bnd (edge_signal x) (\<lambda>i. sm_value sm i time)"

definition edge_tag_values :: "signals \<Rightarrow> graph_edge \<Rightarrow> signal_values list res" where
  "edge_tag_values sm x = bnd (edge_signal x) (sm_tags sm)"

section \<open>Selection of an edge\<close>

fun filterM :: "('a \<Rightarrow> bool res) \<Rightarrow> 'a list \<Rightarrow> 'a list res" where
  "filterM p [] = Inr []"
| "filterM p (x # xs) = bnd (p x) (\<lambda>b. bnd (filterM p xs) (\<lambda>ys. Inr (if b then x # ys else ys)))"

text \<open>\<open>std::ranges::min_element\<close> and \<open>max_element\<close>: the first least and the first greatest element.\<close>

definition min_element ::
  "('a \<Rightarrow> 'a \<Rightarrow> bool res) \<Rightarrow> 'a list \<Rightarrow> 'a option res"
where
  "min_element is_less xs =
     (case xs of [] \<Rightarrow> Inr None
      | y # ys \<Rightarrow> bnd (foldM (\<lambda>x best. bnd (is_less x best) (\<lambda>b. Inr (if b then x else best))) ys y) (\<lambda>m. Inr (Some m)))"

definition max_element ::
  "('a \<Rightarrow> 'a \<Rightarrow> bool res) \<Rightarrow> 'a list \<Rightarrow> 'a option res"
where
  "max_element is_less xs =
     (case xs of [] \<Rightarrow> Inr None
      | y # ys \<Rightarrow> bnd (foldM (\<lambda>x best. bnd (is_less best x) (\<lambda>b. Inr (if b then x else best))) ys y) (\<lambda>m. Inr (Some m)))"

definition excluded_signals :: "string list" where
  "excluded_signals = [''clk'', ''slaveSCLK'', ''sys_clk'']"

definition text_contains :: "string \<Rightarrow> string \<Rightarrow> bool" where
  "text_contains name element = list_ex (\<lambda>i. prefix element (drop i name)) [0..<length name + 1]"

definition is_excluded_signal :: "string \<Rightarrow> bool" where
  "is_excluded_signal name = list_ex (text_contains name) excluded_signals"

definition not_excluded :: "graph_edge \<Rightarrow> bool" where
  "not_excluded x =
     (case x of (s, t, e) \<Rightarrow>
      \<not> is_excluded_signal (pt_name (ie_source_port e))
      \<and> \<not> is_excluded_signal (pt_name (ie_target_port e)))"

section \<open>The search\<close>

definition port_is :: "direction \<Rightarrow> inst_vertex \<Rightarrow> bool" where
  "port_is dir v = (case iv_port v of None \<Rightarrow> False | Some p \<Rightarrow> pt_direction p = dir)"

definition candidates ::
  "(graph_edge \<Rightarrow> bool res) \<Rightarrow> nat list \<Rightarrow> graph_edge list \<Rightarrow> graph_edge list res"
where
  "candidates edge_filter visited es =
     bnd (filterM edge_filter es) (\<lambda>es. Inr (filter (\<lambda>(s, t, e). t \<notin> set visited) es))"

text \<open>
  The loops of \<open>get_path\<close>. The path is a deque with both ends used: the first loop works at its
  front, the second at its back. Both take the target of the edge they choose.
\<close>

fun search_backwards ::
  "nat \<Rightarrow> (graph_edge \<Rightarrow> bool res) \<Rightarrow> (graph_edge list \<Rightarrow> graph_edge option res) \<Rightarrow> string \<Rightarrow>
   inst_graph \<Rightarrow> nat \<Rightarrow> nat \<Rightarrow> nat list \<Rightarrow> nat list \<Rightarrow> (nat list \<times> nat list) res"
where
  "search_backwards 0 edge_filter edge_selector result_type g initial v path visited = Inl Diverges"
| "search_backwards (Suc k) edge_filter edge_selector result_type g initial v path visited =
     (if in_edges g v \<noteq> [] \<or> \<not> port_is Input (vertex_at g v) then
        bnd (candidates edge_filter visited (in_edges g v)) (\<lambda>es.
        if es = [] \<and> result_type = ''path'' then
          (if length path = 1 \<or> hd path = initial then Inr (path, visited)
           else search_backwards k edge_filter edge_selector result_type g initial
                  (hd (tl path)) (tl path) visited)
        else
          bnd (bnd (edge_selector es) (of_opt Undefined)) (\<lambda>(s, t, e).
          search_backwards k edge_filter edge_selector result_type g initial t (t # path) (t # visited)))
      else Inr (path, visited))"

fun search_forwards ::
  "nat \<Rightarrow> (graph_edge \<Rightarrow> bool res) \<Rightarrow> (graph_edge list \<Rightarrow> graph_edge option res) \<Rightarrow> string \<Rightarrow>
   inst_graph \<Rightarrow> nat \<Rightarrow> nat \<Rightarrow> nat list \<Rightarrow> nat list \<Rightarrow> (nat list \<times> nat list) res"
where
  "search_forwards 0 edge_filter edge_selector result_type g initial v path visited = Inl Diverges"
| "search_forwards (Suc k) edge_filter edge_selector result_type g initial v path visited =
     (if out_edges g v \<noteq> [] \<or> \<not> port_is Output (vertex_at g v) then
        bnd (candidates edge_filter visited (out_edges g v)) (\<lambda>es.
        if es = [] \<and> result_type = ''path'' then
          (if length path = 1 \<or> last path = initial then Inr (path, visited)
           else search_forwards k edge_filter edge_selector result_type g initial
                  (last (butlast path)) (butlast path) visited)
        else
          bnd (bnd (edge_selector es) (of_opt Undefined)) (\<lambda>(s, t, e).
          search_forwards k edge_filter edge_selector result_type g initial t (path @ [t]) (visited @ [t])))
      else Inr (path, visited))"

text \<open>Each step visits a vertex or drops one from the path, so twice the edges bound the steps.\<close>

definition search_fuel :: "inst_graph \<Rightarrow> nat" where
  "search_fuel g = 2 * length (ig_edges g) + 2"

definition get_path ::
  "(graph_edge \<Rightarrow> bool res) \<Rightarrow> (graph_edge list \<Rightarrow> graph_edge option res) \<Rightarrow> string \<Rightarrow> string \<Rightarrow>
   inst_graph \<Rightarrow> graph_edge \<Rightarrow> nat list res"
where
  "get_path edge_filter edge_selector search_direction result_type g initial_edge =
     (case initial_edge of (source, target, e) \<Rightarrow>
      bnd (if search_direction = ''backwards'' \<or> search_direction = ''both'' then
             search_backwards (search_fuel g) edge_filter edge_selector result_type g source source
               [source, target] [source, target]
           else Inr ([source, target], [source, target])) (\<lambda>(path, visited).
      bnd (if search_direction = ''forwards'' \<or> search_direction = ''both'' then
             search_forwards (search_fuel g) edge_filter edge_selector result_type g target target
               path visited
           else Inr (path, visited)) (\<lambda>(path, visited). Inr path)))"

text \<open>The start of each query: the filtered edges must not be empty, the initial one is selected.\<close>

definition path_query ::
  "(graph_edge \<Rightarrow> bool res) \<Rightarrow> (graph_edge list \<Rightarrow> graph_edge option res) \<Rightarrow> inst_graph \<Rightarrow> nat list res"
where
  "path_query edge_filter edge_selector g =
     bnd (filterM edge_filter (ig_edges g)) (\<lambda>es.
     chk (es \<noteq> []) Contract (
     bnd (edge_selector es) (\<lambda>initial.
     bnd (of_opt Contract initial) (\<lambda>initial_edge.
     get_path edge_filter edge_selector ''both'' ''path'' g initial_edge))))"

section \<open>Queries\<close>

definition fewer_values :: "signals \<Rightarrow> graph_edge \<Rightarrow> graph_edge \<Rightarrow> bool res" where
  "fewer_values sm x y =
     bnd (edge_signal_values sm x) (\<lambda>a. bnd (edge_signal_values sm y) (\<lambda>b. Inr (length a < length b)))"

definition least_toggled_path :: "signals \<Rightarrow> inst_graph \<Rightarrow> nat list res" where
  "least_toggled_path sm = path_query (\<lambda>x. Inr (not_excluded x)) (min_element (fewer_values sm))"

definition most_toggled_path :: "signals \<Rightarrow> inst_graph \<Rightarrow> nat list res" where
  "most_toggled_path sm = path_query (\<lambda>x. Inr (not_excluded x)) (max_element (fewer_values sm))"

definition count_tags_over_time :: "signals \<Rightarrow> graph_edge \<Rightarrow> nat res" where
  "count_tags_over_time sm x =
     bnd (edge_tag_values sm x) (\<lambda>files.
     foldM (\<lambda>(t, v) sum. bnd (get_value_vector v) (\<lambda>bs.
       Inr (sum + length (filter (\<lambda>b. b = BIT_1) bs)))) (concat files) 0)"

definition fewer_tags :: "signals \<Rightarrow> graph_edge \<Rightarrow> graph_edge \<Rightarrow> bool res" where
  "fewer_tags sm x y =
     bnd (count_tags_over_time sm x) (\<lambda>a. bnd (count_tags_over_time sm y) (\<lambda>b. Inr (a < b)))"

definition least_tagged_path :: "signals \<Rightarrow> inst_graph \<Rightarrow> nat list res" where
  "least_tagged_path sm = path_query (\<lambda>x. Inr (not_excluded x)) (min_element (fewer_tags sm))"

definition most_tagged_path :: "signals \<Rightarrow> inst_graph \<Rightarrow> nat list res" where
  "most_tagged_path sm = path_query (\<lambda>x. Inr (not_excluded x)) (max_element (fewer_tags sm))"

definition value_contains_x :: "signal_value \<Rightarrow> bool res" where
  "value_contains_x v =
     (case sv_type v of
        VECTOR \<Rightarrow> bnd (get_value_vector v) (\<lambda>bs. Inr (BIT_X \<in> set bs))
      | SCALAR \<Rightarrow> bnd (get_value_bit v) (\<lambda>b. Inr (b = BIT_X))
      | _ \<Rightarrow> Inr False)"

fun any_of :: "('a \<Rightarrow> bool res) \<Rightarrow> 'a list \<Rightarrow> bool res" where
  "any_of p [] = Inr False"
| "any_of p (x # xs) = bnd (p x) (\<lambda>b. if b then Inr True else any_of p xs)"

definition signal_contains_x_values :: "signals \<Rightarrow> graph_edge \<Rightarrow> bool res" where
  "signal_contains_x_values sm x =
     bnd (edge_signal_values sm x) (any_of (\<lambda>(t, v). value_contains_x v))"

definition signal_tags_contains_x_values :: "signals \<Rightarrow> graph_edge \<Rightarrow> bool res" where
  "signal_tags_contains_x_values sm x =
     bnd (edge_tag_values sm x) (\<lambda>files. any_of (\<lambda>(t, v). value_contains_x v) (concat files))"

definition has_reference :: "signals \<Rightarrow> graph_edge \<Rightarrow> bool res" where
  "has_reference sm x = bnd (edge_signal x) (\<lambda>i. bnd (sm_signal sm i) (\<lambda>s. Inr (si_reference s \<noteq> [])))"

definition x_tag_path :: "signals \<Rightarrow> inst_graph \<Rightarrow> nat list res" where
  "x_tag_path sm g =
     (let edge_selector = findM (signal_tags_contains_x_values sm)
      in bnd (filterM (has_reference sm) (ig_edges g)) (\<lambda>es.
         chk (es \<noteq> []) Contract (
         bnd (edge_selector es) (\<lambda>initial.
         (case initial of
            None \<Rightarrow> Inr []
          | Some x \<Rightarrow> get_path (has_reference sm) edge_selector ''both'' ''path'' g x)))))"

definition bitwise_signal_compare :: "signal_bit list \<Rightarrow> signal_bit list \<Rightarrow> bool" where
  "bitwise_signal_compare vec1 vec2 =
     (if length vec1 \<noteq> length vec2 then False
      else list_ex (\<lambda>b. b = BIT_1)
        (map (\<lambda>(a, b). if a = b \<and> a = BIT_1 \<and> b = BIT_1 then BIT_1 else BIT_0) (zip vec1 vec2)))"

text \<open>The first file and value of the initial edge at the time; the empty value if there is none.\<close>

definition injected_tag :: "signal_values list \<Rightarrow> int \<Rightarrow> nat \<times> signal_value" where
  "injected_tag files time =
     (case find (\<lambda>(i, t, v). t = time) (concat (map (\<lambda>(i, vs). map (Pair i) vs) (enumerate 0 files))) of
        Some (i, t, v) \<Rightarrow> (i, v)
      | None \<Rightarrow> (0, default_value))"

definition carries_tag :: "signals \<Rightarrow> nat \<times> signal_value \<Rightarrow> graph_edge \<Rightarrow> bool res" where
  "carries_tag sm tag x =
     bnd (edge_tag_values sm x) (\<lambda>files.
     bnd (at_index files (fst tag)) (any_of (\<lambda>(t, v).
       if sv_type v = VECTOR \<and> sv_type (snd tag) = VECTOR then
         bnd (get_value_vector v) (\<lambda>a. bnd (get_value_vector (snd tag)) (\<lambda>b.
         Inr (bitwise_signal_compare a b)))
       else Inr False)))"

definition tag_path_from_input :: "signals \<Rightarrow> string \<Rightarrow> int \<Rightarrow> inst_graph \<Rightarrow> nat list res" where
  "tag_path_from_input sm input_name tag_vcd_time g =
     (let edge_filter = (\<lambda>x. if not_excluded x then bnd (sm_is_empty sm) (\<lambda>b. Inr (\<not> b)) else Inr False)
      in bnd (filterM edge_filter (ig_edges g)) (\<lambda>es.
         chk (es \<noteq> []) Contract (
         bnd (of_opt (RuntimeError ''initial_edge not found'')
                (find (\<lambda>(s, t, e). pt_name (ie_source_port e) = input_name) es)) (\<lambda>initial_edge.
         bnd (edge_tag_values sm initial_edge) (\<lambda>files.
         let tag = injected_tag files tag_vcd_time
         in chk (sv_type (snd tag) \<noteq> EMPTY) (RuntimeError ''initial_edge is empty'') (
            get_path edge_filter (findM (carries_tag sm tag)) ''both'' ''path'' g initial_edge))))))"

section \<open>Common parts of paths\<close>

text \<open>
  The comparison of the elements with the part of a path from the first element on: the loop
  runs over the elements, and the path may be too short.
\<close>

fun matches_part :: "nat list \<Rightarrow> nat list \<Rightarrow> bool" where
  "matches_part [] rest = True"
| "matches_part (x # xs) [] = False"
| "matches_part (x # xs) (y # ys) = (x = y \<and> matches_part xs ys)"

text \<open>\<open>contains\<close> keeps its value from one path to the next.\<close>

definition count_element_occurrences :: "nat list list \<Rightarrow> nat list \<Rightarrow> 32 word res" where
  "count_element_occurrences paths elements =
     bnd (foldM (\<lambda>path (contains, result).
       if elements = [] then Inl OutOfRange
       else
         let contains' = (if hd elements \<in> set path \<and>
               \<not> matches_part elements (dropWhile (\<lambda>v. v \<noteq> hd elements) path) then False else contains)
         in Inr (contains', if contains' then result + 1 else result)) paths (True, 0))
       (\<lambda>(contains, result). Inr result)"

definition count_common_path_elements :: "nat list list \<Rightarrow> (nat list \<times> 32 word) list res" where
  "count_common_path_elements paths =
     foldM (\<lambda>path result.
       foldM (\<lambda>(i, n) result.
         let elements = take n (drop i path)
         in if list_ex (\<lambda>(es, c). es = elements) result then Inr result
            else bnd (count_element_occurrences paths elements) (\<lambda>c. Inr (result @ [(elements, c)])))
         (concat (map (\<lambda>i. map (Pair i) [1..<length path - i + 1]) [0..<length path])) result) paths []"

end
