(* ===== verification/PathFacts.thy ===== *)
theory PathFacts
  imports Paths
begin

text \<open>
  Facts about the paths through the flattened design: which path a search finds, that it always
  ends, and what the count of common parts counts.
\<close>

section \<open>The search\<close>

definition goal :: "inst_graph \<Rightarrow> nat \<Rightarrow> bool" where
  "goal g v \<longleftrightarrow> out_edges g v = [] \<and> port_is Output (vertex_at g v)"

text \<open>A step along an accepted edge that does not return to the source of the initial edge.\<close>

definition forward_step :: "(graph_edge \<Rightarrow> bool) \<Rightarrow> inst_graph \<Rightarrow> nat \<Rightarrow> (nat \<times> nat) set" where
  "forward_step ok g s = {(x, y). \<exists>e. (x, y, e) \<in> set (ig_edges g) \<and> ok (x, y, e) \<and> y \<noteq> s}"

text \<open>An edge is chosen whenever there is one to choose.\<close>

definition selects :: "(graph_edge list \<Rightarrow> graph_edge option res) \<Rightarrow> graph_edge set \<Rightarrow> bool" where
  "selects sel E \<longleftrightarrow> (\<forall>es. es \<noteq> [] \<longrightarrow> set es \<subseteq> E \<longrightarrow> (\<exists>e \<in> set es. sel es = Inr (Some e)))"

lemma filterM_total: "(\<And>x. x \<in> set xs \<Longrightarrow> p x = Inr (ok x)) \<Longrightarrow> filterM p xs = Inr (filter ok xs)"
  by (induction xs) auto

lemma in_edges_subset: "set (in_edges g v) \<subseteq> set (ig_edges g)" and out_edges_subset: "set (out_edges g v) \<subseteq> set (ig_edges g)"
  by (auto simp: in_edges_def out_edges_def)

lemma candidates_total:
  assumes "\<And>x. x \<in> set (ig_edges g) \<Longrightarrow> flt x = Inr (ok x)" "set es \<subseteq> set (ig_edges g)"
  shows "candidates flt visited es = Inr (filter (\<lambda>(s, t, e). t \<notin> set visited) (filter ok es))"
proof -
  have "filterM flt es = Inr (filter ok es)" by (rule filterM_total) (use assms in auto)
  then show ?thesis by (simp add: candidates_def)
qed

text \<open>The search towards the inputs takes the target of an edge into a visited vertex, so it stops at once.\<close>

lemma search_backwards_stops:
  assumes "\<And>x. x \<in> set (ig_edges g) \<Longrightarrow> flt x = Inr (ok x)"
  shows "search_backwards (Suc k) flt sel ''path'' g s s [s, t] [s, t] = Inr ([s, t], [s, t])"
proof -
  have "filter (\<lambda>(s', t', e). t' \<notin> set [s, t]) (filter ok (in_edges g s)) = []"
    by (auto simp: in_edges_def filter_empty_conv)
  moreover have "candidates flt [s, t] (in_edges g s) =
      Inr (filter (\<lambda>(s', t', e). t' \<notin> set [s, t]) (filter ok (in_edges g s)))"
    by (rule candidates_total [OF assms in_edges_subset])
  ultimately show ?thesis by simp
qed

text \<open>
  The invariant of the search towards the outputs: the path \<open>p\<close> from the target of the initial edge
  on, and the visited vertices that are not on it, which have no way on.
\<close>

definition search_inv ::
  "(graph_edge \<Rightarrow> bool) \<Rightarrow> inst_graph \<Rightarrow> nat \<Rightarrow> nat \<Rightarrow> nat list \<Rightarrow> nat list \<Rightarrow> bool"
where
  "search_inv ok g s t p visited \<longleftrightarrow>
     p \<noteq> [] \<and> hd p = t \<and> distinct p \<and> successively (\<lambda>x y. (x, y) \<in> forward_step ok g s) p
     \<and> insert s (set p) \<subseteq> set visited
     \<and> (\<forall>u \<in> set visited - set p - {s}. \<not> goal g u \<and> forward_step ok g s `` {u} \<subseteq> set visited)"

lemma successively_rtrancl: "successively (\<lambda>x y. (x, y) \<in> R) p \<Longrightarrow> p \<noteq> [] \<Longrightarrow> (hd p, last p) \<in> R\<^sup>*"
  by (induction p rule: induct_list012) (auto intro: converse_rtrancl_into_rtrancl)

lemma search_forwards_ok:
  assumes flt: "\<And>x. x \<in> set (ig_edges g) \<Longrightarrow> flt x = Inr (ok x)" and sel: "selects sel {x \<in> set (ig_edges g). ok x}"
  shows "search_inv ok g s t p visited \<Longrightarrow>
    2 * card (set (map (fst \<circ> snd) (ig_edges g)) - set visited) + length p \<le> k \<Longrightarrow>
    \<exists>p' visited'. search_forwards k flt sel ''path'' g t (last p) (s # p) visited = Inr (s # p', visited') \<and>
      search_inv ok g s t p' visited' \<and>
      (goal g (last p') \<or> p' = [t] \<and> \<not> goal g t \<and> forward_step ok g s `` {t} \<subseteq> set visited')"
proof (induction k arbitrary: p visited)
  case 0
  then show ?case by (simp add: search_inv_def)
next
  case (Suc k)
  let ?v = "last p"
  let ?T = "set (map (fst \<circ> snd) (ig_edges g))"
  let ?es = "filter (\<lambda>(s, t, e). t \<notin> set visited) (filter ok (out_edges g ?v))"
  note inv = Suc.prems(1) [unfolded search_inv_def]
  have p: "p \<noteq> []" "hd p = t" "distinct p" "successively (\<lambda>x y. (x, y) \<in> forward_step ok g s) p"
    "insert s (set p) \<subseteq> set visited" using inv by blast+
  have cand: "candidates flt visited (out_edges g ?v) = Inr ?es"
    by (rule candidates_total [OF flt out_edges_subset])
  show ?case
  proof (cases "goal g ?v")
    case True
    then have "search_forwards (Suc k) flt sel ''path'' g t ?v (s # p) visited = Inr (s # p, visited)"
      by (simp add: goal_def)
    then show ?thesis using True Suc.prems(1) by blast
  next
    case not_goal: False
    then have go: "out_edges g ?v \<noteq> [] \<or> \<not> port_is Output (vertex_at g ?v)" by (auto simp: goal_def)
    show ?thesis
    proof (cases "?es = []")
      case True
      have closed: "forward_step ok g s `` {?v} \<subseteq> set visited"
        using True p(5) by (auto simp: forward_step_def filter_empty_conv out_edges_def)
      show ?thesis
      proof (cases "?v = t")
        case True
        have "p = [t]"
        proof (cases p)
          case (Cons a q)
          then show ?thesis using p(2,3) True by (cases q rule: rev_cases) auto
        qed (use p(1) in simp)
        then have "search_forwards (Suc k) flt sel ''path'' g t ?v (s # p) visited = Inr (s # p, visited)"
          using go cand \<open>?es = []\<close> by simp
        then show ?thesis using Suc.prems(1) \<open>p = [t]\<close> not_goal closed by auto
      next
        case False
        define q where "q = butlast p"
        have p_eq: "p = q @ [?v]" using p(1) by (simp add: q_def)
        have q: "q \<noteq> []" using False p(2) p_eq by (metis append_Nil list.sel(1))
        have inv': "search_inv ok g s t q visited"
          unfolding search_inv_def
        proof (intro conjI ballI)
          show "hd q = t" "distinct q" "successively (\<lambda>x y. (x, y) \<in> forward_step ok g s) q"
            "insert s (set q) \<subseteq> set visited"
            using p(2-5) q p_eq by (metis hd_append2, metis distinct_append, metis successively_append_iff, metis Un_subset_iff insert_subset set_append)
          fix u assume u: "u \<in> set visited - set q - {s}"
          have "u = ?v \<or> u \<in> set visited - set p - {s}" using u by (subst p_eq) auto
          then have "\<not> goal g u \<and> forward_step ok g s `` {u} \<subseteq> set visited"
            using inv not_goal closed by blast
          then show "\<not> goal g u" "forward_step ok g s `` {u} \<subseteq> set visited" by blast+
        qed (rule q)
        have "length q \<le> length p - 1" by (simp add: q_def)
        then have "2 * card (?T - set visited) + length q \<le> k" using Suc.prems(2) p(1) by (cases p) auto
        from Suc.IH [OF inv' this] obtain p' visited' where IH:
          "search_forwards k flt sel ''path'' g t (last q) (s # q) visited = Inr (s # p', visited')"
          "search_inv ok g s t p' visited'"
          "goal g (last p') \<or> p' = [t] \<and> \<not> goal g t \<and> forward_step ok g s `` {t} \<subseteq> set visited'" by blast
        have "search_forwards (Suc k) flt sel ''path'' g t ?v (s # p) visited = Inr (s # p', visited')"
          using go cand \<open>?es = []\<close> p(1) False IH(1) q by (simp add: q_def)
        then show ?thesis using IH(2,3) by blast
      qed
    next
      case False
      have "set ?es \<subseteq> {x \<in> set (ig_edges g). ok x}" by (auto simp: out_edges_def)
      then have "\<exists>x \<in> set ?es. sel ?es = Inr (Some x)" using sel False unfolding selects_def by blast
      then obtain x where x: "x \<in> set ?es" "sel ?es = Inr (Some x)" by blast
      then obtain y e where y: "x = (?v, y, e)" "(?v, y, e) \<in> set (ig_edges g)" "ok (?v, y, e)" "y \<notin> set visited"
        by (auto simp: out_edges_def)
      have "y \<noteq> s" using y(4) p(5) by auto
      then have step: "(?v, y) \<in> forward_step ok g s" using y(2,3) by (auto simp: forward_step_def)
      have inv': "search_inv ok g s t (p @ [y]) (visited @ [y])"
        using inv y(4) step p unfolding search_inv_def by (auto simp: successively_append_iff)
      have "y \<in> ?T" using y(2) by (auto intro!: rev_image_eqI)
      then have "card (?T - set (visited @ [y])) < card (?T - set visited)"
        by (intro psubset_card_mono) (use y(4) in auto)
      then have "2 * card (?T - set (visited @ [y])) + length (p @ [y]) \<le> k" using Suc.prems(2) by simp
      from Suc.IH [OF inv' this] obtain p' visited' where IH:
        "search_forwards k flt sel ''path'' g t y (s # p @ [y]) (visited @ [y]) = Inr (s # p', visited')"
        "search_inv ok g s t p' visited'"
        "goal g (last p') \<or> p' = [t] \<and> \<not> goal g t \<and> forward_step ok g s `` {t} \<subseteq> set visited'" by auto
      have "search_forwards (Suc k) flt sel ''path'' g t ?v (s # p) visited = Inr (s # p', visited')"
        using go cand False x(2) y(1) IH(1) by simp
      then show ?thesis using IH(2,3) by blast
    qed
  qed
qed

text \<open>
  A search in both directions returns. Its path starts with the initial edge, it is never extended
  towards the inputs, visits no vertex twice and follows accepted edges. When some output can be
  reached from the target of the initial edge without returning to its source, the path ends at an
  output; otherwise it is the initial edge alone.
\<close>

lemma get_path_ok:
  assumes "\<forall>x \<in> set (ig_edges g). edge_filter x = Inr (ok x)" and "selects edge_selector {x \<in> set (ig_edges g). ok x}"
  shows "\<exists>p. get_path edge_filter edge_selector ''both'' ''path'' g (s, t, e) = Inr (s # p) \<and>
    hd p = t \<and> distinct p \<and> successively (\<lambda>x y. (x, y) \<in> forward_step ok g s) p \<and>
    (if \<exists>w. (t, w) \<in> (forward_step ok g s)\<^sup>* \<and> goal g w then goal g (last p) else p = [t])"
proof -
  let ?R = "forward_step ok g s"
  have flt: "x \<in> set (ig_edges g) \<Longrightarrow> edge_filter x = Inr (ok x)" for x using assms(1) by blast
  have inv: "search_inv ok g s t [t] [s, t]" by (auto simp: search_inv_def)
  have "card (set (map (fst \<circ> snd) (ig_edges g)) - set [s, t]) \<le> card (set (map (fst \<circ> snd) (ig_edges g)))"
    by (intro card_mono) auto
  also have "\<dots> \<le> length (ig_edges g)" using card_length [of "map (fst \<circ> snd) (ig_edges g)"] by simp
  finally have fuel: "2 * card (set (map (fst \<circ> snd) (ig_edges g)) - set [s, t]) + length [t] \<le> search_fuel g"
    by (simp add: search_fuel_def)
  from search_forwards_ok [OF flt assms(2) inv fuel] obtain p visited where p:
    "search_forwards (search_fuel g) edge_filter edge_selector ''path'' g t t [s, t] [s, t] = Inr (s # p, visited)"
    "search_inv ok g s t p visited"
    "goal g (last p) \<or> p = [t] \<and> \<not> goal g t \<and> ?R `` {t} \<subseteq> set visited" by auto
  have path: "get_path edge_filter edge_selector ''both'' ''path'' g (s, t, e) = Inr (s # p)"
    using search_backwards_stops [where g = g and flt = edge_filter and ok = ok, OF flt] p(1)
    by (simp add: get_path_def search_fuel_def del: search_forwards.simps search_backwards.simps)
  have reached: "goal g (last p)" if w: "(t, w) \<in> ?R\<^sup>*" "goal g w" for w
  proof (rule ccontr)
    assume no: "\<not> goal g (last p)"
    with p(3) have stuck: "p = [t]" "\<not> goal g t" "?R `` {t} \<subseteq> set visited" by auto
    have "w \<in> set visited \<and> (w = t \<or> w \<noteq> s)"
      using w(1)
    proof (induction rule: rtrancl_induct)
      case base
      then show ?case using p(2) stuck(1) by (auto simp: search_inv_def)
    next
      case (step y z)
      then have "?R `` {y} \<subseteq> set visited"
        using p(2) stuck(1,3) by (cases "y = t") (auto simp: search_inv_def)
      then show ?case using step.hyps(2) by (auto simp: forward_step_def)
    qed
    then show False using w(2) p(2) stuck by (cases "w = t") (auto simp: search_inv_def)
  qed
  moreover have "p = [t]" if "\<not> (\<exists>w. (t, w) \<in> ?R\<^sup>* \<and> goal g w)"
  proof -
    have "(hd p, last p) \<in> ?R\<^sup>*" using p(2) by (auto simp: search_inv_def intro: successively_rtrancl)
    then show ?thesis using that p(2,3) by (auto simp: search_inv_def)
  qed
  ultimately have "if \<exists>w. (t, w) \<in> ?R\<^sup>* \<and> goal g w then goal g (last p) else p = [t]"
    by (simp only: split: if_split) blast
  then show ?thesis using path p(2) unfolding search_inv_def by blast
qed


section \<open>The least and the greatest edge\<close>

lemma foldM_best:
  assumes "\<And>x y. x \<in> insert y0 (set xs) \<Longrightarrow> y \<in> insert y0 (set xs) \<Longrightarrow> better x y = Inr (f x < (f y :: nat))"
  shows "\<exists>m \<in> insert y0 (set xs). foldM (\<lambda>x best. bnd (better x best) (\<lambda>b. Inr (if b then x else best))) xs y0 = Inr m \<and>
    (\<forall>x \<in> insert y0 (set xs). f m \<le> f x)"
  using assms
proof (induction xs arbitrary: y0)
  case (Cons x xs)
  let ?y = "if f x < f y0 then x else y0"
  have "\<exists>m \<in> insert ?y (set xs). foldM (\<lambda>x best. bnd (better x best) (\<lambda>b. Inr (if b then x else best))) xs ?y = Inr m \<and>
    (\<forall>x \<in> insert ?y (set xs). f m \<le> f x)"
    by (rule Cons.IH) (use Cons.prems in auto)
  then show ?case using Cons.prems [of x y0] by (auto split: if_splits)
qed simp

lemma min_element_best:
  assumes "\<And>x y. x \<in> set xs \<Longrightarrow> y \<in> set xs \<Longrightarrow> better x y = Inr (f x < (f y :: nat))" "xs \<noteq> []"
  shows "\<exists>m \<in> set xs. min_element better xs = Inr (Some m) \<and> (\<forall>x \<in> set xs. f m \<le> f x)"
proof (cases xs)
  case (Cons y ys)
  have "\<exists>m \<in> insert y (set ys). foldM (\<lambda>x best. bnd (better x best) (\<lambda>b. Inr (if b then x else best))) ys y = Inr m \<and>
    (\<forall>x \<in> insert y (set ys). f m \<le> f x)"
    by (rule foldM_best) (use assms(1) in \<open>simp add: Cons\<close>)
  then show ?thesis by (auto simp: min_element_def Cons)
qed (use assms(2) in simp)

lemma max_element_best:
  assumes "\<And>x y. x \<in> set xs \<Longrightarrow> y \<in> set xs \<Longrightarrow> worse x y = Inr (f x < (f y :: nat))" "xs \<noteq> []"
  shows "\<exists>m \<in> set xs. max_element worse xs = Inr (Some m) \<and> (\<forall>x \<in> set xs. f x \<le> f m)"
proof -
  define F where "F x = Max (f ` set xs) - f x" for x
  have bound: "f x \<le> Max (f ` set xs)" if "x \<in> set xs" for x using that by simp
  have swap: "worse y x = Inr (F x < F y)" if "x \<in> set xs" "y \<in> set xs" for x y
    using assms(1) [OF that(2,1)] bound [OF that(1)] bound [OF that(2)] by (auto simp: F_def)
  have "max_element worse xs = min_element (\<lambda>x y. worse y x) xs"
    by (simp add: max_element_def min_element_def)
  then obtain m where "m \<in> set xs" "max_element worse xs = Inr (Some m)" "\<forall>x \<in> set xs. F m \<le> F x"
    using min_element_best [of xs "\<lambda>x y. worse y x" F] swap assms(2) by auto
  moreover have "f x \<le> f m" if "x \<in> set xs" "F m \<le> F x" for x
    using that(2) bound [OF that(1)] bound [OF \<open>m \<in> set xs\<close>] unfolding F_def by linarith
  ultimately show ?thesis by blast
qed

lemma path_query_ok:
  assumes cnt: "\<forall>x \<in> set (ig_edges g). ok x \<longrightarrow> cnt x = Inr (n x)" and "\<exists>x \<in> set (ig_edges g). ok x"
    and best: "\<And>es. es \<noteq> [] \<Longrightarrow> \<forall>x \<in> set es. cnt x = Inr (n x) \<Longrightarrow>
      \<exists>m \<in> set es. sel es = Inr (Some m) \<and> (\<forall>x \<in> set es. rel (n x) (n m))"
  shows "\<exists>s t e p. (s, t, e) \<in> set (ig_edges g) \<and> ok (s, t, e) \<and>
    (\<forall>x \<in> set (ig_edges g). ok x \<longrightarrow> rel (n x) (n (s, t, e))) \<and>
    path_query (\<lambda>x. Inr (ok x)) sel g = Inr (s # p) \<and> hd p = t \<and> distinct p \<and>
    successively (\<lambda>x y. (x, y) \<in> forward_step ok g s) p \<and>
    (if \<exists>w. (t, w) \<in> (forward_step ok g s)\<^sup>* \<and> goal g w then goal g (last p) else p = [t])"
proof -
  let ?es = "filter ok (ig_edges g)"
  have nonempty: "?es \<noteq> []" using assms(2) by (auto simp: filter_empty_conv)
  with best [of ?es] cnt obtain m where m: "m \<in> set ?es" "sel ?es = Inr (Some m)" "\<forall>x \<in> set ?es. rel (n x) (n m)"
    by auto
  obtain s t e where m_eq: "m = (s, t, e)" by (cases m)
  have "selects sel {x \<in> set (ig_edges g). ok x}"
    unfolding selects_def
  proof (intro allI impI)
    fix es :: "graph_edge list" assume es: "es \<noteq> []" "set es \<subseteq> {x \<in> set (ig_edges g). ok x}"
    then have "\<forall>x \<in> set es. cnt x = Inr (n x)" using cnt by blast
    with best [OF es(1)] show "\<exists>e \<in> set es. sel es = Inr (Some e)" by blast
  qed
  from get_path_ok [where edge_filter = "\<lambda>x. Inr (ok x)" and ok = ok, OF _ this, of s t e]
  obtain p where p: "get_path (\<lambda>x. Inr (ok x)) sel ''both'' ''path'' g (s, t, e) = Inr (s # p)" "hd p = t" "distinct p"
    "successively (\<lambda>x y. (x, y) \<in> forward_step ok g s) p"
    "if \<exists>w. (t, w) \<in> (forward_step ok g s)\<^sup>* \<and> goal g w then goal g (last p) else p = [t]" by blast
  have "filterM (\<lambda>x. Inr (ok x)) (ig_edges g) = Inr ?es" by (rule filterM_total) simp
  then have "path_query (\<lambda>x. Inr (ok x)) sel g = Inr (s # p)"
    using nonempty m(2) p(1) by (simp add: path_query_def m_eq)
  moreover have "(s, t, e) \<in> set (ig_edges g)" "ok (s, t, e)" using m(1) by (simp_all add: m_eq)
  moreover have "\<forall>x \<in> set (ig_edges g). ok x \<longrightarrow> rel (n x) (n (s, t, e))"
    using m(3) unfolding m_eq set_filter by blast
  ultimately show ?thesis using p(2-5) by blast
qed

text \<open>
  \<^bold>\<open>C10.\<close> The path with the most tags returns when the tags of the edges can be counted. It starts with an
  edge that has the most tags of all edges without a clock signal, it is never extended towards the
  inputs, visits no vertex twice, and ends at an output whenever one can be reached from its start
  without a clock signal and without returning.
\<close>

theorem most_tagged_path_correct:
  assumes "\<forall>x \<in> set (ig_edges g). not_excluded x \<longrightarrow> count_tags_over_time sm x = Inr (n x)"
    and "\<exists>x \<in> set (ig_edges g). not_excluded x"
  shows "\<exists>s t e p. (s, t, e) \<in> set (ig_edges g) \<and> not_excluded (s, t, e) \<and>
    (\<forall>x \<in> set (ig_edges g). not_excluded x \<longrightarrow> n x \<le> n (s, t, e)) \<and>
    most_tagged_path sm g = Inr (s # p) \<and> hd p = t \<and> distinct p \<and>
    successively (\<lambda>x y. (x, y) \<in> forward_step not_excluded g s) p \<and>
    (if \<exists>w. (t, w) \<in> (forward_step not_excluded g s)\<^sup>* \<and> goal g w then goal g (last p) else p = [t])"
  unfolding most_tagged_path_def
  by (rule path_query_ok [OF assms], rule max_element_best) (simp_all add: fewer_tags_def)

text \<open>The same for the path that toggles least, which starts with an edge with the fewest values.\<close>

theorem least_toggled_path_correct:
  assumes "\<forall>x \<in> set (ig_edges g). not_excluded x \<longrightarrow> edge_signal_values sm x = Inr (vs x)"
    and "\<exists>x \<in> set (ig_edges g). not_excluded x"
  shows "\<exists>s t e p. (s, t, e) \<in> set (ig_edges g) \<and> not_excluded (s, t, e) \<and>
    (\<forall>x \<in> set (ig_edges g). not_excluded x \<longrightarrow> length (vs (s, t, e)) \<le> length (vs x)) \<and>
    least_toggled_path sm g = Inr (s # p) \<and> hd p = t \<and> distinct p \<and>
    successively (\<lambda>x y. (x, y) \<in> forward_step not_excluded g s) p \<and>
    (if \<exists>w. (t, w) \<in> (forward_step not_excluded g s)\<^sup>* \<and> goal g w then goal g (last p) else p = [t])"
proof -
  let ?cnt = "\<lambda>x. bnd (edge_signal_values sm x) (\<lambda>v. Inr (length v))"
  have fewer: "fewer_values sm x y = bnd (?cnt x) (\<lambda>a. bnd (?cnt y) (\<lambda>b. Inr (a < b)))" for x y
    by (cases "edge_signal_values sm x"; cases "edge_signal_values sm y") (simp_all add: fewer_values_def)
  show ?thesis
    unfolding least_toggled_path_def
    by (rule path_query_ok [where rel = "\<lambda>a b. b \<le> a" and cnt = ?cnt and n = "\<lambda>x. length (vs x)"],
        use assms in simp, rule assms(2), rule min_element_best)
      (simp_all add: fewer)
qed

section \<open>Paths with common parts\<close>

text \<open>
  The count of a part stops at the first path that has the first element of the part and goes on
  differently: later paths are not counted, and a path without the first element is counted.
\<close>

theorem count_element_occurrences_prefix:
  "count_element_occurrences paths (x # xs) =
     Inr (of_nat (length (takeWhile
       (\<lambda>p. if x \<in> set p then matches_part (x # xs) (dropWhile (\<lambda>v. v \<noteq> x) p) else True) paths)))"
proof -
  let ?ok = "\<lambda>p. if x \<in> set p then matches_part (x # xs) (dropWhile (\<lambda>v. v \<noteq> x) p) else True"
  define f where "f = (\<lambda>path (contains, result :: 32 word).
       if x # xs = [] then Inl OutOfRange
       else
         let contains' = (if hd (x # xs) \<in> set path \<and>
               \<not> matches_part (x # xs) (dropWhile (\<lambda>v. v \<noteq> hd (x # xs)) path) then False else contains)
         in Inr (contains', if contains' then result + 1 else result) :: error + (bool \<times> 32 word))"
  have step: "f p (b, r) = Inr (b \<and> ?ok p, if b \<and> ?ok p then r + 1 else r)" for p b r
    by (auto simp: f_def)
  have no: "foldM f ps (False, r) = Inr (False, r)" for ps r
    by (induction ps) (simp_all add: step)
  have "\<exists>b. foldM f ps (True, r) = Inr (b, r + of_nat (length (takeWhile ?ok ps)))" for ps r
  proof (induction ps arbitrary: r)
    case (Cons p ps)
    show ?case using Cons.IH [of "r + 1"] no [of ps r]
      by (cases "?ok p") (auto simp: step algebra_simps)
  qed auto
  then obtain b where "foldM f paths (True, 0) = Inr (b, 0 + of_nat (length (takeWhile ?ok paths)))" by blast
  then show ?thesis unfolding count_element_occurrences_def f_def by simp
qed


section \<open>A small graph\<close>

definition sample_end :: "direction \<Rightarrow> port" where
  "sample_end dir = mk_port sample_hash ''p'' ''p'' dir [Bit 5] False"

definition sample_edge :: "nat \<Rightarrow> nat \<Rightarrow> string \<Rightarrow> graph_edge" where
  "sample_edge s t name = (s, t, (mk_edge (sample_end Output) (sample_end Input))
     \<lparr>ie_net := Some \<lparr>nr_module = 0, nr_index = 0, nr_net = mk_net sample_hash name False [Bit 5]\<rparr>\<rparr>)"

definition sample_paths :: inst_graph where
  "sample_paths =
     (let v = (\<lambda>p. \<lparr>iv_name = ''v'', iv_type = ''t'', iv_parent = ''m'', iv_hierarchy = [''m''],
        iv_cell = root_cell (new_module ''m''), iv_port = p\<rparr>)
      in \<lparr>ig_vertices = [v None, v None, v None, v (Some (sample_end Output))],
          ig_edges = [sample_edge 0 1 ''a'', sample_edge 1 2 ''b'', sample_edge 1 3 ''c'']\<rparr>)"

definition sample_signals :: signals where
  "sample_signals =
     \<lparr>sm_signal = \<lambda>_. Inl OutOfRange,
      sm_values = \<lambda>i. Inr (if id_name i = ''c'' then [] else [(0, scalar_value BIT_1)]),
      sm_value = \<lambda>_ _. Inl OutOfRange,
      sm_tags = \<lambda>i. Inr [[(0, vector_value (if id_name i = ''a'' then [BIT_1] else [BIT_0]))]],
      sm_is_empty = Inr False, sm_tag_count = \<lambda>_ _. Inr 0, sm_tag_count_between = \<lambda>_ _. Inr 0,
      sm_timestamps = Inr [], sm_signal_size = \<lambda>_. Inr 0,
      sm_is_tag_propagated = \<lambda>_ _ _ _. Inr None\<rparr>"

lemma Inr_projr: "\<not> isl r \<Longrightarrow> r = Inr (projr r)"
  by (cases r) simp_all

theorem most_tagged_path_correct_witness:
  "most_tagged_path sample_signals sample_paths = Inr [0, 1, 3] \<and>
   (\<exists>s t e p. (s, t, e) \<in> set (ig_edges sample_paths) \<and>
     most_tagged_path sample_signals sample_paths = Inr (s # p) \<and> hd p = t \<and> distinct p)"
proof -
  have "list_all (\<lambda>x. \<not> isl (count_tags_over_time sample_signals x)) (ig_edges sample_paths)"
    "list_ex not_excluded (ig_edges sample_paths)" by code_simp+
  then have "\<forall>x \<in> set (ig_edges sample_paths). not_excluded x \<longrightarrow>
      count_tags_over_time sample_signals x = Inr (projr (count_tags_over_time sample_signals x))"
    "\<exists>x \<in> set (ig_edges sample_paths). not_excluded x"
    by (auto simp: list_all_iff list_ex_iff intro: Inr_projr)
  note path = most_tagged_path_correct [OF this]
  have "most_tagged_path sample_signals sample_paths = Inr [0, 1, 3]" by code_simp
  with path show ?thesis by blast
qed

theorem least_toggled_path_correct_witness:
  "least_toggled_path sample_signals sample_paths = Inr [1, 3] \<and>
   (\<exists>s t e p. (s, t, e) \<in> set (ig_edges sample_paths) \<and>
     least_toggled_path sample_signals sample_paths = Inr (s # p) \<and> hd p = t \<and> distinct p)"
proof -
  have "list_all (\<lambda>x. \<not> isl (edge_signal_values sample_signals x)) (ig_edges sample_paths)"
    "list_ex not_excluded (ig_edges sample_paths)" by code_simp+
  then have "\<forall>x \<in> set (ig_edges sample_paths). not_excluded x \<longrightarrow>
      edge_signal_values sample_signals x = Inr (projr (edge_signal_values sample_signals x))"
    "\<exists>x \<in> set (ig_edges sample_paths). not_excluded x"
    by (auto simp: list_all_iff list_ex_iff intro: Inr_projr)
  note path = least_toggled_path_correct [OF this]
  have "least_toggled_path sample_signals sample_paths = Inr [1, 3]" by code_simp
  with path show ?thesis by blast
qed


section \<open>The search for unknown tags\<close>

lemma findM_total: "(\<And>x. x \<in> set xs \<Longrightarrow> p x = Inr (ok x)) \<Longrightarrow> findM p xs = Inr (find ok xs)"
  by (induction xs) auto

text \<open>
  The search for a path of unknown tags only works when it never has to stop: when the edge it
  starts with has a successor that was not visited, and no edge out of its target carries an unknown
  tag, it reads the position past the last edge.
\<close>

theorem x_tag_path_undefined:
  assumes "\<forall>x \<in> set (ig_edges g). has_reference sm x = Inr True"
    and "\<forall>x \<in> set (ig_edges g). signal_tags_contains_x_values sm x = Inr (has_x x)"
    and "find has_x (ig_edges g) = Some (s, t, e)"
    and "(t, w, e') \<in> set (ig_edges g)" and "w \<noteq> s" and "w \<noteq> t"
    and "\<forall>x \<in> set (out_edges g t). \<not> has_x x"
  shows "x_tag_path sm g = Inl Undefined"
proof -
  let ?sel = "findM (signal_tags_contains_x_values sm)"
  have flt: "x \<in> set (ig_edges g) \<Longrightarrow> has_reference sm x = Inr True" for x using assms(1) by blast
  have sel: "?sel es = Inr (find has_x es)" if "set es \<subseteq> set (ig_edges g)" for es
    by (rule findM_total) (use assms(2) that in blast)
  let ?es = "filter (\<lambda>(s', t', e). t' \<notin> set [s, t]) (filter (\<lambda>_. True) (out_edges g t))"
  have cand: "candidates (has_reference sm) [s, t] (out_edges g t) = Inr ?es"
    by (rule candidates_total [OF flt out_edges_subset])
  have es: "(t, w, e') \<in> set ?es" using assms(4-6) by (simp add: out_edges_def)
  have "?sel ?es = Inr (find has_x ?es)" by (rule sel) (auto simp: out_edges_def)
  also have "find has_x ?es = None" unfolding find_None_iff using assms(7) by auto
  finally have none: "?sel ?es = Inr None" .
  have go: "out_edges g t \<noteq> []" and nonempty: "?es \<noteq> []" using es by (auto simp: filter_empty_conv)
  have "search_forwards (search_fuel g) (has_reference sm) ?sel ''path'' g t t [s, t] [s, t] = Inl Undefined"
    using go cand none nonempty by (simp add: search_fuel_def)
  then have path: "get_path (has_reference sm) ?sel ''both'' ''path'' g (s, t, e) = Inl Undefined"
    using search_backwards_stops [where g = g and flt = "has_reference sm" and ok = "\<lambda>_. True", OF flt]
    by (simp add: get_path_def search_fuel_def del: search_forwards.simps search_backwards.simps)
  have "filterM (has_reference sm) (ig_edges g) = Inr (filter (\<lambda>_. True) (ig_edges g))"
    by (rule filterM_total [OF flt])
  moreover have "ig_edges g \<noteq> []" using assms(4) by auto
  ultimately show ?thesis using path sel [of "ig_edges g"] assms(3) by (simp add: x_tag_path_def)
qed

text \<open>An unknown tag that ends at a cell.\<close>

definition sample_unknown :: signals where
  "sample_unknown = sample_signals
     \<lparr>sm_signal := \<lambda>i. Inr \<lparr>si_reference = id_name i, si_size = 1, si_hash = id_name i\<rparr>,
      sm_tags := \<lambda>i. Inr [[(0, vector_value (if id_name i = ''a'' then [BIT_X] else [BIT_0]))]]\<rparr>"

theorem x_tag_path_undefined_witness: "x_tag_path sample_unknown sample_paths = Inl Undefined"
proof (rule x_tag_path_undefined)
  let ?x = "\<lambda>(s, t, e). t = 1"
  have "list_all (\<lambda>x. has_reference sample_unknown x = Inr True) (ig_edges sample_paths)"
    "list_all (\<lambda>x. signal_tags_contains_x_values sample_unknown x = Inr (?x x)) (ig_edges sample_paths)" by code_simp+
  then show "\<forall>x \<in> set (ig_edges sample_paths). has_reference sample_unknown x = Inr True"
    "\<forall>x \<in> set (ig_edges sample_paths). signal_tags_contains_x_values sample_unknown x = Inr (?x x)"
    by (simp_all add: list_all_iff)
  show "find ?x (ig_edges sample_paths) = Some (0, 1, snd (snd (sample_edge 0 1 ''a'')))"
    "(1, 3, snd (snd (sample_edge 1 3 ''c''))) \<in> set (ig_edges sample_paths)"
    "\<forall>x \<in> set (out_edges sample_paths 1). \<not> ?x x"
    by (simp_all add: sample_paths_def sample_edge_def out_edges_def Let_def)
qed simp_all

end
