(* ===== verification/InstanceSmt.thy ===== *)
theory InstanceSmt
  imports Instances SignalsData
begin

text \<open>
  The model of the flattened design for the solver (\<open>DesignInstance::export_smt2\<close> and the functions
  that build the expressions of the ports, \<open>src/ducode/instantiation_graph.cpp\<close>): one constant for
  each net of each time step, and the assertions of every vertex. The solver is the pair of its
  assertions on bit vectors and on arrays; the file that each step writes for inspection is left out.
\<close>

section \<open>Constants of the solver\<close>

record smt_state =
  ss_exprs :: "(bv + arr) list"
  ss_ids :: "(string \<times> nat) list"
  ss_solver :: solver
  ss_memory :: "mem_form list"

definition create_smt_signal_name :: "32 word \<Rightarrow> string list \<Rightarrow> string \<Rightarrow> int \<Rightarrow> string" where
  "create_smt_signal_name design_instance_id hierarchy name time =
     fmt ''|D{}_{}_{}_time_{}|'' [show_word design_instance_id, join ''_'' hierarchy, name, show_int time]"

text \<open>A constant without bits, or of a sort of arrays without bits, has no sort.\<close>

definition add_constant :: "string \<Rightarrow> (bv + arr) \<Rightarrow> smt_state \<Rightarrow> smt_state res" where
  "add_constant name c st =
     chk (case c of Inl b \<Rightarrow> 0 < bv_size b | Inr a \<Rightarrow> wf_arr a) Z3Exception (
     Inr (st\<lparr>ss_exprs := ss_exprs st @ [c],
             ss_ids := AList.update name (length (ss_exprs st)) (ss_ids st)\<rparr>))"

definition add_signal :: "string \<Rightarrow> nat \<Rightarrow> smt_state \<Rightarrow> smt_state res" where
  "add_signal name n st =
     (if map_of (ss_ids st) name \<noteq> None then Inr st
      else add_constant name (Inl (BVar name (n mod 2 ^ 32))) st)"

text \<open>An array where a bit vector is needed is rejected by the solver.\<close>

definition signal_expr :: "error \<Rightarrow> smt_state \<Rightarrow> string \<Rightarrow> bv res" where
  "signal_expr e st name =
     bnd (of_opt e (map_of (ss_ids st) name)) (\<lambda>i.
     bnd (of_opt Z3Exception (if i < length (ss_exprs st) then Some (ss_exprs st ! i) else None)) (\<lambda>c.
     case c of Inl b \<Rightarrow> Inr b | Inr a \<Rightarrow> Inl Z3Exception))"

abbreviation no_signal :: error where
  "no_signal \<equiv> RuntimeError ''no smt signal with that name found''"

definition net_of :: "inst_edge \<Rightarrow> net res" where
  "net_of e = bnd (of_opt Undefined (ie_net e)) (\<lambda>r. Inr (nr_net r))"

definition edge_signal_name :: "32 word \<Rightarrow> int \<Rightarrow> inst_edge \<Rightarrow> net \<Rightarrow> string" where
  "edge_signal_name d time e n =
     create_smt_signal_name d (ie_hierarchy e) (legalize_identifier (n_name n)) time"

section \<open>Expressions of ports\<close>

text \<open>The bits that are known so far, with their expressions: \<open>port_expr\<close> and \<open>bits_vector\<close>.\<close>

type_synonym known_bits = "(netbit \<times> bv) list"

definition constant_bits :: known_bits where
  "constant_bits = [(Bit 1, BVal 1 1), (Bit 0, BVal 0 1), (Bit (- 1), BVar ''x'' 1)]"

definition z_bit :: known_bits where
  "z_bit = [(Bit (- 2), BVar ''z'' 1)]"

text \<open>\<open>extract\<close> of a position past the width is rejected by the solver.\<close>

definition extract_bit :: "bv \<Rightarrow> nat \<Rightarrow> bv res" where
  "extract_bit t i = (if i < bv_size t then Inr (Uop (Extract i i) t) else Inl Z3Exception)"

definition add_net_bit ::
  "bv \<Rightarrow> netbit list \<Rightarrow> nat \<times> netbit \<Rightarrow> netbit set \<times> known_bits \<Rightarrow> (netbit set \<times> known_bits) res"
where
  "add_net_bit ev_edge port_bits = (\<lambda>(i, source_bit) st.
     if is_constant source_bit then Inr st
     else foldM (\<lambda>target_bit (bits, known).
       if \<not> is_constant target_bit \<and> source_bit = target_bit \<and> source_bit \<notin> bits then
         bnd (extract_bit ev_edge i) (\<lambda>x. Inr (insert source_bit bits, known @ [(source_bit, x)]))
       else Inr (bits, known)) port_bits st)"

definition get_port_expr ::
  "netbit list \<Rightarrow> bv \<Rightarrow> netbit list \<Rightarrow> netbit set \<times> known_bits \<Rightarrow> (netbit set \<times> known_bits) res"
where
  "get_port_expr net_bits ev_edge port_bits = foldM (add_net_bit ev_edge port_bits) (enumerate 0 net_bits)"

definition sort_expr_vector :: "known_bits \<Rightarrow> netbit list \<Rightarrow> bv list" where
  "sort_expr_vector known port_bits =
     concat (map (\<lambda>b. map snd (filter (\<lambda>(b', x). b' = b) known)) (rev port_bits))"

text \<open>The interface of the solver asserts that there is something to concatenate.\<close>

fun z3_concat :: "bv list \<Rightarrow> bv res" where
  "z3_concat [] = Inl Assertion"
| "z3_concat [x] = Inr x"
| "z3_concat (x # y # ys) = bnd (z3_concat (y # ys)) (\<lambda>t. Inr (Concat x t))"

definition insert_expr :: "string \<Rightarrow> bv \<Rightarrow> port_exprs \<Rightarrow> port_exprs" where
  "insert_expr k t pm = (if map_of pm k = None then pm @ [(k, t)] else pm)"

text \<open>
  The loop over the edges: an edge with the signature of the port ends it, the others add the bits
  they share with the port. \<open>must_share\<close> says which nets are compared.
\<close>

fun scan_edges ::
  "(net \<Rightarrow> bool) \<Rightarrow> smt_state \<Rightarrow> 32 word \<Rightarrow> int \<Rightarrow> 64 word \<Rightarrow> netbit set \<Rightarrow> netbit list \<Rightarrow> inst_edge list \<Rightarrow>
   netbit set \<times> known_bits \<Rightarrow> (bv option \<times> known_bits) res"
where
  "scan_edges compared st d time signature fast bits [] (seen, known) = Inr (None, known)"
| "scan_edges compared st d time signature fast bits (e # es) (seen, known) =
     bnd (net_of e) (\<lambda>n.
     let name = edge_signal_name d time e n in
     if n_bits_signature n = signature then
       bnd (signal_expr no_signal st name) (\<lambda>t. Inr (Some t, known))
     else if compared n then
       bnd (vectors_intersection (n_fast_search_bits n) fast) (\<lambda>b.
       if b then
         bnd (signal_expr no_signal st name) (\<lambda>t.
         bnd (get_port_expr (n_bits n) t bits (seen, known)) (\<lambda>s.
         scan_edges compared st d time signature fast bits es s))
       else scan_edges compared st d time signature fast bits es (seen, known))
     else scan_edges compared st d time signature fast bits es (seen, known))"

definition in_edge_infos :: "inst_graph \<Rightarrow> nat \<Rightarrow> inst_edge list" where
  "in_edge_infos g v = map (\<lambda>(s, t, e). e) (in_edges g v)"

definition out_edge_infos :: "inst_graph \<Rightarrow> nat \<Rightarrow> inst_edge list" where
  "out_edge_infos g v = map (\<lambda>(s, t, e). e) (out_edges g v)"

text \<open>
  An input port: the constants are known from the start, so the check that there are more than
  three expressions holds for cells always, and for ports of modules when a bit was added.
\<close>

definition input_expr ::
  "smt_state \<Rightarrow> 32 word \<Rightarrow> int \<Rightarrow> known_bits \<Rightarrow> inst_edge list \<Rightarrow> port \<Rightarrow> port_exprs \<Rightarrow> port_exprs res"
where
  "input_expr st d time constants es p pm =
     bnd (scan_edges (\<lambda>_. True) st d time (pt_bits_signature p) (pt_fast_search_bits p) (pt_bits p) es
            ({}, constants)) (\<lambda>(found, known).
     case found of
       Some t \<Rightarrow> Inr (insert_expr (pt_name p) t pm)
     | None \<Rightarrow>
         if 3 < length known then
           bnd (z3_concat (sort_expr_vector known (pt_bits p))) (\<lambda>t. Inr (insert_expr (pt_name p) t pm))
         else Inr pm)"

definition constant_expr :: "known_bits \<Rightarrow> port \<Rightarrow> port_exprs \<Rightarrow> port_exprs res" where
  "constant_expr constants p pm =
     bnd (z3_concat (sort_expr_vector constants (pt_bits p))) (\<lambda>t. Inr (insert_expr (pt_name p) t pm))"

text \<open>\<open>extra\<close> stands for the entries of the map that are arrays.\<close>

definition set_smt_signal_cell_predecessor_connections ::
  "smt_state \<Rightarrow> 32 word \<Rightarrow> int \<Rightarrow> inst_graph \<Rightarrow> nat \<Rightarrow> bool \<Rightarrow> port_exprs \<Rightarrow> port_exprs res"
where
  "set_smt_signal_cell_predecessor_connections st d unroll_factor g v extra pm =
     (let c = cell_base (iv_cell (vertex_at g v));
          time = (if c_register c \<and> 0 < unroll_factor then unroll_factor - 1 else unroll_factor)
      in bnd (foldM (\<lambda>p pm.
           if pt_direction p = Input then
             (if pt_contains_non_constant p then
                input_expr st d time (constant_bits @ z_bit) (in_edge_infos g v) p pm
              else if pt_bits p \<noteq> [] then constant_expr (constant_bits @ z_bit) p pm
              else Inr pm)
           else Inr pm) (c_ports c) pm) (\<lambda>pm.
         chk (pm \<noteq> [] \<or> extra) Contract (Inr pm)))"

definition set_smt_signal_module_port_predecessor_connections ::
  "smt_state \<Rightarrow> 32 word \<Rightarrow> int \<Rightarrow> inst_graph \<Rightarrow> nat \<Rightarrow> port_exprs \<Rightarrow> port_exprs res"
where
  "set_smt_signal_module_port_predecessor_connections st d unroll_factor g v pm =
     (let x = vertex_at g v; ports = c_ports (cell_base (iv_cell x))
      in bnd (deref_port x) (\<lambda>own.
         if ports = [] \<and> pt_direction own = Input then
           bnd (signal_expr Assertion st
                  (create_smt_signal_name d (iv_hierarchy x) (legalize_identifier (pt_name own)) unroll_factor)) (\<lambda>t.
           Inr (insert_expr (pt_name own) t pm))
         else
           (let p = (if pt_direction own = Output then own
                     else case find (\<lambda>q. pt_name own = pt_name q) ports of
                       Some q \<Rightarrow> q | None \<Rightarrow> default_port)
            in bnd (if pt_contains_non_constant p then
                      input_expr st d unroll_factor constant_bits (in_edge_infos g v) p pm
                    else constant_expr constant_bits p pm) (\<lambda>pm.
               chk (pm \<noteq> []) Contract (Inr pm)))))"

definition set_smt_signal_module_port_successor_connections ::
  "smt_state \<Rightarrow> 32 word \<Rightarrow> int \<Rightarrow> inst_graph \<Rightarrow> nat \<Rightarrow> port_exprs \<Rightarrow> port_exprs res"
where
  "set_smt_signal_module_port_successor_connections st d unroll_factor g v pm =
     (let x = vertex_at g v; ports = c_ports (cell_base (iv_cell x)); none = (0, {}, [])
      in bnd (deref_port x) (\<lambda>own.
         let key = fmt ''{}_successor'' [pt_name own]
         in bnd (if ports = [] \<and> pt_direction own = Output then
                bnd (signal_expr Assertion st
                       (create_smt_signal_name d (iv_hierarchy x) (legalize_identifier (pt_name own)) unroll_factor)) (\<lambda>t.
                Inr (none, insert_expr key t pm))
              else if pt_direction own = Input \<or> pt_direction own = Inout \<and> in_edges g v = [] then
                Inr ((pt_bits_signature own, pt_fast_search_bits own, pt_bits own), pm)
              else
                chk (ports \<noteq> []) Assertion (
                Inr (case find (\<lambda>q. pt_name own = pt_name q) ports of
                       Some q \<Rightarrow> (pt_bits_signature q, pt_fast_search_bits q, pt_bits q)
                     | None \<Rightarrow> none, pm))) (\<lambda>((signature, fast, bits), pm).
            if out_edges g v = [] then Inr pm
            else
              bnd (scan_edges (\<lambda>_. True) st d unroll_factor signature fast bits (out_edge_infos g v) ({}, [])) (\<lambda>(found, known).
              let pm1 = (case found of Some t \<Rightarrow> insert_expr key t pm | None \<Rightarrow> pm)
              in if known \<noteq> [] then
                   bnd (z3_concat (sort_expr_vector known bits)) (\<lambda>t. Inr (insert_expr key t pm1))
                 else Inr pm1))))"

definition set_smt_signal_cell_successor_connections ::
  "smt_state \<Rightarrow> 32 word \<Rightarrow> int \<Rightarrow> inst_graph \<Rightarrow> nat \<Rightarrow> bool \<Rightarrow> port_exprs \<Rightarrow> port_exprs res"
where
  "set_smt_signal_cell_successor_connections st d time g v dff_enable pm =
     foldM (\<lambda>p pm.
       if pt_direction p = Output then
         chk (out_edges g v \<noteq> []) Contract (
         let key = (if dff_enable then fmt ''{}_prev'' [pt_name p] else pt_name p)
         in bnd (scan_edges (\<lambda>n. n_contains_non_constant n \<and> pt_contains_non_constant p) st d time
                   (pt_bits_signature p) (pt_fast_search_bits p) (pt_bits p) (out_edge_infos g v) ({}, []))
              (\<lambda>(found, known).
            let pm1 = (case found of Some t \<Rightarrow> insert_expr key t pm | None \<Rightarrow> pm)
            in if known \<noteq> [] then
                 bnd (z3_concat (sort_expr_vector known (pt_bits p))) (\<lambda>t. Inr (insert_expr key t pm1))
               else Inr pm1))
       else Inr pm) (c_ports (cell_base (iv_cell (vertex_at g v)))) pm"

section \<open>Memories\<close>

text \<open>
  \<open>ceil(log2(size))\<close>; the doubles give this number for all sizes below \<open>2 ^ 48\<close>. A memory without
  words has no number of address bits.
\<close>

definition address_bits :: "nat \<Rightarrow> nat res" where
  "address_bits n = (if n = 0 then Inl Undefined else Inr (length (takeWhile (\<lambda>k. 2 ^ k < n) [0..<64])))"

fun init_parts :: "nat \<Rightarrow> nat \<Rightarrow> string \<Rightarrow> string list" where
  "init_parts 0 w s = []"
| "init_parts (Suc k) w s = (if s = [] then [] else take w s # init_parts k w (drop w s))"

definition init_value :: "nat \<Rightarrow> string \<Rightarrow> bv res" where
  "init_value w part =
     bnd (narrow_u32 (int w)) (\<lambda>_.
      if CHR ''x'' \<in> set part then Inr (BVar ''x'' w)
      else if CHR ''z'' \<in> set part then Inr (BVar ''z'' w)
      else bnd (stoull 2 part) (\<lambda>n. bnd (narrow_u32 (uint n)) (\<lambda>n. Inr (BVal (uint n) w))))"

definition init_memory :: "mem_v2 \<Rightarrow> nat \<Rightarrow> arr \<Rightarrow> mem_form list \<Rightarrow> mem_form list res" where
  "init_memory m bits a s =
     (let w = unat (mem_width m)
      in if w = 0 \<and> init m \<noteq> [] then Inl Diverges
      else
        bnd (mapM (init_value w) (init_parts (length (init m)) w (init m))) (\<lambda>values.
        foldM (\<lambda>(addr, v). mem_add (MEq a (AStore a (BVal (int addr) bits) v))) (enumerate 0 values) s))"

text \<open>The constants of a memory: its contents in this step and in the step before.\<close>

definition export_memory ::
  "mem_v2 \<Rightarrow> 32 word \<Rightarrow> int \<Rightarrow> string list \<Rightarrow> smt_state \<Rightarrow>
   (string \<times> string \<times> (string \<times> arr) list \<times> smt_state) res"
where
  "export_memory m d unroll_factor hierarchy st =
     chk (rd_ports m \<le> 1) (RuntimeError ''Memory cell has more than one read port'') (
     chk (wr_ports m \<le> 1) (RuntimeError ''Memory cell has more than one write port'') (
     bnd (address_bits (unat (mem_size m))) (\<lambda>bits.
     let w = unat (mem_width m) mod 2 ^ 32;
         name_at = create_smt_signal_name d hierarchy (legalize_identifier (c_name m));
         name = name_at unroll_factor
     in bnd (add_constant name (Inr (AVar name bits w)) st) (\<lambda>st.
        if 0 < unroll_factor then
          (let previous = name_at (unroll_factor - 1);
               known = map_of (ss_ids st) previous;
               st' = (case known of None \<Rightarrow> st\<lparr>ss_ids := (previous, 0) # ss_ids st\<rparr> | Some i \<Rightarrow> st)
           in bnd (of_opt Z3Exception (case known of None \<Rightarrow> Some (ss_exprs st ! 0)
                     | Some i \<Rightarrow> if i < length (ss_exprs st) then Some (ss_exprs st ! i) else None)) (\<lambda>c.
              case c of Inl b \<Rightarrow> Inl Z3Exception
              | Inr a \<Rightarrow> Inr (name, previous, [(name, AVar name bits w), (previous, a)], st')))
        else
          (let initial = name_at (2 ^ 32 - 1); a = AVar initial bits w
           in bnd (init_memory m bits a (ss_memory st)) (\<lambda>s.
              bnd (add_constant initial (Inr a) (st\<lparr>ss_memory := s\<rparr>)) (\<lambda>st.
              Inr (name, initial, [(name, AVar name bits w), (initial, a)], st))))))))"

section \<open>All vertices\<close>

text \<open>The set-reset cell and the print cell do not override the function that throws.\<close>

definition cell_export_smt2 ::
  "(bv \<Rightarrow> string) \<Rightarrow> string option \<Rightarrow> string option \<Rightarrow> string option \<Rightarrow> (string \<times> arr) list \<Rightarrow> anycell \<Rightarrow>
   port_exprs \<Rightarrow> smt_state \<Rightarrow> smt_state res"
where
  "cell_export_smt2 print port reg prev am c pm st =
     (let on_bits = (\<lambda>f. bnd (f (ss_solver st)) (\<lambda>s. Inr (st\<lparr>ss_solver := s\<rparr>)))
      in case c of
        Gate k c \<Rightarrow> on_bits (gate_export_smt2 k c pm)
      | Shift c \<Rightarrow> on_bits (shift_export_smt2 c pm)
      | Shiftx c \<Rightarrow> on_bits (shiftx_export_smt2 c pm)
      | Mux c \<Rightarrow> on_bits (mux_export_smt2 c pm)
      | PMux c \<Rightarrow> on_bits (pmux_export_smt2 c pm)
      | Dff c \<Rightarrow> on_bits (dff_export_smt2 c pm)
      | Adff c \<Rightarrow> on_bits (adff_export_smt2 c pm)
      | Sdff c \<Rightarrow> on_bits (sdff_export_smt2 c pm)
      | Aldff c \<Rightarrow> on_bits (aldff_export_smt2 c pm)
      | Dffsr c \<Rightarrow> on_bits (dffsr_export_smt2 c pm)
      | Dffe c \<Rightarrow> on_bits (dffe_export_smt2 c pm)
      | Adffe c \<Rightarrow> on_bits (adffe_export_smt2 c pm)
      | Sdffe c \<Rightarrow> on_bits (sdffe_export_smt2 c pm)
      | Aldffe c \<Rightarrow> on_bits (aldffe_export_smt2 c pm)
      | Dffsre c \<Rightarrow> on_bits (dffsre_export_smt2 c pm)
      | Dlatch c \<Rightarrow> on_bits (dlatch_export_smt2 c pm)
      | Adlatch c \<Rightarrow> on_bits (adlatch_export_smt2 c pm)
      | Dlatchsr c \<Rightarrow> on_bits (dlatchsr_export_smt2 c pm)
      | ModuleCell c \<Rightarrow> bnd (of_opt TypeError port) (\<lambda>p. on_bits (cell_module_export_smt2 print p c pm))
      | MemV2 m \<Rightarrow> bnd (mem_v2_export_smt2 reg prev pm am (ss_memory st)) (\<lambda>s. Inr (st\<lparr>ss_memory := s\<rparr>))
      | Sr _ \<Rightarrow> Inl (RuntimeError ''Not implemented'')
      | PrintCell _ \<Rightarrow> Inl (RuntimeError ''Not implemented''))"

definition dff_types_with_enable :: "string list" where
  "dff_types_with_enable = [''$adffe'', ''$aldffe'', ''$dffe'', ''$sdffe'', ''$dffsre'']"

text \<open>One constant for each net, and for each output that no edge leaves.\<close>

definition add_edge_signals ::
  "32 word \<Rightarrow> int \<Rightarrow> inst_graph \<Rightarrow> nat \<times> nat \<times> inst_edge \<Rightarrow> smt_state \<Rightarrow> smt_state res"
where
  "add_edge_signals d unroll_factor g x st =
     (case x of (s, t, e) \<Rightarrow>
      bnd (net_of e) (\<lambda>n.
      let name = edge_signal_name d unroll_factor e n
      in if map_of (ss_ids st) name \<noteq> None then Inr st
         else
           bnd (add_signal name (length (n_bits n)) st) (\<lambda>st.
           if in_edges g s \<noteq> [] \<and> out_edges g t = [] \<and> is_module_port (vertex_at g t) then
             bnd (deref_port (vertex_at g t)) (\<lambda>p.
             add_signal (create_smt_signal_name d (iv_hierarchy (vertex_at g t)) (legalize_identifier (pt_name p)) unroll_factor)
               (length (pt_bits p)) st)
           else Inr st)))"

definition port_signal ::
  "32 word \<Rightarrow> int \<Rightarrow> inst_vertex \<Rightarrow> port \<Rightarrow> smt_state \<Rightarrow> smt_state res"
where
  "port_signal d unroll_factor x p =
     add_signal (create_smt_signal_name d (iv_hierarchy x) (legalize_identifier (pt_name p)) unroll_factor)
       (length (pt_bits p))"

definition export_module_port ::
  "(bv \<Rightarrow> string) \<Rightarrow> 32 word \<Rightarrow> int \<Rightarrow> inst_graph \<Rightarrow> nat \<Rightarrow> smt_state \<Rightarrow> smt_state res"
where
  "export_module_port print d unroll_factor g v st =
     (let x = vertex_at g v
      in bnd (deref_port x) (\<lambda>p.
         if out_edges g v = [] \<and> pt_direction p = Input then Inr st
         else if in_edges g v = [] \<and> pt_direction p = Output then Inr st
         else if pt_direction p = Inout then Inl (RuntimeError ''Inout ports are not supported'')
         else
           bnd (if out_edges g v = [] then port_signal d unroll_factor x p st else Inr st) (\<lambda>st.
           bnd (if in_edges g v = [] then port_signal d unroll_factor x p st else Inr st) (\<lambda>st.
           bnd (set_smt_signal_module_port_successor_connections st d unroll_factor g v []) (\<lambda>pm.
           bnd (set_smt_signal_module_port_predecessor_connections st d unroll_factor g v pm) (\<lambda>pm.
           cell_export_smt2 print (Some (pt_name p)) None None [] (iv_cell x) pm st))))))"

definition export_cell ::
  "(bv \<Rightarrow> string) \<Rightarrow> 32 word \<Rightarrow> int \<Rightarrow> inst_graph \<Rightarrow> nat \<Rightarrow> string option \<Rightarrow> string option \<Rightarrow>
   (string \<times> arr) list \<Rightarrow> smt_state \<Rightarrow> smt_state res"
where
  "export_cell print d unroll_factor g v reg prev am st =
     bnd (set_smt_signal_cell_successor_connections st d unroll_factor g v False []) (\<lambda>pm.
     bnd (if c_type (cell_base (iv_cell (vertex_at g v))) \<in> set dff_types_with_enable \<and> 1 \<le> unroll_factor
          then set_smt_signal_cell_successor_connections st d (unroll_factor - 1) g v True pm
          else Inr pm) (\<lambda>pm.
     bnd (set_smt_signal_cell_predecessor_connections st d unroll_factor g v (am \<noteq> []) pm) (\<lambda>pm.
     cell_export_smt2 print None reg prev am (iv_cell (vertex_at g v)) pm st)))"

definition export_vertex ::
  "(bv \<Rightarrow> string) \<Rightarrow> 32 word \<Rightarrow> int \<Rightarrow> inst_graph \<Rightarrow> nat \<Rightarrow> smt_state \<Rightarrow> smt_state res"
where
  "export_vertex print d unroll_factor g v st =
     (let x = vertex_at g v
      in if c_register (cell_base (iv_cell x)) \<and> unroll_factor = 0 then Inr st
      else
        bnd (if iv_type x = ''$mem_v2'' then
               (case iv_cell x of
                  MemV2 m \<Rightarrow> bnd (export_memory m d unroll_factor (iv_hierarchy x) st) (\<lambda>(reg, prev, am, st).
                    Inr (Some reg, Some prev, am, st))
                | _ \<Rightarrow> Inl (RuntimeError ''Memory cell pointer is null''))
             else Inr (None, None, [], st)) (\<lambda>(reg, prev, am, st).
        if is_module_port x then export_module_port print d unroll_factor g v st
        else if out_edges g v = [] then Inr st
        else export_cell print d unroll_factor g v reg prev am st))"

definition instance_export_smt2 ::
  "(bv \<Rightarrow> string) \<Rightarrow> 32 word \<Rightarrow> int \<Rightarrow> inst_graph \<Rightarrow> smt_state \<Rightarrow> smt_state res"
where
  "instance_export_smt2 print d unroll_factor g st =
     bnd (foldM (add_edge_signals d unroll_factor g) (ig_edges g) st)
       (foldM (export_vertex print d unroll_factor g) [0..<nverts_of g])"

end
