(* ===== verification/InstanceSmtFacts.thy ===== *)
theory InstanceSmtFacts
  imports InstanceSmt
begin

text \<open>
  Facts on the model of the flattened design for the solver: which bits of the nets the expression
  of an input port consists of, and the initial words of a memory.
\<close>

section \<open>Concatenated bits\<close>

lemma bit_concat:
  "bv_range n (b::int) \<Longrightarrow> bit (a * 2 ^ n + b) k \<longleftrightarrow> (if k < n then bit b k else bit a (k - n))"
proof -
  assume "bv_range n b"
  then have "a * 2 ^ n + b = concat_bit n b a"
    by (simp add: concat_bit_eq take_bit_int_eq_self push_bit_eq_mult)
  then show ?thesis by (auto simp: bit_concat_bit_iff)
qed

lemma one_bit_1: "take_bit 1 (drop_bit i (a::int)) = 1 \<longleftrightarrow> bit a i"
proof -
  have "take_bit 1 (drop_bit i a) = a div 2 ^ i mod 2" by (simp add: take_bit_eq_mod drop_bit_eq_div)
  then show ?thesis by (simp only: bit_iff_odd odd_iff_mod_2_eq_one)
qed

lemma bit_of_bit: "(x::int) = 0 \<or> x = 1 \<Longrightarrow> bit x k \<longleftrightarrow> k = 0 \<and> x = 1"
  by (auto simp: bit_1_iff)

context smt_bv
begin

lemma ev_bit: "ws x \<Longrightarrow> bv_size x = 1 \<Longrightarrow> eval un bin prd m x = 0 \<or> eval un bin prd m x = 1"
  using ev_range [of x m] by auto

text \<open>The last of the expressions is the lowest bit.\<close>

lemma z3_concat_bits:
  "z3_concat xs = Inr t \<Longrightarrow> \<forall>x \<in> set xs. ws x \<and> bv_size x = 1 \<Longrightarrow>
    ws t \<and> bv_size t = length xs \<and>
    (\<forall>k < length xs. bit (eval un bin prd m t) k \<longleftrightarrow> eval un bin prd m (rev xs ! k) = 1)"
proof (induction xs arbitrary: t rule: z3_concat.induct)
  case (2 x)
  then show ?case using ev_bit [of x m] by (auto simp: bit_of_bit)
next
  case (3 x y ys)
  let ?n = "length (y # ys)"
  from 3(2) obtain u where u: "z3_concat (y # ys) = Inr u" "t = Concat x u" by (auto simp: bnd_eq_Inr)
  with 3 have IH: "ws u" "bv_size u = ?n"
    "\<And>k. k < ?n \<Longrightarrow> bit (eval un bin prd m u) k \<longleftrightarrow> eval un bin prd m (rev (y # ys) ! k) = 1" by auto
  have x: "eval un bin prd m x = 0 \<or> eval un bin prd m x = 1" using ev_bit [of x m] 3(3) by simp
  have bits: "bit (eval un bin prd m t) k \<longleftrightarrow>
      (if k < ?n then bit (eval un bin prd m u) k else bit (eval un bin prd m x) (k - ?n))" for k
    using bit_concat [where n = ?n and b = "eval un bin prd m u" and a = "eval un bin prd m x" and k = k] ev_range [OF IH(1), of m]
    by (simp only: u(2) eval.simps IH(2))
  have "bit (eval un bin prd m t) k \<longleftrightarrow> eval un bin prd m (rev (x # y # ys) ! k) = 1" if "k < Suc ?n" for k
  proof (cases "k < ?n")
    case True
    then have "rev (x # y # ys) ! k = rev (y # ys) ! k" by (simp add: nth_append)
    then show ?thesis using bits [of k] IH(3) [OF True] True by simp
  next
    case False
    then have "k = ?n" using that by simp
    then show ?thesis using bits [of k] bit_of_bit [OF x, of 0] by (simp add: nth_append)
  qed
  then show ?case using 3(3) IH(1,2) u(2) by simp
qed simp

end

lemma z3_concat_total: "xs \<noteq> [] \<Longrightarrow> \<exists>t. z3_concat xs = Inr t"
  by (induction xs rule: z3_concat.induct) auto

section \<open>Known bits\<close>

text \<open>When each bit has one expression, the sorted expressions are those of the known bits of the port.\<close>

lemma sort_expr_vector_eq:
  assumes "distinct (map fst known)"
  shows "sort_expr_vector known bs = map (\<lambda>b. the (map_of known b)) (rev (filter (\<lambda>b. b \<in> fst ` set known) bs))"
proof -
  have one: "map snd (filter (\<lambda>(b', x). b' = b) known) =
      (if b \<in> fst ` set known then [the (map_of known b)] else [])" for b
    using assms
  proof (induction known)
    case (Cons kx known)
    obtain k x where kx: "kx = (k, x)" by (cases kx)
    have "filter (\<lambda>(b', x). b' = k) known = []" using Cons.prems by (force simp: kx filter_empty_conv)
    then show ?case using Cons by (auto simp: kx)
  qed simp
  show ?thesis
    unfolding sort_expr_vector_def one by (induction bs) auto
qed

text \<open>What one net adds: for each of its bits that the port has and that was not seen, its extraction.\<close>

definition extracted :: "(netbit list \<times> bv) set \<Rightarrow> netbit \<times> bv \<Rightarrow> bool" where
  "extracted T bx \<longleftrightarrow> (\<exists>(nb, t) \<in> T. \<exists>i < length nb. nb ! i = fst bx \<and> snd bx = Uop (Extract i i) t)"

definition collected :: "(netbit list \<times> bv) set \<Rightarrow> netbit list \<Rightarrow> known_bits \<Rightarrow> netbit set \<times> known_bits \<Rightarrow> bool" where
  "collected T pb consts = (\<lambda>(seen, known). \<exists>new. known = consts @ new \<and> distinct (map fst new) \<and>
     fst ` set new = seen \<and> seen = {b \<in> set pb. \<not> is_constant b \<and> (\<exists>(nb, t) \<in> T. b \<in> set nb)} \<and>
     (\<forall>bx \<in> set new. extracted T bx))"

lemma add_net_bit_eq:
  assumes "i < bv_size t"
  shows "add_net_bit t pb (i, b) (seen, known) =
    Inr (if \<not> is_constant b \<and> b \<in> set pb \<and> b \<notin> seen
         then (insert b seen, known @ [(b, Uop (Extract i i) t)]) else (seen, known))"
proof (cases "is_constant b")
  case False
  let ?f = "\<lambda>target_bit (bits, known).
       if \<not> is_constant target_bit \<and> b = target_bit \<and> b \<notin> bits then
         bnd (extract_bit t i) (\<lambda>x. Inr (insert b bits, known @ [(b, x)]))
       else Inr (bits, known)"
  have "foldM ?f pb (seen, known) =
    Inr (if b \<in> set pb \<and> b \<notin> seen then (insert b seen, known @ [(b, Uop (Extract i i) t)]) else (seen, known))"
    using assms False by (induction pb arbitrary: seen known) (auto simp: extract_bit_def insert_absorb)
  then show ?thesis using False by (simp add: add_net_bit_def)
qed (simp add: add_net_bit_def)

text \<open>The bits of the net up to a position.\<close>

lemma add_net_bits_prefix:
  assumes "collected T pb consts (seen, known)" "bv_size t = length nb" "n \<le> length nb"
  shows "\<exists>seen' new. foldM (add_net_bit t pb) (take n (enumerate 0 nb)) (seen, known) = Inr (seen', consts @ new) \<and>
    distinct (map fst new) \<and> fst ` set new = seen' \<and>
    seen' = seen \<union> {b \<in> set pb. \<not> is_constant b \<and> b \<in> set (take n nb)} \<and>
    (\<forall>bx \<in> set new. extracted (insert (nb, t) T) bx)"
  using assms(3)
proof (induction n)
  case 0
  obtain new where "known = consts @ new" "distinct (map fst new)" "fst ` set new = seen"
    "\<forall>bx \<in> set new. extracted T bx" using assms(1) by (auto simp: collected_def)
  then show ?case by (auto simp: extracted_def)
next
  case (Suc n)
  let ?f = "add_net_bit t pb"
  let ?b = "nb ! n"
  let ?new = "(?b, Uop (Extract n n) t)"
  from Suc obtain seen' new where IH: "foldM ?f (take n (enumerate 0 nb)) (seen, known) = Inr (seen', consts @ new)"
    "distinct (map fst new)" "fst ` set new = seen'"
    "seen' = seen \<union> {b \<in> set pb. \<not> is_constant b \<and> b \<in> set (take n nb)}"
    "\<forall>bx \<in> set new. extracted (insert (nb, t) T) bx" by auto
  have n: "n < length nb" using Suc.prems by simp
  then have take: "take (Suc n) (enumerate 0 nb) = take n (enumerate 0 nb) @ [(n, ?b)]"
    by (simp add: take_Suc_conv_app_nth nth_enumerate_eq)
  have take_nb: "set (take (Suc n) nb) = insert ?b (set (take n nb))"
    using n by (simp add: take_Suc_conv_app_nth)
  have step: "foldM ?f (take (Suc n) (enumerate 0 nb)) (seen, known) = ?f (n, ?b) (seen', consts @ new)"
    unfolding take foldM_append IH(1) by (cases "?f (n, ?b) (seen', consts @ new)") simp_all
  note step = step [unfolded add_net_bit_eq [OF n [folded assms(2)]]]
  show ?case
  proof (cases "\<not> is_constant ?b \<and> ?b \<in> set pb \<and> ?b \<notin> seen'")
    case True
    have "extracted (insert (nb, t) T) ?new" using n by (auto simp: extracted_def)
    then have "\<forall>bx \<in> set (new @ [?new]). extracted (insert (nb, t) T) bx" using IH(5) by simp
    moreover have "insert ?b seen' = seen \<union> {b \<in> set pb. \<not> is_constant b \<and> b \<in> set (take (Suc n) nb)}"
      unfolding IH(4) take_nb using True by blast
    moreover have "distinct (map fst (new @ [?new]))" using IH(2,3) True by simp
    moreover have "fst ` set (new @ [?new]) = insert ?b seen'" using IH(3) by simp
    moreover have "foldM ?f (take (Suc n) (enumerate 0 nb)) (seen, known) = Inr (insert ?b seen', consts @ new @ [?new])"
      using step True by simp
    ultimately show ?thesis by (intro exI conjI)
  next
    case False
    then have "seen' = seen \<union> {b \<in> set pb. \<not> is_constant b \<and> b \<in> set (take (Suc n) nb)}"
      unfolding take_nb IH(4) by blast
    moreover have "foldM ?f (take (Suc n) (enumerate 0 nb)) (seen, known) = Inr (seen', consts @ new)"
      using step False by auto
    ultimately show ?thesis using IH(2,3,5) by (intro exI conjI)
  qed
qed

lemma get_port_expr_collects:
  assumes "collected T pb consts (seen, known)" "bv_size t = length nb"
  shows "\<exists>st. get_port_expr nb t pb (seen, known) = Inr st \<and> collected (insert (nb, t) T) pb consts st"
proof -
  obtain seen' new where *: "get_port_expr nb t pb (seen, known) = Inr (seen', consts @ new)"
    "distinct (map fst new)" "fst ` set new = seen'"
    "seen' = seen \<union> {b \<in> set pb. \<not> is_constant b \<and> b \<in> set nb}"
    "\<forall>bx \<in> set new. extracted (insert (nb, t) T) bx"
    using add_net_bits_prefix [OF assms order_refl] unfolding get_port_expr_def by auto
  have "seen = {b \<in> set pb. \<not> is_constant b \<and> (\<exists>(nb, t) \<in> T. b \<in> set nb)}"
    using assms(1) by (auto simp: collected_def)
  then have "seen' = {b \<in> set pb. \<not> is_constant b \<and> (\<exists>(nb, t) \<in> insert (nb, t) T. b \<in> set nb)}"
    using *(4) by auto
  then have "collected (insert (nb, t) T) pb consts (seen', consts @ new)"
    unfolding collected_def using *(2,3,5) by blast
  then show ?thesis using *(1) by blast
qed

text \<open>
  The edges whose nets are not the net of the port. \<open>carries\<close> says what is needed of an edge: its
  net is known to the solver with its width.
\<close>

definition carries :: "smt_state \<Rightarrow> 32 word \<Rightarrow> int \<Rightarrow> port \<Rightarrow> inst_edge \<Rightarrow> net \<Rightarrow> bv \<Rightarrow> bool" where
  "carries st d time p e n t \<longleftrightarrow>
     net_of e = Inr n \<and> n_bits_signature n \<noteq> pt_bits_signature p \<and> n_fast_search_bits n = fast_bits (n_bits n) \<and>
     n_fast_search_bits n \<noteq> {} \<and> signal_expr no_signal st (edge_signal_name d time e n) = Inr t \<and>
     ws t \<and> bv_size t = length (n_bits n)"

lemma scan_edges_collects:
  assumes "pt_fast_search_bits p = fast_bits (pt_bits p)" "pt_fast_search_bits p \<noteq> {}"
    and "\<forall>e \<in> set es. \<exists>n t. carries st d time p e n t"
    and "collected T (pt_bits p) consts s"
  shows "\<exists>seen known. scan_edges (\<lambda>_. True) st d time (pt_bits_signature p) (pt_fast_search_bits p) (pt_bits p) es s
      = Inr (None, known) \<and>
    collected (T \<union> {(n_bits n, t) | e n t. e \<in> set es \<and> carries st d time p e n t}) (pt_bits p) consts (seen, known)"
  using assms(3,4)
proof (induction es arbitrary: s T)
  case (Cons e es)
  obtain seen known where s: "s = (seen, known)" by (cases s)
  from Cons.prems(1) obtain n t where c: "carries st d time p e n t" by auto
  then have only: "carries st d time p e n' t' \<longleftrightarrow> n' = n \<and> t' = t" for n' t' by (auto simp: carries_def)
  let ?all = "\<lambda>T es. T \<union> {(n_bits n, t) | e n t. e \<in> set es \<and> carries st d time p e n t}"
  have all: "?all T (e # es) = ?all (insert (n_bits n, t) T) es"
    using c only by (auto; blast)
  define hit where "hit \<longleftrightarrow> (\<exists>b \<in> set (n_bits n) \<inter> set (pt_bits p). \<not> is_constant b)"
  have both: "fast_bits (n_bits n) \<inter> fast_bits (pt_bits p) \<noteq> {} \<longleftrightarrow> hit" unfolding hit_def by auto
  have "n_fast_search_bits n = fast_bits (n_bits n)" "fast_bits (n_bits n) \<noteq> {}" "fast_bits (pt_bits p) \<noteq> {}"
    using c assms(1,2) unfolding carries_def by (metis, metis, metis)
  then have hit: "vectors_intersection (n_fast_search_bits n) (pt_fast_search_bits p) = Inr hit"
    by (simp only: assms(1) vectors_intersection_def both) simp
  have "\<exists>s'. (if hit then get_port_expr (n_bits n) t (pt_bits p) s else Inr s) = Inr s' \<and>
      collected (insert (n_bits n, t) T) (pt_bits p) consts s'"
  proof (cases hit)
    case True
    then show ?thesis using get_port_expr_collects [of T "pt_bits p" "consts" seen known t "n_bits n"] Cons.prems(2) c
      by (auto simp: s carries_def)
  next
    case False
    then have "collected (insert (n_bits n, t) T) (pt_bits p) consts s"
      using Cons.prems(2) hit_def by (fastforce simp: collected_def s extracted_def)
    then show ?thesis using False by auto
  qed
  then obtain s' where s': "(if hit then get_port_expr (n_bits n) t (pt_bits p) s else Inr s) = Inr s'"
    "collected (insert (n_bits n, t) T) (pt_bits p) consts s'" by blast
  have "scan_edges (\<lambda>_. True) st d time (pt_bits_signature p) (pt_fast_search_bits p) (pt_bits p) (e # es) s =
      scan_edges (\<lambda>_. True) st d time (pt_bits_signature p) (pt_fast_search_bits p) (pt_bits p) es s'"
    using c s'(1) hit unfolding s carries_def
    by (cases s'; cases hit) (simp_all only: scan_edges.simps, simp_all)
  then show ?case using Cons.IH [OF _ s'(2)] Cons.prems(1) unfolding all by auto
qed (auto simp: collected_def)

section \<open>Input ports\<close>

definition carried :: "smt_state \<Rightarrow> 32 word \<Rightarrow> int \<Rightarrow> port \<Rightarrow> inst_edge list \<Rightarrow> netbit \<Rightarrow> bool" where
  "carried st d time p es b \<longleftrightarrow> \<not> is_constant b \<and>
     (\<exists>e \<in> set es. \<exists>n t. carries st d time p e n t \<and> b \<in> set (n_bits n))"

lemma constant_bits_facts:
  assumes "consts = constant_bits \<or> consts = constant_bits @ z_bit"
  shows "distinct (map fst consts)" "\<forall>bx \<in> set consts. is_constant (fst bx) \<and> ws (snd bx) \<and> bv_size (snd bx) = 1"
    "3 \<le> length consts"
proof -
  have "distinct (map fst (constant_bits @ z_bit))" "distinct (map fst constant_bits)" by code_simp+
  then show "distinct (map fst consts)" using assms by auto
  show "\<forall>bx \<in> set consts. is_constant (fst bx) \<and> ws (snd bx) \<and> bv_size (snd bx) = 1" "3 \<le> length consts"
    using assms by (auto simp: constant_bits_def z_bit_def is_constant_def const_bit_defs)
qed

text \<open>
  \<^bold>\<open>C8.\<close> The expression of an input port whose net is none of the nets of its edges: the solver knows it
  by the bits of the port that are constants or that some net carries, in their order. Each of them
  is the bit of that net at its position, or the constant. A bit that no net carries, and \<open>z\<close> at a
  port of a module, is left out, so the higher bits move down and the expression is narrower than
  the port.
\<close>

theorem input_expr_bits:
  assumes "smt_bv un bin prd"
    and "consts = constant_bits \<or> consts = constant_bits @ z_bit"
    and "pt_fast_search_bits p = fast_bits (pt_bits p)"
    and "\<forall>e \<in> set es. \<exists>n t. carries st d time p e n t"
    and "\<exists>b \<in> set (pt_bits p). carried st d time p es b"
    and "map_of pm (pt_name p) = None"
  shows "\<exists>x. input_expr st d time consts es p pm = Inr (pm @ [(pt_name p, x)]) \<and> ws x \<and>
    (let known = filter (\<lambda>b. b \<in> fst ` set consts \<or> carried st d time p es b) (pt_bits p)
     in bv_size x = length known \<and>
        (\<forall>k < length known.
          if known ! k \<in> fst ` set consts
          then bit (eval un bin prd m x) k \<longleftrightarrow> eval un bin prd m (the (map_of consts (known ! k))) = 1
          else \<exists>e \<in> set es. \<exists>n t i. carries st d time p e n t \<and> i < length (n_bits n) \<and>
            n_bits n ! i = known ! k \<and> (bit (eval un bin prd m x) k \<longleftrightarrow> bit (eval un bin prd m t) i)))"
proof -
  note smt = smt_bv.ev_range [OF assms(1)] smt_bv.un_extract [OF assms(1)]
  note cb = constant_bits_facts [OF assms(2)]
  let ?T = "{(n_bits n, t) | e n t. e \<in> set es \<and> carries st d time p e n t}"
  obtain b0 where b0: "b0 \<in> set (pt_bits p)" "carried st d time p es b0" using assms(5) by blast
  then have fast: "pt_fast_search_bits p \<noteq> {}" unfolding assms(3) by (auto simp: carried_def)
  have "collected {} (pt_bits p) consts ({}, consts)" by (simp add: collected_def)
  from scan_edges_collects [OF assms(3) fast assms(4) this]
  obtain seen all where scan: "scan_edges (\<lambda>_. True) st d time (pt_bits_signature p) (pt_fast_search_bits p) (pt_bits p) es ({}, consts)
      = Inr (None, all)" and "collected ?T (pt_bits p) consts (seen, all)" by auto
  then obtain new where all: "all = consts @ new" and new: "distinct (map fst new)" "\<forall>bx \<in> set new. extracted ?T bx"
    and keys: "fst ` set new = {b \<in> set (pt_bits p). \<not> is_constant b \<and> (\<exists>(nb, t) \<in> ?T. b \<in> set nb)}"
    by (auto simp: collected_def)
  have keys: "fst ` set new = {b \<in> set (pt_bits p). carried st d time p es b}"
    unfolding keys by (auto simp: carried_def)
  define known where "known = filter (\<lambda>b. b \<in> fst ` set consts \<or> carried st d time p es b) (pt_bits p)"
  have distinct: "distinct (map fst all)" using cb(1,2) new(1) keys by (auto simp: all carried_def)
  have known: "filter (\<lambda>b. b \<in> fst ` set all) (pt_bits p) = known"
    unfolding known_def by (rule filter_cong) (auto simp: all keys image_Un)
  have sorted: "sort_expr_vector all (pt_bits p) = map (\<lambda>b. the (map_of all b)) (rev known)"
    unfolding sort_expr_vector_eq [OF distinct] known ..
  have expr: "ws (the (map_of all b)) \<and> bv_size (the (map_of all b)) = 1 \<and>
      (if b \<in> fst ` set consts then map_of all b = map_of consts b else
        \<exists>e \<in> set es. \<exists>n t i. carries st d time p e n t \<and> i < length (n_bits n) \<and> n_bits n ! i = b \<and>
          map_of all b = Some (Uop (Extract i i) t))" if "b \<in> set known" for b
  proof (cases "b \<in> fst ` set consts")
    case True
    then obtain y where y: "(b, y) \<in> set consts" by auto
    then have "(b, y) \<in> set all" by (simp add: all)
    then have "map_of all b = Some y" "map_of consts b = Some y"
      using distinct y cb(1) by (simp_all only: map_of_eq_Some_iff)
    then show ?thesis using True cb(2) y by auto
  next
    case False
    then have "b \<in> fst ` set new" using that keys by (auto simp: known_def)
    then obtain y where y: "(b, y) \<in> set new" by auto
    then have "(b, y) \<in> set all" by (simp add: all)
    then have "map_of all b = Some y" using distinct by (simp only: map_of_eq_Some_iff)
    moreover from new(2) y have "extracted ?T (b, y)" by blast
    ultimately show ?thesis using False by (fastforce simp: extracted_def carries_def)
  qed
  have "known \<noteq> []" using b0 by (auto simp: known_def filter_empty_conv)
  then have "map (\<lambda>b. the (map_of all b)) (rev known) \<noteq> []" by simp
  from z3_concat_total [OF this] obtain x where x: "z3_concat (map (\<lambda>b. the (map_of all b)) (rev known)) = Inr x" by auto
  from smt_bv.z3_concat_bits [OF assms(1) x, of m] expr
  have x_bits: "ws x" "bv_size x = length known"
    "\<And>k. k < length known \<Longrightarrow> bit (eval un bin prd m x) k \<longleftrightarrow> eval un bin prd m (the (map_of all (known ! k))) = 1"
    by (auto simp: rev_map [symmetric])
  have "new \<noteq> []" using b0 keys by auto
  then have "3 < length all" using cb(3) by (cases new) (auto simp: all)
  then have "input_expr st d time consts es p pm = Inr (pm @ [(pt_name p, x)])"
    using scan x assms(6) by (simp add: input_expr_def sorted insert_expr_def)
  moreover have "if known ! k \<in> fst ` set consts
      then bit (eval un bin prd m x) k \<longleftrightarrow> eval un bin prd m (the (map_of consts (known ! k))) = 1
      else \<exists>e \<in> set es. \<exists>n t i. carries st d time p e n t \<and> i < length (n_bits n) \<and>
        n_bits n ! i = known ! k \<and> (bit (eval un bin prd m x) k \<longleftrightarrow> bit (eval un bin prd m t) i)" if k: "k < length known" for k
  proof (cases "known ! k \<in> fst ` set consts")
    case True
    then show ?thesis using x_bits(3) [OF k] expr [of "known ! k"] k by simp
  next
    case False
    then obtain e n t i where e: "e \<in> set es" "carries st d time p e n t" "i < length (n_bits n)" "n_bits n ! i = known ! k"
      "map_of all (known ! k) = Some (Uop (Extract i i) t)" using expr [of "known ! k"] k by auto
    then have "bit (eval un bin prd m x) k \<longleftrightarrow> eval un bin prd m (Uop (Extract i i) t) = 1" using x_bits(3) [OF k] by simp
    also have "\<dots> \<longleftrightarrow> bit (eval un bin prd m t) i"
    proof -
      have t: "ws t" "bv_size t = length (n_bits n)" using e(2) by (auto simp: carries_def)
      have i: "i < bv_size t" using t(2) e(3) by simp
      have "eval un bin prd m (Uop (Extract i i) t) = take_bit (i + 1 - i) (drop_bit i (eval un bin prd m t))"
        unfolding eval.simps by (rule smt(2) [OF smt(1) [OF t(1)] order_refl i])
      then show ?thesis using one_bit_1 [of i "eval un bin prd m t"] by (simp only: diff_add_inverse)
    qed
    finally show ?thesis using False e by auto
  qed
  ultimately show ?thesis using x_bits(1,2) unfolding known_def [symmetric] Let_def by blast
qed

definition sample_two_bits :: net where
  "sample_two_bits = mk_net (\<lambda>_. 1) ''n'' False [Bit 3, Bit 5]"

definition sample_net_edge :: inst_edge where
  "sample_net_edge =
     \<lparr>ie_name = ''n'', ie_parent = '''', ie_hierarchy = [], ie_source_port = default_port,
      ie_target_port = default_port,
      ie_net = Some \<lparr>nr_module = 0, nr_index = 0, nr_net = sample_two_bits\<rparr>\<rparr>"

text \<open>A port with the bits 5, 1, 7 and 3; no net carries bit 7.\<close>

definition sample_port :: port where
  "sample_port = mk_port (\<lambda>_. 9) ''A'' ''A'' Input [Bit 5, Bit 1, Bit 7, Bit 3] False"

definition sample_net_state :: smt_state where
  "sample_net_state =
     \<lparr>ss_exprs = [Inl (BVar ''n'' 2)], ss_ids = [(create_smt_signal_name 0 [] ''n'' 0, 0)],
      ss_solver = [], ss_memory = []\<rparr>"

lemma sample_carries:
  "carries sample_net_state 0 0 sample_port sample_net_edge n t \<longleftrightarrow> n = sample_two_bits \<and> t = BVar ''n'' 2"
proof -
  have "legalize_identifier ''n'' = ''n''" by code_simp
  then have "edge_signal_name 0 0 sample_net_edge sample_two_bits = create_smt_signal_name 0 [] ''n'' 0"
    by (simp add: edge_signal_name_def sample_net_edge_def sample_two_bits_def mk_net_def)
  then have "signal_expr no_signal sample_net_state (edge_signal_name 0 0 sample_net_edge sample_two_bits) = Inr (BVar ''n'' 2)"
    by (simp add: signal_expr_def sample_net_state_def)
  moreover have "net_of sample_net_edge = Inr sample_two_bits" by (simp add: net_of_def sample_net_edge_def)
  moreover have "n_bits_signature sample_two_bits = 1" "pt_bits_signature sample_port = 9"
    "n_bits sample_two_bits = [Bit 3, Bit 5]" "n_fast_search_bits sample_two_bits = fast_bits [Bit 3, Bit 5]"
    by (simp_all add: sample_two_bits_def sample_port_def mk_net_def mk_port_def)
  moreover have "fast_bits [Bit 3, Bit 5] \<noteq> {}" by code_simp
  moreover have "(1::64 word) \<noteq> 9" by simp
  moreover have "ws (BVar ''n'' 2)" "bv_size (BVar ''n'' 2) = length [Bit 3, Bit 5]" by simp_all
  ultimately show ?thesis unfolding carries_def by (metis sum.inject(2))
qed

lemma sample_facts:
  "pt_bits sample_port = [Bit 5, Bit 1, Bit 7, Bit 3]" "pt_name sample_port = ''A''"
  "pt_fast_search_bits sample_port = fast_bits [Bit 5, Bit 1, Bit 7, Bit 3]"
  by (simp_all add: sample_port_def mk_port_def)

theorem input_expr_bits_witness:
  "\<exists>x. input_expr sample_net_state 0 0 constant_bits [sample_net_edge] sample_port [] = Inr [(''A'', x)] \<and>
    bv_size x = 3 \<and> \<not> bit (eval std_un std_bin std_prd (\<lambda>_. 2) x) 2"
proof -
  have c: "carried sample_net_state 0 0 sample_port [sample_net_edge] b \<longleftrightarrow> b = Bit 3 \<or> b = Bit 5" for b
    by (auto simp: carried_def sample_carries sample_two_bits_def mk_net_def is_constant_def const_bit_defs)
  have "filter (\<lambda>b. b \<in> fst ` set constant_bits \<or> b = Bit 3 \<or> b = Bit 5) [Bit 5, Bit 1, Bit 7, Bit 3] = [Bit 5, Bit 1, Bit 3]"
    by (simp add: constant_bits_def)
  moreover have "\<forall>e \<in> set [sample_net_edge]. \<exists>n t. carries sample_net_state 0 0 sample_port e n t"
    "\<exists>b \<in> set (pt_bits sample_port). carried sample_net_state 0 0 sample_port [sample_net_edge] b"
    by (simp_all add: sample_carries c sample_facts)
  ultimately obtain x where x: "input_expr sample_net_state 0 0 constant_bits [sample_net_edge] sample_port [] = Inr [(''A'', x)]"
    "bv_size x = 3" and "\<forall>k < 3. if [Bit 5, Bit 1, Bit 3] ! k \<in> fst ` set constant_bits
      then bit (eval std_un std_bin std_prd (\<lambda>_. 2) x) k \<longleftrightarrow>
        eval std_un std_bin std_prd (\<lambda>_. 2) (the (map_of constant_bits ([Bit 5, Bit 1, Bit 3] ! k))) = 1
      else \<exists>e \<in> set [sample_net_edge]. \<exists>n t i. carries sample_net_state 0 0 sample_port e n t \<and> i < length (n_bits n) \<and>
        n_bits n ! i = [Bit 5, Bit 1, Bit 3] ! k \<and>
        (bit (eval std_un std_bin std_prd (\<lambda>_. 2) x) k \<longleftrightarrow> bit (eval std_un std_bin std_prd (\<lambda>_. 2) t) i)"
    using input_expr_bits [OF std.smt_bv_axioms, of constant_bits sample_port "[sample_net_edge]" sample_net_state 0 0 "[]" "\<lambda>_. 2"]
    by (auto simp: sample_facts c Let_def numeral_3_eq_3)
  from this(3) [rule_format, of 2] obtain i where "i < Suc (Suc 0)" "[Bit 3, Bit 5] ! i = Bit 3"
    "bit (eval std_un std_bin std_prd (\<lambda>_. 2) x) 2 \<longleftrightarrow> bit (2::int) i"
    by (auto simp: sample_carries constant_bits_def sample_two_bits_def mk_net_def take_bit_eq_mod)
  with x show ?thesis by (cases i) (auto simp: less_Suc_eq)
qed

section \<open>Initial words of memories\<close>

lemma init_parts_words:
  assumes "\<forall>s \<in> set wds. length s = w" "0 < w" "length wds \<le> k"
  shows "init_parts k w (concat wds) = wds"
  using assms(1,3)
proof (induction wds arbitrary: k)
  case Nil
  then show ?case by (cases k) auto
next
  case (Cons s wds)
  then obtain k' where "k = Suc k'" by (cases k) auto
  with Cons assms(2) show ?case by auto
qed

lemma init_value_word:
  assumes "set ds \<subseteq> {CHR ''0'', CHR ''1''}" "length ds = w" "0 < w" "w \<le> 32"
  shows "init_value w ds = Inr (BVal (int (digits_value 2 ds)) w)"
proof -
  have less: "digits_value 2 ds < 2 ^ 32"
    using binary_digits_less [OF assms(1)] assms(2,4) power_increasing [of w 32 "2::nat"] by simp
  have "stoull 2 ds = Inr (word_of_nat (digits_value 2 ds))"
    using assms less by (intro stoull_digits) auto
  moreover have "uint (word_of_nat (digits_value 2 ds) :: 64 word) = int (digits_value 2 ds)"
    using less by (simp add: unsigned_of_nat take_bit_nat_eq_self)
  moreover have "uint (word_of_int (int (digits_value 2 ds)) :: 32 word) = int (digits_value 2 ds)"
    using less by (simp add: unsigned_of_nat take_bit_nat_eq_self)
  moreover have "CHR ''x'' \<notin> set ds" "CHR ''z'' \<notin> set ds" using assms(1) by auto
  ultimately show ?thesis using assms(4) less by (simp add: init_value_def narrow_u32_def)
qed

lemma foldM_mem_adds:
  "\<forall>x \<in> set xs. wf_mem (f x) \<Longrightarrow> foldM (\<lambda>x. mem_add (f x)) xs s = Inr (s @ map f xs)"
  by (induction xs arbitrary: s) (auto simp: mem_add_def)

lemma foldM_map: "foldM f (map g xs) s = foldM (\<lambda>x. f (g x)) xs s"
  by (induction xs arbitrary: s) (simp_all cong: bnd_cong)

lemma concat_word:
  assumes "\<forall>s \<in> set wds. length s = w" "i < length wds"
  shows "take w (drop (i * w) (concat wds)) = wds ! i"
  using assms
proof (induction wds arbitrary: i)
  case (Cons s wds)
  then show ?case by (cases i) auto
qed simp

lemma length_words: "\<forall>s \<in> set wds. length s = w \<Longrightarrow> length (concat wds) = length wds * w"
  by (induction wds) auto

text \<open>The words as the exported Verilog reads them.\<close>

lemma word_from_end:
  assumes "init mem = concat wds" "unat (mem_width mem) = w" "unat (mem_size mem) = length wds"
    and "\<forall>s \<in> set wds. length s = w" "0 < w" "i < length wds" "length wds * w < 2 ^ 64"
  shows "substr (init mem) ((mem_size mem - word_of_nat i - 1) * mem_width mem) (mem_width mem) =
    Inr (wds ! (length wds - 1 - i))"
proof -
  note i = assms(6)
  have len: "length (concat wds) = length wds * w" by (rule length_words [OF assms(4)])
  have n: "mem_size mem = word_of_nat (length wds)" "mem_width mem = word_of_nat w"
    by (simp_all flip: assms(2,3))
  have "mem_size mem - word_of_nat i - 1 = word_of_nat (length wds - 1 - i)"
    using i unfolding n by (simp add: of_nat_diff)
  then have e: "(mem_size mem - word_of_nat i - 1) * mem_width mem = word_of_nat ((length wds - 1 - i) * w)"
    unfolding n by simp
  have le: "(length wds - 1 - i) * w \<le> length wds * w" by (intro mult_right_mono) auto
  then have "(length wds - 1 - i) * w < 2 ^ 64" using assms(7) by linarith
  then have u: "unat (word_of_nat ((length wds - 1 - i) * w) :: 64 word) = (length wds - 1 - i) * w"
    by (simp add: unsigned_of_nat take_bit_nat_eq_self del: of_nat_mult)
  have "take w (drop ((length wds - 1 - i) * w) (concat wds)) = wds ! (length wds - 1 - i)"
    using assms(4) i by (intro concat_word) auto
  then show ?thesis
    unfolding substr_def e assms(1) u len assms(2) using leD [OF le] by simp
qed

text \<open>The assignments of the exported Verilog, from the third line on.\<close>

lemma exported_words:
  assumes "mem_v2_export_verilog ps mem = Inr ls" "unat (mem_size mem) = n"
    and words: "\<forall>i < n. substr (init mem) ((mem_size mem - word_of_nat i - 1) * mem_width mem) (mem_width mem) = Inr (f i)"
  shows "take n (drop 2 ls) = map (\<lambda>i. fmt ''  {} [{}] = {}'b{};\<newline>''
      [memory_name (memid mem), show_nat i, show_word (mem_width mem), f i]) [0..<n]"
proof -
  let ?line = "\<lambda>i. fmt ''  {} [{}] = {}'b{};\<newline>'' [memory_name (memid mem), show_nat i, show_word (mem_width mem), f i]"
  have "unat (mem_size mem) < 2 ^ LENGTH(64)" by (rule unsigned_less)
  then have index: "unat (word_of_nat i :: 64 word) = i" if "i < n" for i
    using that assms(2) by (simp add: unsigned_of_nat take_bit_nat_eq_self)
  have "mapM (\<lambda>i. let i = word_of_nat i in
          bnd (substr (init mem) ((mem_size mem - i - 1) * mem_width mem) (mem_width mem)) (\<lambda>view.
          Inr (fmt ''  {} [{}] = {}'b{};\<newline>'' [memory_name (memid mem), show_word i, show_word (mem_width mem), view])))
        [0..<n] = Inr (map ?line [0..<n])"
    using words index by (intro mapM_total) simp
  then obtain rest where "ls = [fmt ''reg [{}:0] {} [{}:0];\<newline>''
        [show_word (mem_width mem - 1), memory_name (memid mem), show_word (mem_size mem - 1)], ''initial begin\<newline>'']
      @ map ?line [0..<n] @ rest"
    using assms(1,2) by (auto simp: mem_v2_export_verilog_def Let_def bnd_eq_Inr)
  then show ?thesis by simp
qed

text \<open>
  \<^bold>\<open>C9.\<close> The solver gives address \<open>a\<close> of a new memory the word \<open>a\<close> of its initial value, counted from the
  start of the text. The Verilog text that \<open>mem_v2_export_verilog\<close> writes assigns, from its third line
  on, to address \<open>i\<close> the word \<open>size - 1 - i\<close>, so it counts from the end. The two start with the same
  memory only when the text is symmetric.
\<close>

theorem memory_initial_words:
  assumes "smt_bv un bin prd"
    and "init mem = concat wds" "unat (mem_width mem) = w" "unat (mem_size mem) = length wds"
    and "\<forall>s \<in> set wds. length s = w \<and> set s \<subseteq> {CHR ''0'', CHR ''1''}"
    and "0 < w" "w \<le> 32" "0 < bits" "length wds \<le> 2 ^ bits" "length wds * w < 2 ^ 64"
    and "mem_v2_export_verilog ps mem = Inr ls"
  shows "(\<exists>fs. init_memory mem bits (AVar x bits w) s = Inr (s @ fs) \<and>
      ((\<forall>f \<in> set fs. holds_mem un bin prd m ma f) \<longleftrightarrow>
        (\<forall>a < length wds. ma x (int a) = int (digits_value 2 (wds ! a))))) \<and>
    take (length wds) (drop 2 ls) = map (\<lambda>i. fmt ''  {} [{}] = {}'b{};\<newline>''
      [memory_name (memid mem), show_nat i, show_nat w, wds ! (length wds - 1 - i)]) [0..<length wds]"
proof -
  let ?v = "\<lambda>a. digits_value 2 (wds ! a)"
  let ?f = "\<lambda>a. MEq (AVar x bits w) (AStore (AVar x bits w) (BVal (int a) bits) (BVal (int (?v a)) w))"
  have "length (concat wds) = length wds * w" using assms(5) by (intro length_words) simp
  then have "length wds \<le> length (concat wds)" using assms(6) by simp
  then have parts: "init_parts (length (init mem)) w (init mem) = wds"
    unfolding assms(2) using assms(5,6) by (intro init_parts_words) auto
  have "mapM (init_value w) wds = Inr (map (\<lambda>s. BVal (int (digits_value 2 s)) w) wds)"
    using assms(5-7) by (intro mapM_total) (auto simp: init_value_word)
  moreover have "enumerate 0 (map (\<lambda>s. BVal (int (digits_value 2 s)) w) wds) =
      map (\<lambda>a. (a, BVal (int (?v a)) w)) [0..<length wds]"
    by (rule nth_equalityI) (simp_all add: nth_enumerate_eq)
  moreover have "foldM (\<lambda>a. mem_add (?f a)) [0..<length wds] s = Inr (s @ map ?f [0..<length wds])"
    using assms(6,8) by (intro foldM_mem_adds) simp
  ultimately have run: "init_memory mem bits (AVar x bits w) s = Inr (s @ map ?f [0..<length wds])"
    using assms(3,6) by (simp add: init_memory_def parts foldM_map)
  have small: "?v a < 2 ^ w" if "a < length wds" for a
    using binary_digits_less [of "wds ! a"] assms(5) that by (metis nth_mem)
  have holds: "(\<forall>f \<in> set (map ?f [0..<length wds]). holds_mem un bin prd m ma f) \<longleftrightarrow>
      (\<forall>a < length wds. ma x (int a) = int (?v a))"
  proof -
    have "holds_mem un bin prd m ma (?f a) \<longleftrightarrow> ma x (int a) = int (?v a)" if a: "a < length wds" for a
    proof -
      have "int a < 2 ^ bits" "int (?v a) < 2 ^ w" using assms(9) a small [OF a] by (simp_all add: of_nat_less_numeral_power_cancel_iff)
      then have "take_bit bits (int a) = int a" "take_bit w (int (?v a)) = int (?v a)" by (simp_all add: take_bit_int_eq_self)
      then show ?thesis by (auto simp: fun_eq_iff)
    qed
    then show ?thesis unfolding set_map set_upt ball_simps(9) by (meson atLeastLessThan_iff le0)
  qed
  have "\<forall>i < length wds. substr (init mem) ((mem_size mem - word_of_nat i - 1) * mem_width mem) (mem_width mem) =
      Inr (wds ! (length wds - 1 - i))"
    using word_from_end [OF assms(2-4) _ assms(6)] assms(5,10) by simp
  from exported_words [OF assms(11,4) this] show ?thesis
    unfolding assms(3) using run holds by blast
qed

definition sample_words :: mem_v2 where
  "sample_words = cell.extend (sample_gate ''$mem_v2'' 0 0)
     (mem_v2.fields (\<lambda>_. Some default_port) 2 ''011011'' ''m'' 0 1 3 2 0)"

definition sample_ids :: params where
  "sample_ids = \<lparr>p_ift = None, p_tag_size = Some 1, p_is_register = None, p_idmap = (\<lambda>_. Some ''p'')\<rparr>"

theorem memory_initial_words_witness:
  "\<exists>fs ls. init_memory sample_words 2 (AVar ''m'' 2 2) [] = Inr fs \<and>
    (\<forall>f \<in> set fs. holds_mem std_un std_bin std_prd (\<lambda>_. 0) (\<lambda>_ a. a + 1) f) \<and>
    mem_v2_export_verilog sample_ids sample_words = Inr ls \<and>
    take 3 (drop 2 ls) = [''  m [0] = 2'b11;\<newline>'', ''  m [1] = 2'b10;\<newline>'', ''  m [2] = 2'b01;\<newline>'']"
proof -
  let ?w = "[''01'', ''10'', ''11'']"
  have v: "digits_value 2 ''01'' = 1" "digits_value 2 ''10'' = 2" "digits_value 2 ''11'' = 3"
    by (simp_all add: digits_value_def digit_val_def)
  have "\<exists>ls. mem_v2_export_verilog sample_ids sample_words = Inr ls"
    by (simp add: mem_v2_export_verilog_def sample_ids_def sample_words_def cell.defs mem_v2.defs substr_def read_port_text_def
      mem_ids_def address_wires_def Let_def upt_rec)
  then obtain ls where ls: "mem_v2_export_verilog sample_ids sample_words = Inr ls" ..
  have texts: "map (\<lambda>i. fmt ''  {} [{}] = {}'b{};\<newline>'' [memory_name ''m'', show_nat i, show_nat 2, ?w ! (length ?w - 1 - i)]) [0..<length ?w] =
      [''  m [0] = 2'b11;\<newline>'', ''  m [1] = 2'b10;\<newline>'', ''  m [2] = 2'b01;\<newline>'']" by code_simp
  have m: "init sample_words = concat ?w" "unat (mem_width sample_words) = 2" "unat (mem_size sample_words) = length ?w"
    "memid sample_words = ''m''"
    by (simp_all add: sample_words_def cell.defs mem_v2.defs)
  have "\<forall>s \<in> set ?w. length s = 2 \<and> set s \<subseteq> {CHR ''0'', CHR ''1''}" "(0::nat) < 2" "(2::nat) \<le> 32" "length ?w \<le> 2 ^ 2"
    "length ?w * 2 < 2 ^ 64" by simp_all
  note main = memory_initial_words [OF std.smt_bv_axioms m(1-3) this(1-3,2,4,5) ls, of "''m''" "[]" "\<lambda>_. 0" "\<lambda>_ a. a + 1"]
  have "\<forall>a < length ?w. int a + 1 = int (digits_value 2 (?w ! a))" by (simp add: v less_Suc_eq)
  then obtain fs where "init_memory sample_words 2 (AVar ''m'' 2 2) [] = Inr fs"
    "\<forall>f \<in> set fs. holds_mem std_un std_bin std_prd (\<lambda>_. 0) (\<lambda>_ a. a + 1) f"
    using conjunct1 [OF main] by (metis append_Nil)
  moreover have "take 3 (drop 2 ls) = [''  m [0] = 2'b11;\<newline>'', ''  m [1] = 2'b10;\<newline>'', ''  m [2] = 2'b01;\<newline>'']"
    using conjunct2 [OF main] unfolding m(4) texts by (simp add: numeral_3_eq_3)
  ultimately show ?thesis using ls by blast
qed

end
