(* ===== verification/AssertionsKept.thy ===== *)
theory AssertionsKept
  imports InstanceSmt
begin

text \<open>
  No operation that hands the flattened design to the solver drops an assertion: \<open>keeps p f\<close> says that
  the set \<open>p\<close> of assertions of a state only grows when \<open>f\<close> succeeds. The rules follow the shape of the
  definitions, so each operation is done by \<open>intro keeps_intros\<close>.
\<close>

named_theorems keeps_intros

definition keeps :: "('s \<Rightarrow> 'a set) \<Rightarrow> ('s \<Rightarrow> 's res) \<Rightarrow> bool" where
  "keeps p f \<longleftrightarrow> (\<forall>s s'. f s = Inr s' \<longrightarrow> p s \<subseteq> p s')"

lemma keeps_add [keeps_intros]: "keeps set (solver_add f)"
  by (auto simp: keeps_def solver_add_def split: if_splits)

lemma keeps_Inr [keeps_intros]: "keeps p Inr" "keeps p (\<lambda>s. Inr s)"
  by (simp_all add: keeps_def)

lemma keeps_Inl [keeps_intros]: "keeps p (\<lambda>s. Inl e)"
  by (simp add: keeps_def)

lemma keeps_bnd [keeps_intros]: "(\<And>x. keeps p (\<lambda>s. f x s)) \<Longrightarrow> keeps p (\<lambda>s. bnd m (\<lambda>x. f x s))"
  by (auto simp: keeps_def bnd_eq_Inr)

lemma keeps_bnd_state: "(\<And>x. keeps p (\<lambda>s. f x s)) \<Longrightarrow> keeps p (\<lambda>s. bnd (m s) (\<lambda>x. f x s))"
  by (auto simp: keeps_def bnd_eq_Inr)

lemma keeps_chk [keeps_intros]: "keeps p (\<lambda>s. f s) \<Longrightarrow> keeps p (\<lambda>s. chk c e (f s))"
  by (auto simp: keeps_def chk_eq_Inr)

lemma keeps_seq [keeps_intros]: "keeps p (\<lambda>s. f s) \<Longrightarrow> keeps p g \<Longrightarrow> keeps p (\<lambda>s. bnd (f s) g)"
  by (fastforce simp: keeps_def bnd_eq_Inr)

lemma keeps_if [keeps_intros]: "keeps p (\<lambda>s. f s) \<Longrightarrow> keeps p (\<lambda>s. g s) \<Longrightarrow> keeps p (\<lambda>s. if c s then f s else g s)"
  by (simp add: keeps_def)

lemma keeps_let [keeps_intros]: "keeps p (\<lambda>s. f x s) \<Longrightarrow> keeps p (\<lambda>s. let y = x in f y s)"
  by (simp add: keeps_def)

lemma keeps_foldM [keeps_intros]:
  assumes "\<And>x. keeps p (f x)"
  shows "keeps p (foldM f xs)"
proof (induction xs)
  case (Cons x xs)
  then show ?case using assms [of x] by (fastforce simp: keeps_def bnd_eq_Inr)
qed (simp add: keeps_def)

lemma keeps_foldM' [keeps_intros]: "(\<And>x. keeps p (f x)) \<Longrightarrow> keeps p (\<lambda>s. foldM f xs s)"
  by (rule keeps_foldM)

lemma keeps_option [keeps_intros]:
  "keeps p (\<lambda>s. f s) \<Longrightarrow> (\<And>x. keeps p (\<lambda>s. g x s)) \<Longrightarrow> keeps p (\<lambda>s. case y of None \<Rightarrow> f s | Some x \<Rightarrow> g x s)"
  by (cases y) simp_all

lemma keeps_ext: "keeps p (\<lambda>s. f s) \<Longrightarrow> keeps p f"
  by simp

lemma gate_keeps [keeps_intros]: "keeps set (gate_export_smt2 k c pm)"
  by (rule keeps_ext) (unfold gate_export_smt2_def, intro keeps_intros)

lemma shift_keeps [keeps_intros]: "keeps set (shift_export_smt2 c pm)"
  by (rule keeps_ext) (unfold shift_export_smt2_def, intro keeps_intros)

lemma shiftx_keeps [keeps_intros]: "keeps set (shiftx_export_smt2 c pm)"
  by (rule keeps_ext) (unfold shiftx_export_smt2_def, intro keeps_intros)

lemma mux_keeps [keeps_intros]: "keeps set (mux_export_smt2 c pm)"
  by (rule keeps_ext) (unfold mux_export_smt2_def, intro keeps_intros)

lemma pmux_keeps [keeps_intros]: "keeps set (pmux_export_smt2 c pm)"
  by (rule keeps_ext) (unfold pmux_export_smt2_def, intro keeps_intros)

lemma dff_keeps [keeps_intros]: "keeps set (dff_export_smt2 c pm)"
  by (rule keeps_ext) (unfold dff_export_smt2_def, intro keeps_intros)

lemma adff_keeps [keeps_intros]: "keeps set (adff_export_smt2 c pm)"
  by (rule keeps_ext) (unfold adff_export_smt2_def, intro keeps_intros)

lemma sdff_keeps [keeps_intros]: "keeps set (sdff_export_smt2 c pm)"
  by (rule keeps_ext) (unfold sdff_export_smt2_def, intro keeps_intros)

lemma aldff_keeps [keeps_intros]: "keeps set (aldff_export_smt2 c pm)"
  by (rule keeps_ext) (unfold aldff_export_smt2_def, intro keeps_intros)

lemma dffsr_keeps [keeps_intros]: "keeps set (dffsr_export_smt2 c pm)"
  by (rule keeps_ext) (unfold dffsr_export_smt2_def, intro keeps_intros)

lemma dffe_keeps [keeps_intros]: "keeps set (dffe_export_smt2 c pm)"
  by (rule keeps_ext) (unfold dffe_export_smt2_def, intro keeps_intros)

lemma adffe_keeps [keeps_intros]: "keeps set (adffe_export_smt2 c pm)"
  by (rule keeps_ext) (unfold adffe_export_smt2_def, intro keeps_intros)

lemma sdffe_keeps [keeps_intros]: "keeps set (sdffe_export_smt2 c pm)"
  by (rule keeps_ext) (unfold sdffe_export_smt2_def, intro keeps_intros)

lemma aldffe_keeps [keeps_intros]: "keeps set (aldffe_export_smt2 c pm)"
  by (rule keeps_ext) (unfold aldffe_export_smt2_def, intro keeps_intros)

lemma dffsre_keeps [keeps_intros]: "keeps set (dffsre_export_smt2 c pm)"
  by (rule keeps_ext) (unfold dffsre_export_smt2_def, intro keeps_intros)

lemma dlatch_keeps [keeps_intros]: "keeps set (dlatch_export_smt2 c pm)"
  by (rule keeps_ext) (unfold dlatch_export_smt2_def, intro keeps_intros)

lemma adlatch_keeps [keeps_intros]: "keeps set (adlatch_export_smt2 c pm)"
  by (rule keeps_ext) (unfold adlatch_export_smt2_def, intro keeps_intros)

lemma dlatchsr_keeps [keeps_intros]: "keeps set (dlatchsr_export_smt2 c pm)"
  by (rule keeps_ext) (unfold dlatchsr_export_smt2_def, intro keeps_intros)

lemma cell_module_keeps [keeps_intros]: "keeps set (cell_module_export_smt2 print port c pm)"
  by (rule keeps_ext) (unfold cell_module_export_smt2_def, intro keeps_intros)

lemma mem_add_keeps [keeps_intros]: "keeps set (mem_add f)"
  by (auto simp: keeps_def mem_add_def split: if_splits)

lemma mem_v2_keeps: "keeps set (mem_v2_export_smt2 reg prev pm am)"
  by (rule keeps_ext) (unfold mem_v2_export_smt2_def Let_def, intro keeps_intros)

lemma init_memory_keeps: "keeps set (init_memory m bits a)"
  by (rule keeps_ext) (unfold init_memory_def Let_def case_prod_unfold, intro keeps_intros)

text \<open>The assertions of a state, on bit vectors and on arrays.\<close>

definition asserted :: "smt_state \<Rightarrow> (form + mem_form) set" where
  "asserted st = Inl ` set (ss_solver st) \<union> Inr ` set (ss_memory st)"

lemma asserted_mono: "asserted st \<subseteq> asserted st' \<longleftrightarrow>
    set (ss_solver st) \<subseteq> set (ss_solver st') \<and> set (ss_memory st) \<subseteq> set (ss_memory st')"
  by (auto simp: asserted_def)

lemma on_bits_keeps [keeps_intros]:
  "keeps set f \<Longrightarrow> keeps asserted (\<lambda>st. bnd (f (ss_solver st)) (\<lambda>s. Inr (st\<lparr>ss_solver := s\<rparr>)))"
  by (fastforce simp: keeps_def bnd_eq_Inr asserted_mono)

lemma on_memory_keeps: "keeps set f \<Longrightarrow> keeps asserted (\<lambda>st. bnd (f (ss_memory st)) (\<lambda>s. Inr (st\<lparr>ss_memory := s\<rparr>)))"
  by (fastforce simp: keeps_def bnd_eq_Inr asserted_mono)

lemma cell_keeps [keeps_intros]: "keeps asserted (cell_export_smt2 print port reg prev am c pm)"
proof (rule keeps_ext, cases c)
  case (MemV2 m)
  then show "keeps asserted (\<lambda>s. cell_export_smt2 print port reg prev am c pm s)"
    using on_memory_keeps [OF mem_v2_keeps] by (simp add: cell_export_smt2_def Let_def)
qed (simp_all only: cell_export_smt2_def anycell.case Let_def, (intro keeps_intros)+)

lemma keeps_case_prod [keeps_intros]:
  "(\<And>a b. keeps p (\<lambda>s. f a b s)) \<Longrightarrow> keeps p (\<lambda>s. case x of (a, b) \<Rightarrow> f a b s)"
  by (cases x) simp

lemma add_constant_solver: "add_constant name c st = Inr st' \<Longrightarrow> ss_solver st' = ss_solver st \<and> ss_memory st' = ss_memory st"
  by (auto simp: add_constant_def chk_eq_Inr)

lemma add_constant_keeps [keeps_intros]: "keeps asserted (add_constant name c)"
  by (auto simp: keeps_def asserted_mono dest: add_constant_solver)

lemma add_signal_keeps [keeps_intros]: "keeps asserted (add_signal name n)"
  by (rule keeps_ext) (unfold add_signal_def, intro keeps_intros)

lemma add_edge_signals_keeps [keeps_intros]: "keeps asserted (add_edge_signals d t g x)"
  by (rule keeps_ext) (unfold add_edge_signals_def Let_def, intro keeps_intros)

lemma export_memory_keeps:
  "export_memory m d t h st = Inr (r, q, am, st') \<Longrightarrow> asserted st \<subseteq> asserted st'"
proof -
  define at where "at = create_smt_signal_name d h (legalize_identifier (c_name m))"
  assume "export_memory m d t h st = Inr (r, q, am, st')"
  then obtain bits st1 where st1: "add_constant (at t) (Inr (AVar (at t) bits (unat (mem_width m) mod 2 ^ 32))) st = Inr st1"
    and rest: "(if 0 < t then
        (let previous = at (t - 1); known = map_of (ss_ids st1) previous;
             st' = (case known of None \<Rightarrow> st1\<lparr>ss_ids := (previous, 0) # ss_ids st1\<rparr> | Some i \<Rightarrow> st1)
         in bnd (of_opt Z3Exception (case known of None \<Rightarrow> Some (ss_exprs st1 ! 0)
                   | Some i \<Rightarrow> if i < length (ss_exprs st1) then Some (ss_exprs st1 ! i) else None)) (\<lambda>c.
            case c of Inl b \<Rightarrow> Inl Z3Exception
            | Inr a \<Rightarrow> Inr (at t, previous, [(at t, AVar (at t) bits (unat (mem_width m) mod 2 ^ 32)), (previous, a)], st')))
      else
        (let initial = at (2 ^ 32 - 1); a = AVar initial bits (unat (mem_width m) mod 2 ^ 32)
         in bnd (init_memory m bits a (ss_memory st1)) (\<lambda>s.
            bnd (add_constant initial (Inr a) (st1\<lparr>ss_memory := s\<rparr>)) (\<lambda>st.
            Inr (at t, initial, [(at t, AVar (at t) bits (unat (mem_width m) mod 2 ^ 32)), (initial, a)], st)))))
      = Inr (r, q, am, st')"
    unfolding export_memory_def at_def [symmetric] Let_def by (auto simp: bnd_eq_Inr chk_eq_Inr)
  have "ss_solver st1 = ss_solver st \<and> ss_memory st1 = ss_memory st" by (rule add_constant_solver [OF st1])
  moreover have "ss_solver st' = ss_solver st1 \<and> set (ss_memory st1) \<subseteq> set (ss_memory st')"
    using rest by (cases "map_of (ss_ids st1) (at (t - 1))")
      (auto simp: bnd_eq_Inr Let_def dest!: add_constant_solver init_memory_keeps [unfolded keeps_def, rule_format]
        split: if_splits sum.splits option.splits)
  ultimately show ?thesis by (simp add: asserted_mono)
qed

lemma export_module_port_keeps [keeps_intros]: "keeps asserted (export_module_port print d t g v)"
  by (rule keeps_ext, unfold export_module_port_def port_signal_def Let_def) (intro keeps_intros | rule keeps_bnd_state)+

lemma export_cell_keeps [keeps_intros]: "keeps asserted (export_cell print d t g v reg prev am)"
  by (rule keeps_ext, unfold export_cell_def Let_def) (rule keeps_bnd_state | intro keeps_intros)+

lemma export_memory_case [keeps_intros]:
  assumes "\<And>r q am. keeps asserted (f r q am)"
  shows "keeps asserted (\<lambda>st. bnd (if b then case c of
        MemV2 m \<Rightarrow> bnd (export_memory m d t h st) (\<lambda>(reg, prev, am, st). Inr (Some reg, Some prev, am, st))
      | _ \<Rightarrow> Inl e else Inr (None, None, [], st)) (\<lambda>(reg, prev, am, st). f reg prev am st))"
  unfolding keeps_def
proof (intro allI impI)
  fix st st'
  assume "bnd (if b then case c of
        MemV2 m \<Rightarrow> bnd (export_memory m d t h st) (\<lambda>(reg, prev, am, st). Inr (Some reg, Some prev, am, st))
      | _ \<Rightarrow> Inl e else Inr (None, None, [], st)) (\<lambda>(reg, prev, am, st). f reg prev am st) = Inr st'"
  then obtain reg prev am st1 where "asserted st \<subseteq> asserted st1" "f reg prev am st1 = Inr st'"
    by (auto simp: bnd_eq_Inr split: if_splits anycell.splits dest: export_memory_keeps)
  then show "asserted st \<subseteq> asserted st'" using assms unfolding keeps_def by blast
qed

lemma export_vertex_keeps [keeps_intros]: "keeps asserted (export_vertex print d t g v)"
  by (rule keeps_ext) (unfold export_vertex_def Let_def, intro keeps_intros)

lemma instance_export_keeps [keeps_intros]: "keeps asserted (instance_export_smt2 print d t g)"
  by (rule keeps_ext) (unfold instance_export_smt2_def, intro keeps_intros)

end
