(* ===== verification/Queries.thy ===== *)
theory Queries
  imports Paths
begin

text \<open>
  The other queries of the flattened design (\<open>include/ducode/instantiation_graph.hpp\<close> and
  \<open>src/ducode/instantiation_graph.cpp\<close>): the clocks of its registers, the signals that hold its state,
  and the numbers of tags seen on its edges. No vertex has a null pointer as its cell.
\<close>

definition number_of_empty_edges :: "inst_graph \<Rightarrow> 32 word" where
  "number_of_empty_edges g = of_nat (length (filter (\<lambda>(s, t, e). ie_net e = None) (ig_edges g)))"

section \<open>Clocks\<close>

definition has_register :: "inst_graph \<Rightarrow> nat \<Rightarrow> bool" where
  "has_register g v = c_register (cell_base (iv_cell (vertex_at g v)))"

text \<open>The last port with the name of a clock; a register without one has the empty port.\<close>

definition clk_port :: "inst_graph \<Rightarrow> nat \<Rightarrow> port" where
  "clk_port g v =
     fold (\<lambda>p clk. if pt_name p = ''CLK'' then p else clk) (c_ports (cell_base (iv_cell (vertex_at g v))))
       default_port"

text \<open>The net of the first edge into the register that has the signature of the clock port.\<close>

definition clock_net :: "inst_graph \<Rightarrow> nat \<Rightarrow> net_ref option res" where
  "clock_net g v =
     bnd (findM (\<lambda>(s, t, e). bnd (of_opt Undefined (ie_net e)) (\<lambda>r.
            Inr (n_bits_signature (nr_net r) = pt_bits_signature (clk_port g v)))) (in_edges g v)) (\<lambda>x.
     Inr (case x of None \<Rightarrow> None | Some (s, t, e) \<Rightarrow> ie_net e))"

definition same_net :: "net_ref \<Rightarrow> net_ref \<Rightarrow> bool" where
  "same_net r r' = (nr_module r = nr_module r' \<and> nr_index r = nr_index r')"

fun clock_scan_instance :: "inst_graph \<Rightarrow> nat list \<Rightarrow> net_ref option \<Rightarrow> bool res" where
  "clock_scan_instance g [] clk = Inr True"
| "clock_scan_instance g (v # vs) clk =
     (if has_register g v then
        bnd (clock_net g v) (\<lambda>x.
        case x of
          None \<Rightarrow> clock_scan_instance g vs clk
        | Some r \<Rightarrow>
            (case clk of
               None \<Rightarrow> clock_scan_instance g vs (Some r)
             | Some c \<Rightarrow> if same_net c r then clock_scan_instance g vs clk else Inr False))
      else clock_scan_instance g vs clk)"

definition check_clock_signal :: "inst_graph \<Rightarrow> bool res" where
  "check_clock_signal g = clock_scan_instance g [0..<nverts_of g] None"

fun first_clock :: "inst_graph \<Rightarrow> nat list \<Rightarrow> string res" where
  "first_clock g [] = Inl (RuntimeError ''No clock signal found!'')"
| "first_clock g (v # vs) =
     (if has_register g v then
        bnd (clock_net g v) (\<lambda>x. case x of Some r \<Rightarrow> Inr (n_name (nr_net r)) | None \<Rightarrow> first_clock g vs)
      else first_clock g vs)"

definition get_clock_signal_from_dffs :: "inst_graph \<Rightarrow> string res" where
  "get_clock_signal_from_dffs g =
     bnd (check_clock_signal g) (\<lambda>b.
     chk b (RuntimeError ''Clock signal not the same across all flipflops! - Multiple clock signals detected!'') (
     first_clock g [0..<nverts_of g]))"

fun every :: "('a \<Rightarrow> bool res) \<Rightarrow> 'a list \<Rightarrow> bool res" where
  "every p [] = Inr True"
| "every p (x # xs) = bnd (p x) (\<lambda>b. if b then every p xs else Inr False)"

definition check_clock_edge :: "inst_graph \<Rightarrow> bool res" where
  "check_clock_edge g =
     every (\<lambda>v. if has_register g v then
                   bnd (string_param (c_parameters (cell_base (iv_cell (vertex_at g v)))) ''CLK_POLARITY'')
                     (\<lambda>clk_edge. Inr (clk_edge = ''1''))
                 else Inr True) [0..<nverts_of g]"

section \<open>State\<close>

text \<open>A register is known by the net of the first edge out of it.\<close>

definition get_all_flipflop_ids :: "inst_graph \<Rightarrow> signal_id list res" where
  "get_all_flipflop_ids g =
     mapM (\<lambda>v. case out_edges g v of
             [] \<Rightarrow> Inl (RuntimeError ''Unexpected number of output edges.(0)'')
           | x # xs \<Rightarrow> edge_signal x) (filter (has_register g) [0..<nverts_of g])"

section \<open>Numbers of tags\<close>

text \<open>\<open>tag_count\<close> counts the ones in the values of a tag over all files.\<close>

definition count_output_tags :: "signals \<Rightarrow> design \<Rightarrow> inst_graph \<Rightarrow> (string \<times> 32 word) list res" where
  "count_output_tags sm d g =
     bnd (get_module d (d_top d)) (\<lambda>(m, _).
     let top_module_outputs = get_output_names m;
         outputs = filter (\<lambda>v. case iv_port (vertex_at g v) of None \<Rightarrow> False
           | Some p \<Rightarrow> pt_direction p = Output \<and> pt_name p \<in> set top_module_outputs
               \<and> length (iv_hierarchy (vertex_at g v)) = 1) [0..<nverts_of g]
     in chk (outputs \<noteq> []) Assertion (
        bnd (mapM (\<lambda>v. case in_edges g v of
               [] \<Rightarrow> Inr []
             | x # xs \<Rightarrow> bnd (count_tags_over_time sm x) (\<lambda>n. Inr [(iv_name (vertex_at g v), of_nat n)])) outputs)
          (\<lambda>counts. Inr (concat counts))))"

text \<open>The first edge whose net has the name.\<close>

definition edge_named :: "inst_graph \<Rightarrow> string \<Rightarrow> graph_edge option" where
  "edge_named g name =
     find (\<lambda>(s, t, e). case ie_net e of None \<Rightarrow> False | Some r \<Rightarrow> n_name (nr_net r) = name) (ig_edges g)"

definition edge_tag_count :: "signals \<Rightarrow> graph_edge \<Rightarrow> 32 word res" where
  "edge_tag_count sm x =
     bnd (edge_signal x) (\<lambda>i. sm_tag_count sm (fmt ''{}_t'' [id_name i]) (id_hierarchy i))"

definition tag_cnt_single_edge :: "signals \<Rightarrow> inst_graph \<Rightarrow> string \<Rightarrow> 32 word res" where
  "tag_cnt_single_edge sm g edge_name =
     (case edge_named g edge_name of None \<Rightarrow> Inr 0 | Some x \<Rightarrow> edge_tag_count sm x)"

definition tag_cnt_multiple_edges :: "signals \<Rightarrow> inst_graph \<Rightarrow> string list \<Rightarrow> 32 word res" where
  "tag_cnt_multiple_edges sm g edge_names =
     foldM (\<lambda>edge_name tag_cnt. case edge_named g edge_name of None \<Rightarrow> Inr tag_cnt
                                | Some x \<Rightarrow> edge_tag_count sm x) edge_names 0"

text \<open>A name without an edge stands for the first edge of the design.\<close>

definition unique_tag_cnt_from_input_to_single_output ::
  "signals \<Rightarrow> inst_graph \<Rightarrow> string \<Rightarrow> string \<Rightarrow> 32 word res"
where
  "unique_tag_cnt_from_input_to_single_output sm g input_name output_name =
     (let edge_or_first = (\<lambda>name. case edge_named g name of Some x \<Rightarrow> Inr x | None \<Rightarrow> at_index (ig_edges g) 0)
      in bnd (edge_or_first input_name) (\<lambda>x. bnd (edge_or_first output_name) (\<lambda>y.
         bnd (edge_signal x) (\<lambda>source_signal. bnd (edge_signal y) (\<lambda>target_signal.
         sm_tag_count_between sm source_signal target_signal)))))"

text \<open>\<open>None\<close> as the manager stands for the null pointer.\<close>

definition if_signal_to_signal ::
  "signals option \<Rightarrow> signal_id \<Rightarrow> int \<Rightarrow> signal_id \<Rightarrow> int \<Rightarrow> bool option res"
where
  "if_signal_to_signal sm input_signal input_time target_signal target_time =
     (if input_signal = target_signal then Inr (Some True)
      else bnd (of_opt (RuntimeError ''Signal tag map is not initialized'') sm) (\<lambda>sm.
        sm_is_tag_propagated sm input_signal input_time target_signal target_time))"

section \<open>Facts\<close>

text \<open>
  The check succeeds exactly when all registers with a clock net have the net of the first of them,
  and then the name that is found is the name of that net.
\<close>

definition clock_net_list :: "inst_graph \<Rightarrow> (nat \<Rightarrow> net_ref option) \<Rightarrow> nat list \<Rightarrow> net_ref list" where
  "clock_net_list g clk vs = concat (map (\<lambda>v. if has_register g v then (case clk v of None \<Rightarrow> [] | Some r \<Rightarrow> [r]) else []) vs)"

lemma clock_scan_instance_eq:
  assumes "\<forall>v \<in> set vs. has_register g v \<longrightarrow> clock_net g v = Inr (clk v)"
  shows "clock_scan_instance g vs (Some c) = Inr (\<forall>r \<in> set (clock_net_list g clk vs). same_net c r)"
  using assms
proof (induction vs)
  case (Cons v vs)
  then show ?case by (cases "has_register g v"; cases "clk v") (auto simp: clock_net_list_def)
qed (simp add: clock_net_list_def)

lemma same_net_all:
  "(\<forall>a \<in> set (r # N). \<forall>b \<in> set (r # N). same_net a b) \<longleftrightarrow> (\<forall>b \<in> set N. same_net r b)"
proof -
  have eq: "same_net a b \<longleftrightarrow> (nr_module a, nr_index a) = (nr_module b, nr_index b)" for a b
    by (simp add: same_net_def)
  show ?thesis unfolding eq by (auto; metis)
qed

lemma clock_scan_first:
  assumes "\<forall>v \<in> set vs. has_register g v \<longrightarrow> clock_net g v = Inr (clk v)"
  shows "clock_scan_instance g vs None = Inr (\<forall>a \<in> set (clock_net_list g clk vs). \<forall>b \<in> set (clock_net_list g clk vs). same_net a b)"
  using assms
proof (induction vs)
  case (Cons v vs)
  show ?case
  proof (cases "if has_register g v then clk v else None")
    case None
    then show ?thesis using Cons by (cases "has_register g v") (auto simp: clock_net_list_def)
  next
    case (Some r)
    then have "clock_scan_instance g (v # vs) None = clock_scan_instance g vs (Some r)"
      "clock_net_list g clk (v # vs) = r # clock_net_list g clk vs"
      using Cons.prems by (auto simp: clock_net_list_def split: if_splits)
    then show ?thesis using clock_scan_instance_eq [of vs g clk r] Cons.prems by (simp only: same_net_all) simp
  qed
qed (simp add: clock_net_list_def)

lemma first_clock_eq:
  assumes "\<forall>v \<in> set vs. has_register g v \<longrightarrow> clock_net g v = Inr (clk v)"
  shows "first_clock g vs = (case clock_net_list g clk vs of [] \<Rightarrow> Inl (RuntimeError ''No clock signal found!'')
    | r # _ \<Rightarrow> Inr (n_name (nr_net r)))"
  using assms
proof (induction vs)
  case (Cons v vs)
  then show ?case by (cases "has_register g v"; cases "clk v") (auto simp: clock_net_list_def)
qed (simp add: clock_net_list_def)

theorem get_clock_signal_correct:
  assumes "\<forall>v < nverts_of g. has_register g v \<longrightarrow> clock_net g v = Inr (clk v)"
  shows "get_clock_signal_from_dffs g =
    (case clock_net_list g clk [0..<nverts_of g] of
       [] \<Rightarrow> Inl (RuntimeError ''No clock signal found!'')
     | r # rs \<Rightarrow>
         if \<forall>r' \<in> set rs. same_net r r' then Inr (n_name (nr_net r))
         else Inl (RuntimeError ''Clock signal not the same across all flipflops! - Multiple clock signals detected!''))"
proof -
  have v: "\<forall>v \<in> set [0..<nverts_of g]. has_register g v \<longrightarrow> clock_net g v = Inr (clk v)" using assms by simp
  show ?thesis
    unfolding get_clock_signal_from_dffs_def check_clock_signal_def clock_scan_first [OF v] first_clock_eq [OF v]
    by (cases "clock_net_list g clk [0..<nverts_of g]") (simp_all only: same_net_all, simp_all add: chk_def)
qed

text \<open>Of several edges only the last one that exists is counted.\<close>

lemma tag_cnt_multiple_edges_last:
  assumes "tag_cnt_multiple_edges sm g names = Inr n" "edge_named g name = Some x"
  shows "tag_cnt_multiple_edges sm g (names @ [name]) = tag_cnt_single_edge sm g name"
  using assms by (cases "edge_tag_count sm x") (simp_all add: tag_cnt_multiple_edges_def tag_cnt_single_edge_def foldM_append)

end
