(* ===== verification/Qifa.thy ===== *)
theory Qifa
  imports InstanceSmt Queries
begin

text \<open>
  The quantitative analysis of \<open>include/ducode/qifa_smt.hpp\<close>: it looks for values of the secrets that
  an observer of the outputs can tell apart. Copies of the unrolled design share their inputs and
  initial states, and the solver is asked for secrets that make all their outputs different. The
  files written for inspection and the log are left out.
\<close>

section \<open>The solver\<close>

text \<open>
  A solver is the list of its assertions, on bit vectors and on arrays. Its answers are a parameter:
  the answer to the \<open>k\<close>-th question. A model gives the values of expressions; an expression that
  does not evaluate to a numeral raises an exception. A numeral is kept as a number.
\<close>

type_synonym assertions = "solver \<times> mem_form list"

type_synonym smt_model = "bv \<Rightarrow> int option"

datatype answer = Sat smt_model | Unsat | Unknown

datatype check_result = sat | unsat | unknown

definition get_value :: "smt_model \<Rightarrow> bv \<Rightarrow> int res" where
  "get_value m t = of_opt Z3Exception (m t)"

definition assert_all :: "form list \<Rightarrow> assertions \<Rightarrow> assertions res" where
  "assert_all fs = (\<lambda>(s, ms). bnd (foldM solver_add fs s) (\<lambda>s. Inr (s, ms)))"

text \<open>The conjunction of no formulas is true, the disjunction of none is false.\<close>

fun mk_or :: "form list \<Rightarrow> form" where
  "mk_or [] = FNe (BVal 0 1) (BVal 0 1)"
| "mk_or [f] = f"
| "mk_or (f # g # fs) = FOr f (mk_or (g # fs))"

fun mk_and :: "form list \<Rightarrow> form" where
  "mk_and [] = FEq (BVal 0 1) (BVal 0 1)"
| "mk_and [f] = f"
| "mk_and (f # g # fs) = FAnd f (mk_and (g # fs))"

section \<open>State\<close>

record portnames =
  pn_inputs :: "string list"
  pn_outputs :: "string list"
  pn_secrets :: "string list"
  pn_states :: "signal_id list"

record smt_mapping =
  expr_inputs :: "bv list"
  expr_outputs :: "bv list"
  expr_secrets :: "bv list"
  expr_states :: "bv list"

record smt_values =
  val_inputs :: "int list"
  val_outputs :: "int list"
  val_secrets :: "int list"
  val_states :: "int list"

text \<open>
  The members of the analysis. \<open>qi_questions\<close> counts the calls of the solvers. The number of the
  instance is below a number of 32 bits whenever it grows, so it does not wrap.
\<close>

record qifa =
  qi_top :: string
  qi_graph :: inst_graph
  qi_names :: portnames
  qi_instances :: assertions
  qi_intermediate :: assertions
  qi_result :: check_result
  qi_id :: nat
  qi_unroll :: "32 word"
  qi_exprs :: "smt_mapping list list"
  qi_values :: "smt_values list list"
  qi_step :: bool
  qi_step_exprs :: "smt_mapping list"
  qi_questions :: nat

section \<open>Expressions and values\<close>

text \<open>The name of the signal is taken as it is, without making it legal.\<close>

definition get_expr :: "32 word \<Rightarrow> string list \<Rightarrow> string \<Rightarrow> int \<Rightarrow> smt_state \<Rightarrow> bv res" where
  "get_expr d hier signalName time st =
     signal_expr Assertion st (create_smt_signal_name d hier signalName time)"

definition io_exprs :: "string \<Rightarrow> portnames \<Rightarrow> 32 word \<Rightarrow> int \<Rightarrow> smt_state \<Rightarrow> smt_mapping res" where
  "io_exprs top_module_name pn d time st =
     (let top_signal = (\<lambda>name. get_expr d [top_module_name] name time st) in
      bnd (mapM top_signal (pn_inputs pn)) (\<lambda>i.
      bnd (mapM top_signal (pn_outputs pn)) (\<lambda>out.
      bnd (mapM top_signal (pn_secrets pn)) (\<lambda>s.
      bnd (mapM (\<lambda>id. get_expr d (id_hierarchy id) (id_name id) time st) (pn_states pn)) (\<lambda>q.
      Inr \<lparr>expr_inputs = i, expr_outputs = out, expr_secrets = s, expr_states = q\<rparr>)))))"

definition create_unrolled_instance ::
  "(bv \<Rightarrow> string) \<Rightarrow> qifa \<Rightarrow> 32 word \<Rightarrow> assertions \<Rightarrow> (smt_mapping list \<times> assertions) res"
where
  "create_unrolled_instance print q d s =
     bnd (foldM (\<lambda>time (es, st).
            bnd (instance_export_smt2 print d (int time) (qi_graph q) st) (\<lambda>st.
            bnd (io_exprs (qi_top q) (qi_names q) d (int time) st) (\<lambda>e. Inr (es @ [e], st))))
          [0..<unat (qi_unroll q)]
          ([], \<lparr>ss_exprs = [], ss_ids = [], ss_solver = fst s, ss_memory = snd s\<rparr>)) (\<lambda>(es, st).
     Inr (es, (ss_solver st, ss_memory st)))"

definition values_at :: "smt_model \<Rightarrow> smt_mapping \<Rightarrow> smt_values res" where
  "values_at m e =
     bnd (mapM (get_value m) (expr_inputs e)) (\<lambda>i.
     bnd (mapM (get_value m) (expr_outputs e)) (\<lambda>out.
     bnd (mapM (get_value m) (expr_secrets e)) (\<lambda>s.
     bnd (mapM (get_value m) (expr_states e)) (\<lambda>q.
     Inr \<lparr>val_inputs = i, val_outputs = out, val_secrets = s, val_states = q\<rparr>))))"

definition get_values :: "smt_mapping list \<Rightarrow> smt_model \<Rightarrow> smt_values list res" where
  "get_values es m = mapM (values_at m) es"

definition get_all_values :: "smt_mapping list list \<Rightarrow> smt_model \<Rightarrow> smt_values list list res" where
  "get_all_values ess m = mapM (\<lambda>es. get_values es m) ess"

definition translate_value_to_constant :: "bv \<Rightarrow> int \<Rightarrow> bv" where
  "translate_value_to_constant t val = BVal val (bv_size t)"

section \<open>Constraints\<close>

text \<open>
  All mappings list the expressions of the same names, so two of them are compared position by
  position. A mapping at time zero does not exist when nothing is unrolled.
\<close>

definition at_start :: "smt_mapping list \<Rightarrow> smt_mapping" where
  "at_start es = es ! 0"

definition constant_secrets :: "smt_mapping list \<Rightarrow> form list" where
  "constant_secrets es =
     concat (map (\<lambda>time. map (\<lambda>(a, b). FEq a b) (zip (expr_secrets (es ! time)) (expr_secrets (es ! (time - 1)))))
       [1..<length es])"

definition different_secrets :: "smt_mapping list \<Rightarrow> smt_mapping list \<Rightarrow> form list" where
  "different_secrets other es =
     map (\<lambda>(a, b). FNe a b) (zip (expr_secrets (at_start other)) (expr_secrets (at_start es)))"

definition same_states :: "smt_mapping list \<Rightarrow> smt_mapping list \<Rightarrow> form list" where
  "same_states first es =
     map (\<lambda>(a, b). FEq a b) (zip (expr_states (at_start first)) (expr_states (at_start es)))"

definition same_inputs :: "smt_mapping list \<Rightarrow> smt_mapping list \<Rightarrow> form list" where
  "same_inputs first es =
     concat (map (\<lambda>(f, e). map (\<lambda>(a, b). FEq a b) (zip (expr_inputs f) (expr_inputs e))) (zip first es))"

definition output_diff_constraints :: "smt_mapping list \<Rightarrow> smt_mapping list \<Rightarrow> form list" where
  "output_diff_constraints other es =
     concat (map (\<lambda>idx. map (\<lambda>(f, e). FNe (expr_outputs e ! idx) (expr_outputs f ! idx)) (zip other es))
       [0..<length (expr_outputs (at_start es))])"

text \<open>One more copy of the design. Without unrolling the second copy reads past the first.\<close>

definition add_instance :: "(bv \<Rightarrow> string) \<Rightarrow> json \<Rightarrow> qifa \<Rightarrow> qifa res" where
  "add_instance print params q =
     (let creating_instance_id = length (qi_exprs q); before = qi_exprs q in
      bnd (create_unrolled_instance print q (of_nat creating_instance_id) (qi_instances q)) (\<lambda>(es, s).
      bnd (bnd (jref params ''smt_debug'') json_bool) (\<lambda>debug.
      bnd (assert_all (constant_secrets es) s) (\<lambda>s.
      chk (before = [] \<or> es \<noteq> []) Undefined (
      bnd (foldM (\<lambda>other. assert_all (different_secrets other es)) before s) (\<lambda>s.
      let q' = q\<lparr>qi_exprs := before @ [es]\<rparr> in
      if qi_id q = 0 then Inr (q'\<lparr>qi_instances := s\<rparr>)
      else
        (let first = hd (before @ [es]) in
         bnd (assert_all (if pn_states (qi_names q) \<noteq> [] then same_states first es else []) s) (\<lambda>s.
         bnd (assert_all (same_inputs first es) s) (\<lambda>s.
         bnd (foldM (\<lambda>other s.
                chk (output_diff_constraints other es \<noteq> []) Assertion (
                assert_all [mk_or (output_diff_constraints other es)] s)) before s) (\<lambda>s.
         Inr (q'\<lparr>qi_instances := s\<rparr>)))))))))))"

text \<open>The steps in between may skip copies, which are added here.\<close>

definition add_instances :: "(bv \<Rightarrow> string) \<Rightarrow> json \<Rightarrow> qifa \<Rightarrow> qifa res" where
  "add_instances print params q =
     foldM (\<lambda>_. add_instance print params) [length (qi_exprs q)..<qi_id q + 1] q"

section \<open>The step in between\<close>

definition equals_value :: "bv \<times> int \<Rightarrow> form" where
  "equals_value = (\<lambda>(t, val). FEq t (translate_value_to_constant t val))"

definition differs_from_value :: "bv \<times> int \<Rightarrow> form" where
  "differs_from_value = (\<lambda>(t, val). FNe t (translate_value_to_constant t val))"

text \<open>A secret that differs, in all its signals, from one that was found.\<close>

definition new_secret :: "smt_mapping list \<Rightarrow> smt_values list \<Rightarrow> form list" where
  "new_secret es vals =
     map differs_from_value (zip (expr_secrets (at_start es)) (val_secrets (vals ! 0)))"

definition diff_sequence :: "smt_mapping list \<Rightarrow> smt_values list \<Rightarrow> form list" where
  "diff_sequence es vals =
     concat (map (\<lambda>idx. map (\<lambda>(e, v). differs_from_value (expr_outputs e ! idx, val_outputs v ! idx)) (zip es vals))
       [0..<length (expr_outputs (at_start es))])"

text \<open>The inputs and the initial state of the first values that were found.\<close>

definition same_run :: "smt_mapping list \<Rightarrow> smt_values list \<Rightarrow> form list" where
  "same_run es vals =
     concat (map (\<lambda>idx. map (\<lambda>(e, v). equals_value (expr_inputs e ! idx, val_inputs v ! idx)) (zip es vals))
       [0..<length (expr_inputs (at_start es))])
     @ map equals_value (zip (expr_states (at_start es)) (val_states (vals ! 0)))"

definition start_step :: "qifa \<Rightarrow> assertions res" where
  "start_step q =
     (let es = qi_step_exprs q; found = qi_values q in
      bnd (assert_all [mk_and (same_run es (hd found) @ concat (map (new_secret es) found))] (qi_intermediate q)) (\<lambda>s.
      assert_all (map (\<lambda>vals. mk_or (diff_sequence es vals)) found) s))"

fun step_loop :: "(nat \<Rightarrow> assertions \<Rightarrow> answer) \<Rightarrow> nat \<Rightarrow> qifa \<Rightarrow> qifa res" where
  "step_loop check 0 q = Inr q"
| "step_loop check (Suc k) q =
     (let a = check (qi_questions q) (qi_intermediate q);
          q1 = q\<lparr>qi_id := qi_id q + 1, qi_questions := qi_questions q + 1\<rparr>
      in case a of
        Sat m \<Rightarrow>
          bnd (get_values (qi_step_exprs q) m) (\<lambda>vals.
          bnd (assert_all [mk_and (new_secret (qi_step_exprs q) vals), mk_or (diff_sequence (qi_step_exprs q) vals)]
                 (qi_intermediate q)) (\<lambda>s.
          step_loop check k
            (q1\<lparr>qi_result := sat, qi_values := qi_values q @ [vals], qi_intermediate := s\<rparr>)))
      | Unsat \<Rightarrow> Inr (q1\<lparr>qi_result := unsat\<rparr>)
      | Unknown \<Rightarrow> Inl (RuntimeError ''SMT solver returned unknown result''))"

text \<open>The assertions of the step are dropped at its end.\<close>

definition intermediate_step :: "(nat \<Rightarrow> assertions \<Rightarrow> answer) \<Rightarrow> nat \<Rightarrow> qifa \<Rightarrow> qifa res" where
  "intermediate_step check numMax q =
     bnd (start_step q) (\<lambda>s.
     bnd (step_loop check (numMax - qi_id q) (q\<lparr>qi_intermediate := s\<rparr>)) (\<lambda>q'.
     Inr (q'\<lparr>qi_intermediate := qi_intermediate q\<rparr>)))"

section \<open>The main loop\<close>

definition main_question :: "(nat \<Rightarrow> assertions \<Rightarrow> answer) \<Rightarrow> nat \<Rightarrow> qifa \<Rightarrow> (bool \<times> qifa) res" where
  "main_question check numMax q =
     (let q1 = q\<lparr>qi_questions := qi_questions q + 1\<rparr>
      in case check (qi_questions q) (qi_instances q) of
        Sat m \<Rightarrow>
          bnd (get_all_values (qi_exprs q) m) (\<lambda>found.
          let q2 = q1\<lparr>qi_result := sat, qi_values := found\<rparr>
          in bnd (if qi_step q then intermediate_step check numMax q2 else Inr q2) (\<lambda>q3. Inr (True, q3)))
      | Unsat \<Rightarrow> Inr (False, q1\<lparr>qi_result := unsat\<rparr>)
      | Unknown \<Rightarrow> Inl (RuntimeError ''SMT solver returned unknown result''))"

text \<open>The loop may not end, so it takes a number of steps.\<close>

fun main_loop ::
  "nat \<Rightarrow> (bv \<Rightarrow> string) \<Rightarrow> (nat \<Rightarrow> assertions \<Rightarrow> answer) \<Rightarrow> json \<Rightarrow> nat \<Rightarrow> qifa \<Rightarrow> qifa res"
where
  "main_loop 0 print check params numMax q = Inl Diverges"
| "main_loop (Suc k) print check params numMax q =
     (if qi_id q < numMax then
        bnd (add_instances print params q) (\<lambda>q.
        if qi_id q = 0 then main_loop k print check params numMax (q\<lparr>qi_id := 1\<rparr>)
        else
          bnd (main_question check numMax q) (\<lambda>(again, q).
          if again then main_loop k print check params numMax q else Inr q))
      else Inr q)"

definition start_intermediate :: "(bv \<Rightarrow> string) \<Rightarrow> qifa \<Rightarrow> qifa res" where
  "start_intermediate print q =
     (if qi_step q \<and> qi_id q = 0 then
        bnd (create_unrolled_instance print q 0 (qi_intermediate q)) (\<lambda>(es, s).
        bnd (assert_all (constant_secrets es) s) (\<lambda>s.
        Inr (q\<lparr>qi_step_exprs := es, qi_intermediate := s\<rparr>)))
      else Inr q)"

definition find_equivalence_classes ::
  "nat \<Rightarrow> (bv \<Rightarrow> string) \<Rightarrow> (nat \<Rightarrow> assertions \<Rightarrow> answer) \<Rightarrow> json \<Rightarrow> 32 word \<Rightarrow> qifa \<Rightarrow> qifa res"
where
  "find_equivalence_classes k print check params numMaxEquivalenceClasses q =
     bnd (start_intermediate print q) (main_loop k print check params (unat numMaxEquivalenceClasses))"

section \<open>Construction\<close>

text \<open>The long name of a state has its modules joined without a separator.\<close>

definition longname :: "signal_id \<Rightarrow> string" where
  "longname i =
     (if id_hierarchy i \<noteq> [] then ''.'' @ concat (id_hierarchy i) @ ''.'' else '''') @ id_name i"

definition string_vector :: "json \<Rightarrow> string list res" where
  "string_vector j = (case j of JArr js \<Rightarrow> mapM get_string js | _ \<Rightarrow> Inl TypeError)"

text \<open>
  The secrets are removed from the inputs. The loop that removes them from the states goes on with
  an iterator that the removal made invalid.
\<close>

definition make_portnames :: "module \<Rightarrow> string list \<Rightarrow> signal_id list \<Rightarrow> portnames res" where
  "make_portnames m secrets states =
     chk (set (map longname states) \<inter> set secrets = {}) Undefined (
     Inr \<lparr>pn_inputs = filter (\<lambda>x. x \<notin> set secrets) (get_input_names m), pn_outputs = get_output_names m,
          pn_secrets = secrets, pn_states = states\<rparr>)"

definition mk_qifa :: "nat \<Rightarrow> nat \<Rightarrow> inst_orders \<Rightarrow> design \<Rightarrow> json \<Rightarrow> qifa res" where
  "mk_qifa depth steps ord d params =
     bnd (bnd (jref params ''unroll_factor'') get_uint32) (\<lambda>unroll.
     chk (jcontains params ''clock'') Contract (
     chk (jcontains params ''reset'') Contract (
     chk (jcontains params ''secrets'') Contract (
     bnd (of_opt (RuntimeError ''Top module not found'') (find_module d (d_top d))) (\<lambda>(mi, m).
     bnd (create_instance depth steps ord d) (\<lambda>g.
     bnd (bnd (jref params ''secrets'') string_vector) (\<lambda>secrets.
     bnd (get_all_flipflop_ids g) (\<lambda>states.
     bnd (make_portnames m secrets states) (\<lambda>pn.
     Inr \<lparr>qi_top = m_name m, qi_graph = g, qi_names = pn, qi_instances = ([], []), qi_intermediate = ([], []),
          qi_result = unknown, qi_id = 0, qi_unroll = unroll, qi_exprs = [], qi_values = [],
          qi_step = jcontains params ''intermediate_step'', qi_step_exprs = [], qi_questions = 0\<rparr>)))))))))"

end
