(* ===== verification/QifaFacts.thy ===== *)
theory QifaFacts
  imports AssertionsKept Qifa
begin

text \<open>
  What the constraints of \<open>Qifa\<close> say of the values that the analysis reads from a model: the values of
  two copies, and of a copy and values found before, are values of executions of the design that an
  observer of the outputs can tell apart. The solver is a parameter, \<open>sound_solver\<close> states what it
  documents.
\<close>

section \<open>Models\<close>

definition satisfies ::
  "(unop \<Rightarrow> nat \<Rightarrow> int \<Rightarrow> int) \<Rightarrow> (binop \<Rightarrow> nat \<Rightarrow> int \<Rightarrow> int \<Rightarrow> int) \<Rightarrow>
   (cmp \<Rightarrow> nat \<Rightarrow> int \<Rightarrow> int \<Rightarrow> bool) \<Rightarrow> (string \<times> nat \<Rightarrow> int) \<Rightarrow> (string \<Rightarrow> int \<Rightarrow> int) \<Rightarrow> assertions \<Rightarrow> bool"
where
  "satisfies un bin prd \<mu> ma s \<longleftrightarrow>
     (\<forall>f \<in> set (fst s). holds un bin prd \<mu> f) \<and> (\<forall>f \<in> set (snd s). holds_mem un bin prd \<mu> ma f)"

text \<open>
  What the solver documents: a model it returns satisfies the assertions and gives expressions their
  values, and assertions it calls unsatisfiable have no model.
\<close>

definition sound_solver ::
  "(unop \<Rightarrow> nat \<Rightarrow> int \<Rightarrow> int) \<Rightarrow> (binop \<Rightarrow> nat \<Rightarrow> int \<Rightarrow> int \<Rightarrow> int) \<Rightarrow>
   (cmp \<Rightarrow> nat \<Rightarrow> int \<Rightarrow> int \<Rightarrow> bool) \<Rightarrow> (nat \<Rightarrow> assertions \<Rightarrow> answer) \<Rightarrow> bool"
where
  "sound_solver un bin prd check \<longleftrightarrow> (\<forall>k s. case check k s of
       Sat m \<Rightarrow> \<exists>\<mu> ma. satisfies un bin prd \<mu> ma s \<and> (\<forall>t v. m t = Some v \<longrightarrow> v = eval un bin prd \<mu> t)
     | Unsat \<Rightarrow> \<nexists>\<mu> ma. satisfies un bin prd \<mu> ma s
     | Unknown \<Rightarrow> True)"

definition eval_mapping ::
  "(bv \<Rightarrow> int) \<Rightarrow> smt_mapping \<Rightarrow> smt_values"
where
  "eval_mapping ev e =
     \<lparr>val_inputs = map ev (expr_inputs e), val_outputs = map ev (expr_outputs e),
      val_secrets = map ev (expr_secrets e), val_states = map ev (expr_states e)\<rparr>"

lemma eval_mapping_simps [simp]:
  "val_inputs (eval_mapping ev e) = map ev (expr_inputs e)"
  "val_outputs (eval_mapping ev e) = map ev (expr_outputs e)"
  "val_secrets (eval_mapping ev e) = map ev (expr_secrets e)"
  "val_states (eval_mapping ev e) = map ev (expr_states e)"
  by (simp_all add: eval_mapping_def)

lemma mapM_eq: "mapM f xs = Inr ys \<Longrightarrow> (\<And>x y. f x = Inr y \<Longrightarrow> y = g x) \<Longrightarrow> ys = map g xs"
  by (induction xs arbitrary: ys) (auto simp: bnd_eq_Inr)

lemma values_at_eval:
  assumes "\<forall>t v. m t = Some v \<longrightarrow> v = ev t"
  shows "values_at m e = Inr v \<Longrightarrow> v = eval_mapping ev e"
proof -
  have "get_value m t = Inr v \<Longrightarrow> v = ev t" for t v
    using assms by (simp add: get_value_def of_opt_eq_Inr)
  then have "mapM (get_value m) ts = Inr vs \<Longrightarrow> vs = map ev ts" for ts vs by (metis mapM_eq)
  then show "values_at m e = Inr v \<Longrightarrow> v = eval_mapping ev e"
    by (auto simp: values_at_def bnd_eq_Inr eval_mapping_def)
qed

lemma get_values_eval:
  assumes "\<forall>t v. m t = Some v \<longrightarrow> v = ev t"
  shows "get_values es m = Inr vs \<Longrightarrow> vs = map (eval_mapping ev) es"
  unfolding get_values_def by (rule mapM_eq [OF _ values_at_eval [OF assms]])

lemma get_all_values_eval:
  assumes "\<forall>t v. m t = Some v \<longrightarrow> v = ev t"
  shows "get_all_values ess m = Inr vs \<Longrightarrow> vs = map (map (eval_mapping ev)) ess"
  unfolding get_all_values_def by (rule mapM_eq [OF _ get_values_eval [OF assms]])

lemma holds_mk_or: "holds un bin prd \<mu> (mk_or fs) \<longleftrightarrow> (\<exists>f \<in> set fs. holds un bin prd \<mu> f)"
  by (induction fs rule: mk_or.induct) auto

lemma holds_mk_and: "holds un bin prd \<mu> (mk_and fs) \<longleftrightarrow> (\<forall>f \<in> set fs. holds un bin prd \<mu> f)"
  by (induction fs rule: mk_and.induct) auto

lemma wf_mk_or: "wf_form (mk_or fs) \<longleftrightarrow> (\<forall>f \<in> set fs. wf_form f)"
  by (induction fs rule: mk_or.induct) auto

lemma wf_mk_and: "wf_form (mk_and fs) \<longleftrightarrow> (\<forall>f \<in> set fs. wf_form f)"
  by (induction fs rule: mk_and.induct) auto

section \<open>Copies of the design\<close>

definition shape :: "portnames \<Rightarrow> smt_mapping \<Rightarrow> bool" where
  "shape pn e \<longleftrightarrow> length (expr_inputs e) = length (pn_inputs pn) \<and> length (expr_outputs e) = length (pn_outputs pn) \<and>
     length (expr_secrets e) = length (pn_secrets pn) \<and> length (expr_states e) = length (pn_states pn)"

lemma create_unrolled_instance_facts:
  assumes "create_unrolled_instance print q d s = Inr (es, s')"
  shows "length es = unat (qi_unroll q)" "\<forall>e \<in> set es. shape (qi_names q) e"
    "set (fst s) \<subseteq> set (fst s') \<and> set (snd s) \<subseteq> set (snd s')"
proof -
  define f where "f = (\<lambda>time (es, st).
      bnd (instance_export_smt2 print d (int time) (qi_graph q) st) (\<lambda>st.
      bnd (io_exprs (qi_top q) (qi_names q) d (int time) st) (\<lambda>e. Inr (es @ [e], st))))"
  obtain st where run: "foldM f [0..<unat (qi_unroll q)]
      ([], \<lparr>ss_exprs = [], ss_ids = [], ss_solver = fst s, ss_memory = snd s\<rparr>) = Inr (es, st)"
    and s': "s' = (ss_solver st, ss_memory st)"
    using assms by (auto simp: create_unrolled_instance_def f_def [symmetric] bnd_eq_Inr)
  have "foldM f [0..<n] ([], \<lparr>ss_exprs = [], ss_ids = [], ss_solver = fst s, ss_memory = snd s\<rparr>) = Inr (es, st) \<Longrightarrow>
      length es = n \<and> (\<forall>e \<in> set es. shape (qi_names q) e) \<and> set (fst s) \<subseteq> set (ss_solver st) \<and> set (snd s) \<subseteq> set (ss_memory st)" for n es st
  proof (induction n arbitrary: es st)
    case (Suc n)
    then obtain es1 st1 where 1: "foldM f [0..<n] ([], \<lparr>ss_exprs = [], ss_ids = [], ss_solver = fst s, ss_memory = snd s\<rparr>) = Inr (es1, st1)"
      "f n (es1, st1) = Inr (es, st)"
      by (auto simp: foldM_append bnd_eq_Inr)
    then obtain e where e: "instance_export_smt2 print d (int n) (qi_graph q) st1 = Inr st"
      "io_exprs (qi_top q) (qi_names q) d (int n) st = Inr e" "es = es1 @ [e]"
      by (auto simp: f_def bnd_eq_Inr)
    have "shape (qi_names q) e" using e(2) by (auto simp: io_exprs_def bnd_eq_Inr Let_def shape_def dest: mapM_length)
    moreover have "asserted st1 \<subseteq> asserted st" using e(1) instance_export_keeps unfolding keeps_def by blast
    ultimately show ?case using Suc.IH [OF 1(1)] e(3) by (auto simp: asserted_mono)
  qed simp
  from this [OF run] show "length es = unat (qi_unroll q)" "\<forall>e \<in> set es. shape (qi_names q) e"
    "set (fst s) \<subseteq> set (fst s') \<and> set (snd s) \<subseteq> set (snd s')"
    by (auto simp: s')
qed

lemma assert_all_facts:
  assumes "assert_all fs s = Inr s'"
  shows "set (fst s') = set (fst s) \<union> set fs" "\<forall>f \<in> set fs. wf_form f" "snd s' = snd s"
proof -
  have "foldM solver_add fs a = Inr b \<Longrightarrow> set b = set a \<union> set fs \<and> (\<forall>f \<in> set fs. wf_form f)" for a b
    by (induction fs arbitrary: a) (auto simp: bnd_eq_Inr solver_add_def split: if_splits)
  then show "set (fst s') = set (fst s) \<union> set fs" "\<forall>f \<in> set fs. wf_form f" "snd s' = snd s"
    using assms by (auto simp: assert_all_def case_prod_unfold bnd_eq_Inr)
qed

lemma assert_all_each:
  assumes "foldM (\<lambda>x s. chk (c x) e (assert_all (f x) s)) xs s = Inr s'"
  shows "set (fst s) \<subseteq> set (fst s') \<and> snd s' = snd s \<and> (\<forall>x \<in> set xs. c x \<and> set (f x) \<subseteq> set (fst s') \<and> (\<forall>g \<in> set (f x). wf_form g))"
  using assms
proof (induction xs arbitrary: s)
  case (Cons x xs)
  then obtain s1 where s1: "c x" "assert_all (f x) s = Inr s1" "foldM (\<lambda>x s. chk (c x) e (assert_all (f x) s)) xs s1 = Inr s'"
    by (auto simp: bnd_eq_Inr chk_eq_Inr)
  then show ?case using Cons.IH [OF s1(3)] assert_all_facts [OF s1(2)] by auto
qed simp

section \<open>Constraints that are asserted\<close>

definition in_force :: "form list \<Rightarrow> assertions \<Rightarrow> bool" where
  "in_force fs s \<longleftrightarrow> (\<forall>f \<in> set fs. f \<in> set (fst s) \<and> wf_form f)"

definition stronger :: "assertions \<Rightarrow> assertions \<Rightarrow> bool" where
  "stronger s s' \<longleftrightarrow> set (fst s) \<subseteq> set (fst s') \<and> set (snd s) \<subseteq> set (snd s')"

lemma stronger_refl [simp]: "stronger s s"
  by (simp add: stronger_def)

lemma stronger_trans: "stronger a b \<Longrightarrow> stronger b c \<Longrightarrow> stronger a c"
  by (auto simp: stronger_def)

lemma in_force_stronger: "in_force fs s \<Longrightarrow> stronger s s' \<Longrightarrow> in_force fs s'"
  by (auto simp: in_force_def stronger_def)

lemma in_force_Nil [simp]: "in_force [] s"
  by (simp add: in_force_def)

lemma in_force_append [simp]: "in_force (fs @ gs) s \<longleftrightarrow> in_force fs s \<and> in_force gs s"
  by (auto simp: in_force_def)

lemma in_force_concat: "in_force (concat fss) s \<longleftrightarrow> (\<forall>fs \<in> set fss. in_force fs s)"
  by (auto simp: in_force_def)

lemma assert_all_in_force: "assert_all fs s = Inr s' \<Longrightarrow> in_force fs s' \<and> stronger s s'"
  using assert_all_facts [of fs s s'] by (auto simp: in_force_def stronger_def)

lemma assert_each_in_force:
  assumes "foldM (\<lambda>x s. chk (c x) e (assert_all (f x) s)) xs s = Inr s'"
  shows "(\<forall>x \<in> set xs. in_force (f x) s') \<and> stronger s s'"
  using assert_all_each [OF assms] by (auto simp: in_force_def stronger_def)

lemma create_stronger: "create_unrolled_instance print q d s = Inr (es, s') \<Longrightarrow> stronger s s'"
  using create_unrolled_instance_facts(3) by (simp add: stronger_def)

text \<open>A copy depends on the design, the names of its signals and the length only.\<close>

lemma create_unrolled_update [simp]:
  "create_unrolled_instance print (q\<lparr>qi_exprs := a\<rparr>) = create_unrolled_instance print q"
  "create_unrolled_instance print (q\<lparr>qi_instances := b\<rparr>) = create_unrolled_instance print q"
  "create_unrolled_instance print (q\<lparr>qi_id := c\<rparr>) = create_unrolled_instance print q"
  "create_unrolled_instance print (q\<lparr>qi_step_exprs := e\<rparr>) = create_unrolled_instance print q"
  "create_unrolled_instance print (q\<lparr>qi_intermediate := f\<rparr>) = create_unrolled_instance print q"
  "create_unrolled_instance print (q\<lparr>qi_questions := g\<rparr>) = create_unrolled_instance print q"
  "create_unrolled_instance print (q\<lparr>qi_result := h\<rparr>) = create_unrolled_instance print q"
  "create_unrolled_instance print (q\<lparr>qi_values := i\<rparr>) = create_unrolled_instance print q"
  by (simp_all add: create_unrolled_instance_def fun_eq_iff)

section \<open>Copies of the design\<close>

definition pair_apart :: "smt_mapping list \<Rightarrow> smt_mapping list \<Rightarrow> smt_mapping list \<Rightarrow> assertions \<Rightarrow> bool" where
  "pair_apart initial other es s \<longleftrightarrow>
     in_force (different_secrets other es) s \<and> in_force [mk_or (output_diff_constraints other es)] s \<and>
     in_force (same_inputs initial es) s \<and> in_force (same_states initial es) s"

definition copy_of_design :: "(bv \<Rightarrow> string) \<Rightarrow> qifa \<Rightarrow> smt_mapping list \<Rightarrow> assertions \<Rightarrow> bool" where
  "copy_of_design print q es s \<longleftrightarrow>
     (\<exists>d s0 s1. create_unrolled_instance print q d s0 = Inr (es, s1) \<and> stronger s1 s) \<and>
     in_force (constant_secrets es) s"

definition copies :: "(bv \<Rightarrow> string) \<Rightarrow> qifa \<Rightarrow> bool" where
  "copies print q \<longleftrightarrow>
     (\<forall>es \<in> set (qi_exprs q). copy_of_design print q es (qi_instances q)) \<and>
     (\<forall>i < length (qi_exprs q). \<forall>j < i. pair_apart (hd (qi_exprs q)) (qi_exprs q ! j) (qi_exprs q ! i) (qi_instances q)) \<and>
     (if qi_exprs q = [] then qi_instances q = ([], [])
      else \<exists>s. create_unrolled_instance print q 0 ([], []) = Inr (hd (qi_exprs q), s))"

lemma pair_apart_stronger: "pair_apart first other es s \<Longrightarrow> stronger s s' \<Longrightarrow> pair_apart first other es s'"
  by (auto simp: pair_apart_def intro: in_force_stronger)

lemma copy_stronger: "copy_of_design print q es s \<Longrightarrow> stronger s s' \<Longrightarrow> copy_of_design print q es s'"
  unfolding copy_of_design_def by (meson in_force_stronger stronger_trans)

lemma copy_of_design_facts:
  assumes "copy_of_design print q es s"
  shows "length es = unat (qi_unroll q)" "\<forall>e \<in> set es. shape (qi_names q) e"
  using assms create_unrolled_instance_facts by (fastforce simp: copy_of_design_def)+

lemma copy_of_design_update [simp]:
  "copy_of_design print (q\<lparr>qi_exprs := a\<rparr>) = copy_of_design print q"
  "copy_of_design print (q\<lparr>qi_instances := b\<rparr>) = copy_of_design print q"
  "copy_of_design print (q\<lparr>qi_id := c\<rparr>) = copy_of_design print q"
  "copy_of_design print (q\<lparr>qi_step_exprs := e\<rparr>) = copy_of_design print q"
  "copy_of_design print (q\<lparr>qi_intermediate := f\<rparr>) = copy_of_design print q"
  "copy_of_design print (q\<lparr>qi_questions := g\<rparr>) = copy_of_design print q"
  "copy_of_design print (q\<lparr>qi_result := h\<rparr>) = copy_of_design print q"
  "copy_of_design print (q\<lparr>qi_values := i\<rparr>) = copy_of_design print q"
  by (simp_all add: copy_of_design_def fun_eq_iff)

lemma add_instance_steps:
  assumes "add_instance print params q = Inr q'"
  obtains es s1 s2 s3 where "create_unrolled_instance print q (of_nat (length (qi_exprs q))) (qi_instances q) = Inr (es, s1)"
    "assert_all (constant_secrets es) s1 = Inr s2" "foldM (\<lambda>other. assert_all (different_secrets other es)) (qi_exprs q) s2 = Inr s3"
    "qi_exprs q = [] \<or> es \<noteq> []"
    "if qi_id q = 0 then q' = q\<lparr>qi_exprs := qi_exprs q @ [es], qi_instances := s3\<rparr>
     else \<exists>s4 s5 s6. assert_all (if pn_states (qi_names q) \<noteq> [] then same_states (hd (qi_exprs q @ [es])) es else []) s3 = Inr s4 \<and>
        assert_all (same_inputs (hd (qi_exprs q @ [es])) es) s4 = Inr s5 \<and>
        foldM (\<lambda>other s. chk (output_diff_constraints other es \<noteq> []) Assertion
                (assert_all [mk_or (output_diff_constraints other es)] s)) (qi_exprs q) s5 = Inr s6 \<and>
        q' = q\<lparr>qi_exprs := qi_exprs q @ [es], qi_instances := s6\<rparr>"
  using assms by (auto simp: add_instance_def bnd_eq_Inr chk_eq_Inr Let_def split: if_splits)

lemma add_instance_frame:
  assumes "add_instance print params q = Inr q'"
  shows "\<exists>es s. q' = q\<lparr>qi_exprs := qi_exprs q @ [es], qi_instances := s\<rparr>"
  by (rule add_instance_steps [OF assms]) (metis (full_types))

lemma add_instance_copies:
  assumes run: "add_instance print params q = Inr q'" and c: "copies print q" and id: "qi_id q = 0 \<longrightarrow> qi_exprs q = []"
  shows "copies print q' \<and> (\<exists>es s. q' = q\<lparr>qi_exprs := qi_exprs q @ [es], qi_instances := s\<rparr>)"
proof -
  let ?E = "qi_exprs q"
  obtain es s1 s2 s3 where s1: "create_unrolled_instance print q (of_nat (length ?E)) (qi_instances q) = Inr (es, s1)"
    and s2: "assert_all (constant_secrets es) s1 = Inr s2" and s3: "foldM (\<lambda>other. assert_all (different_secrets other es)) ?E s2 = Inr s3"
    and ne: "?E = [] \<or> es \<noteq> []" and rest: "if qi_id q = 0 then q' = q\<lparr>qi_exprs := ?E @ [es], qi_instances := s3\<rparr>
      else \<exists>s4 s5 s6. assert_all (if pn_states (qi_names q) \<noteq> [] then same_states (hd (?E @ [es])) es else []) s3 = Inr s4 \<and>
        assert_all (same_inputs (hd (?E @ [es])) es) s4 = Inr s5 \<and>
        foldM (\<lambda>other s. chk (output_diff_constraints other es \<noteq> []) Assertion
                (assert_all [mk_or (output_diff_constraints other es)] s)) ?E s5 = Inr s6 \<and>
        q' = q\<lparr>qi_exprs := ?E @ [es], qi_instances := s6\<rparr>"
    by (rule add_instance_steps [OF run])
  have d: "(\<forall>x \<in> set ?E. in_force (different_secrets x es) s3) \<and> stronger s2 s3"
    using assert_each_in_force [where c = "\<lambda>_. True" and e = Assertion] s3 by (simp add: chk_def)
  have base: "stronger (qi_instances q) s1" "in_force (constant_secrets es) s2" "stronger s1 s2"
    using create_stronger [OF s1] assert_all_in_force [OF s2] by auto
  have new: "copy_of_design print q es s3"
    using s1 base d unfolding copy_of_design_def by (meson in_force_stronger stronger_trans)
  have old: "stronger (qi_instances q) s3" using base d stronger_trans by blast
  show ?thesis
  proof (cases "qi_id q = 0")
    case True
    then have "?E = []" "qi_instances q = ([], [])" using id c by (auto simp: copies_def)
    moreover have "q' = q\<lparr>qi_exprs := ?E @ [es], qi_instances := s3\<rparr>" using rest True by simp
    moreover from calculation have "copies print q'" using new s1 by (auto simp: copies_def)
    ultimately show ?thesis by blast
  next
    case False
    then obtain s4 s5 s6 where s4: "assert_all (if pn_states (qi_names q) \<noteq> [] then same_states (hd (?E @ [es])) es else []) s3 = Inr s4"
      and s5: "assert_all (same_inputs (hd (?E @ [es])) es) s4 = Inr s5"
      and s6: "foldM (\<lambda>other s. chk (output_diff_constraints other es \<noteq> []) Assertion
                (assert_all [mk_or (output_diff_constraints other es)] s)) ?E s5 = Inr s6"
      and q': "q' = q\<lparr>qi_exprs := ?E @ [es], qi_instances := s6\<rparr>" using rest by auto
    have st: "in_force (same_states (hd (?E @ [es])) es) s4" if "?E \<noteq> []"
    proof (cases "pn_states (qi_names q) = []")
      case True
      have "es \<noteq> []" using that ne by auto
      then have "shape (qi_names q) (at_start es)"
        using create_unrolled_instance_facts(2) [OF s1] by (simp add: at_start_def)
      then show ?thesis using True by (simp add: shape_def same_states_def)
    qed (use assert_all_in_force [OF s4] in simp)
    have ot: "\<forall>x \<in> set ?E. in_force [mk_or (output_diff_constraints x es)] s6" "stronger s5 s6"
      using assert_each_in_force [OF s6] by auto
    have steps: "stronger s3 s4" "stronger s4 s5" using assert_all_in_force [OF s4] assert_all_in_force [OF s5] by auto
    then have up: "stronger s3 s6" "stronger s4 s6" "stronger (qi_instances q) s6"
      using ot(2) old stronger_trans by blast+
    have ap: "pair_apart (hd (?E @ [es])) x es s6" if "x \<in> set ?E" for x
      using that d ot st [OF length_pos_if_in_set [THEN length_greater_0_conv [THEN iffD1], OF that]] assert_all_in_force [OF s5] up unfolding pair_apart_def by (meson in_force_stronger)
    have old6: "pair_apart (hd ?E) (?E ! j) (?E ! i) s6" if "i < length ?E" "j < i" for i j
      using that c up(3) by (meson pair_apart_stronger copies_def)
    have "pair_apart (hd (?E @ [es])) ((?E @ [es]) ! j) ((?E @ [es]) ! i) s6" if "i < length (?E @ [es])" "j < i" for i j
      using that old6 ap [of "?E ! j"] by (cases "i < length ?E") (auto simp: nth_append hd_append)
    moreover have "copy_of_design print q x s6" if "x \<in> set (?E @ [es])" for x
      using that c up new unfolding copies_def by (auto intro: copy_stronger)
    moreover have "\<exists>s. create_unrolled_instance print q 0 ([], []) = Inr (hd (?E @ [es]), s)"
      using c s1 by (cases "?E = []") (auto simp: copies_def)
    ultimately have "copies print q'" unfolding q' copies_def by simp
    then show ?thesis using q' by blast
  qed
qed

lemma add_instances_copies:
  assumes "add_instances print params q = Inr q'" "copies print q" "qi_id q = 0 \<longrightarrow> qi_exprs q = []"
  shows "copies print q' \<and> (\<exists>E s. q' = q\<lparr>qi_exprs := E, qi_instances := s\<rparr>)"
proof -
  have many: "foldM (\<lambda>_. add_instance print params) xs q = Inr q' \<Longrightarrow> copies print q \<Longrightarrow> 0 < qi_id q \<Longrightarrow>
      copies print q' \<and> (\<exists>E s. q' = q\<lparr>qi_exprs := E, qi_instances := s\<rparr>)" for xs :: "nat list" and q
  proof (induction xs arbitrary: q)
    case Nil
    then show ?case by (intro conjI exI [of _ "qi_exprs q"] exI [of _ "qi_instances q"]) simp_all
  next
    case (Cons x xs)
    then obtain q1 where q1: "add_instance print params q = Inr q1" "foldM (\<lambda>_. add_instance print params) xs q1 = Inr q'"
      by (auto simp: bnd_eq_Inr)
    from add_instance_copies [OF q1(1)] Cons.prems obtain es s where
      "copies print q1" "q1 = q\<lparr>qi_exprs := qi_exprs q @ [es], qi_instances := s\<rparr>" by auto
    then show ?case using Cons.IH [OF q1(2)] Cons.prems(3) by fastforce
  qed
  show ?thesis
  proof (cases "qi_id q = 0")
    case True
    then show ?thesis using assms add_instance_copies [of print params q q'] by (fastforce simp: add_instances_def bnd_eq_Inr)
  qed (use many [of _ q] assms in \<open>auto simp: add_instances_def\<close>)
qed

lemma add_instances_length:
  assumes "add_instances print params q = Inr q'"
  shows "qi_id q < length (qi_exprs q')"
proof -
  have one: "add_instance print params q = Inr q' \<Longrightarrow> length (qi_exprs q') = Suc (length (qi_exprs q))" for q q'
    using add_instance_frame by fastforce
  have "foldM (\<lambda>_. add_instance print params) xs q = Inr q' \<Longrightarrow> length (qi_exprs q') = length (qi_exprs q) + length xs"
    for xs :: "nat list" and q by (induction xs arbitrary: q) (auto simp: bnd_eq_Inr dest: one)
  then show ?thesis using assms by (fastforce simp: add_instances_def)
qed

section \<open>Values that an observer can tell apart\<close>

definition told_apart :: "smt_values list \<Rightarrow> smt_values list \<Rightarrow> bool" where
  "told_apart v w \<longleftrightarrow>
     map val_inputs v = map val_inputs w \<and> val_states (v ! 0) = val_states (w ! 0) \<and>
     list_all2 (\<noteq>) (val_secrets (v ! 0)) (val_secrets (w ! 0)) \<and> map val_outputs v \<noteq> map val_outputs w"

definition steady :: "smt_values list \<Rightarrow> bool" where
  "steady v \<longleftrightarrow> (\<forall>t < length v. val_secrets (v ! t) = val_secrets (v ! 0))"

text \<open>
  The values of an execution of the design: a model of the assertions of a copy of it, those on the
  arrays of its memories included.
\<close>

definition execution ::
  "(unop \<Rightarrow> nat \<Rightarrow> int \<Rightarrow> int) \<Rightarrow> (binop \<Rightarrow> nat \<Rightarrow> int \<Rightarrow> int \<Rightarrow> int) \<Rightarrow>
   (cmp \<Rightarrow> nat \<Rightarrow> int \<Rightarrow> int \<Rightarrow> bool) \<Rightarrow> (bv \<Rightarrow> string) \<Rightarrow> qifa \<Rightarrow> smt_values list \<Rightarrow> bool"
where
  "execution un bin prd print q v \<longleftrightarrow>
     (\<exists>\<mu> ma d s s' es. create_unrolled_instance print q d s = Inr (es, s') \<and>
        satisfies un bin prd \<mu> ma s' \<and> v = map (eval_mapping (eval un bin prd \<mu>)) es)"

definition models :: 
  "(unop \<Rightarrow> nat \<Rightarrow> int \<Rightarrow> int) \<Rightarrow> (binop \<Rightarrow> nat \<Rightarrow> int \<Rightarrow> int \<Rightarrow> int) \<Rightarrow>
   (cmp \<Rightarrow> nat \<Rightarrow> int \<Rightarrow> int \<Rightarrow> bool) \<Rightarrow> (string \<times> nat \<Rightarrow> int) \<Rightarrow> assertions \<Rightarrow> bool"
where
  "models un bin prd \<mu> s \<longleftrightarrow> (\<exists>ma. satisfies un bin prd \<mu> ma s)"

lemma in_force_holds: "in_force fs s \<Longrightarrow> models un bin prd \<mu> s \<Longrightarrow> f \<in> set fs \<Longrightarrow> holds un bin prd \<mu> f \<and> wf_form f"
  by (auto simp: in_force_def models_def satisfies_def)

lemma copy_execution:
  assumes "copy_of_design print q es s" "models un bin prd \<mu> s"
  shows "execution un bin prd print q (map (eval_mapping (eval un bin prd \<mu>)) es)"
  using assms unfolding copy_of_design_def execution_def stronger_def models_def satisfies_def by blast

lemma zip_equal: "length xs = length ys \<Longrightarrow> (\<forall>(a, b) \<in> set (zip xs ys). f a = f b) \<Longrightarrow> map f xs = map f ys"
  by (induction xs ys rule: list_induct2) auto

lemma steady_values:
  assumes c: "in_force (constant_secrets es) s" and m: "models un bin prd \<mu> s"
    and sh: "\<forall>e \<in> set es. length (expr_secrets e) = n"
  shows "steady (map (eval_mapping (eval un bin prd \<mu>)) es)"
proof -
  let ?sec = "\<lambda>t. map (eval un bin prd \<mu>) (expr_secrets (es ! t))"
  have step: "?sec t = ?sec (t - 1)" if "1 \<le> t" "t < length es" for t
  proof (rule zip_equal)
    show "\<forall>(a, b) \<in> set (zip (expr_secrets (es ! t)) (expr_secrets (es ! (t - 1)))). eval un bin prd \<mu> a = eval un bin prd \<mu> b"
    proof (clarify)
      fix a b
      assume "(a, b) \<in> set (zip (expr_secrets (es ! t)) (expr_secrets (es ! (t - 1))))"
      then have "FEq a b \<in> set (constant_secrets es)" using that by (force simp: constant_secrets_def)
      from in_force_holds [OF c m this] show "eval un bin prd \<mu> a = eval un bin prd \<mu> b" by simp
    qed
  qed (use sh that in simp)
  have "t < length es \<Longrightarrow> ?sec t = ?sec 0" for t
  proof (induction t)
    case (Suc t) then show ?case using step [of "Suc t"] by simp
  qed simp
  then show ?thesis
    unfolding steady_def using nth_map [of 0 es] by (metis (no_types, lifting) eval_mapping_simps(3) gr_zeroI length_map not_less0 nth_map)
qed

text \<open>What the constraints on two copies say of their values.\<close>

definition alike :: "portnames \<Rightarrow> smt_mapping list \<Rightarrow> smt_mapping list \<Rightarrow> bool" where
  "alike pn es es' \<longleftrightarrow> length es = length es' \<and> (\<forall>e \<in> set es. shape pn e) \<and> (\<forall>e \<in> set es'. shape pn e)"

lemma at_start_all: "es \<noteq> [] \<Longrightarrow> \<forall>e \<in> set es. P e \<Longrightarrow> P (at_start es)"
  by (metis at_start_def length_greater_0_conv nth_mem)

lemma alike_start:
  assumes "alike pn es es'" "es \<noteq> []"
  shows "shape pn (at_start es)" "shape pn (at_start es')"
proof -
  have "es' \<noteq> []" using assms by (cases es') (auto simp: alike_def)
  then show "shape pn (at_start es)" "shape pn (at_start es')"
    using assms at_start_all [of es "shape pn"] at_start_all [of es' "shape pn"] by (simp_all add: alike_def)
qed

lemma same_inputs_values:
  assumes "in_force (same_inputs es es') s" "models un bin prd \<mu> s" "alike pn es es'"
  shows "map val_inputs (map (eval_mapping (eval un bin prd \<mu>)) es) = map val_inputs (map (eval_mapping (eval un bin prd \<mu>)) es')"
proof (rule nth_equalityI)
  fix t
  assume "t < length (map val_inputs (map (eval_mapping (eval un bin prd \<mu>)) es))"
  then have t: "t < length es" "t < length es'" using assms(3) by (auto simp: alike_def)
  have "map (eval un bin prd \<mu>) (expr_inputs (es ! t)) = map (eval un bin prd \<mu>) (expr_inputs (es' ! t))"
  proof (rule zip_equal)
    show "\<forall>(a, b) \<in> set (zip (expr_inputs (es ! t)) (expr_inputs (es' ! t))). eval un bin prd \<mu> a = eval un bin prd \<mu> b"
    proof (clarify)
      fix a b
      assume ab: "(a, b) \<in> set (zip (expr_inputs (es ! t)) (expr_inputs (es' ! t)))"
      have "(es ! t, es' ! t) \<in> set (zip es es')" using t by (auto simp: set_zip)
      then have "FEq a b \<in> set (same_inputs es es')" using ab by (force simp: same_inputs_def)
      from in_force_holds [OF assms(1,2) this] show "eval un bin prd \<mu> a = eval un bin prd \<mu> b" by simp
    qed
  qed (use assms(3) t in \<open>simp add: alike_def shape_def\<close>)
  then show "map val_inputs (map (eval_mapping (eval un bin prd \<mu>)) es) ! t = map val_inputs (map (eval_mapping (eval un bin prd \<mu>)) es') ! t"
    using t by simp
qed (use assms(3) in \<open>simp add: alike_def\<close>)

lemma same_states_values:
  assumes "in_force (same_states es es') s" "models un bin prd \<mu> s" "shape pn (at_start es)" "shape pn (at_start es')"
  shows "map (eval un bin prd \<mu>) (expr_states (at_start es)) = map (eval un bin prd \<mu>) (expr_states (at_start es'))"
proof (rule zip_equal)
  show "\<forall>(a, b) \<in> set (zip (expr_states (at_start es)) (expr_states (at_start es'))). eval un bin prd \<mu> a = eval un bin prd \<mu> b"
  proof (clarify)
    fix a b
    assume "(a, b) \<in> set (zip (expr_states (at_start es)) (expr_states (at_start es')))"
    then have "FEq a b \<in> set (same_states es es')" by (force simp: same_states_def)
    from in_force_holds [OF assms(1,2) this] show "eval un bin prd \<mu> a = eval un bin prd \<mu> b" by simp
  qed
qed (use assms(3,4) in \<open>simp add: shape_def\<close>)

lemma different_secrets_values:
  assumes "in_force (different_secrets es es') s" "models un bin prd \<mu> s" "shape pn (at_start es)" "shape pn (at_start es')"
  shows "list_all2 (\<noteq>) (map (eval un bin prd \<mu>) (expr_secrets (at_start es))) (map (eval un bin prd \<mu>) (expr_secrets (at_start es')))"
proof -
  have "eval un bin prd \<mu> a \<noteq> eval un bin prd \<mu> b"
    if "(a, b) \<in> set (zip (expr_secrets (at_start es)) (expr_secrets (at_start es')))" for a b
  proof -
    have "FNe a b \<in> set (different_secrets es es')" using that by (force simp: different_secrets_def)
    from in_force_holds [OF assms(1,2) this] show ?thesis by simp
  qed
  then show ?thesis using assms(3,4) by (auto simp: list_all2_iff zip_map_map shape_def)
qed

lemma different_outputs_values:
  assumes "in_force [mk_or (output_diff_constraints es es')] s" "models un bin prd \<mu> s" "alike pn es es'"
  shows "map val_outputs (map (eval_mapping (eval un bin prd \<mu>)) es) \<noteq> map val_outputs (map (eval_mapping (eval un bin prd \<mu>)) es')"
    and "es \<noteq> []"
proof -
  have "holds un bin prd \<mu> (mk_or (output_diff_constraints es es'))" using in_force_holds [OF assms(1,2)] by simp
  then obtain k f e where k: "k < length (expr_outputs (at_start es'))" "(f, e) \<in> set (zip es es')"
    "eval un bin prd \<mu> (expr_outputs e ! k) \<noteq> eval un bin prd \<mu> (expr_outputs f ! k)"
    by (fastforce simp: holds_mk_or output_diff_constraints_def)
  then obtain t where t: "t < length es" "t < length es'" "f = es ! t" "e = es' ! t" by (auto simp: set_zip)
  then show "es \<noteq> []" by auto
  have "shape pn (at_start es')" "shape pn (es ! t)" "shape pn (es' ! t)"
    using alike_start(2) [OF assms(3) \<open>es \<noteq> []\<close>] assms(3) t by (auto simp: alike_def)
  then have "map (eval un bin prd \<mu>) (expr_outputs (es ! t)) \<noteq> map (eval un bin prd \<mu>) (expr_outputs (es' ! t))"
    using k t by (metis nth_map shape_def)
  then show "map val_outputs (map (eval_mapping (eval un bin prd \<mu>)) es) \<noteq> map val_outputs (map (eval_mapping (eval un bin prd \<mu>)) es')"
    using t by (metis eval_mapping_simps(2) length_map nth_map)
qed

text \<open>
  The values of several executions that an observer can tell apart: what the analysis looks for.
\<close>

definition classes ::
  "(unop \<Rightarrow> nat \<Rightarrow> int \<Rightarrow> int) \<Rightarrow> (binop \<Rightarrow> nat \<Rightarrow> int \<Rightarrow> int \<Rightarrow> int) \<Rightarrow>
   (cmp \<Rightarrow> nat \<Rightarrow> int \<Rightarrow> int \<Rightarrow> bool) \<Rightarrow> (bv \<Rightarrow> string) \<Rightarrow> qifa \<Rightarrow> smt_values list list \<Rightarrow> bool"
where
  "classes un bin prd print q vs \<longleftrightarrow>
     sorted_wrt told_apart vs \<and> (\<forall>v \<in> set vs. steady v \<and> execution un bin prd print q v)"

definition secret_widths :: "smt_mapping list \<Rightarrow> nat list" where
  "secret_widths es = map bv_size (expr_secrets (at_start es))"

definition within :: "nat list \<Rightarrow> smt_values list \<Rightarrow> bool" where
  "within bs v \<longleftrightarrow> list_all2 (\<lambda>w x. bv_range w x) bs (val_secrets (v ! 0))"

lemma copies_alike:
  assumes "copies print q" "es \<in> set (qi_exprs q)" "es' \<in> set (qi_exprs q)"
  shows "alike (qi_names q) es es'"
  using assms copy_of_design_facts unfolding copies_def alike_def by metis

lemma copies_told_apart:
  assumes c: "copies print q" and m: "models un bin prd \<mu> (qi_instances q)" and ij: "i < j" "j < length (qi_exprs q)"
  shows "told_apart (map (eval_mapping (eval un bin prd \<mu>)) (qi_exprs q ! i)) (map (eval_mapping (eval un bin prd \<mu>)) (qi_exprs q ! j))"
proof -
  let ?E = "qi_exprs q" and ?v = "map (eval_mapping (eval un bin prd \<mu>))"
  have E: "?E \<noteq> []" and mem: "?E ! i \<in> set ?E" "?E ! j \<in> set ?E" "hd ?E \<in> set ?E" using ij by (auto intro: hd_in_set)
  have ap: "pair_apart (hd ?E) (?E ! a) (?E ! b) (qi_instances q)" if "a < b" "b < length ?E" for a b
    using c that by (simp add: copies_def)
  have al1: "alike (qi_names q) (?E ! i) (?E ! j)" using copies_alike [OF c] mem by blast
  have al2: "alike (qi_names q) (hd ?E) (?E ! k)" if "k < length ?E" for k
    using copies_alike [OF c] mem that by auto
  have ne: "?E ! i \<noteq> []" "map val_outputs (?v (?E ! i)) \<noteq> map val_outputs (?v (?E ! j))"
    using different_outputs_values [OF _ m al1] ap [OF ij] ij by (auto simp: pair_apart_def)
  have nonempty: "es \<noteq> []" if "es \<in> set ?E" for es
    using copies_alike [OF c mem(1) that] ne(1) by (auto simp: alike_def)
  have first: "map val_inputs (?v (hd ?E)) = map val_inputs (?v (?E ! k)) \<and>
      map (eval un bin prd \<mu>) (expr_states (at_start (hd ?E))) = map (eval un bin prd \<mu>) (expr_states (at_start (?E ! k)))"
    if k: "k < length ?E" for k
  proof (cases k)
    case (Suc n)
    then have "pair_apart (hd ?E) (?E ! 0) (?E ! k) (qi_instances q)" using ap k by simp
    then have f: "in_force (same_inputs (hd ?E) (?E ! k)) (qi_instances q)" "in_force (same_states (hd ?E) (?E ! k)) (qi_instances q)"
      by (simp_all add: pair_apart_def)
    show ?thesis
      using same_inputs_values [OF f(1) m al2 [OF k]] same_states_values [OF f(2) m] alike_start [OF al2 [OF k] nonempty [OF mem(3)]]
      by blast
  qed (use E in \<open>simp add: hd_conv_nth\<close>)
  have at: "?v es ! 0 = eval_mapping (eval un bin prd \<mu>) (at_start es)" if "es \<in> set ?E" for es
    using nonempty [OF that] by (simp add: at_start_def)
  have "in_force (different_secrets (?E ! i) (?E ! j)) (qi_instances q)" using ap [OF ij] by (simp add: pair_apart_def)
  from different_secrets_values [OF this m alike_start [OF al1 ne(1)]]
  have "list_all2 (\<noteq>) (val_secrets (?v (?E ! i) ! 0)) (val_secrets (?v (?E ! j) ! 0))"
    unfolding at [OF mem(1)] at [OF mem(2)] eval_mapping_simps .
  moreover have "val_states (?v (?E ! i) ! 0) = val_states (?v (?E ! j) ! 0)"
    unfolding at [OF mem(1)] at [OF mem(2)] eval_mapping_simps using first [of i] first [of j] ij by simp
  moreover have "map val_inputs (?v (?E ! i)) = map val_inputs (?v (?E ! j))" using first [of i] first [of j] ij by simp
  ultimately show ?thesis using ne(2) by (simp add: told_apart_def)
qed

lemma copies_classes:
  assumes "copies print q" "models un bin prd \<mu> (qi_instances q)"
  shows "classes un bin prd print q (map (map (eval_mapping (eval un bin prd \<mu>))) (qi_exprs q))"
proof -
  have "steady (map (eval_mapping (eval un bin prd \<mu>)) es) \<and> execution un bin prd print q (map (eval_mapping (eval un bin prd \<mu>)) es)"
    if "es \<in> set (qi_exprs q)" for es
  proof -
    have c: "copy_of_design print q es (qi_instances q)" using assms(1) that by (simp add: copies_def)
    then show ?thesis
      using steady_values [OF _ assms(2), of es "length (pn_secrets (qi_names q))"] copy_execution [OF c assms(2)] copy_of_design_facts [OF c]
      by (auto simp: copy_of_design_def shape_def)
  qed
  then show ?thesis using copies_told_apart [OF assms] by (auto simp: classes_def sorted_wrt_iff_nth_less)
qed

section \<open>The step in between\<close>

text \<open>The constraints of the step: what they say of the next values.\<close>

definition new_values :: "smt_mapping list \<Rightarrow> smt_values list \<Rightarrow> form list" where
  "new_values es v = new_secret es v @ [mk_or (diff_sequence es v)]"

definition step_asserted :: "smt_mapping list \<Rightarrow> smt_values list list \<Rightarrow> assertions \<Rightarrow> bool" where
  "step_asserted es vs s \<longleftrightarrow>
     (\<forall>\<mu> un bin prd. models un bin prd \<mu> s \<longrightarrow>
        (\<forall>f \<in> set (same_run es (hd vs)). holds un bin prd \<mu> f) \<and>
        (\<forall>v \<in> set vs. \<forall>f \<in> set (new_values es v). holds un bin prd \<mu> f)) \<and>
     (\<forall>f \<in> set (same_run es (hd vs)). wf_form f) \<and> (\<forall>v \<in> set vs. \<forall>f \<in> set (new_values es v). wf_form f)"

lemma models_stronger: "models un bin prd \<mu> s' \<Longrightarrow> stronger s s' \<Longrightarrow> models un bin prd \<mu> s"
  unfolding models_def stronger_def satisfies_def by blast

lemma start_step_asserted:
  assumes "start_step q = Inr s" "qi_values q \<noteq> []"
  shows "step_asserted (qi_step_exprs q) (qi_values q) s" "stronger (qi_intermediate q) s"
proof -
  obtain s1 where s1: "assert_all [mk_and (same_run (qi_step_exprs q) (hd (qi_values q)) @ concat (map (new_secret (qi_step_exprs q)) (qi_values q)))] (qi_intermediate q) = Inr s1"
    and s: "assert_all (map (\<lambda>vals. mk_or (diff_sequence (qi_step_exprs q) vals)) (qi_values q)) s1 = Inr s"
    using assms(1) by (auto simp: start_step_def bnd_eq_Inr Let_def)
  note f1 = assert_all_in_force [OF s1] and f2 = assert_all_in_force [OF s]
  then show "stronger (qi_intermediate q) s" using stronger_trans by blast
  have "in_force [mk_and (same_run (qi_step_exprs q) (hd (qi_values q)) @ concat (map (new_secret (qi_step_exprs q)) (qi_values q)))] s"
    using f1 f2 in_force_stronger by blast
  then show "step_asserted (qi_step_exprs q) (qi_values q) s"
    using f2 by (auto simp: step_asserted_def new_values_def in_force_def models_def satisfies_def holds_mk_and wf_mk_and ball_Un)
qed

lemma step_asserted_add:
  assumes old: "step_asserted es vs s0" and ne: "vs \<noteq> []" and up: "stronger s0 s"
    and new: "in_force [mk_and (new_secret es v), mk_or (diff_sequence es v)] s"
  shows "step_asserted es (vs @ [v]) s"
proof -
  have v: "wf_form f \<and> (models un bin prd \<mu> s \<longrightarrow> holds un bin prd \<mu> f)" if "f \<in> set (new_values es v)" for f \<mu> un bin prd
    using new that by (auto simp: new_values_def in_force_def models_def satisfies_def holds_mk_and wf_mk_and)
  have o: "models un bin prd \<mu> s \<Longrightarrow> (\<forall>f \<in> set (same_run es (hd vs)). holds un bin prd \<mu> f) \<and>
        (\<forall>v \<in> set vs. \<forall>f \<in> set (new_values es v). holds un bin prd \<mu> f)" for \<mu> un bin prd
    using old models_stronger [OF _ up] unfolding step_asserted_def by blast
  show ?thesis using old v o ne unfolding step_asserted_def by simp
qed

lemma equals_value_eval:
  assumes "smt_bv un bin prd" "holds un bin prd \<mu> (equals_value (t, eval un bin prd \<mu>' t))" "wf_form (equals_value (t, eval un bin prd \<mu>' t))"
  shows "eval un bin prd \<mu> t = eval un bin prd \<mu>' t"
  using assms smt_bv.ev_range [OF assms(1), of t \<mu>'] by (simp add: equals_value_def translate_value_to_constant_def take_bit_int_eq_self)

lemma differs_from_value_eval:
  assumes "smt_bv un bin prd" "holds un bin prd \<mu> (differs_from_value (t, a))" "wf_form (differs_from_value (t, a))"
  shows "eval un bin prd \<mu> t \<noteq> a"
  using assms smt_bv.ev_range [OF assms(1), of t \<mu>]
  by (auto simp: differs_from_value_def translate_value_to_constant_def take_bit_int_eq_self)

definition value_shape :: "portnames \<Rightarrow> smt_values \<Rightarrow> bool" where
  "value_shape pn v \<longleftrightarrow> length (val_inputs v) = length (pn_inputs pn) \<and> length (val_outputs v) = length (pn_outputs pn) \<and>
     length (val_secrets v) = length (pn_secrets pn) \<and> length (val_states v) = length (pn_states pn)"

lemma execution_shape:
  assumes "execution un bin prd print q v"
  shows "length v = unat (qi_unroll q)" "\<forall>x \<in> set v. value_shape (qi_names q) x"
proof -
  obtain \<mu> d s s' es where es: "create_unrolled_instance print q d s = Inr (es, s')" and v: "v = map (eval_mapping (eval un bin prd \<mu>)) es"
    using assms unfolding execution_def by blast
  from create_unrolled_instance_facts(1,2) [OF es]
  show "length v = unat (qi_unroll q)" "\<forall>x \<in> set v. value_shape (qi_names q) x"
    by (auto simp: v value_shape_def shape_def)
qed

text \<open>New values against values that were found.\<close>

definition fits :: "portnames \<Rightarrow> smt_mapping list \<Rightarrow> smt_values list \<Rightarrow> bool" where
  "fits pn es v \<longleftrightarrow> length v = length es \<and> (\<forall>e \<in> set es. shape pn e) \<and> (\<forall>x \<in> set v. value_shape pn x)"

lemma fits_nth: "fits pn es v \<Longrightarrow> t < length es \<Longrightarrow> shape pn (es ! t) \<and> value_shape pn (v ! t)"
  by (simp add: fits_def)

lemma diff_sequence_values:
  assumes bv: "smt_bv un bin prd" and h: "holds un bin prd \<mu> (mk_or (diff_sequence es v))" and w: "wf_form (mk_or (diff_sequence es v))"
    and f: "fits pn es v"
  shows "map val_outputs v \<noteq> map val_outputs (map (eval_mapping (eval un bin prd \<mu>)) es) \<and> es \<noteq> []"
proof -
  obtain k e x where k: "k < length (expr_outputs (at_start es))" "(e, x) \<in> set (zip es v)"
    and d: "holds un bin prd \<mu> (differs_from_value (expr_outputs e ! k, val_outputs x ! k))"
      "wf_form (differs_from_value (expr_outputs e ! k, val_outputs x ! k))"
    using h w by (fastforce simp: holds_mk_or wf_mk_or diff_sequence_def)
  from k(2) obtain t where t: "t < length es" "t < length v" "e = es ! t" "x = v ! t" by (auto simp: set_zip)
  have "0 < length es" using t by linarith
  then have "k < length (expr_outputs (es ! t))" "k < length (val_outputs (v ! t))"
    using k(1) fits_nth [OF f t(1)] fits_nth [OF f, of 0] by (auto simp: shape_def value_shape_def at_start_def)
  then have "val_outputs (v ! t) ! k \<noteq> map (eval un bin prd \<mu>) (expr_outputs (es ! t)) ! k"
    using differs_from_value_eval [OF bv d] t by simp
  then have "map val_outputs v ! t \<noteq> map val_outputs (map (eval_mapping (eval un bin prd \<mu>)) es) ! t" using t by auto
  then have "map val_outputs v \<noteq> map val_outputs (map (eval_mapping (eval un bin prd \<mu>)) es)" by metis
  then show ?thesis using t by auto
qed

lemma new_secret_values:
  assumes bv: "smt_bv un bin prd" and h: "\<forall>g \<in> set (new_secret es v). holds un bin prd \<mu> g \<and> wf_form g"
    and f: "fits pn es v" "es \<noteq> []"
  shows "list_all2 (\<noteq>) (val_secrets (v ! 0)) (map (eval un bin prd \<mu>) (expr_secrets (at_start es)))"
proof -
  have "length (val_secrets (v ! 0)) = length (expr_secrets (at_start es))"
    using fits_nth [OF f(1), of 0] f(2) by (simp add: shape_def value_shape_def at_start_def)
  moreover have "val_secrets (v ! 0) ! k \<noteq> eval un bin prd \<mu> (expr_secrets (at_start es) ! k)"
    if "k < length (expr_secrets (at_start es))" for k
  proof -
    have "(expr_secrets (at_start es) ! k, val_secrets (v ! 0) ! k) \<in> set (zip (expr_secrets (at_start es)) (val_secrets (v ! 0)))"
      using that calculation by (auto simp: set_zip)
    then have "differs_from_value (expr_secrets (at_start es) ! k, val_secrets (v ! 0) ! k) \<in> set (new_secret es v)"
      by (simp add: new_secret_def)
    then show ?thesis using h differs_from_value_eval [OF bv] by metis
  qed
  ultimately show ?thesis by (simp add: list_all2_conv_all_nth)
qed

lemma same_run_values:
  assumes bv: "smt_bv un bin prd" and h: "\<forall>g \<in> set (same_run es (map (eval_mapping (eval un bin prd \<mu>0)) es)). holds un bin prd \<mu> g \<and> wf_form g"
    and sh: "\<forall>e \<in> set es. shape pn e" and ne: "es \<noteq> []"
  shows "map val_inputs (map (eval_mapping (eval un bin prd \<mu>0)) es) = map val_inputs (map (eval_mapping (eval un bin prd \<mu>)) es)"
    and "map (eval un bin prd \<mu>0) (expr_states (at_start es)) = map (eval un bin prd \<mu>) (expr_states (at_start es))"
proof -
  let ?v = "map (eval_mapping (eval un bin prd \<mu>0)) es"
  have "map (eval un bin prd \<mu>0) (expr_inputs e) = map (eval un bin prd \<mu>) (expr_inputs e)" if e: "e \<in> set es" for e
  proof (rule nth_equalityI)
    fix k
    assume k: "k < length (map (eval un bin prd \<mu>0) (expr_inputs e))"
    have "length (expr_inputs (at_start es)) = length (expr_inputs e)"
      using sh e at_start_all [OF ne sh] by (simp add: shape_def)
    moreover have "(e, eval_mapping (eval un bin prd \<mu>0) e) \<in> set (zip es ?v)"
      using e by (auto simp: set_zip in_set_conv_nth)
    ultimately have "equals_value (expr_inputs e ! k, eval un bin prd \<mu>0 (expr_inputs e ! k)) \<in> set (same_run es ?v)"
      using k unfolding same_run_def by (auto intro!: disjI1 bexI [of _ k] image_eqI [of _ _ "(e, eval_mapping (eval un bin prd \<mu>0) e)"])
    then show "map (eval un bin prd \<mu>0) (expr_inputs e) ! k = map (eval un bin prd \<mu>) (expr_inputs e) ! k"
      using h equals_value_eval [OF bv] k by (metis length_map nth_map)
  qed simp
  then show "map val_inputs ?v = map val_inputs (map (eval_mapping (eval un bin prd \<mu>)) es)" by simp
  have at: "?v ! 0 = eval_mapping (eval un bin prd \<mu>0) (at_start es)" using ne by (simp add: at_start_def)
  show "map (eval un bin prd \<mu>0) (expr_states (at_start es)) = map (eval un bin prd \<mu>) (expr_states (at_start es))"
  proof (rule nth_equalityI)
    fix k
    assume k: "k < length (map (eval un bin prd \<mu>0) (expr_states (at_start es)))"
    then have "equals_value (expr_states (at_start es) ! k, eval un bin prd \<mu>0 (expr_states (at_start es) ! k)) \<in> set (same_run es ?v)"
      by (force simp: same_run_def at set_zip)
    then show "map (eval un bin prd \<mu>0) (expr_states (at_start es)) ! k = map (eval un bin prd \<mu>) (expr_states (at_start es)) ! k"
      using h equals_value_eval [OF bv] k by (metis length_map nth_map)
  qed simp
qed

lemma classes_fit:
  assumes "classes un bin prd print q vs" "copy_of_design print q es s" "v \<in> set vs"
  shows "fits (qi_names q) es v"
  using assms execution_shape [of un bin prd print q v] copy_of_design_facts [OF assms(2)] by (auto simp: classes_def fits_def)

lemma step_outputs:
  assumes bv: "smt_bv un bin prd" and "classes un bin prd print q vs" "copy_of_design print q es s" "v \<in> set vs"
    and st: "step_asserted es vs s" and m: "models un bin prd \<mu> s"
  shows "map val_outputs v \<noteq> map val_outputs (map (eval_mapping (eval un bin prd \<mu>)) es)" "es \<noteq> []"
proof -
  have "holds un bin prd \<mu> (mk_or (diff_sequence es v))" "wf_form (mk_or (diff_sequence es v))"
    using st m assms(4) by (simp_all add: step_asserted_def new_values_def)
  from diff_sequence_values [OF bv this classes_fit [OF assms(2-4)]]
  show "map val_outputs v \<noteq> map val_outputs (map (eval_mapping (eval un bin prd \<mu>)) es)" "es \<noteq> []" by simp_all
qed

lemma step_classes:
  assumes bv: "smt_bv un bin prd" and cl: "classes un bin prd print q vs" and vs: "vs \<noteq> []"
    and hd: "hd vs = map (eval_mapping (eval un bin prd \<mu>0)) es"
    and c: "copy_of_design print q es s" and st: "step_asserted es vs s" and m: "models un bin prd \<mu> s"
  shows "classes un bin prd print q (vs @ [map (eval_mapping (eval un bin prd \<mu>)) es])"
proof -
  let ?w = "map (eval_mapping (eval un bin prd \<mu>)) es"
  note len = copy_of_design_facts [OF c]
  note fit = classes_fit [OF cl c] and dif = step_outputs [OF bv cl c _ st m]
  have ne: "es \<noteq> []" using dif(2) [of "hd vs"] vs by simp
  have run: "\<forall>g \<in> set (same_run es (map (eval_mapping (eval un bin prd \<mu>0)) es)). holds un bin prd \<mu> g \<and> wf_form g"
    using st m unfolding step_asserted_def hd by blast
  have wat: "?w ! 0 = eval_mapping (eval un bin prd \<mu>) (at_start es)" "hd vs ! 0 = eval_mapping (eval un bin prd \<mu>0) (at_start es)"
    using ne by (simp_all add: at_start_def hd)
  have "told_apart v ?w" if v: "v \<in> set vs" for v
  proof -
    have "v = hd vs \<or> told_apart (hd vs) v" using cl v vs by (cases vs) (auto simp: classes_def)
    then have 1: "map val_inputs v = map val_inputs (hd vs)" "val_states (v ! 0) = val_states (hd vs ! 0)"
      by (auto simp: told_apart_def)
    have 2: "\<forall>g \<in> set (new_secret es v). holds un bin prd \<mu> g \<and> wf_form g"
      using st m v unfolding step_asserted_def new_values_def by auto
    note same = same_run_values [OF bv run len(2) ne]
    have 3: "val_states (v ! 0) = map (eval un bin prd \<mu>) (expr_states (at_start es))"
      unfolding 1(2) wat(2) eval_mapping_simps by (rule same(2))
    have 4: "map val_inputs v = map val_inputs ?w" unfolding 1(1) hd by (rule same(1))
    show ?thesis
      using new_secret_values [OF bv 2 fit [OF v] ne] 3 4 dif(1) [OF v] unfolding told_apart_def wat by simp
  qed
  moreover have "steady ?w"
    using c m len(2) steady_values [of es s un bin prd \<mu> "length (pn_secrets (qi_names q))"] by (auto simp: copy_of_design_def shape_def)
  ultimately show ?thesis using cl copy_execution [OF c m] by (simp add: classes_def sorted_wrt_append)
qed

lemma copies_within:
  assumes bv: "smt_bv un bin prd" and c: "copies print q" and m: "models un bin prd \<mu> (qi_instances q)"
    and two: "2 \<le> length (qi_exprs q)" and es: "es \<in> set (qi_exprs q)"
  shows "within (secret_widths (hd (qi_exprs q))) (map (eval_mapping (eval un bin prd \<mu>)) es)"
proof -
  let ?E = "qi_exprs q"
  have hdE: "hd ?E = ?E ! 0" "?E \<noteq> []" using two by (cases ?E; simp)+
  have ap: "pair_apart (hd ?E) (?E ! 0) (?E ! k) (qi_instances q)" if "0 < k" "k < length ?E" for k
    using c that by (simp add: copies_def)
  have pair: "ws a \<and> ws b \<and> bv_size a = bv_size b"
    if "(a, b) \<in> set (zip (expr_secrets (at_start (hd ?E))) (expr_secrets (at_start (?E ! k))))" "0 < k" "k < length ?E" for a b k
  proof -
    have "FNe a b \<in> set (different_secrets (?E ! 0) (?E ! k))" using that hdE by (force simp: different_secrets_def)
    then show ?thesis using ap [OF that(2,3)] by (auto simp: pair_apart_def in_force_def)
  qed
  have alike: "alike (qi_names q) (hd ?E) x" if "x \<in> set ?E" for x using copies_alike [OF c _ that] hdE by simp
  have "output_diff_constraints (?E ! 0) (?E ! 1) \<noteq> []"
  proof
    assume "output_diff_constraints (?E ! 0) (?E ! 1) = []"
    then have "in_force [FNe (BVal 0 1) (BVal 0 1)] (qi_instances q)" using ap [of 1] two by (simp add: pair_apart_def)
    from in_force_holds [OF this m] show False by simp
  qed
  then have ne: "hd ?E \<noteq> []" by (auto simp: output_diff_constraints_def hdE)
  have "es \<noteq> []" using alike [OF es] ne by (auto simp: alike_def)
  then have at: "map (eval_mapping (eval un bin prd \<mu>)) es ! 0 = eval_mapping (eval un bin prd \<mu>) (at_start es)"
    by (simp add: at_start_def)
  have lens: "length (expr_secrets (at_start x)) = length (pn_secrets (qi_names q))" if "x \<in> set ?E" for x
    using alike_start(2) [OF alike [OF that] ne] by (simp add: shape_def)
  show ?thesis unfolding within_def at eval_mapping_simps
  proof (rule list_all2_all_nthI)
    show "length (secret_widths (hd ?E)) = length (map (eval un bin prd \<mu>) (expr_secrets (at_start es)))"
      using lens [OF es] lens [of "hd ?E"] hdE by (simp add: secret_widths_def)
    fix i assume i: "i < length (secret_widths (hd ?E))"
    obtain k where k: "k < length ?E" "es = ?E ! k" using es by (auto simp: in_set_conv_nth)
    have z: "(expr_secrets (at_start (hd ?E)) ! i, expr_secrets (at_start (?E ! j)) ! i) \<in>
        set (zip (expr_secrets (at_start (hd ?E))) (expr_secrets (at_start (?E ! j))))" if "j < length ?E" for j
      using i lens [of "?E ! j"] lens [of "hd ?E"] hdE that by (auto simp: set_zip secret_widths_def)
    have "ws (expr_secrets (at_start es) ! i) \<and> bv_size (expr_secrets (at_start es) ! i) = secret_widths (hd ?E) ! i"
    proof (cases "k = 0")
      case True
      then show ?thesis using pair [OF z [of 1]] two k hdE i by (simp add: secret_widths_def)
    qed (use pair [OF z [OF k(1)]] k i in \<open>simp add: secret_widths_def\<close>)
    then show "bv_range (secret_widths (hd ?E) ! i) (map (eval un bin prd \<mu>) (expr_secrets (at_start es)) ! i)"
      using smt_bv.ev_range [OF bv, of "expr_secrets (at_start es) ! i" \<mu>] i lens [OF es] lens [of "hd ?E"] hdE
      by (simp add: secret_widths_def)
  qed
qed

lemma step_within:
  assumes bv: "smt_bv un bin prd" and w: "\<forall>g \<in> set (new_secret es v). wf_form g" and f: "fits pn es v" and ne: "es \<noteq> []"
  shows "within (secret_widths es) (map (eval_mapping (eval un bin prd \<mu>)) es)"
proof -
  have at: "map (eval_mapping (eval un bin prd \<mu>)) es ! 0 = eval_mapping (eval un bin prd \<mu>) (at_start es)"
    using ne by (simp add: at_start_def)
  have len: "length (val_secrets (v ! 0)) = length (expr_secrets (at_start es))"
    using fits_nth [OF f, of 0] ne by (simp add: shape_def value_shape_def at_start_def)
  have "ws t" if t: "t \<in> set (expr_secrets (at_start es))" for t
  proof -
    obtain a where "(t, a) \<in> set (zip (expr_secrets (at_start es)) (val_secrets (v ! 0)))"
      using t len by (metis in_set_impl_in_set_zip1)
    then have "differs_from_value (t, a) \<in> set (new_secret es v)" by (force simp: new_secret_def)
    then show ?thesis using w by (auto simp: differs_from_value_def)
  qed
  then show ?thesis unfolding within_def at eval_mapping_simps secret_widths_def
    using smt_bv.ev_range [OF bv, of _ \<mu>] by (auto simp: list_all2_conv_all_nth)
qed

lemma get_values_sound:
  assumes "sound_solver un bin prd check" "check k s = Sat m"
  obtains \<mu> where "models un bin prd \<mu> s" "\<forall>es vs. get_values es m = Inr vs \<longrightarrow> vs = map (eval_mapping (eval un bin prd \<mu>)) es"
    "\<forall>ess vs. get_all_values ess m = Inr vs \<longrightarrow> vs = map (map (eval_mapping (eval un bin prd \<mu>))) ess"
proof -
  from assms(1) [unfolded sound_solver_def, THEN spec [of _ k], THEN spec [of _ s]] assms(2)
  obtain \<mu> ma where mu: "satisfies un bin prd \<mu> ma s" "\<forall>t v. m t = Some v \<longrightarrow> v = eval un bin prd \<mu> t" by auto
  then show ?thesis
    using that [of \<mu>] get_values_eval [OF mu(2)] get_all_values_eval [OF mu(2)] by (auto simp: satisfies_def models_def)
qed

definition step_inv ::
  "(unop \<Rightarrow> nat \<Rightarrow> int \<Rightarrow> int) \<Rightarrow> (binop \<Rightarrow> nat \<Rightarrow> int \<Rightarrow> int \<Rightarrow> int) \<Rightarrow>
   (cmp \<Rightarrow> nat \<Rightarrow> int \<Rightarrow> int \<Rightarrow> bool) \<Rightarrow> (bv \<Rightarrow> string) \<Rightarrow> qifa \<Rightarrow> bool"
where
  "step_inv un bin prd print q \<longleftrightarrow>
     copy_of_design print q (qi_step_exprs q) (qi_intermediate q) \<and>
     step_asserted (qi_step_exprs q) (qi_values q) (qi_intermediate q) \<and> qi_values q \<noteq> [] \<and>
     (\<exists>\<mu>0. hd (qi_values q) = map (eval_mapping (eval un bin prd \<mu>0)) (qi_step_exprs q)) \<and>
     classes un bin prd print q (qi_values q) \<and> (\<forall>v \<in> set (qi_values q). within (secret_widths (qi_step_exprs q)) v)"

lemma classes_update [simp]:
  "classes un bin prd print (q\<lparr>qi_exprs := a\<rparr>) = classes un bin prd print q"
  "classes un bin prd print (q\<lparr>qi_instances := b\<rparr>) = classes un bin prd print q"
  "classes un bin prd print (q\<lparr>qi_id := c\<rparr>) = classes un bin prd print q"
  "classes un bin prd print (q\<lparr>qi_step_exprs := e\<rparr>) = classes un bin prd print q"
  "classes un bin prd print (q\<lparr>qi_intermediate := f\<rparr>) = classes un bin prd print q"
  "classes un bin prd print (q\<lparr>qi_questions := g\<rparr>) = classes un bin prd print q"
  "classes un bin prd print (q\<lparr>qi_result := h\<rparr>) = classes un bin prd print q"
  "classes un bin prd print (q\<lparr>qi_values := i\<rparr>) = classes un bin prd print q"
  by (simp_all add: classes_def execution_def fun_eq_iff)

lemma step_loop_inv:
  assumes bv: "smt_bv un bin prd" and sound: "sound_solver un bin prd check"
  shows "step_loop check k q = Inr q' \<Longrightarrow> step_inv un bin prd print q \<Longrightarrow>
    step_inv un bin prd print q' \<and>
    (\<exists>i r vs s n. q' = q\<lparr>qi_id := i, qi_result := r, qi_values := vs, qi_intermediate := s, qi_questions := n\<rparr> \<and> qi_id q \<le> i)"
proof (induction k arbitrary: q)
  case 0
  then show ?case
    by (intro conjI exI [of _ "qi_id q"] exI [of _ "qi_result q"] exI [of _ "qi_values q"] exI [of _ "qi_intermediate q"]
        exI [of _ "qi_questions q"]) simp_all
next
  case (Suc k)
  let ?es = "qi_step_exprs q" and ?vs = "qi_values q" and ?s = "qi_intermediate q"
  have inv: "copy_of_design print q ?es ?s" "step_asserted ?es ?vs ?s" "?vs \<noteq> []" "classes un bin prd print q ?vs"
    "\<forall>v \<in> set ?vs. within (secret_widths ?es) v" and hd: "\<exists>\<mu>0. hd ?vs = map (eval_mapping (eval un bin prd \<mu>0)) ?es"
    using Suc.prems(2) by (simp_all add: step_inv_def)
  show ?case
  proof (cases "check (qi_questions q) ?s")
    case (Sat m)
    obtain \<mu> where mu: "models un bin prd \<mu> ?s" "\<forall>es vs. get_values es m = Inr vs \<longrightarrow> vs = map (eval_mapping (eval un bin prd \<mu>)) es"
      by (rule get_values_sound [OF sound Sat])
    obtain vals s where vals: "get_values ?es m = Inr vals"
      and s: "assert_all [mk_and (new_secret ?es vals), mk_or (diff_sequence ?es vals)] ?s = Inr s"
      and rest: "step_loop check k (q\<lparr>qi_id := qi_id q + 1, qi_questions := qi_questions q + 1, qi_result := sat,
          qi_values := ?vs @ [vals], qi_intermediate := s\<rparr>) = Inr q'"
      using Suc.prems(1) Sat by (auto simp: bnd_eq_Inr Let_def)
    note f = assert_all_in_force [OF s]
    have v: "vals = map (eval_mapping (eval un bin prd \<mu>)) ?es" using mu(2) vals by blast
    obtain \<mu>0 where hd0: "hd ?vs = map (eval_mapping (eval un bin prd \<mu>0)) ?es" using hd by blast
    have cl: "classes un bin prd print q (?vs @ [vals])"
      unfolding v by (rule step_classes [OF bv inv(4,3) hd0 inv(1,2) mu(1)])
    have st: "step_asserted ?es (?vs @ [vals]) s"
      using step_asserted_add [OF inv(2,3)] f by blast
    have c: "copy_of_design print q ?es s" using inv(1) f copy_stronger by blast
    have wi: "within (secret_widths ?es) vals"
    proof -
      have m: "hd ?vs \<in> set ?vs" using inv(3) by simp
      moreover from this have "\<forall>g \<in> set (new_secret ?es (hd ?vs)). wf_form g"
        using inv(2) unfolding step_asserted_def new_values_def by auto
      ultimately show ?thesis
        unfolding v using step_within [OF bv _ classes_fit [OF inv(4,1)]] step_outputs(2) [OF bv inv(4,1) _ inv(2) mu(1)] by blast
    qed
    let ?q = "q\<lparr>qi_id := qi_id q + 1, qi_questions := qi_questions q + 1, qi_result := sat,
          qi_values := ?vs @ [vals], qi_intermediate := s\<rparr>"
    have "step_inv un bin prd print ?q"
      using cl st c wi inv(5) hd0 inv(3) by (auto simp: step_inv_def Let_def)
    from Suc.IH [OF rest this] show ?thesis by fastforce
  next
    case Unsat
    then have q': "q' = q\<lparr>qi_id := qi_id q + 1, qi_questions := qi_questions q + 1, qi_result := unsat\<rparr>"
      using Suc.prems(1) by (simp add: Let_def)
    then have "step_inv un bin prd print q'" using Suc.prems(2) by (simp add: step_inv_def)
    then show ?thesis
      by (intro conjI exI [of _ "qi_id q + 1"] exI [of _ unsat] exI [of _ "qi_values q"] exI [of _ "qi_intermediate q"]
        exI [of _ "qi_questions q + 1"]) (simp_all add: q')
  qed (use Suc.prems(1) in simp)
qed

end
