(* ===== verification/QifaClasses.thy ===== *)
theory QifaClasses
  imports QifaFacts
begin

text \<open>
  The results of the quantitative analysis (\<open>include/ducode/qifa_smt.hpp\<close>): what its main loop finds are
  executions that an observer can tell apart, how many there can be, and that it does not end without
  the step in between. The samples at the end are a design that copies its secret to its output.
\<close>

section \<open>The main loop\<close>

definition analysis_inv ::
  "(unop \<Rightarrow> nat \<Rightarrow> int \<Rightarrow> int) \<Rightarrow> (binop \<Rightarrow> nat \<Rightarrow> int \<Rightarrow> int \<Rightarrow> int) \<Rightarrow>
   (cmp \<Rightarrow> nat \<Rightarrow> int \<Rightarrow> int \<Rightarrow> bool) \<Rightarrow> (bv \<Rightarrow> string) \<Rightarrow> qifa \<Rightarrow> qifa \<Rightarrow> bool"
where
  "analysis_inv un bin prd print q0 q \<longleftrightarrow>
     create_unrolled_instance print q = create_unrolled_instance print q0 \<and> copies print q \<and> (qi_id q = 0 \<longrightarrow> qi_exprs q = [] \<and> qi_values q = []) \<and>
     (qi_values q \<noteq> [] \<longrightarrow> qi_exprs q \<noteq> []) \<and>
     classes un bin prd print q (qi_values q) \<and>
     (\<forall>v \<in> set (qi_values q). within (secret_widths (hd (qi_exprs q))) v) \<and>
     (qi_step q \<longrightarrow> copy_of_design print q (qi_step_exprs q) (qi_intermediate q) \<and>
        (\<exists>s. create_unrolled_instance print q 0 ([], []) = Inr (qi_step_exprs q, s)))"

lemma copies_update [simp]:
  "copies print (q\<lparr>qi_id := c\<rparr>) = copies print q"
  "copies print (q\<lparr>qi_step_exprs := e\<rparr>) = copies print q"
  "copies print (q\<lparr>qi_intermediate := f\<rparr>) = copies print q"
  "copies print (q\<lparr>qi_questions := g\<rparr>) = copies print q"
  "copies print (q\<lparr>qi_result := h\<rparr>) = copies print q"
  "copies print (q\<lparr>qi_values := i\<rparr>) = copies print q"
  by (simp_all add: copies_def)

lemma copies_first:
  assumes "copies print q" "qi_exprs q \<noteq> []" "create_unrolled_instance print q 0 ([], []) = Inr (es, s)"
  shows "hd (qi_exprs q) = es"
  using assms by (auto simp: copies_def)

lemma add_instances_inv:
  assumes "add_instances print params q = Inr q'" "analysis_inv un bin prd print q0 q"
  shows "copies print q' \<and> (\<exists>E s. q' = q\<lparr>qi_exprs := E, qi_instances := s\<rparr>) \<and> qi_exprs q' \<noteq> [] \<and>
    (qi_exprs q \<noteq> [] \<longrightarrow> hd (qi_exprs q') = hd (qi_exprs q))"
proof -
  have c: "copies print q" "qi_id q = 0 \<longrightarrow> qi_exprs q = []" using assms(2) by (simp_all add: analysis_inv_def)
  from add_instances_copies [OF assms(1) c] obtain E s where q': "copies print q'" "q' = q\<lparr>qi_exprs := E, qi_instances := s\<rparr>" by blast
  have ne: "qi_exprs q' \<noteq> []" using add_instances_length [OF assms(1)] by auto
  have "hd (qi_exprs q') = hd (qi_exprs q)" if old: "qi_exprs q \<noteq> []"
  proof -
    obtain s where "create_unrolled_instance print q 0 ([], []) = Inr (hd (qi_exprs q), s)"
      using c(1) old unfolding copies_def by auto
    then show ?thesis using copies_first [OF q'(1) ne] q'(2) by simp
  qed
  then show ?thesis using q' ne by blast
qed

lemma intermediate_step_inv:
  assumes bv: "smt_bv un bin prd" and sound: "sound_solver un bin prd check"
    and run: "intermediate_step check n q = Inr q'" and inv: "analysis_inv un bin prd print q0 q" and st: "qi_step q"
    and hd: "hd (qi_values q) = map (eval_mapping (eval un bin prd \<mu>)) (hd (qi_exprs q))" and ne: "qi_values q \<noteq> []"
  shows "analysis_inv un bin prd print q0 q' \<and> qi_id q \<le> qi_id q' \<and> qi_exprs q' = qi_exprs q"
proof -
  obtain s q1 where s: "start_step q = Inr s" and l: "step_loop check (n - qi_id q) (q\<lparr>qi_intermediate := s\<rparr>) = Inr q1"
    and q': "q' = q1\<lparr>qi_intermediate := qi_intermediate q\<rparr>"
    using run by (auto simp: intermediate_step_def bnd_eq_Inr)
  note a = start_step_asserted [OF s ne]
  have i: "copies print q" "qi_exprs q \<noteq> []" "classes un bin prd print q (qi_values q)" "qi_id q \<noteq> 0"
    "\<forall>v \<in> set (qi_values q). within (secret_widths (hd (qi_exprs q))) v"
    "copy_of_design print q (qi_step_exprs q) (qi_intermediate q)"
    using inv st ne by (auto simp: analysis_inv_def)
  obtain s0 where "create_unrolled_instance print q 0 ([], []) = Inr (qi_step_exprs q, s0)"
    using inv st by (auto simp: analysis_inv_def)
  from copies_first [OF i(1,2) this] have X: "hd (qi_exprs q) = qi_step_exprs q" .
  have "copy_of_design print q (qi_step_exprs q) s" by (rule copy_stronger [OF i(6) a(2)])
  then have "step_inv un bin prd print (q\<lparr>qi_intermediate := s\<rparr>)"
    using a(1) ne i(3,5) X hd by (auto simp: step_inv_def)
  from step_loop_inv [OF bv sound l this] obtain j r vs s1 m where
    q1: "step_inv un bin prd print q1" "q1 = (q\<lparr>qi_intermediate := s\<rparr>)\<lparr>qi_id := j, qi_result := r, qi_values := vs, qi_intermediate := s1, qi_questions := m\<rparr>"
    "qi_id q \<le> j" by auto
  have "classes un bin prd print q vs" "\<forall>v \<in> set vs. within (secret_widths (qi_step_exprs q)) v"
    using q1(1) by (simp_all add: q1(2) step_inv_def)
  then show ?thesis
    using inv X i q1(3) by (auto simp: q' q1(2) analysis_inv_def)
qed

lemma main_question_inv:
  assumes bv: "smt_bv un bin prd" and sound: "sound_solver un bin prd check"
    and run: "main_question check n q = Inr (again, q')" and inv: "analysis_inv un bin prd print q0 q"
    and two: "2 \<le> length (qi_exprs q)" and id: "qi_id q \<noteq> 0"
  shows "analysis_inv un bin prd print q0 q' \<and> qi_id q' \<noteq> 0 \<and> qi_exprs q' = qi_exprs q"
proof (cases "check (qi_questions q) (qi_instances q)")
  case (Sat m)
  obtain \<mu> where mu: "models un bin prd \<mu> (qi_instances q)"
      "\<forall>ess vs. get_all_values ess m = Inr vs \<longrightarrow> vs = map (map (eval_mapping (eval un bin prd \<mu>))) ess"
    by (rule get_values_sound [OF sound Sat])
  let ?vs = "map (map (eval_mapping (eval un bin prd \<mu>))) (qi_exprs q)"
  let ?q = "q\<lparr>qi_questions := Suc (qi_questions q), qi_result := sat, qi_values := ?vs\<rparr>"
  obtain found where "get_all_values (qi_exprs q) m = Inr found"
    "bnd (if qi_step q then intermediate_step check n (q\<lparr>qi_questions := Suc (qi_questions q), qi_result := sat, qi_values := found\<rparr>)
       else Inr (q\<lparr>qi_questions := Suc (qi_questions q), qi_result := sat, qi_values := found\<rparr>)) (\<lambda>q3. Inr (True, q3)) = Inr (again, q')"
    using run Sat by (auto simp: main_question_def bnd_eq_Inr Let_def)
  then have rest: "(if qi_step q then intermediate_step check n ?q else Inr ?q) = Inr q'" using mu(2) by (auto simp: bnd_eq_Inr)
  have c: "copies print q" using inv by (simp add: analysis_inv_def)
  have E: "qi_exprs q \<noteq> []" using two by auto
  have new: "analysis_inv un bin prd print q0 ?q"
    using inv id E copies_classes [OF c mu(1)] copies_within [OF bv c mu(1) two] by (auto simp: analysis_inv_def)
  have hd: "hd ?vs = map (eval_mapping (eval un bin prd \<mu>)) (hd (qi_exprs q))" using E by (simp add: hd_map)
  show ?thesis
  proof (cases "qi_step q")
    case True
    then have "intermediate_step check n ?q = Inr q'" using rest by simp
    moreover have "hd (qi_values ?q) = map (eval_mapping (eval un bin prd \<mu>)) (hd (qi_exprs ?q))" using hd by simp
    moreover have "qi_step ?q" "qi_values ?q \<noteq> []" using True E by simp_all
    ultimately have "analysis_inv un bin prd print q0 q' \<and> qi_id ?q \<le> qi_id q' \<and> qi_exprs q' = qi_exprs ?q"
      using intermediate_step_inv [OF bv sound _ new] by blast
    then show ?thesis using id by simp
  qed (use rest new id in auto)
next
  case Unsat
  then show ?thesis using run inv id by (auto simp: main_question_def Let_def analysis_inv_def)
qed (use run in \<open>simp add: main_question_def\<close>)

lemma main_loop_inv:
  assumes bv: "smt_bv un bin prd" and sound: "sound_solver un bin prd check"
  shows "main_loop k print check params n q = Inr q' \<Longrightarrow> analysis_inv un bin prd print q0 q \<Longrightarrow> analysis_inv un bin prd print q0 q'"
proof (induction k arbitrary: q)
  case (Suc k)
  show ?case
  proof (cases "qi_id q < n")
    case True
    then obtain q1 where q1: "add_instances print params q = Inr q1" and rest: "(if qi_id q1 = 0 then main_loop k print check params n (q1\<lparr>qi_id := 1\<rparr>)
        else bnd (main_question check n q1) (\<lambda>(again, q). if again then main_loop k print check params n q else Inr q)) = Inr q'"
      using Suc.prems(1) by (auto simp: bnd_eq_Inr)
    from add_instances_inv [OF q1 Suc.prems(2)] obtain E s where
      a: "copies print q1" "q1 = q\<lparr>qi_exprs := E, qi_instances := s\<rparr>" "qi_exprs q1 \<noteq> []"
        "qi_exprs q \<noteq> [] \<longrightarrow> hd (qi_exprs q1) = hd (qi_exprs q)" by blast
    have i1: "analysis_inv un bin prd print q0 (q1\<lparr>qi_id := Suc i\<rparr>)" for i
      using Suc.prems(2) a by (auto simp: analysis_inv_def)
    show ?thesis
    proof (cases "qi_id q1 = 0")
      case True
      then show ?thesis using Suc.IH [of "q1\<lparr>qi_id := 1\<rparr>"] rest i1 [of 0] by simp
    next
      case False
      then obtain again q2 where q2: "main_question check n q1 = Inr (again, q2)"
        "(if again then main_loop k print check params n q2 else Inr q2) = Inr q'"
        using rest by (auto simp: bnd_eq_Inr)
      have "analysis_inv un bin prd print q0 q1" using i1 [of "qi_id q1 - 1"] False by simp
      moreover have "2 \<le> length (qi_exprs q1)" using add_instances_length [OF q1] a(2) False by simp
      ultimately have "analysis_inv un bin prd print q0 q2" using main_question_inv [OF bv sound q2(1)] False by blast
      then show ?thesis using q2(2) Suc.IH by (auto split: if_splits)
    qed
  qed (use Suc.prems in simp)
qed simp

definition fresh_analysis :: "qifa \<Rightarrow> bool" where
  "fresh_analysis q \<longleftrightarrow> qi_exprs q = [] \<and> qi_values q = [] \<and> qi_id q = 0 \<and> qi_instances q = ([], []) \<and> qi_intermediate q = ([], [])"

lemma mk_qifa_fresh: "mk_qifa depth steps ord d params = Inr q \<Longrightarrow> fresh_analysis q"
  by (auto simp: mk_qifa_def bnd_eq_Inr chk_eq_Inr fresh_analysis_def)

lemma find_equivalence_classes_inv:
  assumes bv: "smt_bv un bin prd" and sound: "sound_solver un bin prd check" and q: "fresh_analysis q"
    and run: "find_equivalence_classes k print check params n q = Inr q'"
  shows "analysis_inv un bin prd print q q'"
proof -
  obtain q1 where q1: "start_intermediate print q = Inr q1" "main_loop k print check params (unat n) q1 = Inr q'"
    using run by (auto simp: find_equivalence_classes_def bnd_eq_Inr)
  have "analysis_inv un bin prd print q q1"
  proof (cases "qi_step q")
    case True
    then obtain es s s1 where e: "create_unrolled_instance print q 0 ([], []) = Inr (es, s)" "assert_all (constant_secrets es) s = Inr s1"
      "q1 = q\<lparr>qi_step_exprs := es, qi_intermediate := s1\<rparr>"
      using q1(1) q by (auto simp: start_intermediate_def fresh_analysis_def bnd_eq_Inr)
    have "copy_of_design print q es s1"
      using e(1) assert_all_in_force [OF e(2)] unfolding copy_of_design_def by blast
    then show ?thesis using q e by (auto simp: analysis_inv_def fresh_analysis_def copies_def classes_def)
  next
    case False
    then show ?thesis using q1(1) q
      by (auto simp: start_intermediate_def analysis_inv_def fresh_analysis_def copies_def classes_def)
  qed
  then show ?thesis using main_loop_inv [OF bv sound q1(2)] by blast
qed

section \<open>Results\<close>

text \<open>
  \<^bold>\<open>C11.\<close> Whatever the analysis returns as equivalence classes are values of executions of the unrolled
  design with a secret that is constant over time, and any two of them have the same inputs and
  initial states, secrets that differ in every signal, and different sequences of outputs. This holds
  for every solver whose answers are right, with and without the step in between.
\<close>
theorem equivalence_classes_sound:
  assumes "smt_bv un bin prd" "sound_solver un bin prd check" "fresh_analysis q"
    and "find_equivalence_classes k print check params n q = Inr q'"
  shows "sorted_wrt told_apart (qi_values q') \<and> (\<forall>v \<in> set (qi_values q'). steady v \<and> execution un bin prd print q v)"
  using find_equivalence_classes_inv [OF assms] by (auto simp: analysis_inv_def classes_def execution_def)

text \<open>
  \<^bold>\<open>C12.\<close> The analysis never returns more classes than the narrowest secret signal has values, however
  many values the secrets have together: two secrets that agree in one signal are never told apart.
\<close>
theorem equivalence_classes_bound:
  assumes "smt_bv un bin prd" "sound_solver un bin prd check" "fresh_analysis q"
    and "find_equivalence_classes k print check params n q = Inr q'"
    and w: "w \<in> set (secret_widths (hd (qi_exprs q')))"
  shows "length (qi_values q') \<le> 2 ^ w"
proof -
  note inv = find_equivalence_classes_inv [OF assms(1-4)]
  obtain i where i: "i < length (secret_widths (hd (qi_exprs q')))" "secret_widths (hd (qi_exprs q')) ! i = w"
    using w by (auto simp: in_set_conv_nth)
  let ?x = "\<lambda>v. val_secrets (v ! 0) ! i"
  have range: "i < length (val_secrets (v ! 0)) \<and> bv_range w (?x v)" if v: "v \<in> set (qi_values q')" for v
    using inv v i by (auto simp: analysis_inv_def within_def list_all2_conv_all_nth)
  have "sorted_wrt (\<lambda>v w. ?x v \<noteq> ?x w) (qi_values q')"
    using inv range unfolding analysis_inv_def classes_def
    by (auto simp: told_apart_def list_all2_conv_all_nth elim!: sorted_wrt_mono_rel [rotated])
  then have "distinct (map ?x (qi_values q'))"
    by (simp add: distinct_conv_nth sorted_wrt_iff_nth_less) (metis linorder_neqE_nat)
  then have "length (qi_values q') = card (?x ` set (qi_values q'))"
    using distinct_card by fastforce
  also have "\<dots> \<le> card {0..<2 ^ w :: int}" using range by (intro card_mono) auto
  finally show ?thesis by (simp add: nat_power_eq)
qed

text \<open>
  \<^bold>\<open>C13.\<close> Without the step in between the analysis never returns when it is asked for two or more classes
  and the two copies of the design can be told apart: the number of copies is not incremented, so the
  same question is asked again and again.
\<close>
theorem equivalence_classes_diverge:
  assumes q: "fresh_analysis q" "\<not> qi_step q" and n: "2 \<le> n"
    and add: "add_instances print params q = Inr q1" "add_instances print params (q1\<lparr>qi_id := 1\<rparr>) = Inr q2"
    and sat: "\<forall>i. \<exists>m vs. check i (qi_instances q2) = Sat m \<and> get_all_values (qi_exprs q2) m = Inr vs"
  shows "find_equivalence_classes k print check params n q = Inl Diverges"
proof -
  have two: "2 \<le> unat n" using n by (simp add: word_le_nat_alt)
  have "add_instance print params q = Inr q1" using q add(1) by (simp add: add_instances_def fresh_analysis_def bnd_eq_Inr)
  from add_instance_frame [OF this] q have q1: "qi_id q1 = 0" "\<not> qi_step q1" "length (qi_exprs q1) = 1"
    by (auto simp: fresh_analysis_def)
  then have "add_instance print params (q1\<lparr>qi_id := 1\<rparr>) = Inr q2"
    using add(2) by (simp add: add_instances_def bnd_eq_Inr upt_rec)
  from add_instance_frame [OF this] q1 have q2: "qi_id q2 = 1" "\<not> qi_step q2" "length (qi_exprs q2) = 2" by auto
  have loop: "main_loop k print check params (unat n) p = Inl Diverges"
    if "qi_id p = 1" "\<not> qi_step p" "length (qi_exprs p) = 2" "qi_instances p = qi_instances q2" "qi_exprs p = qi_exprs q2" for k p
    using that
  proof (induction k arbitrary: p)
    case (Suc k)
    obtain m vs where "check (qi_questions p) (qi_instances p) = Sat m" "get_all_values (qi_exprs p) m = Inr vs"
      using sat Suc.prems by metis
    then show ?case using Suc two by (simp add: add_instances_def main_question_def)
  qed simp
  obtain m vs where m: "check (qi_questions q2) (qi_instances q2) = Sat m" "get_all_values (qi_exprs q2) m = Inr vs" using sat by metis
  have "main_loop k print check params (unat n) q = Inl Diverges" for k
  proof (cases k)
    case (Suc i)
    then show ?thesis
    proof (cases i)
      case (Suc j)
      have "main_loop i print check params (unat n) (q1\<lparr>qi_id := 1\<rparr>) = Inl Diverges"
        using two add(2) q2 m loop [of "q2\<lparr>qi_questions := Suc (qi_questions q2), qi_result := sat, qi_values := vs\<rparr>" j]
        by (simp add: Suc main_question_def)
      then show ?thesis using two q add(1) q1 \<open>k = Suc i\<close> by (simp add: fresh_analysis_def)
    qed (use two q add(1) q1 in \<open>simp add: fresh_analysis_def\<close>)
  qed simp
  then show ?thesis using q by (simp add: find_equivalence_classes_def start_intermediate_def)
qed

section \<open>A design that leaks its secret\<close>

definition sample_input :: port where
  "sample_input = mk_port (\<lambda>_. 5) ''s'' ''s'' Input [Bit 2, Bit 3] False"

definition sample_output :: port where
  "sample_output = mk_port (\<lambda>_. 5) ''o'' ''o'' Output [Bit 2, Bit 3] False"

definition sample_wire :: inst_edge where
  "sample_wire = (mk_edge sample_input sample_output)\<lparr>ie_hierarchy := [''t''],
     ie_net := Some \<lparr>nr_module = 0, nr_index = 0, nr_net = mk_net (\<lambda>_. 5) ''s'' False [Bit 2, Bit 3]\<rparr>\<rparr>"

definition sample_leak :: inst_graph where
  "sample_leak =
     (let v = \<lambda>p. \<lparr>iv_name = pt_name p, iv_type = ''module_port'', iv_parent = ''t'', iv_hierarchy = [''t''],
        iv_cell = ModuleCell (mk_cell ''t'' ''t'' [] False JNull JNull), iv_port = Some p\<rparr>
      in \<lparr>ig_vertices = [v sample_input, v sample_output],
          ig_edges = [(0, 1, sample_wire)]\<rparr>)"

definition sample_analysis :: "bool \<Rightarrow> qifa" where
  "sample_analysis step =
     \<lparr>qi_top = ''t'', qi_graph = sample_leak, qi_names = \<lparr>pn_inputs = [], pn_outputs = [''o''], pn_secrets = [''s''], pn_states = []\<rparr>,
      qi_instances = ([], []), qi_intermediate = ([], []), qi_result = unknown, qi_id = 0, qi_unroll = 1,
      qi_exprs = [], qi_values = [], qi_step = step, qi_step_exprs = [], qi_questions = 0\<rparr>"

abbreviation signal_name :: "32 word \<Rightarrow> string \<Rightarrow> string" where
  "signal_name d x \<equiv> create_smt_signal_name d [''t''] x 0"

lemma sample_names [simp]: "legalize_identifier ''s'' = ''s''" "legalize_identifier ''o'' = ''o''"
  by code_simp+

lemma signal_names_distinct [simp]: "signal_name d ''s'' \<noteq> signal_name d ''o''" "signal_name d ''o'' \<noteq> signal_name d ''s''"
  by (simp_all add: create_smt_signal_name_def)

lemma sample_edges: "in_edges sample_leak 0 = []" "out_edges sample_leak (Suc 0) = []" 
  "out_edges sample_leak 0 = ig_edges sample_leak" "in_edges sample_leak (Suc 0) = ig_edges sample_leak"
  by (simp_all add: in_edges_def out_edges_def sample_leak_def)

definition sample_print :: "bv \<Rightarrow> string" where
  "sample_print t = (case t of BVar x _ \<Rightarrow> x | _ \<Rightarrow> '''')"

lemma leak_signals: "foldM (add_edge_signals d 0 sample_leak) (ig_edges sample_leak) \<lparr>ss_exprs = [], ss_ids = [], ss_solver = f, ss_memory = m\<rparr> =
  Inr \<lparr>ss_exprs = [Inl (BVar (signal_name d ''s'') 2)], ss_ids = [(signal_name d ''s'', 0)], ss_solver = f, ss_memory = m\<rparr>"
  by (simp add: sample_leak_def sample_wire_def add_edge_signals_def in_edges_def net_of_def edge_signal_name_def mk_net_def Let_def add_signal_def add_constant_def)

abbreviation leak_state :: "32 word \<Rightarrow> solver \<Rightarrow> mem_form list \<Rightarrow> smt_state" where
  "leak_state d f m \<equiv> \<lparr>ss_exprs = [Inl (BVar (signal_name d ''s'') 2)], ss_ids = [(signal_name d ''s'', 0)],
     ss_solver = f, ss_memory = m\<rparr>"

lemma sample_vertices: "vertex_at sample_leak 0 = \<lparr>iv_name = ''s'', iv_type = ''module_port'', iv_parent = ''t'', iv_hierarchy = [''t''],
        iv_cell = ModuleCell (mk_cell ''t'' ''t'' [] False JNull JNull), iv_port = Some sample_input\<rparr>"
  "vertex_at sample_leak (Suc 0) = \<lparr>iv_name = ''o'', iv_type = ''module_port'', iv_parent = ''t'', iv_hierarchy = [''t''],
        iv_cell = ModuleCell (mk_cell ''t'' ''t'' [] False JNull JNull), iv_port = Some sample_output\<rparr>"
  "nverts_of sample_leak = 2" "ig_edges sample_leak = [(0, 1, sample_wire)]"
  by (simp_all add: sample_leak_def Let_def sample_input_def sample_output_def mk_port_def)

lemma leak_ports: "pt_name sample_input = ''s''" "pt_direction sample_input = Input" "length (pt_bits sample_input) = 2"
  "pt_name sample_output = ''o''" "pt_direction sample_output = Output" "length (pt_bits sample_output) = 2"
  "pt_bits_signature sample_input = 5" "pt_bits_signature sample_output = 5" "pt_contains_non_constant sample_output"
  by (simp_all add: sample_input_def sample_output_def mk_port_def is_constant_def const_bit_defs)

lemma sample_wire_net: "net_of sample_wire = Inr (mk_net (\<lambda>_. 5) ''s'' False [Bit 2, Bit 3])"
  "edge_signal_name d 0 sample_wire (mk_net (\<lambda>_. 5) ''s'' False [Bit 2, Bit 3]) = signal_name d ''s''"
  "n_bits_signature (mk_net (\<lambda>_. 5) ''s'' False [Bit 2, Bit 3]) = 5"
  by (simp_all add: sample_wire_def net_of_def edge_signal_name_def mk_net_def)

lemmas leak_simps = export_vertex_def sample_vertices sample_edges mk_cell_def is_module_port_def export_module_port_def deref_port_def
  leak_ports Let_def port_signal_def add_signal_def signal_expr_def insert_expr_def cell_export_smt2_def cell_module_export_smt2_def
  set_smt_signal_module_port_successor_connections_def set_smt_signal_module_port_predecessor_connections_def out_edge_infos_def
  in_edge_infos_def sample_wire_net pexpr_def sample_print_def add_constant_def solver_add_def input_expr_def

lemma sample_vertex_0: "export_vertex sample_print d 0 sample_leak 0 (leak_state d f m) = Inr (leak_state d f m)"
  by (simp add: leak_simps)

lemma sample_vertex_1: "export_vertex sample_print d 0 sample_leak 1 (leak_state d f m) =
  Inr \<lparr>ss_exprs = [Inl (BVar (signal_name d ''s'') 2), Inl (BVar (signal_name d ''o'') 2)],
    ss_ids = [(signal_name d ''s'', 0), (signal_name d ''o'', 1)],
    ss_solver = f @ [FEq (BVar (signal_name d ''o'') 2) (BVar (signal_name d ''s'') 2)], ss_memory = m\<rparr>"
  by (simp add: leak_simps)

lemma sample_create:
  "create_unrolled_instance sample_print (sample_analysis b) d s =
   Inr ([\<lparr>expr_inputs = [], expr_outputs = [BVar (signal_name d ''o'') 2], expr_secrets = [BVar (signal_name d ''s'') 2],
          expr_states = []\<rparr>],
     (fst s @ [FEq (BVar (signal_name d ''o'') 2) (BVar (signal_name d ''s'') 2)], snd s))"
proof -
  have "[0..<nverts_of sample_leak] = [0, 1]" by (simp add: sample_vertices numeral_2_eq_2)
  then show ?thesis
    by (simp add: create_unrolled_instance_def sample_analysis_def instance_export_smt2_def leak_signals sample_vertex_0 sample_vertex_1 [unfolded One_nat_def]
      io_exprs_def get_expr_def signal_expr_def Let_def)
qed

definition leak_params :: json where
  "leak_params = JObj [(''smt_debug'', JBool False)]"

definition leaked :: "nat \<Rightarrow> string \<times> nat \<Rightarrow> int" where
  "leaked k x = (if fst x = signal_name 0 ''s'' \<or> fst x = signal_name 0 ''o'' then (if k = 0 then 0 else 2) else 1)"

definition sample_check :: "(nat \<Rightarrow> string \<times> nat \<Rightarrow> int) \<Rightarrow> nat \<Rightarrow> assertions \<Rightarrow> answer" where
  "sample_check \<mu> k s =
     (if satisfies std_un std_bin std_prd (\<mu> k) (\<lambda>_ _. 0) s then Sat (\<lambda>t. Some (eval std_un std_bin std_prd (\<mu> k) t)) else Unknown)"

lemma sample_check_sound: "sound_solver std_un std_bin std_prd (sample_check \<mu>)"
  by (auto simp: sound_solver_def sample_check_def)

lemma sample_number: "signal_name 1 x \<noteq> signal_name 0 y" "signal_name 0 y \<noteq> signal_name 1 x"
proof -
  have "show_word (0 :: 32 word) = ''0''" "show_word (1 :: 32 word) = ''1''" by code_simp+
  then show "signal_name 1 x \<noteq> signal_name 0 y" "signal_name 0 y \<noteq> signal_name 1 x" by (simp_all add: create_smt_signal_name_def)
qed

abbreviation copy_exprs :: "32 word \<Rightarrow> smt_mapping list" where
  "copy_exprs d \<equiv> [\<lparr>expr_inputs = [], expr_outputs = [BVar (signal_name d ''o'') 2], expr_secrets = [BVar (signal_name d ''s'') 2],
          expr_states = []\<rparr>]"

abbreviation copy_form :: "32 word \<Rightarrow> form" where
  "copy_form d \<equiv> FEq (BVar (signal_name d ''o'') 2) (BVar (signal_name d ''s'') 2)"

lemma sample_debug: "bnd (jref leak_params ''smt_debug'') json_bool = Inr False"
  by (simp add: leak_params_def json_bool_def)

lemma sample_analysis_simps:
  "qi_exprs (sample_analysis b) = []" "qi_values (sample_analysis b) = []" "qi_id (sample_analysis b) = 0"
  "qi_instances (sample_analysis b) = ([], [])" "qi_intermediate (sample_analysis b) = ([], [])" "qi_step (sample_analysis b) = b"
  "qi_names (sample_analysis b) = \<lparr>pn_inputs = [], pn_outputs = [''o''], pn_secrets = [''s''], pn_states = []\<rparr>"
  "qi_questions (sample_analysis b) = 0"
  by (simp_all add: sample_analysis_def)

lemma sample_fresh: "fresh_analysis (sample_analysis b)"
  by (simp add: fresh_analysis_def sample_analysis_simps)

lemma sample_add_first:
  "add_instances sample_print leak_params (sample_analysis b) =
   Inr ((sample_analysis b)\<lparr>qi_exprs := [copy_exprs 0], qi_instances := ([copy_form 0], [])\<rparr>)"
  by (simp add: add_instances_def add_instance_def sample_analysis_simps sample_create sample_debug constant_secrets_def assert_all_def
      Let_def chk_def)

definition two_copies :: solver where
  "two_copies = [copy_form 0, copy_form 1, FNe (BVar (signal_name 0 ''s'') 2) (BVar (signal_name 1 ''s'') 2),
     FNe (BVar (signal_name 1 ''o'') 2) (BVar (signal_name 0 ''o'') 2)]"

lemma sample_add_second:
  "add_instances sample_print leak_params
     ((sample_analysis b)\<lparr>qi_exprs := [copy_exprs 0], qi_instances := ([copy_form 0], []), qi_step_exprs := x, qi_intermediate := i, qi_id := 1\<rparr>) =
   Inr ((sample_analysis b)\<lparr>qi_exprs := [copy_exprs 0, copy_exprs 1], qi_instances := (two_copies, []), qi_step_exprs := x,
     qi_intermediate := i, qi_id := 1\<rparr>)"
  by (simp add: add_instances_def add_instance_def sample_analysis_simps sample_create sample_debug constant_secrets_def assert_all_def
      Let_def chk_def different_secrets_def at_start_def same_inputs_def output_diff_constraints_def solver_add_def two_copies_def)

lemma leaked_eval:
  "eval std_un std_bin std_prd (leaked k) (BVar (signal_name 0 ''s'') 2) = (if k = 0 then 0 else 2)"
  "eval std_un std_bin std_prd (leaked k) (BVar (signal_name 0 ''o'') 2) = (if k = 0 then 0 else 2)"
  "eval std_un std_bin std_prd (leaked k) (BVar (signal_name 1 ''s'') 2) = 1"
  "eval std_un std_bin std_prd (leaked k) (BVar (signal_name 1 ''o'') 2) = 1"
  by (simp_all add: leaked_def sample_number take_bit_eq_mod)

lemma leaked_two_copies: "satisfies std_un std_bin std_prd (leaked k) (\<lambda>_ _. 0) (two_copies, [])"
  unfolding satisfies_def two_copies_def fst_conv snd_conv list.set ball_simps holds.simps leaked_eval by simp

abbreviation copy_value :: "int \<Rightarrow> smt_values list" where
  "copy_value x \<equiv> [\<lparr>val_inputs = [], val_outputs = [x], val_secrets = [x], val_states = []\<rparr>]"

abbreviation values_of :: "nat \<Rightarrow> smt_model" where
  "values_of k \<equiv> \<lambda>t. Some (eval std_un std_bin std_prd (leaked k) t)"

lemma leaked_values:
  "get_values (copy_exprs 0) (values_of k) = Inr (copy_value (if k = 0 then 0 else 2))"
  "get_values (copy_exprs 1) (values_of k) = Inr (copy_value 1)"
  by (simp_all add: get_values_def values_at_def get_value_def leaked_eval del: eval.simps)

theorem equivalence_classes_diverge_witness:
  "\<forall>k. find_equivalence_classes k sample_print (sample_check (\<lambda>_. leaked 0)) leak_params 2 (sample_analysis False) = Inl Diverges"
proof (rule allI, rule equivalence_classes_diverge [OF sample_fresh _ _ sample_add_first])
  show "add_instances sample_print leak_params ((sample_analysis False\<lparr>qi_exprs := [copy_exprs 0], qi_instances := ([copy_form 0], [])\<rparr>)\<lparr>qi_id := 1\<rparr>) =
    Inr ((sample_analysis False)\<lparr>qi_exprs := [copy_exprs 0, copy_exprs 1], qi_instances := (two_copies, []), qi_id := 1\<rparr>)"
    using sample_add_second [where b = False and x = "qi_step_exprs (sample_analysis False)" and i = "([], [])"] by (simp add: sample_analysis_def)
qed (simp_all add: sample_analysis_simps sample_check_def leaked_two_copies get_all_values_def leaked_values)

definition step_start :: solver where
  "step_start =
     (let s = BVar (signal_name 0 ''s'') 2; out = BVar (signal_name 0 ''o'') 2
      in [copy_form 0, FAnd (FNe s (BVal 0 2)) (FNe s (BVal 1 2)), FNe out (BVal 0 2), FNe out (BVal 1 2)])"

lemma leaked_step: "satisfies std_un std_bin std_prd (leaked 1) (\<lambda>_ _. 0) (step_start, [])"
  by (simp add: satisfies_def step_start_def Let_def leaked_eval del: eval.simps(1))

lemma sample_run:
  "\<exists>q'. find_equivalence_classes 3 sample_print (sample_check leaked) leak_params 2 (sample_analysis True) = Inr q' \<and>
     qi_values q' = [copy_value 0, copy_value 1, copy_value 2] \<and> qi_exprs q' = [copy_exprs 0, copy_exprs 1]"
proof -
  let ?q0 = "(sample_analysis True)\<lparr>qi_step_exprs := copy_exprs 0, qi_intermediate := ([copy_form 0], [])\<rparr>"
  let ?q1 = "?q0\<lparr>qi_exprs := [copy_exprs 0, copy_exprs 1], qi_instances := (two_copies, []), qi_id := 1\<rparr>"
  let ?q2 = "?q1\<lparr>qi_questions := 1, qi_result := sat, qi_values := [copy_value 0, copy_value 1]\<rparr>"
  let ?q3 = "?q2\<lparr>qi_id := 2, qi_questions := 2, qi_values := [copy_value 0, copy_value 1, copy_value 2]\<rparr>"
  have 0: "start_intermediate sample_print (sample_analysis True) = Inr ?q0"
    by (simp add: start_intermediate_def sample_analysis_simps sample_create constant_secrets_def assert_all_def)
  have 1: "add_instances sample_print leak_params ?q0 = Inr (?q0\<lparr>qi_exprs := [copy_exprs 0], qi_instances := ([copy_form 0], [])\<rparr>)"
    by (simp add: add_instances_def add_instance_def sample_analysis_simps sample_create sample_debug constant_secrets_def assert_all_def
      Let_def chk_def)
  have 2: "add_instances sample_print leak_params (?q0\<lparr>qi_exprs := [copy_exprs 0], qi_instances := ([copy_form 0], []), qi_id := 1\<rparr>) = Inr ?q1"
    using sample_add_second [where b = True and x = "copy_exprs 0" and i = "([copy_form 0], [])"] by (simp add: sample_analysis_def)
  have 3: "start_step ?q2 = Inr (step_start, [])"
    by (simp add: start_step_def Let_def same_run_def at_start_def new_secret_def differs_from_value_def translate_value_to_constant_def
      assert_all_def solver_add_def diff_sequence_def step_start_def)
  have 4: "intermediate_step (sample_check leaked) 2 ?q2 = Inr ?q3"
    by (simp add: intermediate_step_def 3 [unfolded One_nat_def] Let_def sample_check_def leaked_step [unfolded One_nat_def] leaked_values at_start_def new_secret_def diff_sequence_def
      differs_from_value_def translate_value_to_constant_def assert_all_def solver_add_def del: eval.simps)
  have 5: "main_question (sample_check leaked) 2 ?q1 = Inr (True, ?q3)"
    using 4 by (simp add: main_question_def Let_def sample_check_def leaked_two_copies get_all_values_def leaked_values sample_analysis_simps del: eval.simps)
  have "find_equivalence_classes 3 sample_print (sample_check leaked) leak_params 2 (sample_analysis True) = Inr ?q3"
    using 1 2 5 by (simp add: find_equivalence_classes_def 0 numeral_3_eq_3 sample_analysis_simps)
  then show ?thesis by simp
qed

theorem equivalence_classes_sound_witness:
  "\<exists>q'. find_equivalence_classes 3 sample_print (sample_check leaked) leak_params 2 (sample_analysis True) = Inr q' \<and>
     length (qi_values q') = 3 \<and> sorted_wrt told_apart (qi_values q')"
proof -
  obtain q' where q': "find_equivalence_classes 3 sample_print (sample_check leaked) leak_params 2 (sample_analysis True) = Inr q'"
    "length (qi_values q') = 3"
    using sample_run by auto
  then show ?thesis
    using equivalence_classes_sound [OF std.smt_bv_axioms sample_check_sound sample_fresh q'(1)] by blast
qed

theorem equivalence_classes_bound_witness:
  "\<exists>q'. find_equivalence_classes 3 sample_print (sample_check leaked) leak_params 2 (sample_analysis True) = Inr q' \<and>
     secret_widths (hd (qi_exprs q')) = [2] \<and> length (qi_values q') = 3 \<and> length (qi_values q') \<le> 2 ^ 2"
proof -
  obtain q' where q': "find_equivalence_classes 3 sample_print (sample_check leaked) leak_params 2 (sample_analysis True) = Inr q'"
    "length (qi_values q') = 3" "secret_widths (hd (qi_exprs q')) = [2]"
    using sample_run by (auto simp: secret_widths_def at_start_def)
  moreover have "2 \<in> set (secret_widths (hd (qi_exprs q')))" using q'(3) by simp
  ultimately show ?thesis
    using equivalence_classes_bound [OF std.smt_bv_axioms sample_check_sound sample_fresh q'(1)] by blast
qed

end
