(* ===== verification/Validation.thy ===== *)
theory Validation
  imports Qifa
begin

text \<open>
  The comparison of a model of the solver with a simulation (\<open>include/ducode/utility/smt.hpp\<close>): values
  of signals are asserted bit by bit, and the values of a model are compared with those of the
  simulation. The solver is a parameter, a scope that is popped restores the assertions. The
  searches that only report where a mismatch comes from are left out, and so is the log. Times are
  numbers without a bound.
\<close>

section \<open>Values as bits\<close>

text \<open>
  The operations on doubles are parameters: their equality, and \<open>gsl::narrow<uint64_t>\<close>.
\<close>

record real_ops =
  ro_eq :: "64 word \<Rightarrow> 64 word \<Rightarrow> bool"
  ro_narrow :: "64 word \<Rightarrow> 64 word res"

text \<open>
  The least significant bit comes first. A value with more bits than the vector makes the number of
  missing bits wrap, so the vector grows until the memory is exhausted.
\<close>

definition extend_signal_value_vector :: "signal_bit list \<Rightarrow> nat \<Rightarrow> signal_bit list res" where
  "extend_signal_value_vector bs n =
     chk (bs \<noteq> []) Undefined (
     chk (length bs \<le> n) OutOfMemory (
     Inr (rev bs @ replicate (n - length bs) (if hd bs = BIT_X then BIT_X else BIT_0))))"

definition number_bits :: "nat \<Rightarrow> 64 word \<Rightarrow> bool list" where
  "number_bits n x = map (bit x) [0..<n]"

definition get_signal_value_as_bitset :: "real_ops \<Rightarrow> signal_value \<Rightarrow> nat \<Rightarrow> bool list res" where
  "get_signal_value_as_bitset ro v n =
     (case sv_type v of
        VECTOR \<Rightarrow> bnd (get_value_vector v) (\<lambda>bs. bnd (extend_signal_value_vector bs n) (\<lambda>bits.
          Inr (map (\<lambda>b. b = BIT_1) bits)))
      | SCALAR \<Rightarrow> bnd (get_value_bit v) (\<lambda>b.
          if b = BIT_X then Inr (number_bits n 0) else Inr (number_bits n (if b = BIT_1 then 1 else 0)))
      | REAL \<Rightarrow> bnd (get_value_real v) (\<lambda>r. bnd (ro_narrow ro r) (\<lambda>x. Inr (number_bits n x)))
      | EMPTY \<Rightarrow> Inr (number_bits n 0))"

definition get_signal_value_bitmask :: "real_ops \<Rightarrow> signal_value \<Rightarrow> nat \<Rightarrow> bool list res" where
  "get_signal_value_bitmask ro v n =
     (case sv_type v of
        VECTOR \<Rightarrow> bnd (get_value_vector v) (\<lambda>bs. bnd (extend_signal_value_vector bs n) (\<lambda>bits.
          Inr (map (\<lambda>b. b = BIT_1 \<or> b = BIT_0) bits)))
      | SCALAR \<Rightarrow> bnd (get_value_bit v) (\<lambda>b.
          if b = BIT_X \<or> b = BIT_Z then Inr (number_bits n 0) else Inr (number_bits n 1))
      | REAL \<Rightarrow> bnd (get_value_real v) (\<lambda>r. bnd (ro_narrow ro r) (\<lambda>x. Inr (number_bits n x)))
      | EMPTY \<Rightarrow> Inr (number_bits n 0))"

section \<open>Assertions of values\<close>

definition assert_form :: "form \<Rightarrow> smt_state \<Rightarrow> smt_state res" where
  "assert_form f st = bnd (solver_add f (ss_solver st)) (\<lambda>s. Inr (st\<lparr>ss_solver := s\<rparr>))"

definition assert_bit :: "bv \<Rightarrow> nat \<times> bool \<Rightarrow> smt_state \<Rightarrow> smt_state res" where
  "assert_bit t = (\<lambda>(i, b) st. bnd (extract_bit t i) (\<lambda>x. assert_form (FEq x (BVal (of_bool b) 1)) st))"

definition missing_signal :: "string \<Rightarrow> error" where
  "missing_signal name = RuntimeError (''no smt signal with that name '' @ name @ '' found'')"

text \<open>The value at a time, or the one before when the time is not listed; none after the last time.\<close>

fun scan_values :: "int \<Rightarrow> signal_value option \<Rightarrow> signal_values \<Rightarrow> signal_value option res" where
  "scan_values t prev [] = Inr None"
| "scan_values t prev ((time, v) # vs) =
     (if time = t then Inr (Some v)
      else if t < time then bnd (of_opt Undefined prev) (\<lambda>p. Inr (Some p))
      else scan_values t (Some v) vs)"

definition last_timed :: "'a list \<Rightarrow> 'a res" where
  "last_timed vs = (if vs = [] then Inl Undefined else Inr (last vs))"

definition assert_value :: "real_ops \<Rightarrow> bv \<Rightarrow> signal_value \<Rightarrow> smt_state \<Rightarrow> smt_state res" where
  "assert_value ro t v st =
     bnd (get_signal_value_as_bitset ro v (bv_size t)) (\<lambda>bits. foldM (assert_bit t) (enumerate 0 bits) st)"

text \<open>The first edge whose net has the name; the signal is taken at the time of the simulation.\<close>

definition first_edge_named :: "inst_graph \<Rightarrow> string \<Rightarrow> graph_edge option res" where
  "first_edge_named g name =
     findM (\<lambda>(s, t, e). bnd (net_of e) (\<lambda>n. Inr (n_name n = name))) (ig_edges g)"

definition edge_name_at :: "32 word \<Rightarrow> graph_edge \<Rightarrow> int \<Rightarrow> string res" where
  "edge_name_at d x timestep =
     (case x of (s, t, e) \<Rightarrow> bnd (net_of e) (\<lambda>n.
      Inr (create_smt_signal_name d (ie_hierarchy e) (legalize_identifier (n_name n)) timestep)))"

definition add_named_signal_value ::
  "real_ops \<Rightarrow> signals \<Rightarrow> string \<Rightarrow> inst_graph \<Rightarrow> int \<Rightarrow> 32 word \<Rightarrow> int \<Rightarrow> smt_state \<Rightarrow> smt_state res"
where
  "add_named_signal_value ro sm name g timestep d stepsize st =
     bnd (first_edge_named g name) (\<lambda>found.
     case found of
       None \<Rightarrow> Inr st
     | Some x \<Rightarrow>
         bnd (edge_signal_values sm x) (\<lambda>values. bnd (edge_name_at d x timestep) (\<lambda>edge_name.
         bnd (last_timed values) (\<lambda>(signal_time, last_value).
         bnd (signal_expr (missing_signal edge_name) st edge_name) (\<lambda>t.
         bnd (scan_values (timestep * stepsize) None values) (\<lambda>v.
         bnd (case v of None \<Rightarrow> Inr st | Some v \<Rightarrow> assert_value ro t v st) (\<lambda>st.
         if signal_time < timestep * stepsize then assert_value ro t last_value st else Inr st)))))))"

text \<open>The log takes the value as a number of 64 bits.\<close>

definition to_ulong :: "bool list \<Rightarrow> unit res" where
  "to_ulong bits = chk (\<forall>b \<in> set (drop 64 bits). \<not> b) OverflowError (Inr ())"

definition add_smt_signal_value ::
  "real_ops \<Rightarrow> signal_id \<Rightarrow> signal_value \<Rightarrow> int \<Rightarrow> 32 word \<Rightarrow> smt_state \<Rightarrow> smt_state res"
where
  "add_smt_signal_value ro i v timestep d st =
     (let edge_name = create_smt_signal_name d (id_hierarchy i) (legalize_identifier (id_name i)) timestep in
      bnd (signal_expr (missing_signal edge_name) st edge_name) (\<lambda>t.
      bnd (get_signal_value_as_bitset ro v (bv_size t)) (\<lambda>bits.
      bnd (to_ulong bits) (\<lambda>_.
      bnd (get_signal_value_bitmask ro v (bv_size t)) (\<lambda>mask.
      chk (bits \<noteq> []) (RuntimeError ''add_smt_signal_value: bitset is empty!'') (
      foldM (assert_bit t) (map fst (filter snd (zip (enumerate 0 bits) mask))) st))))))"

section \<open>Comparison with a model\<close>

fun known_bit :: "signal_bit \<Rightarrow> bool" where
  "known_bit BIT_0 = True"
| "known_bit BIT_1 = True"
| "known_bit _ = False"

definition model_bit :: "smt_model \<Rightarrow> bv \<Rightarrow> signal_bit res" where
  "model_bit m t = bnd (get_value m t) (\<lambda>x. Inr (if x = 1 then BIT_1 else BIT_0))"

definition compare_bits :: "smt_model \<Rightarrow> bv \<Rightarrow> signal_value \<Rightarrow> 64 word \<Rightarrow> bool res" where
  "compare_bits m t v signal_size =
     (case sv_type v of
        SCALAR \<Rightarrow>
          chk (bv_size t = 1) (RuntimeError ''vcd value bitvector and z3 signal bitvector do not have the same length of 1! (SCALAR)'') (
          bnd (get_value_bit v) (\<lambda>b. if known_bit b then bnd (model_bit m t) (\<lambda>x. Inr (b = x)) else Inr True))
      | VECTOR \<Rightarrow>
          bnd (get_value_vector v) (\<lambda>bs. bnd (extend_signal_value_vector bs (unat signal_size)) (\<lambda>bits.
          foldM (\<lambda>i bit_matches.
              bnd (bnd (extract_bit t i) (model_bit m)) (\<lambda>x.
              if i < length bits then Inr (if known_bit (bits ! i) \<and> x \<noteq> bits ! i then False else bit_matches)
              else Inl OutOfRange))
            [0..<unat (ucast signal_size :: 32 word)] True))
      | _ \<Rightarrow> Inr True)"

definition compare_signal ::
  "signals \<Rightarrow> signal_id \<Rightarrow> smt_model \<Rightarrow> smt_state \<Rightarrow> signal_value \<Rightarrow> int \<Rightarrow> bool res"
where
  "compare_signal sm i m st v unroll_step =
     (let edge_name = create_smt_signal_name 1 (id_hierarchy i) (legalize_identifier (id_name i)) unroll_step in
      bnd (signal_expr (missing_signal edge_name) st edge_name) (\<lambda>t.
      bnd (sm_signal_size sm i) (\<lambda>n. compare_bits m t v n)))"

definition compare_named_signal ::
  "signals \<Rightarrow> string \<Rightarrow> inst_graph \<Rightarrow> smt_model \<Rightarrow> smt_state \<Rightarrow> int \<Rightarrow> int \<Rightarrow> bool res"
where
  "compare_named_signal sm name g m st timestep stepsize =
     bnd (first_edge_named g name) (\<lambda>found.
     case found of
       None \<Rightarrow> Inr True
     | Some x \<Rightarrow>
         bnd (edge_signal_values sm x) (\<lambda>values. bnd (edge_name_at 1 x timestep) (\<lambda>edge_name.
         bnd (last_timed values) (\<lambda>(_, last_value).
         bnd (signal_expr (missing_signal edge_name) st edge_name) (\<lambda>t.
         bnd (scan_values (timestep * stepsize) None values) (\<lambda>v.
         bnd (edge_signal x) (\<lambda>i. bnd (sm_signal_size sm i) (\<lambda>n.
         compare_bits m t (case v of None \<Rightarrow> last_value | Some v \<Rightarrow> v) n))))))))"

text \<open>The second comparison replaces the result of the first, which is the same.\<close>

definition compare_unless_past ::
  "signals \<Rightarrow> signal_id \<Rightarrow> smt_model \<Rightarrow> smt_state \<Rightarrow> int \<Rightarrow> int \<Rightarrow> bool res"
where
  "compare_unless_past sm i m st time unroll_step =
     bnd (sm_value sm i time) (\<lambda>v.
     bnd (bnd (sm_timestamps sm) last_timed) (\<lambda>end_time.
     if end_time < time then Inr True
     else bnd (compare_signal sm i m st v unroll_step) (\<lambda>_. compare_signal sm i m st v unroll_step)))"

definition compare_smt_signal_value ::
  "signals \<Rightarrow> signal_id \<Rightarrow> smt_model \<Rightarrow> smt_state \<Rightarrow> int \<Rightarrow> int \<Rightarrow> int \<Rightarrow> bool res"
where
  "compare_smt_signal_value sm i m st timestep stepsize unroll_step =
     compare_unless_past sm i m st (timestep + unroll_step * stepsize) (unroll_step + 1)"

definition compare_smt_signal_value_comb ::
  "signals \<Rightarrow> signal_id \<Rightarrow> smt_model \<Rightarrow> smt_state \<Rightarrow> int \<Rightarrow> int \<Rightarrow> int \<Rightarrow> bool res"
where
  "compare_smt_signal_value_comb sm i m st timestep stepsize unroll_step =
     compare_unless_past sm i m st (timestep + unroll_step * stepsize) unroll_step"

definition compare_smt_with_simulation ::
  "signals \<Rightarrow> signal_id \<Rightarrow> smt_model \<Rightarrow> smt_state \<Rightarrow> int \<Rightarrow> int \<Rightarrow> bool res"
where
  "compare_smt_with_simulation sm i m st timestep unroll_step =
     bnd (sm_value sm i timestep) (\<lambda>v. compare_signal sm i m st v unroll_step)"

definition get_all_flipflop_names :: "inst_graph \<Rightarrow> string list res" where
  "get_all_flipflop_names g =
     mapM (\<lambda>v. case out_edges g v of
             [] \<Rightarrow> Inl (RuntimeError ''Unexpected number of output edges.'')
           | (s, t, e) # xs \<Rightarrow> bnd (net_of e) (\<lambda>n. Inr (n_name n))) (filter (has_register g) [0..<nverts_of g])"

section \<open>Validation by a simulation\<close>

text \<open>
  The inputs and the state of the simulation are asserted step by step, then the outputs of a model
  are compared. \<open>value_map\<close> holds the values that were asserted last.
\<close>

type_synonym value_map = "(signal_id \<times> signal_value) list"

definition value_eq :: "real_ops \<Rightarrow> signal_value \<Rightarrow> signal_value \<Rightarrow> bool" where
  "value_eq ro v w \<longleftrightarrow> sv_type v = sv_type w \<and>
     (case (sv_value v, sv_value w) of (SReal a, SReal b) \<Rightarrow> ro_eq ro a b | (a, b) \<Rightarrow> a = b)"

definition has_unknown :: "signal_value \<Rightarrow> bool res" where
  "has_unknown v =
     (case sv_type v of
        SCALAR \<Rightarrow> bnd (get_value_bit v) (\<lambda>b. Inr (b = BIT_X))
      | VECTOR \<Rightarrow> bnd (get_value_vector v) (\<lambda>bs. Inr (BIT_X \<in> set bs))
      | _ \<Rightarrow> Inr False)"

fun inputs_changed :: "real_ops \<Rightarrow> signals \<Rightarrow> value_map \<Rightarrow> int \<Rightarrow> signal_id list \<Rightarrow> bool res" where
  "inputs_changed ro sm vm t [] = Inr False"
| "inputs_changed ro sm vm t (i # is) =
     (if vm = [] then Inr True
      else case map_of vm i of
        None \<Rightarrow> inputs_changed ro sm vm t is
      | Some old \<Rightarrow>
          bnd (sm_value sm i t) (\<lambda>v. bnd (has_unknown v) (\<lambda>x.
          if \<not> x \<and> \<not> value_eq ro old v then Inr True else inputs_changed ro sm vm t is)))"

text \<open>A register without an entry gets one, with an empty value.\<close>

fun states_changed :: "real_ops \<Rightarrow> signals \<Rightarrow> int \<Rightarrow> signal_id list \<Rightarrow> value_map \<Rightarrow> (bool \<times> value_map) res" where
  "states_changed ro sm t [] vm = Inr (False, vm)"
| "states_changed ro sm t (i # is) vm =
     bnd (sm_value sm i t) (\<lambda>v. bnd (has_unknown v) (\<lambda>x.
     if x then states_changed ro sm t is vm
     else
       (let vm' = (if map_of vm i = None then AList.update i default_value vm else vm)
        in if \<not> value_eq ro (the (map_of vm' i)) v then Inr (True, vm') else states_changed ro sm t is vm')))"

definition value_change ::
  "real_ops \<Rightarrow> signals \<Rightarrow> signal_id list \<Rightarrow> signal_id list \<Rightarrow> int \<Rightarrow> value_map \<Rightarrow> (bool \<times> value_map) res"
where
  "value_change ro sm input_ids ff_ids t vm =
     bnd (inputs_changed ro sm vm t input_ids) (\<lambda>b.
     if b then Inr (True, vm) else states_changed ro sm t ff_ids vm)"

definition narrow_i32 :: "int \<Rightarrow> int res" where
  "narrow_i32 i = (if - (2 ^ 31) \<le> i \<and> i < 2 ^ 31 then Inr i else Inl NarrowingError)"

text \<open>The state before the first step is the one a step earlier, or the one at the start.\<close>

definition set_state ::
  "real_ops \<Rightarrow> signals \<Rightarrow> int \<Rightarrow> int \<Rightarrow> int \<Rightarrow> signal_id \<Rightarrow> value_map \<times> smt_state \<Rightarrow> (value_map \<times> smt_state) res"
where
  "set_state ro sm timestep stepsize unroll_step i = (\<lambda>(vm, st).
     bnd (sm_value sm i (timestep + unroll_step * stepsize)) (\<lambda>v.
     bnd (add_smt_signal_value ro i v (unroll_step + 1) 1 st) (\<lambda>st.
     bnd (if unroll_step = 0 then
            bnd (narrow_i32 timestep) (\<lambda>a. bnd (narrow_i32 stepsize) (\<lambda>b.
            chk (- (2 ^ 31) \<le> a - b \<and> a - b < 2 ^ 31) Undefined (
            bnd (sm_value sm i (if 0 \<le> a - b then timestep - stepsize else 0)) (\<lambda>w.
            add_smt_signal_value ro i w unroll_step 1 st))))
          else Inr st) (\<lambda>st.
     Inr (AList.update i v vm, st)))))"

definition set_input ::
  "real_ops \<Rightarrow> signals \<Rightarrow> int \<Rightarrow> int \<Rightarrow> int \<Rightarrow> signal_id \<Rightarrow> value_map \<times> smt_state \<Rightarrow> (value_map \<times> smt_state) res"
where
  "set_input ro sm timestep stepsize unroll_step i = (\<lambda>(vm, st).
     bnd (sm_value sm i (timestep + unroll_step * stepsize)) (\<lambda>v.
     bnd (add_smt_signal_value ro i v unroll_step 1 st) (\<lambda>st.
     Inr (AList.update i v vm, st))))"

text \<open>The steps up to the end of the simulation; \<open>True\<close> when a step is past it.\<close>

fun set_steps ::
  "real_ops \<Rightarrow> signals \<Rightarrow> signal_id list \<Rightarrow> signal_id list \<Rightarrow> int \<Rightarrow> int \<Rightarrow> int list \<Rightarrow> value_map \<times> smt_state \<Rightarrow>
   (bool \<times> value_map \<times> smt_state) res"
where
  "set_steps ro sm input_ids ff_ids timestep stepsize [] (vm, st) = Inr (False, vm, st)"
| "set_steps ro sm input_ids ff_ids timestep stepsize (u # us) (vm, st) =
     bnd (bnd (sm_timestamps sm) last_timed) (\<lambda>end_time.
     if end_time < timestep + u * stepsize then Inr (True, vm, st)
     else
       bnd (foldM (set_input ro sm timestep stepsize u) input_ids (vm, st)) (\<lambda>s.
       bnd (foldM (set_state ro sm timestep stepsize u) ff_ids s) (\<lambda>s.
       set_steps ro sm input_ids ff_ids timestep stepsize us s)))"

definition top_outputs :: "design \<Rightarrow> string list res" where
  "top_outputs d = bnd (get_module d (d_top d)) (\<lambda>(m, _). Inr (get_output_names m))"

text \<open>\<open>compare\<close> is called for each step; its last result is the one that counts.\<close>

definition compare_steps :: "(int \<Rightarrow> bool res) \<Rightarrow> int list \<Rightarrow> bool \<Rightarrow> bool res" where
  "compare_steps compare us r = foldM (\<lambda>u _. compare u) us r"

fun compare_outputs :: "string \<Rightarrow> (string \<Rightarrow> bool \<Rightarrow> bool res) \<Rightarrow> string list \<Rightarrow> bool \<Rightarrow> bool res" where
  "compare_outputs clk compare [] r = Inr r"
| "compare_outputs clk compare (name # names) r =
     (if name = clk then compare_outputs clk compare names r
      else bnd (compare name r) (\<lambda>r. if r then compare_outputs clk compare names r else Inr False))"

definition compare_all ::
  "signals \<Rightarrow> design \<Rightarrow> smt_model \<Rightarrow> smt_state \<Rightarrow> int \<Rightarrow> int \<Rightarrow> int \<Rightarrow> bool \<Rightarrow> bool res"
where
  "compare_all sm d m st unroll_factor timestep stepsize r =
     bnd (top_outputs d) (\<lambda>names.
     compare_outputs (d_clk d) (\<lambda>name r.
         let i = \<lparr>id_name = name, id_hierarchy = [d_top d]\<rparr> in
         if unroll_factor = 1 then compare_smt_signal_value_comb sm i m st timestep stepsize 0
         else compare_steps (compare_smt_signal_value sm i m st timestep stepsize) [0..unroll_factor - 2] r)
       names r)"

text \<open>
  The scopes that are left on a \<open>continue\<close> hold no assertion of their own. An early return leaves the
  assertions of its scope. The loop does not end when the simulation does not go on, so it takes a
  number of rounds; the solver is asked once in each.
\<close>

fun validation_loop ::
  "nat \<Rightarrow> real_ops \<Rightarrow> (nat \<Rightarrow> assertions \<Rightarrow> answer) \<Rightarrow> signals \<Rightarrow> design \<Rightarrow> signal_id list \<Rightarrow> signal_id list \<Rightarrow>
   int \<Rightarrow> int \<Rightarrow> nat \<Rightarrow> int \<Rightarrow> value_map \<Rightarrow> bool \<Rightarrow> smt_state \<Rightarrow> (bool \<times> smt_state) res"
where
  "validation_loop 0 ro check sm d input_ids ff_ids unroll_factor stepsize k timestep vm r st = Inl Diverges"
| "validation_loop (Suc n) ro check sm d input_ids ff_ids unroll_factor stepsize k timestep vm r st =
     bnd (bnd (sm_timestamps sm) last_timed) (\<lambda>end_time.
     if end_time \<le> timestep then Inr (r, st)
     else
       bnd (value_change ro sm input_ids ff_ids timestep vm) (\<lambda>(changed, vm).
       let again = (\<lambda>k. validation_loop n ro check sm d input_ids ff_ids unroll_factor stepsize k
             (timestep + unroll_factor * stepsize))
       in if \<not> changed \<and> d_clk d = [] then again k vm r st
       else
         bnd (set_steps ro sm input_ids ff_ids timestep stepsize
                [0..(if unroll_factor = 1 then 1 else unroll_factor - 1) - 1] (vm, st)) (\<lambda>(past, vm, st1).
         if past then Inr (r, st1)
         else
           (case check k (ss_solver st1, ss_memory st1) of
              Sat m \<Rightarrow>
                bnd (compare_all sm d m st1 unroll_factor timestep stepsize r) (\<lambda>r.
                if r then again (k + 1) vm r st else Inr (False, st1))
            | _ \<Rightarrow> Inl (RuntimeError ''SMT Instance is not SAT'')))))"

definition smt_sim_validation ::
  "nat \<Rightarrow> real_ops \<Rightarrow> (nat \<Rightarrow> assertions \<Rightarrow> answer) \<Rightarrow> signals \<Rightarrow> design \<Rightarrow> inst_graph \<Rightarrow> signal_id list \<Rightarrow> int \<Rightarrow>
   int \<Rightarrow> smt_state \<Rightarrow> (bool \<times> smt_state) res"
where
  "smt_sim_validation n ro check sm d g input_ids unroll_factor stepsize st =
     bnd (top_outputs d) (\<lambda>_.
     bnd (get_all_flipflop_ids g) (\<lambda>ff_ids.
     bnd (if d_clk d \<noteq> [] then
            bnd (sm_value sm \<lparr>id_name = d_clk d, id_hierarchy = [d_top d]\<rparr> 0) (\<lambda>v.
            Inr (if value_eq ro v (scalar_value BIT_1) then 0 else 1))
          else Inr 0) (\<lambda>clockbegin.
     validation_loop n ro check sm d input_ids ff_ids unroll_factor stepsize 0 (clockbegin * (stepsize sdiv 2)) [] True st)))"

section \<open>Validation of a simulated model\<close>

definition smt_to_simulation_validation ::
  "answer \<Rightarrow> signals \<Rightarrow> design \<Rightarrow> smt_state \<Rightarrow> int \<Rightarrow> bool res"
where
  "smt_to_simulation_validation answer sm d st unroll_factor =
     (case answer of
        Sat m \<Rightarrow>
          bnd (top_outputs d) (\<lambda>names.
          compare_outputs (d_clk d) (\<lambda>name r.
              compare_steps (\<lambda>u. compare_smt_with_simulation sm \<lparr>id_name = name, id_hierarchy = [d_top d]\<rparr> m st (u * 4 + 2) u)
                [0..unroll_factor - 1] r)
            names True)
      | _ \<Rightarrow> Inl (RuntimeError ''SMT Instance is not SAT''))"

section \<open>Outputs that are determined\<close>

text \<open>
  The value of an expression in a model, as an expression. The expressions are constants of the
  solver, and one that the model leaves open evaluates to itself.
\<close>

definition eval_expr :: "smt_model \<Rightarrow> bv \<Rightarrow> bv" where
  "eval_expr m t = (case m t of Some v \<Rightarrow> BVal v (bv_size t) | None \<Rightarrow> t)"

definition smt_to_simulation_unique_assignment ::
  "(nat \<Rightarrow> assertions \<Rightarrow> answer) \<Rightarrow> bv list \<Rightarrow> bv list list \<Rightarrow> bv list list \<Rightarrow> assertions \<Rightarrow> bool res"
where
  "smt_to_simulation_unique_assignment check stateInit_expr input_exprs output_exprs s =
     (case check 0 s of
        Sat m \<Rightarrow>
          (let equality = (\<lambda>t. FEq t (eval_expr m t));
               output_diff_constraints = map (\<lambda>t. FNe t (eval_expr m t)) (concat output_exprs)
           in bnd (assert_all (map equality (concat input_exprs)) s) (\<lambda>s1.
              bnd (assert_all (map equality stateInit_expr) s1) (\<lambda>s2.
              chk (list_all wf_form output_diff_constraints) Z3Exception (
              chk (output_diff_constraints \<noteq> []) Assertion (
              bnd (assert_all [mk_or output_diff_constraints] s2) (\<lambda>s3.
              Inr (case check 1 s3 of Unsat \<Rightarrow> True | _ \<Rightarrow> False)))))))
      | _ \<Rightarrow> Inl Assertion)"

definition smt_fixed_assignment :: "bv \<Rightarrow> 64 word \<Rightarrow> assertions \<Rightarrow> assertions res" where
  "smt_fixed_assignment t val = assert_all [FEq t (BVal (sint val) (bv_size t))]"

text \<open>\<open>draw\<close> is the random number, at most the largest number of the width.\<close>

definition smt_random_assignment :: "(nat \<Rightarrow> nat) \<Rightarrow> bv \<Rightarrow> assertions \<Rightarrow> assertions res" where
  "smt_random_assignment draw t s =
     chk (bv_size t < 64) Assertion (
     assert_all [FEq t (BVal (int (draw (2 ^ bv_size t - 1))) (bv_size t))] s)"

end
