(* ===== verification/SmtSignals.thy ===== *)
theory SmtSignals
  imports Validation Testbenches
begin

text \<open>
  The values of signals in a model of the solver (\<open>SMTSignalsDataManager\<close>,
  \<open>src/ducode/signals_data_manager.cpp\<close>) and the test bench that replays such a model
  (\<open>TestbenchSMT\<close>, \<open>src/ducode/testbench.cpp\<close>). The constants of the design are those of the first
  copy in the export. The text of an expression that the solver prints is the parameter \<open>print\<close>;
  the model of the last question is \<open>None\<close> when the solver has none.
\<close>

record smt_manager =
  mg_state :: smt_state
  mg_timesteps :: int
  mg_inputs :: "signal_id list"
  mg_outputs :: "signal_id list"
  mg_top :: string
  mg_timestamps :: "int list"

definition new_smt_manager ::
  "smt_state \<Rightarrow> 32 word \<Rightarrow> signal_id list \<Rightarrow> signal_id list \<Rightarrow> string \<Rightarrow> smt_manager"
where
  "new_smt_manager st timesteps inputs outputs top_name =
     \<lparr>mg_state = st, mg_timesteps = uint timesteps, mg_inputs = inputs, mg_outputs = outputs,
      mg_top = top_name, mg_timestamps = map int [0..<unat timesteps]\<rparr>"

definition smt_get_size :: "smt_manager \<Rightarrow> 64 word" where
  "smt_get_size mg = word_of_nat (length (mg_timestamps mg))"

definition smt_get_timestamps :: "smt_manager \<Rightarrow> int list" where
  "smt_get_timestamps mg = mg_timestamps mg"

definition smt_get_signal_size :: "smt_manager \<Rightarrow> signal_id \<Rightarrow> 64 word res" where
  "smt_get_signal_size mg signal = Inl (RuntimeError ''not implemented'')"

section \<open>Values\<close>

definition get_model :: "smt_model option \<Rightarrow> smt_model res" where
  "get_model = of_opt Z3Exception"

text \<open>A numeral that needs more than 64 bits raises an exception.\<close>

definition as_uint64 :: "smt_model \<Rightarrow> bv \<Rightarrow> 64 word res" where
  "as_uint64 m t =
     bnd (get_value m t) (\<lambda>v. if 0 \<le> v \<and> v < 2 ^ 64 then Inr (word_of_int v) else Inl Z3Exception)"

text \<open>The bit \<open>i\<close> of the number is the element \<open>i\<close>; a shift by 64 or more is undefined.\<close>

definition numeral_bits :: "64 word \<Rightarrow> nat \<Rightarrow> signal_bit list res" where
  "numeral_bits value bit_size =
     mapM (\<lambda>i. if i < 64 then Inr (if value AND push_bit i 1 \<noteq> 0 then BIT_1 else BIT_0) else Inl Undefined)
       [0..<bit_size]"

definition smt_timed_value :: "smt_model option \<Rightarrow> smt_manager \<Rightarrow> signal_id \<Rightarrow> int \<Rightarrow> (int \<times> signal_value) res" where
  "smt_timed_value mo mg signal time =
     (let signal_name = create_smt_signal_name 1 (id_hierarchy signal) (legalize_identifier (id_name signal)) time
      in bnd (signal_expr (RuntimeError (fmt ''SMT model does not have signal {}'' [signal_name])) (mg_state mg) signal_name) (\<lambda>t.
         bnd (get_model mo) (\<lambda>m.
         bnd (as_uint64 m t) (\<lambda>value.
         bnd (numeral_bits value (bv_size t)) (\<lambda>bits.
         Inr (time, vector_value bits))))))"

definition smt_get_signal_values ::
  "smt_model option \<Rightarrow> smt_manager \<Rightarrow> signal_id \<Rightarrow> signal_values res"
where
  "smt_get_signal_values mo mg signal =
     bnd (mapM (smt_timed_value mo mg signal) (map int [0..<nat (mg_timesteps mg)])) (\<lambda>values.
     if values = [] then Inl (RuntimeError (fmt ''SMT model does not have signal {}'' [id_to_string signal]))
     else Inr values)"

text \<open>The name is not made legal here, in contrast to \<open>smt_get_signal_values\<close> and to the export.\<close>

definition smt_get_signal :: "smt_manager \<Rightarrow> signal_id \<Rightarrow> signal_info res" where
  "smt_get_signal mg signal =
     bnd (signal_expr OutOfRange (mg_state mg) (create_smt_signal_name 1 (id_hierarchy signal) (id_name signal) 0)) (\<lambda>t.
     Inr \<lparr>si_reference = id_name signal, si_size = word_of_nat (bv_size t),
          si_hash = fmt ''{}_{}'' [join ''_'' (id_hierarchy signal), id_name signal]\<rparr>)"

definition smt_get_signal_value ::
  "(bv \<Rightarrow> string) \<Rightarrow> smt_model option \<Rightarrow> smt_manager \<Rightarrow> signal_id \<Rightarrow> int \<Rightarrow> signal_value res"
where
  "smt_get_signal_value print mo mg signal timestep =
     bnd (signal_expr (RuntimeError ''Signal not found in SMT model'') (mg_state mg)
            (create_smt_signal_name 1 (id_hierarchy signal) (id_name signal) timestep)) (\<lambda>t.
     bnd (get_model mo) (\<lambda>m.
     value_of_bitstring (print (eval_expr m t))))"

text \<open>An exception of the solver becomes a runtime error.\<close>

definition smt_get_input_values ::
  "(error \<Rightarrow> string) \<Rightarrow> smt_model option \<Rightarrow> smt_manager \<Rightarrow> signal_id list \<Rightarrow> (string \<times> signal_values) list res"
where
  "smt_get_input_values msg mo mg input_ids =
     bnd (get_model mo) (\<lambda>_.
     foldM (\<lambda>signal vals.
       case smt_get_signal_values mo mg signal of
         Inr v \<Rightarrow> Inr (AList.update (fmt ''{}_{}'' [join ''_'' (id_hierarchy signal), id_name signal]) v vals)
       | Inl e \<Rightarrow> Inl (if e = Z3Exception then RuntimeError (fmt ''Z3 Exception: {}'' [msg e]) else e)) input_ids [])"

section \<open>Flow from an input to a signal\<close>

text \<open>
  \<open>operator[]\<close> of the map adds a name that is missing, with the number zero. The constants of the
  ports are bit vectors.
\<close>

definition expr_at_name :: "string \<Rightarrow> smt_state \<Rightarrow> (bv \<times> smt_state) res" where
  "expr_at_name name st =
     (let st' = (if map_of (ss_ids st) name = None then st\<lparr>ss_ids := AList.update name 0 (ss_ids st)\<rparr> else st)
      in bnd (signal_expr Undefined st' name) (\<lambda>t. Inr (t, st')))"

definition add_difference ::
  "string \<Rightarrow> int \<Rightarrow> signal_id \<Rightarrow> (bv \<times> bv) list \<times> smt_state \<Rightarrow> ((bv \<times> bv) list \<times> smt_state) res"
where
  "add_difference top_name time signal = (\<lambda>(pairs, st).
     bnd (expr_at_name (create_smt_signal_name 1 [top_name] (id_name signal) time) st) (\<lambda>(a, st).
     bnd (expr_at_name (create_smt_signal_name 2 [top_name] (id_name signal) time) st) (\<lambda>(b, st).
     chk (wf_form (FNe a b)) Z3Exception (Inr (pairs @ [(a, b)], st)))))"

definition differences :: "smt_manager \<Rightarrow> signal_id list \<Rightarrow> smt_state \<Rightarrow> ((bv \<times> bv) list \<times> smt_state) res" where
  "differences mg signals_list st =
     foldM (\<lambda>time acc. foldM (add_difference (mg_top mg) time) signals_list acc) (map int [0..<nat (mg_timesteps mg)]) ([], st)"

text \<open>The number of the constraint of each signal, under its own name.\<close>

definition constraint_ids :: "smt_manager \<Rightarrow> signal_id list \<Rightarrow> (string \<times> nat) list" where
  "constraint_ids mg signals_list =
     (if mg_timesteps mg \<le> 0 then []
      else fold (\<lambda>(i, signal). AList.update (id_name signal) i) (enumerate 0 signals_list) [])"

definition constraint_at :: "(string \<times> nat) list \<Rightarrow> (bv \<times> bv) list \<Rightarrow> string \<Rightarrow> form res" where
  "constraint_at ids pairs name =
     (let i = (case map_of ids name of Some i \<Rightarrow> i | None \<Rightarrow> 0)
      in if i < length pairs then Inr (FNe (fst (pairs ! i)) (snd (pairs ! i))) else Inl Z3Exception)"

text \<open>The coefficients are as many as the inputs; reading past them is undefined.\<close>

definition exactly_one :: "nat \<Rightarrow> (bv \<times> bv) list \<Rightarrow> form res" where
  "exactly_one coefficients pairs =
     (if coefficients < length pairs then Inl Undefined
      else Inr (mk_or (map (\<lambda>i. mk_and (map (\<lambda>(j, a, b). if j = i then FNe a b else FEq a b) (enumerate 0 pairs)))
        [0..<length pairs])))"

definition smt_is_tag_propagated ::
  "(nat \<Rightarrow> assertions \<Rightarrow> answer) \<Rightarrow> smt_manager \<Rightarrow> signal_id \<Rightarrow> int \<Rightarrow> signal_id \<Rightarrow> int \<Rightarrow>
   (bool option \<times> smt_manager) res"
where
  "smt_is_tag_propagated check mg input_signal input_time target_signal target_time =
     bnd (narrow_u32 input_time) (\<lambda>i_time.
     bnd (narrow_u32 target_time) (\<lambda>t_time.
     let starting_signal_smt_name = create_smt_signal_name 1 (id_hierarchy input_signal)
           (legalize_identifier (id_name input_signal)) (uint i_time);
         target_signal_smt_name = create_smt_signal_name 1 (id_hierarchy target_signal)
           (legalize_identifier (id_name target_signal)) (uint t_time) in
     bnd (differences mg (mg_inputs mg) (mg_state mg)) (\<lambda>(input_constraints, st).
     bnd (differences mg (mg_outputs mg) st) (\<lambda>(output_constraints, st).
     bnd (constraint_at (constraint_ids mg (mg_inputs mg)) input_constraints starting_signal_smt_name) (\<lambda>f.
     bnd (assert_all [f] (ss_solver st, ss_memory st)) (\<lambda>s.
     bnd (constraint_at (constraint_ids mg (mg_outputs mg)) output_constraints target_signal_smt_name) (\<lambda>g.
     bnd (assert_all [g] s) (\<lambda>s.
     bnd (exactly_one (length (mg_inputs mg)) input_constraints) (\<lambda>one.
     bnd (assert_all [one] s) (\<lambda>s.
     Inr (case check 0 s of
            Sat m \<Rightarrow> Some True
          | _ \<Rightarrow> (case check 1 s of Unknown \<Rightarrow> None | _ \<Rightarrow> Some False), mg\<lparr>mg_state := st\<rparr>)))))))))))"

end
