(* ===== verification/SmtTestbenches.thy ===== *)
theory SmtTestbenches
  imports SmtSignals
begin

text \<open>
  The test bench that replays a model of the solver (\<open>TestbenchSMT\<close>, \<open>src/ducode/testbench.cpp\<close>):
  each step of the unrolling is one period of the clock, and the registers are forced to the values
  of step zero at the start.
\<close>

record smt_testbench =
  tbs_design :: design
  tbs_map :: smt_manager
  tbs_instance :: inst_graph

definition constClockToggle :: "32 word" where "constClockToggle = 2"

definition smt_input_assignment ::
  "(bv \<Rightarrow> string) \<Rightarrow> smt_model option \<Rightarrow> smt_testbench \<Rightarrow> int \<Rightarrow> signal_id \<Rightarrow> string list res"
where
  "smt_input_assignment print mo tb time signal_id =
     (if id_name signal_id = d_clk (tbs_design tb) then Inr []
      else
        bnd (smt_get_signal (tbs_map tb) signal_id) (\<lambda>signal.
        bnd (smt_get_signal_value print mo (tbs_map tb) signal_id time) (\<lambda>value.
        bnd (bit_to_vector value) (\<lambda>bitValues.
        Inr [fmt ''{} = {}'b'' [si_reference signal, show_word (si_size signal)],
             value_text (si_size signal) bitValues, '';\<newline>'']))))"

definition smt_step_inputs ::
  "(bv \<Rightarrow> string) \<Rightarrow> smt_model option \<Rightarrow> smt_testbench \<Rightarrow> signal_id list \<Rightarrow> int \<Rightarrow> string list res"
where
  "smt_step_inputs print mo tb input_ids time =
     bnd (mapM (smt_input_assignment print mo tb time) input_ids) (\<lambda>assigns.
     Inr (concat assigns
       @ [fmt ''#{};\<newline>'' [show_word (if time = 0 then constClockToggle * 2 + 1 else constClockToggle * 2)]]))"

definition smt_write_testbench_inputs ::
  "(bv \<Rightarrow> string) \<Rightarrow> smt_model option \<Rightarrow> smt_testbench \<Rightarrow> string list res"
where
  "smt_write_testbench_inputs print mo tb =
     bnd (get_input_signal_ids (tbs_design tb)) (\<lambda>input_ids.
     bnd (mapM (smt_step_inputs print mo tb input_ids) (smt_get_timestamps (tbs_map tb))) (\<lambda>steps.
     Inr ([''initial begin \<newline>''] @ concat steps @ [''$finish;\<newline>'', ''end\<newline>\<newline>''])))"

definition write_clock :: "smt_testbench \<Rightarrow> string list" where
  "write_clock tb =
     (let clk_signal_name = d_clk (tbs_design tb)
      in only (clk_signal_name \<noteq> '''')
        [''initial begin\<newline>'', fmt ''    {} = 1;\<newline>'' [clk_signal_name],
         fmt ''    forever #{} {} = ~{};\<newline>'' [show_word constClockToggle, clk_signal_name, clk_signal_name],
         ''end\<newline>\<newline>''])"

definition force_text ::
  "(bv \<Rightarrow> string) \<Rightarrow> smt_model option \<Rightarrow> smt_testbench \<Rightarrow> signal_id \<Rightarrow> string list res"
where
  "force_text print mo tb flipflop_id =
     bnd (smt_get_signal (tbs_map tb) flipflop_id) (\<lambda>signal.
     bnd (smt_get_signal_value print mo (tbs_map tb) flipflop_id 0) (\<lambda>value.
     bnd (bit_to_vector value) (\<lambda>bitValues.
     Inr [fmt (tab @ ''force {}.{} = {}'b'') [join ''.'' (id_hierarchy flipflop_id),
            legalize_identifier (id_name flipflop_id), show_word (si_size signal)],
          value_text (si_size signal) bitValues, '';\<newline>''])))"

definition write_initial_state ::
  "(bv \<Rightarrow> string) \<Rightarrow> smt_model option \<Rightarrow> smt_testbench \<Rightarrow> string list res"
where
  "write_initial_state print mo tb =
     bnd (get_all_flipflop_ids (tbs_instance tb)) (\<lambda>flipflop_ids.
     if flipflop_ids = [] then Inr []
     else
       bnd (mapM (force_text print mo tb) flipflop_ids) (\<lambda>forces.
       Inr ([''initial begin\<newline>'', ''#0\<newline>''] @ concat forces @ [''#1\<newline>'']
         @ map (\<lambda>i. fmt (tab @ ''release {}.{};\<newline>'') [join ''.'' (id_hierarchy i), legalize_identifier (id_name i)])
             flipflop_ids
         @ [''end\<newline>\<newline>''])))"

definition smt_write_testbench_internals ::
  "(bv \<Rightarrow> string) \<Rightarrow> smt_model option \<Rightarrow> smt_testbench \<Rightarrow> string list res"
where
  "smt_write_testbench_internals print mo tb =
     bnd (get_top_module (tbs_design tb)) (\<lambda>(tm, _).
     bnd (get_all_flipflop_ids (tbs_instance tb)) (\<lambda>flipflop_names.
     let port_assignments = map (\<lambda>e. fmt ''.{}({})'' [legalize_identifier e, legalize_identifier e])
           (get_input_names tm @ get_output_names tm) in
     bnd (write_initial_state print mo tb) (\<lambda>initial_state.
     bnd (smt_write_testbench_inputs print mo tb) (\<lambda>inputs.
     Inr ([fmt ''{}  {}({});\<newline>\<newline>'' [m_name tm, m_name tm, join '', '' port_assignments]]
       @ write_clock tb @ initial_state @ inputs)))))"

definition smt_export_testbench ::
  "(bv \<Rightarrow> string) \<Rightarrow> smt_model option \<Rightarrow> smt_testbench \<Rightarrow> json \<Rightarrow> string list res"
where
  "smt_export_testbench print mo tb params =
     bnd (if jcontains params ''dumpvars_lvl'' then bnd (jindex params ''dumpvars_lvl'') get_int else Inr 0)
       (\<lambda>dumpvars_lvl.
     bnd (get_module (tbs_design tb) (d_top (tbs_design tb))) (\<lambda>(tm, _).
     bnd (smt_write_testbench_internals print mo tb) (\<lambda>internals.
     Inr ([fmt ''module {}_tb;\<newline>'' [m_name tm]]
       @ concat (map (port_header False True 0) (m_ports tm))
       @ internals
       @ [''initial\<newline>begin\<newline>'', (tab @ ''$dumpfile(`DUMP_FILE_NAME);\<newline>''),
          fmt (tab @ ''$dumpvars({});\<newline>'') [show_int dumpvars_lvl], ''end\<newline>\<newline>\<newline>endmodule'']))))"

end
