(* ===== verification/ValidationFacts.thy ===== *)
theory ValidationFacts
  imports Validation QifaFacts
begin

text \<open>
  What the validation of \<open>Validation\<close> shows: which models satisfy the asserted values, that the
  comparison accepts them, which steps a validation looks at, and when a design is found to have
  determined outputs.
\<close>

section \<open>Asserted bits\<close>

lemma assert_bits_exact:
  assumes bv: "smt_bv un bin prd" and t: "ws t"
  shows "foldM (assert_bit t) ps st = Inr st' \<Longrightarrow>
    (\<forall>f \<in> set (ss_solver st'). holds un bin prd \<mu> f) \<longleftrightarrow>
    (\<forall>f \<in> set (ss_solver st). holds un bin prd \<mu> f) \<and> (\<forall>(k, b) \<in> set ps. bit (eval un bin prd \<mu> t) k = b)"
proof (induction ps arbitrary: st)
  case (Cons p ps)
  obtain k b where p: "p = (k, b)" by (cases p)
  from Cons.prems obtain st1 where k: "k < bv_size t" and st1: "assert_form (FEq (Uop (Extract k k) t) (BVal (of_bool b) 1)) st = Inr st1"
    and rest: "foldM (assert_bit t) ps st1 = Inr st'"
    by (auto simp: p assert_bit_def extract_bit_def bnd_eq_Inr split: if_splits)
  have s: "ss_solver st1 = ss_solver st @ [FEq (Uop (Extract k k) t) (BVal (of_bool b) 1)]"
    using st1 by (auto simp: assert_form_def solver_add_def bnd_eq_Inr split: if_splits)
  have "un (Extract k k) (bv_size t) (eval un bin prd \<mu> t) = take_bit 1 (drop_bit k (eval un bin prd \<mu> t))"
    using smt_bv.un_extract [OF bv smt_bv.ev_range [OF bv t] order.refl k, of \<mu>] by simp
  then have "holds un bin prd \<mu> (FEq (Uop (Extract k k) t) (BVal (of_bool b) 1)) \<longleftrightarrow> bit (eval un bin prd \<mu> t) k = b"
    by (cases b) (auto simp: take_bit_Suc bit_iff_odd_drop_bit mod2_eq_if odd_iff_mod_2_eq_one)
  then show ?case using Cons.IH [OF rest] by (auto simp: s p)
qed simp

lemma in_selected:
  "length xs = length known \<Longrightarrow> p \<in> set (map fst (filter snd (zip xs known))) \<longleftrightarrow> (\<exists>k < length xs. known ! k \<and> p = xs ! k)"
proof (induction xs known rule: list_induct2)
  case (Cons x xs y ys)
  then show ?case by (auto simp: less_Suc_eq_0_disj)
qed simp

lemma all_selected:
  assumes "length bits = length known"
  shows "(\<forall>(k, b) \<in> set (map fst (filter snd (zip (enumerate 0 bits) known))). P k b) \<longleftrightarrow>
    (\<forall>k < length bits. known ! k \<longrightarrow> P k (bits ! k))"
proof -
  have "(\<forall>p \<in> set (map fst (filter snd (zip (enumerate 0 bits) known))). case p of (k, b) \<Rightarrow> P k b) \<longleftrightarrow>
      (\<forall>k < length (enumerate 0 bits). known ! k \<longrightarrow> (case enumerate 0 bits ! k of (k, b) \<Rightarrow> P k b))"
    using in_selected [of "enumerate 0 bits" known] assms by (metis length_enumerate)
  then show ?thesis by (simp add: nth_enumerate_eq)
qed

lemma add_smt_signal_value_cases:
  assumes "add_smt_signal_value ro i v time d st = Inr st'"
    and "signal_expr (missing_signal (create_smt_signal_name d (id_hierarchy i) (legalize_identifier (id_name i)) time)) st
        (create_smt_signal_name d (id_hierarchy i) (legalize_identifier (id_name i)) time) = Inr t"
  obtains bits known where "get_signal_value_as_bitset ro v (bv_size t) = Inr bits"
    "get_signal_value_bitmask ro v (bv_size t) = Inr known"
    "foldM (assert_bit t) (map fst (filter snd (zip (enumerate 0 bits) known))) st = Inr st'"
  using assms by (auto simp: add_smt_signal_value_def Let_def bnd_eq_Inr chk_eq_Inr)

text \<open>
  The bits of a value of the waveform: position zero is the last digit, and a value that is too short is
  extended with zeros, or with its first digit when that is \<open>x\<close> or \<open>z\<close>, as the waveform format says.
\<close>

definition value_bit :: "signal_bit list \<Rightarrow> nat \<Rightarrow> signal_bit" where
  "value_bit bs k = (if k < length bs then rev bs ! k else if known_bit (hd bs) then BIT_0 else hd bs)"

text \<open>The bits that an assertion of a value fixes.\<close>

definition fixed_bit :: "real_ops \<Rightarrow> signal_value \<Rightarrow> nat \<Rightarrow> bool option" where
  "fixed_bit ro v k =
     (case (sv_type v, sv_value v) of
        (VECTOR, SVector bs) \<Rightarrow>
          if known_bit (value_bit bs k) then Some (value_bit bs k = BIT_1)
          else if hd bs = BIT_Z \<and> length bs \<le> k then Some False
          else None
      | (SCALAR, SBit b) \<Rightarrow> if k = 0 \<and> known_bit b then Some (b = BIT_1) else None
      | (REAL, SReal r) \<Rightarrow> (case ro_narrow ro r of Inr x \<Rightarrow> if bit x k then Some True else None | Inl e \<Rightarrow> None)
      | _ \<Rightarrow> None)"

lemma known_bit_iff: "known_bit b \<longleftrightarrow> b = BIT_1 \<or> b = BIT_0"
  by (cases b) auto

lemma extended_bit:
  assumes "bs \<noteq> []" "length bs \<le> n" "k < n"
  defines "digits \<equiv> rev bs @ replicate (n - length bs) (if hd bs = BIT_X then BIT_X else BIT_0)"
  shows "fixed_bit ro (vector_value bs) k = (if known_bit (digits ! k) then Some (digits ! k = BIT_1) else None)"
proof (cases "k < length bs")
  case True
  then show ?thesis by (simp add: digits_def fixed_bit_def vector_value_def value_bit_def nth_append)
next
  case False
  then have "digits ! k = (if hd bs = BIT_X then BIT_X else BIT_0)" using assms(2,3) by (simp add: digits_def nth_append)
  then show ?thesis using False by (cases "hd bs") (simp_all add: fixed_bit_def vector_value_def value_bit_def)
qed

lemma number_bits_simps [simp]: "length (number_bits n x) = n" "number_bits 0 x = []" "k < n \<Longrightarrow> number_bits n x ! k = bit x k"
  by (simp_all add: number_bits_def)

lemma bits_and_mask:
  assumes "get_signal_value_as_bitset ro v n = Inr bits" "get_signal_value_bitmask ro v n = Inr known"
  shows "length bits = n \<and> length known = n \<and> (\<forall>k < n. fixed_bit ro v k = (if known ! k then Some (bits ! k) else None))"
proof (cases "sv_type v")
  case VECTOR
  then obtain bs where v: "v = vector_value bs"
    using assms(1) by (cases v) (auto simp: get_signal_value_as_bitset_def get_value_vector_def vector_value_def split: signal_variant.splits)
  define ext where "ext = rev bs @ replicate (n - length bs) (if hd bs = BIT_X then BIT_X else BIT_0)"
  have len: "bs \<noteq> []" "length bs \<le> n" "bits = map (\<lambda>b. b = BIT_1) ext" "known = map (\<lambda>b. b = BIT_1 \<or> b = BIT_0) ext"
    using assms by (auto simp: v get_signal_value_as_bitset_def get_signal_value_bitmask_def vector_value_def get_value_vector_def
      extend_signal_value_vector_def bnd_eq_Inr chk_eq_Inr ext_def)
  moreover have "length ext = n" using len by (simp add: ext_def)
  ultimately show ?thesis using extended_bit [OF len(1,2), folded ext_def, where ro = ro] by (simp add: v known_bit_iff)
next
  case SCALAR
  then obtain b where v: "v = \<lparr>sv_type = SCALAR, sv_value = SBit b\<rparr>"
    using assms(1) by (cases v) (auto simp: get_signal_value_as_bitset_def get_value_bit_def split: signal_variant.splits)
  show ?thesis
    using assms
    by (cases "0 < n"; cases b)
      (auto simp: v get_signal_value_as_bitset_def get_signal_value_bitmask_def get_value_bit_def fixed_bit_def bit_1_iff)
qed (use assms in \<open>auto simp: get_signal_value_as_bitset_def get_signal_value_bitmask_def get_value_real_def
      fixed_bit_def bnd_eq_Inr split: signal_variant.splits\<close>)

text \<open>
  \<^bold>\<open>C14.\<close> Asserting a value of the simulation fixes exactly the following bits: the models are those of the
  assertions before whose constant has these bits. Of a vector these are the digits that are zero or
  one, and the missing ones as zeros, unless the value starts with \<open>x\<close> (a value that starts with \<open>z\<close>
  is wrongly extended with zeros); of a scalar only bit zero; of a real number only the bits that are
  one.
\<close>

theorem value_assertions_exact:
  assumes bv: "smt_bv un bin prd" and t: "ws t"
    and e: "signal_expr (missing_signal (create_smt_signal_name d (id_hierarchy i) (legalize_identifier (id_name i)) time)) st
        (create_smt_signal_name d (id_hierarchy i) (legalize_identifier (id_name i)) time) = Inr t"
    and add: "add_smt_signal_value ro i v time d st = Inr st'"
  shows "(\<forall>f \<in> set (ss_solver st'). holds un bin prd \<mu> f) \<longleftrightarrow>
    (\<forall>f \<in> set (ss_solver st). holds un bin prd \<mu> f) \<and>
    (\<forall>k < bv_size t. \<forall>b. fixed_bit ro v k = Some b \<longrightarrow> bit (eval un bin prd \<mu> t) k = b)"
proof -
  obtain bits known where b: "get_signal_value_as_bitset ro v (bv_size t) = Inr bits"
    and m: "get_signal_value_bitmask ro v (bv_size t) = Inr known"
    and run: "foldM (assert_bit t) (map fst (filter snd (zip (enumerate 0 bits) known))) st = Inr st'"
    by (rule add_smt_signal_value_cases [OF add e])
  note fixed = bits_and_mask [OF b m]
  then have len: "length bits = length known" "length bits = bv_size t" by simp_all
  show ?thesis
    unfolding assert_bits_exact [OF bv t run] all_selected [OF len(1)] len(2)
    using fixed by auto
qed

section \<open>Comparison\<close>

lemma compare_loop:
  assumes "n \<le> length bits" "n \<le> bv_size t" "\<forall>k < n. m (Uop (Extract k k) t) = Some (e k)"
  shows "foldM (\<lambda>i bit_matches.
      bnd (bnd (extract_bit t i) (model_bit m)) (\<lambda>x.
      if i < length bits then Inr (if known_bit (bits ! i) \<and> x \<noteq> bits ! i then False else bit_matches)
      else Inl OutOfRange)) [0..<n] r =
    Inr (r \<and> (\<forall>k < n. known_bit (bits ! k) \<longrightarrow> (if e k = 1 then BIT_1 else BIT_0) = bits ! k))"
  using assms
proof (induction n)
  case (Suc n)
  then show ?case
    by (auto simp: foldM_append extract_bit_def model_bit_def get_value_def less_Suc_eq)
qed simp

lemma compare_bits_vector:
  assumes bs: "bs \<noteq> []" "length bs \<le> bv_size t" and size: "unat signal_size = bv_size t" "bv_size t < 2 ^ 32"
    and m: "\<forall>k < bv_size t. m (Uop (Extract k k) t) = Some (e k)"
  shows "compare_bits m t (vector_value bs) signal_size =
    Inr (\<forall>k < bv_size t. \<forall>b. fixed_bit ro (vector_value bs) k = Some b \<longrightarrow> (e k = 1) = b)"
proof -
  define ext where "ext = rev bs @ replicate (bv_size t - length bs) (if hd bs = BIT_X then BIT_X else BIT_0)"
  have n: "unat (ucast signal_size :: 32 word) = bv_size t"
    using size by (simp add: unsigned_ucast_eq unsigned_take_bit_eq take_bit_nat_eq_self)
  have len: "length ext = bv_size t" using bs by (simp add: ext_def)
  have "extend_signal_value_vector bs (unat signal_size) = Inr ext"
    using bs size by (simp add: extend_signal_value_vector_def ext_def)
  then have "compare_bits m t (vector_value bs) signal_size =
      Inr (\<forall>k < bv_size t. known_bit (ext ! k) \<longrightarrow> (if e k = 1 then BIT_1 else BIT_0) = ext ! k)"
    using compare_loop [of "bv_size t" ext t m e True] m len by (simp add: compare_bits_def vector_value_def get_value_vector_def n)
  moreover have "known_bit x \<longrightarrow> ((if b then BIT_1 else BIT_0) = x) = (b = (x = BIT_1))" for x b by (cases x) auto
  ultimately show ?thesis using extended_bit [OF bs, folded ext_def, where ro = ro] by auto
qed

section \<open>Validation of a simulated model\<close>

lemma compare_steps_last:
  "us \<noteq> [] \<Longrightarrow> \<forall>u \<in> set us. compare u = Inr (c u) \<Longrightarrow> compare_steps compare us r = Inr (c (last us))"
  unfolding compare_steps_def by (induction us arbitrary: r) auto

lemma compare_outputs_all:
  "\<forall>name \<in> set names. \<forall>r. compare name r = Inr (c name) \<Longrightarrow>
   compare_outputs clk compare names r = Inr (if \<forall>name \<in> set names. name = clk then r else \<forall>name \<in> set names. name \<noteq> clk \<longrightarrow> c name)"
  by (induction names arbitrary: r) auto

text \<open>
  \<^bold>\<open>C15.\<close> The validation of a simulated model looks at the comparisons of all steps, but the last one
  decides: a mismatch in an earlier step is lost.
\<close>
theorem simulation_validation_last_step:
  assumes "0 < unroll_factor" "top_outputs d = Inr names"
    and "\<forall>name \<in> set names. \<forall>u. 0 \<le> u \<and> u < unroll_factor \<longrightarrow>
      compare_smt_with_simulation sm \<lparr>id_name = name, id_hierarchy = [d_top d]\<rparr> m st (u * 4 + 2) u = Inr (c name u)"
  shows "smt_to_simulation_validation (Sat m) sm d st unroll_factor =
    Inr (\<forall>name \<in> set names. name \<noteq> d_clk d \<longrightarrow> c name (unroll_factor - 1))"
proof -
  have l: "[0..unroll_factor - 1] \<noteq> []" "last [0..unroll_factor - 1] = unroll_factor - 1"
    using assms(1) upto_rec2 [of 0 "unroll_factor - 1"] by simp_all
  have "compare_steps (\<lambda>u. compare_smt_with_simulation sm \<lparr>id_name = name, id_hierarchy = [d_top d]\<rparr> m st (u * 4 + 2) u)
      [0..unroll_factor - 1] r = Inr (c name (unroll_factor - 1))" if "name \<in> set names" for name r
    using compare_steps_last [OF l(1), of _ "c name"] assms(3) that by (simp add: l(2))
  then show ?thesis
    using compare_outputs_all [of names _ "\<lambda>name. c name (unroll_factor - 1)"]
    by (auto simp: smt_to_simulation_validation_def assms(2))
qed

section \<open>Outputs that are determined\<close>

lemma assert_all_memory: "assert_all fs s = Inr s' \<Longrightarrow> snd s' = snd s"
  by (auto simp: assert_all_def case_prod_unfold bnd_eq_Inr)

lemma eval_expr_holds:
  assumes bv: "smt_bv un bin prd" and m: "\<forall>v. m t = Some v \<longrightarrow> v = eval un bin prd \<mu>0 t" and t: "ws t"
  shows "holds un bin prd \<mu> (FEq t (eval_expr m t)) \<longleftrightarrow> (\<forall>v. m t = Some v \<longrightarrow> eval un bin prd \<mu> t = v)"
    "holds un bin prd \<mu> (FNe t (eval_expr m t)) \<longleftrightarrow> (\<exists>v. m t = Some v \<and> eval un bin prd \<mu> t \<noteq> v)"
  using smt_bv.ev_range [OF bv t, of \<mu>0] m by (auto simp: eval_expr_def take_bit_int_eq_self split: option.splits)

text \<open>All models that agree with the given one on some expressions agree with it on others.\<close>

definition determined ::
  "(unop \<Rightarrow> nat \<Rightarrow> int \<Rightarrow> int) \<Rightarrow> (binop \<Rightarrow> nat \<Rightarrow> int \<Rightarrow> int \<Rightarrow> int) \<Rightarrow>
   (cmp \<Rightarrow> nat \<Rightarrow> int \<Rightarrow> int \<Rightarrow> bool) \<Rightarrow> smt_model \<Rightarrow> assertions \<Rightarrow> bv list \<Rightarrow> bv list \<Rightarrow> bool"
where
  "determined un bin prd m s ins outs \<longleftrightarrow>
     (\<forall>\<mu> ma. satisfies un bin prd \<mu> ma s \<and> (\<forall>t \<in> set ins. \<forall>v. m t = Some v \<longrightarrow> eval un bin prd \<mu> t = v) \<longrightarrow>
        (\<forall>t \<in> set outs. \<forall>v. m t = Some v \<longrightarrow> eval un bin prd \<mu> t = v))"

text \<open>
  \<^bold>\<open>C16.\<close> The check for a single solution says yes only if all models with the inputs and initial states of
  the first model have its outputs, and no only if some have others or the solver gave up.
\<close>
theorem unique_assignment_correct:
  assumes bv: "smt_bv un bin prd" and sound: "sound_solver un bin prd check" and sat: "check 0 s = Sat m"
    and run: "smt_to_simulation_unique_assignment check stateInit_expr input_exprs output_exprs s = Inr b"
  shows "if b then determined un bin prd m s (concat input_exprs @ stateInit_expr) (concat output_exprs)
    else determined un bin prd m s (concat input_exprs @ stateInit_expr) (concat output_exprs) \<longrightarrow> (\<exists>s'. check 1 s' = Unknown)"
proof -
  let ?eq = "\<lambda>t. FEq t (eval_expr m t)" and ?ne = "\<lambda>t. FNe t (eval_expr m t)"
  obtain \<mu>0 where m: "\<forall>t v. m t = Some v \<longrightarrow> v = eval un bin prd \<mu>0 t"
    using sound [unfolded sound_solver_def, THEN spec [of _ 0], THEN spec [of _ s]] sat by auto
  obtain s1 s2 s3 where s1: "assert_all (map ?eq (concat input_exprs)) s = Inr s1" and s2: "assert_all (map ?eq stateInit_expr) s1 = Inr s2"
    and s3: "assert_all [mk_or (map ?ne (concat output_exprs))] s2 = Inr s3" and b: "b = (case check 1 s3 of Unsat \<Rightarrow> True | _ \<Rightarrow> False)"
    using run sat by (auto simp: smt_to_simulation_unique_assignment_def Let_def bnd_eq_Inr chk_eq_Inr)
  note f = assert_all_facts [OF s1] assert_all_facts [OF s2] assert_all_facts [OF s3]
  have ws: "ws t" if "t \<in> set (concat input_exprs) \<union> set stateInit_expr \<union> set (concat output_exprs)" for t
    using that f(2,5,8) by (auto simp: wf_mk_or)
  have mt: "\<forall>v. m t = Some v \<longrightarrow> v = eval un bin prd \<mu>0 t" for t using m by blast
  have eq: "holds un bin prd \<mu> (?eq t) \<longleftrightarrow> (\<forall>v. m t = Some v \<longrightarrow> eval un bin prd \<mu> t = v)"
    and ne: "holds un bin prd \<mu> (?ne t) \<longleftrightarrow> (\<exists>v. m t = Some v \<and> eval un bin prd \<mu> t \<noteq> v)"
    if "t \<in> set (concat input_exprs) \<union> set stateInit_expr \<union> set (concat output_exprs)" for t \<mu>
    using eval_expr_holds [where m = m and t = t and ?\<mu>0.0 = \<mu>0 and un = un and bin = bin and prd = prd and \<mu> = \<mu>] bv mt [of t] ws [OF that]
    by (simp_all only:)
  let ?same = "\<lambda>\<mu>. \<forall>t \<in> set (concat input_exprs) \<union> set stateInit_expr. \<forall>v. m t = Some v \<longrightarrow> eval un bin prd \<mu> t = v"
  let ?differ = "\<lambda>\<mu>. \<exists>t \<in> set (concat output_exprs). \<exists>v. m t = Some v \<and> eval un bin prd \<mu> t \<noteq> v"
  have same: "(\<forall>t \<in> set (concat input_exprs) \<union> set stateInit_expr. holds un bin prd \<mu> (?eq t)) \<longleftrightarrow> ?same \<mu>" for \<mu>
    by (rule ball_cong [OF refl]) (rule eq, blast)
  have differ: "(\<exists>t \<in> set (concat output_exprs). holds un bin prd \<mu> (?ne t)) \<longleftrightarrow> ?differ \<mu>" for \<mu>
    by (rule bex_cong [OF refl]) (rule ne, blast)
  have s3: "satisfies un bin prd \<mu> ma s3 \<longleftrightarrow> satisfies un bin prd \<mu> ma s \<and> ?same \<mu> \<and> ?differ \<mu>" for \<mu> ma
    unfolding satisfies_def f(1,4,7) assert_all_memory [OF s1] assert_all_memory [OF s2] assert_all_memory [OF s3] same [symmetric] differ [symmetric]
    by (simp add: holds_mk_or ball_Un) blast
  have d: "determined un bin prd m s (concat input_exprs @ stateInit_expr) (concat output_exprs) \<longleftrightarrow>
      \<not> (\<exists>\<mu> ma. satisfies un bin prd \<mu> ma s3)"
    unfolding determined_def s3 by (simp add: ball_Un) blast
  show ?thesis
    unfolding d using sound [unfolded sound_solver_def, THEN spec [of _ 1], THEN spec [of _ s3]] b
    by (auto split: answer.splits simp del: split_paired_Ex)
qed

theorem unique_assignment_correct_witness:
  "determined std_un std_bin std_prd (\<lambda>t. Some (eval std_un std_bin std_prd (\<lambda>_. 1) t)) ([FEq (BVar ''o'' 2) (BVar ''s'' 2)], [])
     [BVar ''s'' 2] [BVar ''o'' 2]"
proof -
  let ?s = "([FEq (BVar ''o'' 2) (BVar ''s'' 2)], []) :: assertions"
  let ?m = "\<lambda>t. Some (eval std_un std_bin std_prd (\<lambda>_. 1) t)"
  let ?s3 = "([FEq (BVar ''o'' 2) (BVar ''s'' 2), FEq (BVar ''s'' 2) (BVal 1 2), FNe (BVar ''o'' 2) (BVal 1 2)], []) :: assertions"
  define check where "check = (\<lambda>(k::nat) (s::assertions). if k = 0 \<and> s = ?s then Sat ?m else if s = ?s3 then Unsat else Unknown)"
  have sound: "sound_solver std_un std_bin std_prd check"
    unfolding sound_solver_def
  proof (intro allI)
    fix k s
    have "satisfies std_un std_bin std_prd (\<lambda>_. 1) ma ?s" "\<not> satisfies std_un std_bin std_prd \<mu> ma ?s3" for \<mu> ma
      by (auto simp: satisfies_def)
    then show "case check k s of
        Sat m \<Rightarrow> \<exists>\<mu> ma. satisfies std_un std_bin std_prd \<mu> ma s \<and> (\<forall>t v. m t = Some v \<longrightarrow> v = eval std_un std_bin std_prd \<mu> t)
      | Unsat \<Rightarrow> \<nexists>\<mu> ma. satisfies std_un std_bin std_prd \<mu> ma s | Unknown \<Rightarrow> True"
      by (auto simp: check_def simp del: split_paired_Ex intro!: exI [of _ "\<lambda>_. 1"])
  qed
  have "check 0 ?s = Sat ?m" by (simp add: check_def)
  moreover have "smt_to_simulation_unique_assignment check [] [[BVar ''s'' 2]] [[BVar ''o'' 2]] ?s = Inr True"
    by (simp add: smt_to_simulation_unique_assignment_def check_def eval_expr_def assert_all_def solver_add_def take_bit_eq_mod)
  ultimately show ?thesis
    using unique_assignment_correct [OF std.smt_bv_axioms sound, of ?s ?m "[]" "[[BVar ''s'' 2]]" "[[BVar ''o'' 2]]" True] by simp
qed

section \<open>Samples\<close>

definition sample_signal :: signal_id where
  "sample_signal = \<lparr>id_name = ''o'', id_hierarchy = [''t'']\<rparr>"

abbreviation step_name :: "int \<Rightarrow> string" where
  "step_name u \<equiv> create_smt_signal_name 1 [''t''] ''o'' u"

definition sample_state :: "nat \<Rightarrow> smt_state" where
  "sample_state w = \<lparr>ss_exprs = [Inl (BVar ''a'' w), Inl (BVar ''b'' w)], ss_ids = [(step_name 0, 0), (step_name 1, 1)],
     ss_solver = [], ss_memory = []\<rparr>"

lemma sample_name: "legalize_identifier ''o'' = ''o''" "step_name 1 \<noteq> step_name 0" "step_name 0 \<noteq> step_name 1"
proof -
  show "legalize_identifier ''o'' = ''o''" by code_simp
  have "show_int 0 = ''0''" "show_int 1 = ''1''" by code_simp+
  then show "step_name 1 \<noteq> step_name 0" "step_name 0 \<noteq> step_name 1" by (simp_all add: create_smt_signal_name_def)
qed

definition sample_reals :: real_ops where
  "sample_reals = \<lparr>ro_eq = (=), ro_narrow = Inr\<rparr>"

lemma sample_expr:
  "signal_expr e (sample_state w) (step_name 0) = Inr (BVar ''a'' w)"
  "signal_expr e (sample_state w) (step_name 1) = Inr (BVar ''b'' w)"
  by (simp_all add: signal_expr_def sample_state_def sample_name)

lemma sample_added:
  assumes "v = vector_value [BIT_1, BIT_X] \<or> v = scalar_value BIT_1"
  shows "\<exists>st'. add_smt_signal_value sample_reals sample_signal v 0 1 (sample_state 3) = Inr st'"
  using assms
  by (auto simp: add_smt_signal_value_def Let_def sample_signal_def sample_name sample_expr get_signal_value_as_bitset_def
      get_signal_value_bitmask_def vector_value_def scalar_value_def get_value_vector_def get_value_bit_def extend_signal_value_vector_def
      chk_def to_ulong_def assert_bit_def extract_bit_def assert_form_def solver_add_def number_bits_def numeral_3_eq_3 upt_rec bit_1_iff)

theorem value_assertions_exact_witness:
  "(\<exists>st'. add_smt_signal_value sample_reals sample_signal (vector_value [BIT_1, BIT_X]) 0 1 (sample_state 3) = Inr st' \<and>
     list_all (holds std_un std_bin std_prd (\<lambda>_. 2)) (ss_solver st') \<and> \<not> list_all (holds std_un std_bin std_prd (\<lambda>_. 6)) (ss_solver st')) \<and>
   (\<exists>st'. add_smt_signal_value sample_reals sample_signal (scalar_value BIT_1) 0 1 (sample_state 3) = Inr st' \<and>
     list_all (holds std_un std_bin std_prd (\<lambda>_. 7)) (ss_solver st') \<and> \<not> list_all (holds std_un std_bin std_prd (\<lambda>_. 6)) (ss_solver st'))"
proof -
  have e: "signal_expr (missing_signal (create_smt_signal_name 1 (id_hierarchy sample_signal) (legalize_identifier (id_name sample_signal)) 0))
      (sample_state 3) (create_smt_signal_name 1 (id_hierarchy sample_signal) (legalize_identifier (id_name sample_signal)) 0) = Inr (BVar ''a'' 3)"
    by (simp add: sample_signal_def sample_name sample_expr)
  have three: "(\<forall>k < bv_size (BVar ''a'' 3). P k) \<longleftrightarrow> P 0 \<and> P 1 \<and> P (2::nat)" for P by (auto simp: less_Suc_eq numeral_3_eq_3 numeral_2_eq_2)
  have fixed: "fixed_bit sample_reals (vector_value [BIT_1, BIT_X]) 0 = None" "fixed_bit sample_reals (vector_value [BIT_1, BIT_X]) 1 = Some True"
    "fixed_bit sample_reals (vector_value [BIT_1, BIT_X]) 2 = Some False" "fixed_bit sample_reals (scalar_value BIT_1) 0 = Some True"
    "fixed_bit sample_reals (scalar_value BIT_1) 1 = None" "fixed_bit sample_reals (scalar_value BIT_1) 2 = None"
    by (simp_all add: fixed_bit_def vector_value_def scalar_value_def value_bit_def)
  have "list_all (holds std_un std_bin std_prd (\<lambda>_. \<mu>)) (ss_solver st') \<longleftrightarrow>
      (\<forall>k \<in> {0, 1, 2}. fixed_bit sample_reals v k = None \<or> fixed_bit sample_reals v k = Some (bit (take_bit 3 \<mu>) k))"
    if "add_smt_signal_value sample_reals sample_signal v 0 1 (sample_state 3) = Inr st'" for v st' \<mu>
  proof -
    have known: "(\<forall>b. y = Some b \<longrightarrow> c = b) \<longleftrightarrow> y = None \<or> y = Some c" for y :: "bool option" and c by (cases y) auto
    show ?thesis
      using value_assertions_exact [OF std.smt_bv_axioms _ e that, of "\<lambda>_. \<mu>"] unfolding known three
      by (simp add: sample_state_def list_all_iff)
  qed
  note exact = this
  have bits: "bit (take_bit 3 (2 :: int)) 1" "\<not> bit (take_bit 3 (2 :: int)) 2" "bit (take_bit 3 (6 :: int)) 2"
    "bit (take_bit 3 (7 :: int)) 0" "\<not> bit (take_bit 3 (6 :: int)) 0"
    by (simp_all add: bit_iff_odd take_bit_eq_mod)
  obtain a b where "add_smt_signal_value sample_reals sample_signal (vector_value [BIT_1, BIT_X]) 0 1 (sample_state 3) = Inr a"
    "add_smt_signal_value sample_reals sample_signal (scalar_value BIT_1) 0 1 (sample_state 3) = Inr b"
    using sample_added by blast
  note added = this
  show ?thesis using added exact [OF added(1)] exact [OF added(2)] bits by (simp add: fixed [unfolded One_nat_def])
qed

definition sample_manager :: signals where
  "sample_manager = \<lparr>sm_signal = (\<lambda>_. Inl Undefined), sm_values = (\<lambda>_. Inl Undefined),
     sm_value = (\<lambda>_ t. Inr (scalar_value (if t = 2 then BIT_0 else BIT_1))), sm_tags = (\<lambda>_. Inl Undefined), sm_is_empty = Inr False,
     sm_tag_count = (\<lambda>_ _. Inl Undefined), sm_tag_count_between = (\<lambda>_ _. Inl Undefined), sm_timestamps = Inr [6],
     sm_signal_size = (\<lambda>_. Inr 1), sm_is_tag_propagated = (\<lambda>_ _ _ _. Inl Undefined)\<rparr>"

definition sample_output_design :: design where
  "sample_output_design = \<lparr>d_top = ''t'', d_clk = ''clk'',
     d_modules = [((new_module ''t'')\<lparr>m_ports := [mk_port (\<lambda>_. 0) ''o'' ''o'' Output [Bit 2] False]\<rparr>, empty_graph)], d_hierarchy = \<lparr>h_names = [], h_edges = []\<rparr>\<rparr>"

theorem simulation_validation_last_step_witness:
  "compare_smt_with_simulation sample_manager sample_signal (\<lambda>_. Some 1) (sample_state 1) 2 0 = Inr False \<and>
   smt_to_simulation_validation (Sat (\<lambda>_. Some 1)) sample_manager sample_output_design (sample_state 1) 2 = Inr True"
proof -
  have c: "compare_smt_with_simulation sample_manager \<lparr>id_name = ''o'', id_hierarchy = [''t'']\<rparr> (\<lambda>_. Some 1) (sample_state 1) (u * 4 + 2) u = Inr (u = 1)"
    if "u = 0 \<or> u = 1" for u
    using that by (auto simp: compare_smt_with_simulation_def compare_signal_def Let_def sample_manager_def sample_name sample_expr
      compare_bits_def scalar_value_def get_value_bit_def model_bit_def get_value_def)
  have names: "top_outputs sample_output_design = Inr [''o'']"
    by (simp add: top_outputs_def get_module_def sample_output_design_def new_module_def get_output_names_def names_of_def mk_port_def)
  have "smt_to_simulation_validation (Sat (\<lambda>_. Some 1)) sample_manager sample_output_design (sample_state 1) 2 =
      Inr (\<forall>name \<in> set [''o'']. name \<noteq> d_clk sample_output_design \<longrightarrow> (\<lambda>_ u. u = 1) name (2 - 1 :: int))"
  proof (rule simulation_validation_last_step [OF _ names])
    show "\<forall>name \<in> set [''o'']. \<forall>u. 0 \<le> u \<and> u < 2 \<longrightarrow> compare_smt_with_simulation sample_manager
        \<lparr>id_name = name, id_hierarchy = [d_top sample_output_design]\<rparr> (\<lambda>_. Some 1) (sample_state 1) (u * 4 + 2) u = Inr (u = 1)"
    proof (intro ballI allI impI)
      fix name :: string and u :: int
      assume "name \<in> set [''o'']" "0 \<le> u \<and> u < 2"
      then have "name = ''o''" "u = 0 \<or> u = 1" by auto
      then show "compare_smt_with_simulation sample_manager \<lparr>id_name = name, id_hierarchy = [d_top sample_output_design]\<rparr>
          (\<lambda>_. Some 1) (sample_state 1) (u * 4 + 2) u = Inr (u = 1)"
        using c by (simp add: sample_output_design_def del: One_nat_def)
    qed
  qed simp
  then show ?thesis using c [of 0] by (simp add: sample_signal_def)
qed

end
