(* ===== verification/SmtSignalFacts.thy ===== *)
theory SmtSignalFacts
  imports SmtTestbenches ValidationFacts
begin

text \<open>
  The values read from a model of the solver. The solver prints a numeral as a literal of SMT-LIB:
  in base sixteen when the width is a multiple of four, otherwise in base two.
\<close>

section \<open>Literals\<close>

definition bit_of :: "int \<Rightarrow> nat \<Rightarrow> signal_bit" where
  "bit_of v k = (if bit v k then BIT_1 else BIT_0)"

definition bit_digits :: "int \<Rightarrow> nat \<Rightarrow> string" where
  "bit_digits v w = map (\<lambda>k. signal_bit_to_char (bit_of v k)) (rev [0..<w])"

definition prints_literals :: "(bv \<Rightarrow> string) \<Rightarrow> bool" where
  "prints_literals print \<longleftrightarrow> (\<forall>v w. 0 < w \<longrightarrow>
     (if 4 dvd w then take 2 (print (BVal v w)) = ''#x'' else print (BVal v w) = ''#b'' @ bit_digits v w))"

lemma bit_digits_length [simp]: "length (bit_digits v w) = w"
  by (simp add: bit_digits_def)

lemma char_bit_digits: "mapM char_bit (map (\<lambda>k. signal_bit_to_char (bit_of v k)) ks) = Inr (map (bit_of v) ks)"
  by (induction ks) (auto simp: char_bit_def bit_of_def)

definition bits_value :: "signal_bit list \<Rightarrow> signal_value" where
  "bits_value bs = (if length bs = 1 then scalar_value (hd bs) else vector_value bs)"

lemma value_of_digits: "0 < w \<Longrightarrow> value_of_bitstring (''#b'' @ bit_digits v w) = Inr (bits_value (map (bit_of v) (rev [0..<w])))"
  using char_bit_digits [of v "rev [0..<w]"]
  by (cases "w = 1") (auto simp: value_of_bitstring_def bits_value_def bit_digits_def char_bit_def bit_of_def)

lemma value_of_hex: "take 2 s = ''#x'' \<Longrightarrow> value_of_bitstring s = Inl OutOfRange"
  by (auto simp: value_of_bitstring_def take_Suc_conv_app_nth numeral_2_eq_2 Suc_le_eq)

lemma bits_of_bits_value: "bs \<noteq> [] \<Longrightarrow> bit_to_vector (bits_value bs) = Inr bs"
  by (cases bs) (auto simp: bits_value_def bit_to_vector_def scalar_value_def vector_value_def get_value_bit_def get_value_vector_def)

lemma numeral_bits_exact:
  assumes "w \<le> 64" "0 \<le> v" "v < 2 ^ 64"
  shows "numeral_bits (word_of_int v) w = Inr (map (bit_of v) [0..<w])"
proof -
  have "mapM (\<lambda>i. if i < 64 then Inr (if (word_of_int v :: 64 word) AND push_bit i 1 \<noteq> 0 then BIT_1 else BIT_0) else Inl Undefined) is
      = Inr (map (bit_of v) is)" if "\<forall>i \<in> set is. i < 64" for "is"
    using that
  proof (induction "is")
    case (Cons i js)
    then show ?case by (simp add: bit_of_def and_exp_eq_0_iff_not_bit push_bit_eq_mult bit_word_of_int_iff)
  qed simp
  then show ?thesis using assms(1) by (simp add: numeral_bits_def)
qed

section \<open>Values of a signal\<close>

text \<open>The constant of a signal at a time, with its value in the model.\<close>

definition known_value :: "smt_model \<Rightarrow> smt_manager \<Rightarrow> signal_id \<Rightarrow> int \<Rightarrow> nat \<Rightarrow> int \<Rightarrow> bool" where
  "known_value m mg i time w v \<longleftrightarrow>
     (\<exists>k t. map_of (ss_ids (mg_state mg)) (create_smt_signal_name 1 (id_hierarchy i) (id_name i) time) = Some k \<and>
        k < length (ss_exprs (mg_state mg)) \<and> ss_exprs (mg_state mg) ! k = Inl t \<and> bv_size t = w \<and> 0 < w \<and>
        m t = Some v)"

lemma known_valueE:
  assumes "known_value m mg i time w v"
    and "\<And>t. (\<forall>e. signal_expr e (mg_state mg) (create_smt_signal_name 1 (id_hierarchy i) (id_name i) time) = Inr t) \<Longrightarrow>
      bv_size t = w \<Longrightarrow> 0 < w \<Longrightarrow> m t = Some v \<Longrightarrow> R"
  shows R
  using assms by (fastforce simp: known_value_def signal_expr_def)

lemma known_get_signal:
  "known_value m mg i 0 w v \<Longrightarrow> smt_get_signal mg i = Inr \<lparr>si_reference = id_name i, si_size = word_of_nat w,
     si_hash = fmt ''{}_{}'' [join ''_'' (id_hierarchy i), id_name i]\<rparr>"
  by (elim known_valueE) (simp add: smt_get_signal_def)

lemma known_get_signal_value:
  assumes "prints_literals print" "known_value m mg i time w v"
  shows "smt_get_signal_value print (Some m) mg i time =
    (if 4 dvd w then Inl OutOfRange else Inr (bits_value (map (bit_of v) (rev [0..<w]))))"
proof -
  obtain t where t: "\<forall>e. signal_expr e (mg_state mg) (create_smt_signal_name 1 (id_hierarchy i) (id_name i) time) = Inr t"
    "bv_size t = w" "0 < w" "m t = Some v" using assms(2) by (rule known_valueE)
  have "smt_get_signal_value print (Some m) mg i time = value_of_bitstring (print (BVal v w))"
    by (simp add: smt_get_signal_value_def t get_model_def eval_expr_def)
  then show ?thesis using assms(1) t(3) value_of_hex value_of_digits [of w v] by (auto simp: prints_literals_def)
qed

text \<open>
  \<^bold>\<open>C17.\<close> The two accessors of a model disagree. \<open>get_signal_values\<close> has the least significant bit
  first, \<open>get_signal_value\<close> the most significant one, and no value at all for the widths that are
  multiples of four, because the solver prints these values in base sixteen.
\<close>

theorem smt_values_of_model:
  assumes print: "prints_literals print" and legal: "legalize_identifier (id_name i) = id_name i"
    and steps: "0 < mg_timesteps mg" and w: "w \<le> 64"
    and known: "\<forall>k. 0 \<le> k \<and> k < mg_timesteps mg \<longrightarrow> known_value m mg i k w (v k) \<and> 0 \<le> v k \<and> v k < 2 ^ 64"
  shows "smt_get_signal_values (Some m) mg i =
      Inr (map (\<lambda>k. (int k, vector_value (map (bit_of (v (int k))) [0..<w]))) [0..<nat (mg_timesteps mg)]) \<and>
    (\<forall>k. 0 \<le> k \<and> k < mg_timesteps mg \<longrightarrow> smt_get_signal_value print (Some m) mg i k =
      (if 4 dvd w then Inl OutOfRange else Inr (bits_value (rev (map (bit_of (v k)) [0..<w])))))"
proof -
  have step: "smt_timed_value (Some m) mg i (int k) = Inr (int k, vector_value (map (bit_of (v (int k))) [0..<w]))"
    if "k < nat (mg_timesteps mg)" for k
  proof -
    have k: "known_value m mg i (int k) w (v (int k))" "0 \<le> v (int k)" "v (int k) < 2 ^ 64" using known that by auto
    then show ?thesis
      by (elim known_valueE) (simp add: smt_timed_value_def Let_def legal get_model_def as_uint64_def get_value_def numeral_bits_exact w)
  qed
  have "mapM (smt_timed_value (Some m) mg i) (map int [0..<nat (mg_timesteps mg)]) =
      Inr (map (\<lambda>k. (int k, vector_value (map (bit_of (v (int k))) [0..<w]))) [0..<nat (mg_timesteps mg)])"
    unfolding mapM_comp by (rule mapM_map) (simp add: step)
  then have "smt_get_signal_values (Some m) mg i =
      Inr (map (\<lambda>k. (int k, vector_value (map (bit_of (v (int k))) [0..<w]))) [0..<nat (mg_timesteps mg)])"
    using steps by (simp add: smt_get_signal_values_def)
  moreover have "smt_get_signal_value print (Some m) mg i k =
      (if 4 dvd w then Inl OutOfRange else Inr (bits_value (rev (map (bit_of (v k)) [0..<w]))))" if "0 \<le> k \<and> k < mg_timesteps mg" for k
    using known that known_get_signal_value [OF print, of m mg i k w "v k"] by (simp add: rev_map)
  ultimately show ?thesis by blast
qed

section \<open>Test bench\<close>

text \<open>The text that assigns the digits of a value.\<close>

definition assign_digits :: "signal_id \<Rightarrow> nat \<Rightarrow> int \<Rightarrow> string list" where
  "assign_digits i w v = [fmt ''{} = {}'b'' [id_name i, show_nat w], bit_digits v w, '';\<newline>'']"

lemma value_text_digits:
  assumes "0 < w" "w < 2 ^ 64"
  shows "value_text (word_of_nat w) (map (bit_of v) (rev [0..<w])) = bit_digits v w"
  using assms by (simp add: value_text_def bit_digits_def)

lemma known_input_assignment:
  assumes "prints_literals print" "known_value m (tbs_map tb) i 0 w v0" "known_value m (tbs_map tb) i time w v" "w < 2 ^ 64"
    and "id_name i \<noteq> d_clk (tbs_design tb)"
  shows "smt_input_assignment print (Some m) tb time i = (if 4 dvd w then Inl OutOfRange else Inr (assign_digits i w v))"
proof -
  have "0 < w" using assms(2) by (auto simp: known_value_def)
  then show ?thesis
    using assms(4,5) value_text_digits [of w v]
    by (simp add: smt_input_assignment_def known_get_signal [OF assms(2)] known_get_signal_value [OF assms(1,3)] bits_of_bits_value
        assign_digits_def unsigned_of_nat take_bit_nat_eq_self)
qed

lemma concat_skipped: "concat (map (\<lambda>i. if p i then [] else f i) xs) = concat (map f (filter (\<lambda>i. \<not> p i) xs))"
  by (induction xs) auto

text \<open>
  \<^bold>\<open>C18.\<close> The inputs of the test bench. When no input has a width that is a multiple of four, each step
  assigns to every input but the clock the binary digits of its value in the model, the most
  significant first, and waits five units after the first step and four after the others, so that
  the inputs of step \<open>u\<close> are in force at the rising edge at \<open>4 * (u + 1)\<close>. One input of another
  width is enough that no test bench can be written.
\<close>

theorem smt_inputs_exact:
  assumes print: "prints_literals print" and ids: "get_input_signal_ids (tbs_design tb) = Inr ids"
    and times: "smt_get_timestamps (tbs_map tb) = map int [0..<n]" and n: "0 < n"
    and known: "\<forall>i \<in> set ids. id_name i \<noteq> d_clk (tbs_design tb) \<longrightarrow>
      wd i < 2 ^ 64 \<and> (\<forall>u. 0 \<le> u \<and> u < int n \<longrightarrow> known_value m (tbs_map tb) i u (wd i) (v i u))"
  shows "smt_write_testbench_inputs print (Some m) tb =
    (let data = filter (\<lambda>i. id_name i \<noteq> d_clk (tbs_design tb)) ids
     in if \<exists>i \<in> set data. 4 dvd wd i then Inl OutOfRange
        else Inr ([''initial begin \<newline>'']
          @ concat (map (\<lambda>u. concat (map (\<lambda>i. assign_digits i (wd i) (v i (int u))) data)
              @ [if u = 0 then ''#5;\<newline>'' else ''#4;\<newline>'']) [0..<n])
          @ [''$finish;\<newline>'', ''end\<newline>\<newline>'']))"
proof -
  let ?clk = "\<lambda>i. id_name i = d_clk (tbs_design tb)"
  let ?bad = "\<exists>i \<in> set ids. \<not> ?clk i \<and> 4 dvd wd i"
  let ?data = "filter (\<lambda>i. \<not> ?clk i) ids"
  let ?step = "\<lambda>u. concat (map (\<lambda>i. assign_digits i (wd i) (v i (int u))) ?data) @ [if u = 0 then ''#5;\<newline>'' else ''#4;\<newline>'']"
  have wait: "fmt ''#{};\<newline>'' [show_nat 5] = ''#5;\<newline>''" "fmt ''#{};\<newline>'' [show_nat 4] = ''#4;\<newline>''" by code_simp+
  have step: "smt_step_inputs print (Some m) tb ids (int u) = (if ?bad then Inl OutOfRange else Inr (?step u))" if "u < n" for u
  proof -
    have a: "smt_input_assignment print (Some m) tb (int u) i =
        (if \<not> ?clk i \<and> 4 dvd wd i then Inl OutOfRange else Inr (if ?clk i then [] else assign_digits i (wd i) (v i (int u))))"
      if "i \<in> set ids" for i
    proof (cases "?clk i")
      case True
      then show ?thesis by (simp add: smt_input_assignment_def)
    next
      case False
      then have k: "known_value m (tbs_map tb) i 0 (wd i) (v i 0)" "known_value m (tbs_map tb) i (int u) (wd i) (v i (int u))" "wd i < 2 ^ 64"
        using known that \<open>u < n\<close> n by auto
      show ?thesis using known_input_assignment [OF print k False] False by simp
    qed
    have "mapM (smt_input_assignment print (Some m) tb (int u)) ids =
        (if ?bad then Inl OutOfRange else Inr (map (\<lambda>i. if ?clk i then [] else assign_digits i (wd i) (v i (int u))) ids))"
      using mapM_one_error [of ids _ "\<lambda>i. \<not> ?clk i \<and> 4 dvd wd i", OF a] by (simp only:)
    then show ?thesis using wait by (simp add: smt_step_inputs_def concat_skipped constClockToggle_def)
  qed
  have "mapM (\<lambda>u. smt_step_inputs print (Some m) tb ids (int u)) [0..<n] = (if ?bad then Inl OutOfRange else Inr (map ?step [0..<n]))"
    using mapM_one_error [of "[0..<n]" "\<lambda>u. smt_step_inputs print (Some m) tb ids (int u)" "\<lambda>_. ?bad" OutOfRange ?step] step n
    by (simp only: atLeastLessThan_iff set_upt) (auto simp del: map_append)
  then show ?thesis using n by (simp add: smt_write_testbench_inputs_def ids times Let_def mapM_comp) blast
qed

section \<open>Flow from an input to a signal\<close>

lemma smt_name_bar: "hd (create_smt_signal_name d h x time) = CHR ''|''" "create_smt_signal_name d h x time \<noteq> []"
  by (simp_all add: create_smt_signal_name_def)

lemma constraint_ids_other:
  assumes "list_all (\<lambda>i. id_name i \<noteq> name) is"
  shows "map_of (constraint_ids mg is) name = None"
proof -
  have "map_of (fold (\<lambda>(k, i). AList.update (id_name i) k) (enumerate n is) al) name = map_of al name" for n al
    using assms by (induction "is" arbitrary: n al) (auto simp: update_conv)
  then show ?thesis by (simp add: constraint_ids_def)
qed

text \<open>The number of a constraint is stored under the name of the signal and looked up under that of its constant.\<close>

lemma constraint_first:
  assumes "list_all (\<lambda>i. id_name i = [] \<or> hd (id_name i) \<noteq> CHR ''|'') is"
  shows "constraint_at (constraint_ids mg is) pairs (create_smt_signal_name d h x time) =
    (if pairs = [] then Inl Z3Exception else Inr (FNe (fst (hd pairs)) (snd (hd pairs))))"
proof -
  have "list_all (\<lambda>i. id_name i \<noteq> create_smt_signal_name d h x time) is"
    using assms smt_name_bar [of d h x time] by (auto simp: list_all_iff)
  then show ?thesis by (cases pairs) (simp_all add: constraint_at_def constraint_ids_other)
qed

lemma differences_length:
  assumes "differences mg is st = Inr (pairs, st')"
  shows "length pairs = nat (mg_timesteps mg) * length is"
proof -
  have one: "add_difference top_name time i (ps, s) = Inr (qs, s') \<Longrightarrow> length qs = Suc (length ps)" for top_name time i ps s qs s'
    by (auto simp: add_difference_def bnd_eq_Inr chk_eq_Inr)
  have step: "foldM (add_difference top_name time) js (ps, s) = Inr (qs, s') \<Longrightarrow> length qs = length ps + length js" for top_name time js ps s qs s'
    by (induction js arbitrary: ps s) (auto simp: bnd_eq_Inr dest!: one)
  have "foldM (\<lambda>time acc. foldM (add_difference (mg_top mg) time) is acc) ts (ps, s) = Inr (qs, s') \<Longrightarrow>
      length qs = length ps + length ts * length is" for ts ps s qs s'
    by (induction ts arbitrary: ps s) (auto simp: bnd_eq_Inr dest!: step)
  from this [OF assms [unfolded differences_def]] show ?thesis by simp
qed

text \<open>
  \<^bold>\<open>C19.\<close> The answer to the question whether a flow from an input at a time reaches a signal at another
  time does not depend on the signals and times that are asked for. With more than one step of the
  unrolling there is no answer, since the list of the coefficients is read past its end.
\<close>

theorem smt_tag_propagation_ignores_signals:
  assumes "list_all (\<lambda>i. id_name i = [] \<or> hd (id_name i) \<noteq> CHR ''|'') (mg_inputs mg @ mg_outputs mg)"
    and "0 \<le> ta" "ta < 2 ^ 32" "0 \<le> tb" "tb < 2 ^ 32" "0 \<le> ta'" "ta' < 2 ^ 32" "0 \<le> tb'" "tb' < 2 ^ 32"
  shows "smt_is_tag_propagated check mg a ta b tb = smt_is_tag_propagated check mg a' ta' b' tb' \<and>
    (1 < mg_timesteps mg \<longrightarrow> mg_inputs mg \<noteq> [] \<longrightarrow> (\<forall>r. smt_is_tag_propagated check mg a ta b tb \<noteq> Inr r))"
proof -
  have first: "constraint_at (constraint_ids mg (mg_inputs mg)) pairs (create_smt_signal_name d h x time) =
      (if pairs = [] then Inl Z3Exception else Inr (FNe (fst (hd pairs)) (snd (hd pairs))))"
    "constraint_at (constraint_ids mg (mg_outputs mg)) pairs (create_smt_signal_name d h x time) =
      (if pairs = [] then Inl Z3Exception else Inr (FNe (fst (hd pairs)) (snd (hd pairs))))" for pairs d h x time
    using assms(1) by (simp_all add: constraint_first)
  have "length pairs \<noteq> 0 \<and> length (mg_inputs mg) < length pairs"
    if "1 < mg_timesteps mg" "mg_inputs mg \<noteq> []" "differences mg (mg_inputs mg) st = Inr (pairs, st')" for st pairs st'
    using differences_length [OF that(3)] that(1,2) by (cases "nat (mg_timesteps mg)" rule: nat.exhaust) auto
  then show ?thesis
    using assms by (auto simp: smt_is_tag_propagated_def first narrow_u32_def exactly_one_def bnd_eq_Inr)
qed

section \<open>Samples\<close>

definition sample_literal :: "bv \<Rightarrow> string" where
  "sample_literal t = (case t of
     BVal v w \<Rightarrow>
       (if 4 dvd w then ''#x'' @ map (\<lambda>k. ''0123456789abcdef'' ! nat (drop_bit (4 * k) v mod 16)) (rev [0..<w div 4])
        else ''#b'' @ bit_digits v w)
   | BVar name w \<Rightarrow> name
   | _ \<Rightarrow> ''(let)'')"

lemma sample_prints: "prints_literals sample_literal"
  by (simp add: prints_literals_def sample_literal_def)

definition sample_values :: "nat \<Rightarrow> 32 word \<Rightarrow> smt_manager" where
  "sample_values w n = new_smt_manager (sample_state w) n [sample_signal] [sample_signal] ''t''"

lemma sample_legal: "legalize_identifier (id_name sample_signal) = id_name sample_signal"
  by (simp add: sample_signal_def sample_name)

lemma sample_known:
  assumes "0 < w" "0 \<le> k \<and> k < 2"
  shows "known_value (\<lambda>_. Some v) (sample_values w n) sample_signal k w v"
proof -
  have "k = 0 \<or> k = 1" using assms(2) by auto
  then show ?thesis
    using sample_name(2,3) assms(1)
    by (auto simp: known_value_def sample_values_def new_smt_manager_def sample_state_def sample_signal_def)
qed

theorem smt_values_of_model_witness:
  "smt_get_signal_values (Some (\<lambda>_. Some 6)) (sample_values 3 2) sample_signal =
     Inr [(0, vector_value [BIT_0, BIT_1, BIT_1]), (1, vector_value [BIT_0, BIT_1, BIT_1])] \<and>
   smt_get_signal_value sample_literal (Some (\<lambda>_. Some 6)) (sample_values 3 2) sample_signal 1 =
     Inr (vector_value [BIT_1, BIT_1, BIT_0]) \<and>
   smt_get_signal_value sample_literal (Some (\<lambda>_. Some 6)) (sample_values 4 2) sample_signal 1 = Inl OutOfRange"
proof -
  have steps: "mg_timesteps (sample_values w 2) = 2" for w by (simp add: sample_values_def new_smt_manager_def)
  have bits: "bit_of 6 0 = BIT_0" "bit_of 6 (Suc 0) = BIT_1" "bit_of 6 2 = BIT_1" by (simp_all add: bit_of_def bit_0 bit_Suc numeral_2_eq_2)
  have up: "[0..<3] = [0, Suc 0, 2]" "[0..<2] = [0, Suc 0]" by (simp_all add: upt_rec)
  have known: "\<forall>k. 0 \<le> k \<and> k < mg_timesteps (sample_values w 2) \<longrightarrow>
      known_value (\<lambda>_. Some 6) (sample_values w 2) sample_signal k w 6 \<and> 0 \<le> (6 :: int) \<and> (6 :: int) < 2 ^ 64" if "0 < w" for w
    using that by (simp add: steps sample_known)
  have three: "0 < mg_timesteps (sample_values 3 2)" "(3 :: nat) \<le> 64" "0 < mg_timesteps (sample_values 4 2)" "(4 :: nat) \<le> 64"
    by (simp_all add: steps)
  show ?thesis
    using smt_values_of_model [where v = "\<lambda>_. 6", OF sample_prints sample_legal three(1,2) known]
      smt_values_of_model [where v = "\<lambda>_. 6", OF sample_prints sample_legal three(3,4) known]
    by (simp add: steps bits up bits_value_def)
qed

definition sample_input_design :: design where
  "sample_input_design = \<lparr>d_top = ''t'', d_clk = ''clk'',
     d_modules = [((new_module ''t'')\<lparr>m_ports :=
       [mk_port (\<lambda>_. 0) ''clk'' ''clk'' Input [Bit 2] False, mk_port (\<lambda>_. 0) ''o'' ''o'' Input [Bit 3, Bit 4, Bit 5] False]\<rparr>, empty_graph)],
     d_hierarchy = \<lparr>h_names = [], h_edges = []\<rparr>\<rparr>"

definition sample_smt_testbench :: "nat \<Rightarrow> smt_testbench" where
  "sample_smt_testbench w = \<lparr>tbs_design = sample_input_design, tbs_map = sample_values w 2,
     tbs_instance = \<lparr>ig_vertices = [], ig_edges = []\<rparr>\<rparr>"

theorem smt_inputs_exact_witness:
  "smt_write_testbench_inputs sample_literal (Some (\<lambda>_. Some 6)) (sample_smt_testbench 3) =
     Inr [''initial begin \<newline>'', ''o = 3'b'', ''110'', '';\<newline>'', ''#5;\<newline>'', ''o = 3'b'', ''110'', '';\<newline>'', ''#4;\<newline>'',
          ''$finish;\<newline>'', ''end\<newline>\<newline>''] \<and>
   smt_write_testbench_inputs sample_literal (Some (\<lambda>_. Some 6)) (sample_smt_testbench 4) = Inl OutOfRange"
proof -
  let ?ids = "[\<lparr>id_name = ''clk'', id_hierarchy = [''t'']\<rparr>, sample_signal]"
  have ids: "get_input_signal_ids (tbs_design (sample_smt_testbench w)) = Inr ?ids" for w
    by (simp add: get_input_signal_ids_def get_top_module_def get_module_def sample_smt_testbench_def sample_input_design_def new_module_def
      get_input_names_def names_of_def mk_port_def sample_signal_def)
  have times: "smt_get_timestamps (tbs_map (sample_smt_testbench w)) = map int [0..<2]" for w
    by (simp add: smt_get_timestamps_def sample_smt_testbench_def sample_values_def new_smt_manager_def)
  have known: "\<forall>i \<in> set ?ids. id_name i \<noteq> d_clk (tbs_design (sample_smt_testbench w)) \<longrightarrow>
      w < 2 ^ 64 \<and> (\<forall>u. 0 \<le> u \<and> u < int 2 \<longrightarrow> known_value (\<lambda>_. Some 6) (tbs_map (sample_smt_testbench w)) i u w 6)"
    if "0 < w" "w < 5" for w
    using that by (simp add: sample_smt_testbench_def sample_input_design_def sample_known)
  have digits: "assign_digits sample_signal 3 6 = [''o = 3'b'', ''110'', '';\<newline>'']" by code_simp
  have data: "filter (\<lambda>i. id_name i \<noteq> d_clk (tbs_design (sample_smt_testbench w))) ?ids = [sample_signal]" for w
    by (simp add: sample_smt_testbench_def sample_input_design_def sample_signal_def)
  have up: "[0..<2] = [0, Suc 0]" by (simp add: upt_rec)
  have "(3 :: nat) < 5" "(0 :: nat) < 3" "(4 :: nat) < 5" "(0 :: nat) < 4" "(0 :: nat) < 2" by simp_all
  note small = this
  show ?thesis
    using smt_inputs_exact [where wd = "\<lambda>_. 3" and v = "\<lambda>_ _. 6", OF sample_prints ids times small(5) known [OF small(2,1)]]
      smt_inputs_exact [where wd = "\<lambda>_. 4" and v = "\<lambda>_ _. 6", OF sample_prints ids times small(5) known [OF small(4,3)]]
    by (simp add: Let_def data digits up del: filter.simps)
qed

theorem smt_tag_propagation_ignores_signals_witness:
  "smt_is_tag_propagated (\<lambda>_ _. Sat (\<lambda>_. None)) (sample_values 3 1) sample_signal 0 sample_signal 1 =
     smt_is_tag_propagated (\<lambda>_ _. Sat (\<lambda>_. None)) (sample_values 3 1) \<lparr>id_name = ''p'', id_hierarchy = []\<rparr> 7 sample_signal 0 \<and>
   (\<exists>mg. smt_is_tag_propagated (\<lambda>_ _. Sat (\<lambda>_. None)) (sample_values 3 1) sample_signal 0 sample_signal 1 = Inr (Some True, mg)) \<and>
   (\<forall>r. smt_is_tag_propagated (\<lambda>_ _. Sat (\<lambda>_. None)) (sample_values 3 2) sample_signal 0 sample_signal 1 \<noteq> Inr r)"
proof -
  have names: "list_all (\<lambda>i. id_name i = [] \<or> hd (id_name i) \<noteq> CHR ''|'') (mg_inputs (sample_values 3 n) @ mg_outputs (sample_values 3 n))" for n
    by (simp add: sample_values_def new_smt_manager_def sample_signal_def)
  have two: "1 < mg_timesteps (sample_values 3 2)" "mg_inputs (sample_values 3 2) \<noteq> []"
    by (simp_all add: sample_values_def new_smt_manager_def)
  have "\<exists>mg. smt_is_tag_propagated (\<lambda>_ _. Sat (\<lambda>_. None)) (sample_values 3 1) sample_signal 0 sample_signal 1 = Inr (Some True, mg)"
    using sample_name
    by (simp add: smt_is_tag_propagated_def narrow_u32_def differences_def add_difference_def expr_at_name_def sample_values_def new_smt_manager_def
      sample_state_def sample_signal_def signal_expr_def constraint_first assert_all_def solver_add_def exactly_one_def update_conv Let_def)
  then show ?thesis
    using smt_tag_propagation_ignores_signals [OF names, of 0 1 7 0 _ 1 sample_signal sample_signal "\<lparr>id_name = ''p'', id_hierarchy = []\<rparr>" sample_signal]
      smt_tag_propagation_ignores_signals [OF names, of 0 1 0 1 _ 2 sample_signal sample_signal sample_signal sample_signal] two by simp
qed

end
