(* ===== verification/InstanceVerilog.thy ===== *)
theory InstanceVerilog
  imports Instances
begin

text \<open>
  The Verilog text of the flattened design (\<open>DesignInstance::write_verilog\<close>,
  \<open>src/ducode/instantiation_graph.cpp\<close>): one wire for each port of each vertex, the cells, and one
  assignment for each edge. Writing it to the file is left out.
\<close>

section \<open>Wires\<close>

definition vertex_prefix :: "inst_vertex \<Rightarrow> string" where
  "vertex_prefix v = join ''_'' (iv_hierarchy v)"

definition port_wire :: "inst_vertex \<Rightarrow> port \<Rightarrow> string" where
  "port_wire v p =
     (if is_module_port v then fmt ''{}_{}'' [vertex_prefix v, iv_name v]
      else fmt ''{}{}'' [vertex_prefix v, pt_identifier p])"

definition index_string :: "port \<Rightarrow> nat \<Rightarrow> string" where
  "index_string p i = (if 1 < length (pt_bits p) then fmt ''[{}]'' [show_nat i] else '''')"

definition constant_bit_assigns :: "string \<Rightarrow> port \<Rightarrow> string list" where
  "constant_bit_assigns wire p =
     only (pt_contains_constant p)
       (concat (map (\<lambda>(i, b). only (is_constant b)
          [fmt ''assign {}{} = 1'b{};\<newline>'' [wire, index_string p i, show_bit b]]) (enumerate 0 (pt_bits p))))"

definition module_port_text :: "inst_vertex \<Rightarrow> string list res" where
  "module_port_text v =
     bnd (deref_port v) (\<lambda>p.
     let name = port_wire v p;
         width = (if 1 < length (pt_bits p) then fmt ''[{}:0] '' [show_nat (length (pt_bits p) - 1)] else '''')
     in Inr ([fmt ''wire {}{};\<newline>'' [width, name]]
       @ only (length (iv_hierarchy v) = 1)
           [if pt_direction p = Input then fmt ''assign {} = {};\<newline>'' [name, pt_name p]
            else fmt ''assign {} = {};\<newline>'' [pt_name p, name]]
       @ constant_bit_assigns name p))"

section \<open>Cells\<close>

text \<open>The cell is looked up again in its module; its ports are read before the check that it was found.\<close>

definition cell_text :: "params \<Rightarrow> design \<Rightarrow> inst_vertex \<Rightarrow> string list res" where
  "cell_text ps d v =
     bnd (of_opt (RuntimeError ''parent module not found'') (find_module d (iv_parent v))) (\<lambda>(i, m).
     bnd (of_opt Undefined (find (\<lambda>c. c_type (cell_base c) = iv_type v \<and> c_name (cell_base c) = iv_name v) (m_cells m))) (\<lambda>c.
     let ports = c_ports (cell_base c);
         wire = (\<lambda>p. fmt ''{}{}'' [vertex_prefix v, pt_identifier p]);
         identifiers = fold (\<lambda>p ids. if ids (pt_bits_signature p) = None then ids(pt_bits_signature p \<mapsto> wire p) else ids)
           ports (\<lambda>_. None)
     in bnd (cell_export_verilog (ps\<lparr>p_idmap := identifiers\<rparr>) c) (\<lambda>body.
        Inr (map (\<lambda>p. fmt ''  {} {} {};\<newline>''
               [if pt_direction p = Output \<and> c_register (cell_base c) then ''reg'' else ''wire'', width_string (pt_bits p), wire p]) ports
          @ [fmt ''//{} -> {}\<newline>'' [iv_parent v, iv_type v]] @ body
          @ concat (map (\<lambda>p. constant_bit_assigns (wire p) p) ports)))))"

definition vertex_text :: "params \<Rightarrow> design \<Rightarrow> inst_vertex \<Rightarrow> string list res" where
  "vertex_text ps d v = (if is_module_port v then module_port_text v else cell_text ps d v)"

section \<open>Initial values\<close>

text \<open>The value of a net is assigned once, at the first edge that carries it.\<close>

definition init_text ::
  "inst_graph \<Rightarrow> nat \<times> nat \<times> inst_edge \<Rightarrow> (nat \<times> nat) set \<times> string list \<Rightarrow> (nat \<times> nat) set \<times> string list"
where
  "init_text g = (\<lambda>(s, t, e) (initialized_nets, text).
     case ie_net e of
       None \<Rightarrow> (initialized_nets, text)
     | Some r \<Rightarrow>
         if (nr_module r, nr_index r) \<notin> initialized_nets \<and> n_init_value (nr_net r) \<noteq> '''' then
           (insert (nr_module r, nr_index r) initialized_nets,
            text @ [fmt '' {}{} = {};\<newline>'' [vertex_prefix (vertex_at g s), pt_identifier (ie_source_port e), n_init_value (nr_net r)]])
         else (initialized_nets, text))"

section \<open>Connections\<close>

text \<open>
  Inside its module a port of the module has the bits of the port, seen from outside those of the
  cell. Only the search for the source is checked.
\<close>

definition outer_bits :: "direction \<Rightarrow> error \<Rightarrow> inst_vertex \<Rightarrow> port \<Rightarrow> netbit list res" where
  "outer_bits dir e v p =
     (if pt_direction p = dir \<and> is_module_port v then
        bnd (of_opt e (find (\<lambda>q. pt_name q = pt_name p) (c_ports (cell_base (iv_cell v))))) (\<lambda>q. Inr (pt_bits q))
      else Inr (pt_bits p))"

definition shared_bits :: "netbit list \<Rightarrow> netbit list \<Rightarrow> (nat \<times> nat) list" where
  "shared_bits source_bits target_bits =
     concat (map (\<lambda>i. if is_constant (source_bits ! i) then []
        else map (Pair i) (filter (\<lambda>j. \<not> is_constant (target_bits ! j) \<and> source_bits ! i = target_bits ! j) [0..<length target_bits]))
       [0..<length source_bits])"

text \<open>One assignment for each pair of positions with a common bit that is no constant.\<close>

lemma shared_bits_exact:
  "(i, j) \<in> set (shared_bits source_bits target_bits) \<longleftrightarrow>
     i < length source_bits \<and> j < length target_bits \<and> source_bits ! i = target_bits ! j \<and> \<not> is_constant (source_bits ! i)"
  by (auto simp: shared_bits_def intro!: bexI [of _ i])

definition edge_text :: "inst_graph \<Rightarrow> nat \<times> nat \<times> inst_edge \<Rightarrow> string list res" where
  "edge_text g = (\<lambda>(s, t, e).
     let v = vertex_at g s; w = vertex_at g t; p = ie_source_port e; q = ie_target_port e;
         source_wire = port_wire v p; target_wire = port_wire w q in
     bnd (outer_bits Output Contract v p) (\<lambda>source_bits.
     bnd (outer_bits Input Undefined w q) (\<lambda>target_bits.
     Inr ([fmt ''//edge {} -> {}\<newline>'' [iv_name v, iv_name w]]
       @ (if target_bits = source_bits then [fmt ''assign {} = {};\<newline>'' [target_wire, source_wire]]
          else map (\<lambda>(i, j). fmt ''assign {}{} = {}{};\<newline>'' [target_wire, index_string q j, source_wire, index_string p i])
                 (shared_bits source_bits target_bits))))))"

section \<open>The text\<close>

text \<open>A top module without ports is a test bench, its only cell the instance of the design.\<close>

definition exported_module :: "design \<Rightarrow> module res" where
  "exported_module d =
     bnd (of_opt (RuntimeError ''This design does not contain a top module'') (find_module d (d_top d))) (\<lambda>(i, tb).
     if m_ports tb \<noteq> [] then Inr tb
     else
       (case m_cells tb of
          [] \<Rightarrow> Inl Undefined
        | [c] \<Rightarrow>
            if is_module_cell c
            then bnd (of_opt Undefined (find_module d (c_type (cell_base c)))) (\<lambda>(j, m). Inr m)
            else Inl (RuntimeError ''The first design contained in the testbench is not a module'')
        | _ \<Rightarrow> Inl (RuntimeError ''Here we assume that the testbench contains only 1 instantiated design'')))"

definition instance_write_verilog :: "design \<Rightarrow> inst_graph \<Rightarrow> string list res" where
  "instance_write_verilog d g =
     bnd (exported_module d) (\<lambda>top_module.
     let ps = \<lparr>p_ift = Some False, p_tag_size = Some 32, p_is_register = None, p_idmap = (\<lambda>_. None)\<rparr> in
     bnd (export_verilog_header ps top_module) (\<lambda>header.
     bnd (mapM (vertex_text ps d) (ig_vertices g)) (\<lambda>vertices.
     bnd (mapM (edge_text g) (ig_edges g)) (\<lambda>edges.
     Inr (header @ concat vertices @ [''initial begin\<newline>'']
       @ snd (fold (init_text g) (ig_edges g) ({}, []))
       @ [''end\<newline>''] @ concat edges @ [''endmodule\<newline>''])))))"

end
