(* ===== verification/IftAnalysis.thy ===== *)
theory IftAnalysis
  imports Queries
begin

text \<open>
  The analyses of the tags that a simulation observed (\<open>include/ducode/ift_analysis.hpp\<close>): the
  report of \<open>do_analysis\<close> and the flows from the inputs to the outputs. The flows into one signal
  come from the manager of the signals, for waveforms \<open>get_sources\<close>; they are the parameter \<open>flows\<close>.
  The numbers of milliseconds that the steps took are parameters as well.
\<close>

section \<open>Numbers\<close>

definition signal_vector_to_uint32 :: "signal_bit list \<Rightarrow> 32 word res" where
  "signal_vector_to_uint32 bs =
     (if 32 < length bs then Inl (RuntimeError ''VCDBitVector is too large for uint32_t'')
      else foldM (\<lambda>(i, b) r.
        if b = BIT_X \<or> b = BIT_Z then Inl (RuntimeError ''VCDBitVector contains X or Z values!'')
        else if b = BIT_1 then Inr (r OR push_bit (length bs - 1 - i) 1)
        else Inr r) (enumerate 0 bs) 0)"

definition count_number_of_cells_in_design :: "design \<Rightarrow> 64 word" where
  "count_number_of_cells_in_design d =
     foldl (\<lambda>n (m, g). n + word_of_nat (length (m_cells m))) 0 (d_modules d)"

definition count_number_of_nets_in_design :: "design \<Rightarrow> 64 word" where
  "count_number_of_nets_in_design d =
     foldl (\<lambda>n (m, g). n + word_of_nat (length (m_nets m))) 0 (d_modules d)"

section \<open>Report\<close>

definition json_set :: "string \<Rightarrow> json \<Rightarrow> json \<Rightarrow> json" where
  "json_set key v j =
     (case j of JObj kvs \<Rightarrow> JObj (AList.update key v kvs) | _ \<Rightarrow> JObj [(key, v)])"

text \<open>A list to which nothing is appended stays null.\<close>

definition names_json :: "inst_graph \<Rightarrow> nat list \<Rightarrow> json" where
  "names_json g path =
     (if path = [] then JNull else JArr (map (\<lambda>p. JStr (iv_name (vertex_at g p))) path))"

definition word_json :: "'a::len word \<Rightarrow> json" where
  "word_json w = JInt (uint w)"

definition path_report :: "string \<Rightarrow> inst_graph \<Rightarrow> nat list \<Rightarrow> json \<Rightarrow> json" where
  "path_report key g path j =
     json_set (key @ ''_size'') (JInt (int (length path))) (json_set key (names_json g path) j)"

definition output_report :: "(string \<times> 32 word) list \<Rightarrow> json" where
  "output_report counts =
     json_set ''total_tag_count'' (word_json (sum_list (map snd counts)))
       (foldl (\<lambda>j (name, n). json_set name (word_json n) j) JNull counts)"

definition do_analysis :: "int \<Rightarrow> int \<Rightarrow> signals \<Rightarrow> inst_graph \<Rightarrow> design \<Rightarrow> json res" where
  "do_analysis elapsed_ift elapsed_toggle sm g d =
     bnd (get_module d (d_top d)) (\<lambda>(m, _).
     let j0 = JObj [(''nets'', word_json (count_number_of_nets_in_design d)),
                    (''cells'', word_json (count_number_of_cells_in_design d)),
                    (''inputs'', JInt (int (length (get_input_names m)))),
                    (''outputs'', JInt (int (length (get_output_names m))))] in
     bnd (most_tagged_path sm g) (\<lambda>most.
     bnd (least_tagged_path sm g) (\<lambda>fewest.
     bnd (most_toggled_path sm g) (\<lambda>most_toggled.
     bnd (least_toggled_path sm g) (\<lambda>least_toggled.
     let j = path_report ''path(least_toggled)'' g least_toggled (path_report ''path(most_toggled)'' g most_toggled
               (path_report ''path(least)'' g fewest (path_report ''path(most)'' g most j0)))
     in bnd (count_output_tags sm d g) (\<lambda>counts.
        Inr (json_set ''output_tag_count'' (output_report counts)
          (json_set ''runtime_analysis_toggle'' (JInt elapsed_toggle)
            (json_set ''runtime_analysis_ift'' (JInt elapsed_ift) j)))))))))"

section \<open>Flows\<close>

type_synonym flow_query = "signal_id list \<Rightarrow> signal_id \<Rightarrow> if_info list res"

definition top_input_ids :: "design \<Rightarrow> module \<Rightarrow> signal_id list" where
  "top_input_ids d tm = map (\<lambda>name. \<lparr>id_name = name, id_hierarchy = [d_top d]\<rparr>) (get_input_names tm)"

text \<open>The target of the question is the signal \<open>output\<close>, whatever the output is called.\<close>

definition output_signal :: "design \<Rightarrow> signal_id" where
  "output_signal d = \<lparr>id_name = ''output'', id_hierarchy = [d_top d]\<rparr>"

definition get_ift_information_flows :: "flow_query \<Rightarrow> design \<Rightarrow> (string \<times> string set) list res" where
  "get_ift_information_flows flows d =
     bnd (get_top_module d) (\<lambda>(tm, _).
     foldM (\<lambda>output_name ift_information_flows.
       bnd (flows (top_input_ids d tm) (output_signal d)) (\<lambda>ifs.
       Inr (AList.update output_name (set (map (\<lambda>i. id_name (ii_input i)) ifs)) ift_information_flows)))
       (get_output_names tm) [])"

text \<open>The set is not emptied between two outputs.\<close>

definition get_ift_information_flows_complete :: "flow_query \<Rightarrow> design \<Rightarrow> (string \<times> if_info set) list res" where
  "get_ift_information_flows_complete flows d =
     bnd (get_top_module d) (\<lambda>(tm, _).
     bnd (foldM (\<lambda>output_name (input_info_set, ift_information_flows).
       bnd (flows (top_input_ids d tm) (output_signal d)) (\<lambda>ifs.
       let input_info_set = input_info_set \<union> set ifs
       in Inr (input_info_set, AList.update output_name input_info_set ift_information_flows)))
       (get_output_names tm) ({}, [])) (\<lambda>(s, m). Inr m))"

definition get_IF_count :: "(string \<times> 'a set) list \<Rightarrow> 32 word" where
  "get_IF_count ifs = foldl (\<lambda>n (name, s). n + word_of_nat (card s)) 0 ifs"

section \<open>Facts\<close>

lemma foldM_same_update:
  "foldM (\<lambda>k m. bnd q (\<lambda>x. Inr (AList.update k (f x) m))) ks m0 =
     (if ks = [] then Inr m0 else bnd q (\<lambda>x. Inr (foldl (\<lambda>m k. AList.update k (f x) m) m0 ks)))"
proof (induction ks arbitrary: m0)
  case (Cons k ks)
  then show ?case by (cases q) auto
qed simp

lemma foldM_same_union:
  "foldM (\<lambda>k (s, m). bnd q (\<lambda>x. let s = s \<union> set x in Inr (s, AList.update k s m))) ks (s0, m0) =
     (if ks = [] then Inr (s0, m0)
      else bnd q (\<lambda>x. Inr (s0 \<union> set x, foldl (\<lambda>m k. AList.update k (s0 \<union> set x) m) m0 ks)))"
proof (induction ks arbitrary: s0 m0)
  case (Cons k ks)
  then show ?case by (cases q) (auto simp: Let_def Un_assoc)
qed simp

lemma foldl_update_entries:
  "distinct (map fst m) \<Longrightarrow> \<forall>e \<in> set m. snd e = s \<Longrightarrow>
   (let r = foldl (\<lambda>m k. AList.update k s m) m ks
    in distinct (map fst r) \<and> (\<forall>e \<in> set r. snd e = s) \<and> fst ` set r = fst ` set m \<union> set ks)"
proof (induction ks arbitrary: m)
  case (Cons k ks)
  have "\<forall>e \<in> set (AList.update k s m). snd e = s" using Cons.prems(2)
    by (induction m) (auto split: if_splits)
  moreover have "distinct (map fst (AList.update k s m))" using Cons.prems(1) by (rule distinct_update)
  moreover have "fst ` set (AList.update k s m) = insert k (fst ` set m)"
    using dom_update [of k s m] by simp
  ultimately show ?case using Cons.IH [of "AList.update k s m"] by (simp add: Let_def)
qed simp

lemma count_same:
  "\<forall>e \<in> set r. snd e = s \<Longrightarrow> foldl (\<lambda>n (name, s). n + word_of_nat (card s)) k r = k + word_of_nat (length r * card s)"
  by (induction r arbitrary: k) (auto simp: algebra_simps)

lemma count_updates:
  "get_IF_count (foldl (\<lambda>m k. AList.update k s m) [] ks) = (word_of_nat (card (set ks) * card s) :: 32 word)"
proof -
  let ?r = "foldl (\<lambda>m k. AList.update k s m) [] ks"
  have r: "distinct (map fst ?r)" "\<forall>e \<in> set ?r. snd e = s" "fst ` set ?r = set ks"
    using foldl_update_entries [of "[]" s ks] by (simp_all add: Let_def)
  have "length ?r = card (set ks)" using distinct_card [OF r(1)] r(3) by simp
  then show ?thesis using count_same [OF r(2), of 0] by (simp add: get_IF_count_def)
qed

text \<open>
  \<^bold>\<open>C20.\<close> The flows reported for the outputs are all the same: those into the signal named \<open>output\<close>. So the
  numbers of flows are the number of outputs times the number of these flows, whatever reaches the
  outputs, and no report is made when the manager of the signals does not know that signal.
\<close>

theorem ift_flows_of_one_signal:
  assumes tm: "get_top_module d = Inr (tm, g)" and outs: "get_output_names tm \<noteq> []"
  shows "case flows (top_input_ids d tm) (output_signal d) of
      Inl e \<Rightarrow> get_ift_information_flows flows d = Inl e \<and> get_ift_information_flows_complete flows d = Inl e
    | Inr ifs \<Rightarrow> \<exists>m m'. get_ift_information_flows flows d = Inr m \<and> get_ift_information_flows_complete flows d = Inr m' \<and>
        (\<forall>name. map_of m name =
           (if name \<in> set (get_output_names tm) then Some (set (map (\<lambda>i. id_name (ii_input i)) ifs)) else None)) \<and>
        (\<forall>name. map_of m' name = (if name \<in> set (get_output_names tm) then Some (set ifs) else None)) \<and>
        get_IF_count m = word_of_nat (card (set (get_output_names tm)) * card (set (map (\<lambda>i. id_name (ii_input i)) ifs))) \<and>
        get_IF_count m' = word_of_nat (card (set (get_output_names tm)) * card (set ifs))"
proof (cases "flows (top_input_ids d tm) (output_signal d)")
  case (Inl e)
  then show ?thesis
    using outs by (simp add: get_ift_information_flows_def get_ift_information_flows_complete_def tm foldM_same_update foldM_same_union)
next
  case (Inr ifs)
  let ?names = "get_output_names tm"
  have look: "map_of (foldl (\<lambda>m k. AList.update k s m) [] ks) name = (if name \<in> set ks then Some s else None)"
    for ks name and s :: "'b set"
  proof -
    have "map_of (foldl (\<lambda>m k. AList.update k s m) m0 ks) name = (if name \<in> set ks then Some s else map_of m0 name)" for m0
      by (induction ks arbitrary: m0) (auto simp: update_conv')
    then show ?thesis by simp
  qed
  have "get_ift_information_flows flows d =
      Inr (foldl (\<lambda>m k. AList.update k (set (map (\<lambda>i. id_name (ii_input i)) ifs)) m) [] ?names)"
    using outs Inr by (simp add: get_ift_information_flows_def tm foldM_same_update)
  moreover have "get_ift_information_flows_complete flows d = Inr (foldl (\<lambda>m k. AList.update k (set ifs) m) [] ?names)"
    using outs Inr by (simp add: get_ift_information_flows_complete_def tm foldM_same_union)
  ultimately show ?thesis by (simp add: Inr look count_updates)
qed

definition two_outputs :: design where
  "two_outputs = \<lparr>d_top = ''t'', d_clk = ''clk'',
     d_modules = [((new_module ''t'')\<lparr>m_ports :=
       [mk_port (\<lambda>_. 0) ''s'' ''s'' Input [Bit 2] False, mk_port (\<lambda>_. 0) ''a'' ''a'' Output [Bit 2] False,
        mk_port (\<lambda>_. 0) ''b'' ''b'' Output [Bit 3] False]\<rparr>, empty_graph)],
     d_hierarchy = \<lparr>h_names = [], h_edges = []\<rparr>\<rparr>"

definition no_flow_to_b :: flow_query where
  "no_flow_to_b ids target =
     Inr (if id_name target = ''b'' then []
          else map (\<lambda>i. \<lparr>ii_input = i, ii_injection = 0, ii_observation = 4\<rparr>) ids)"

theorem ift_flows_of_one_signal_witness:
  "\<exists>m. get_ift_information_flows no_flow_to_b two_outputs = Inr m \<and> map_of m ''b'' = Some {''s''} \<and> get_IF_count m = 2 \<and>
     no_flow_to_b [] \<lparr>id_name = ''b'', id_hierarchy = [''t'']\<rparr> = Inr []"
proof -
  let ?tm = "fst (hd (d_modules two_outputs))"
  have tm: "get_top_module two_outputs = Inr (?tm, empty_graph)"
    by (simp add: get_top_module_def get_module_def two_outputs_def new_module_def)
  have names: "get_output_names ?tm = [''a'', ''b'']" "get_input_names ?tm = [''s'']"
    by (simp_all add: two_outputs_def new_module_def get_output_names_def get_input_names_def names_of_def mk_port_def)
  have flows: "no_flow_to_b (top_input_ids two_outputs ?tm) (output_signal two_outputs) =
      Inr [\<lparr>ii_input = \<lparr>id_name = ''s'', id_hierarchy = [''t'']\<rparr>, ii_injection = 0, ii_observation = 4\<rparr>]"
    unfolding no_flow_to_b_def top_input_ids_def output_signal_def names by (simp add: two_outputs_def)
  show ?thesis
    using ift_flows_of_one_signal [OF tm, of no_flow_to_b] unfolding flows names by (auto simp: no_flow_to_b_def)
qed

end
