(* ===== verification/PipelineDetection.thy ===== *)
theory PipelineDetection
  imports Complex_Main Designs
begin

text \<open>
  The search for the stages of a pipeline in the names of nets
  (\<open>include/ducode/static_analysis/pipeline_detection.hpp\<close>). A net is the position of its module and
  its own. Numbers in single precision are rationals; \<open>fl\<close> rounds to the precision.
\<close>

section \<open>Patterns\<close>

definition stage0 :: "string list" where
  "stage0 = [''instruction'', ''read'', ''fetch'', ''IF'', ''IR'', ''FET'']"

definition stage1 :: "string list" where
  "stage1 = [''instruction'', ''dec'', ''decode'', ''ID'']"

definition stage2 :: "string list" where
  "stage2 = [''operand'', ''read'', ''fetch'', ''OF'', ''OR'', ''memory'', ''MEM'']"

definition stage3 :: "string list" where
  "stage3 = [''execute'', ''exe'', ''OE'']"

definition stage4 :: "string list" where
  "stage4 = [''store'', ''write'', ''OS'', ''writeback'', ''WB'']"

definition globalStagePatterns :: "string list list" where
  "globalStagePatterns = [stage0, stage1, stage2, stage3, stage4]"

definition to_lower :: "string \<Rightarrow> string" where
  "to_lower = map (\<lambda>c. if 65 \<le> (of_char c :: nat) \<and> (of_char c :: nat) \<le> 90 then char_of ((of_char c :: nat) + 32) else c)"

definition stagePatterns :: "string list list" where
  "stagePatterns = map (map to_lower) globalStagePatterns"

section \<open>Candidates\<close>

type_synonym net_pos = "nat \<times> nat"

type_synonym stage = "(net_pos \<times> rat) set"

record pipeline_candidate =
  pc_stages :: "stage list"

text \<open>The number nearest to 0.8 in single precision.\<close>

definition thresholdRatio :: rat where "thresholdRatio = 13421773 / 16777216"

definition minimalOccurrence :: "32 word" where "minimalOccurrence = 2"

section \<open>Support\<close>

text \<open>The support of the patterns of a stage by a name, empty when there is none.\<close>

definition pattern_support :: "string \<Rightarrow> string list \<Rightarrow> int list" where
  "pattern_support name patterns =
     (if list_ex (str_contains name) patterns
      then map (\<lambda>p. if str_contains name p then int (length p) else 0) patterns else [])"

definition count_patterns :: "string \<Rightarrow> string list \<Rightarrow> 32 word list \<Rightarrow> 32 word list" where
  "count_patterns name patterns counts =
     map (\<lambda>(p, c). if str_contains name p then c + 1 else c)
       (zip patterns (counts @ replicate (length patterns - length counts) 0))"

record support_state =
  net_stage_pat :: "int list list list"
  net2index :: "(net_pos \<times> nat) list"
  pCount :: "32 word list list"

definition add_net_support :: "nat \<Rightarrow> nat \<times> net \<Rightarrow> support_state \<Rightarrow> support_state" where
  "add_net_support module_index = (\<lambda>(index, n) st.
     if n_name n = '''' then st
     else
       (let nName = to_lower (n_name n);
            stage_pat = map (pattern_support nName) stagePatterns;
            st = st\<lparr>pCount := map (\<lambda>(ps, cs). count_patterns nName ps cs) (zip stagePatterns (pCount st))\<rparr>
        in if list_ex (\<lambda>s. s \<noteq> []) stage_pat then
             st\<lparr>net_stage_pat := net_stage_pat st @ [stage_pat],
                net2index := net2index st @ [((module_index, index), length (net_stage_pat st))]\<rparr>
           else st))"

definition collect_support :: "design \<Rightarrow> support_state" where
  "collect_support d =
     fold (\<lambda>(i, m, g). fold (add_net_support i) (enumerate 0 (m_nets m))) (enumerate 0 (d_modules d))
       \<lparr>net_stage_pat = [], net2index = [], pCount = replicate (length globalStagePatterns) []\<rparr>"

section \<open>Selection\<close>

definition longest_most_frequent :: "string list \<Rightarrow> 32 word list \<Rightarrow> 32 word \<Rightarrow> nat" where
  "longest_most_frequent patterns counts occMax =
     fold (\<lambda>(p, c) n. if c = occMax \<and> n < length p then length p else n) (zip patterns counts) 0"

definition stage_nets :: "support_state \<Rightarrow> nat \<Rightarrow> nat \<Rightarrow> net_pos set" where
  "stage_nets st s p =
     set (map fst (filter (\<lambda>(k, i). net_stage_pat st ! i ! s \<noteq> [] \<and> 0 < net_stage_pat st ! i ! s ! p) (net2index st)))"

definition select_stage :: "(rat \<Rightarrow> rat) \<Rightarrow> support_state \<Rightarrow> nat \<Rightarrow> stage" where
  "select_stage fl st s =
     (let ps = pCount st ! s; patterns = stagePatterns ! s; occMax = fold max ps 0
      in if ps = [] \<or> occMax < minimalOccurrence then {}
         else
           (let lenMax = longest_most_frequent patterns ps occMax;
                threshold = (word_of_int \<lfloor>fl (thresholdRatio * fl (of_int (uint occMax)))\<rfloor> :: 32 word)
            in \<Union> (set (map (\<lambda>p. if threshold < ps ! p \<and> \<not> length (patterns ! p) < lenMax
                              then (\<lambda>k. (k, fl (fl (of_int (uint (ps ! p))) / fl (of_int (uint occMax))))) ` stage_nets st s p
                              else {}) [0..<length ps]))))"

definition candidate :: "nat \<Rightarrow> stage \<Rightarrow> pipeline_candidate" where
  "candidate s stage = \<lparr>pc_stages = replicate s {} @ [stage]\<rparr>"

definition detect_pipelines :: "(rat \<Rightarrow> rat) \<Rightarrow> design \<Rightarrow> pipeline_candidate list" where
  "detect_pipelines fl d =
     (let st = collect_support d
      in concat (map (\<lambda>s. let stage = select_stage fl st s in if stage \<noteq> {} then [candidate s stage] else [])
           [0..<length globalStagePatterns]))"

section \<open>Specification\<close>

text \<open>The nets with a name, the number of those that contain a pattern, and the choice of the patterns.\<close>

definition named_nets :: "design \<Rightarrow> (net_pos \<times> string) list" where
  "named_nets d =
     concat (map (\<lambda>(i, m, g). concat (map (\<lambda>(k, n). if n_name n = '''' then [] else [((i, k), to_lower (n_name n))])
       (enumerate 0 (m_nets m)))) (enumerate 0 (d_modules d)))"

definition matches_in :: "(net_pos \<times> string) list \<Rightarrow> string \<Rightarrow> nat" where
  "matches_in ns p = length (filter (\<lambda>(k, name). sublist p name) ns)"

definition most_matches :: "(net_pos \<times> string) list \<Rightarrow> string list \<Rightarrow> nat" where
  "most_matches ns patterns = Max (matches_in ns ` set patterns)"

definition chosen :: "(rat \<Rightarrow> rat) \<Rightarrow> (net_pos \<times> string) list \<Rightarrow> string list \<Rightarrow> string \<Rightarrow> bool" where
  "chosen fl ns patterns p \<longleftrightarrow>
     p \<in> set patterns \<and> 2 \<le> most_matches ns patterns \<and>
     \<lfloor>fl (thresholdRatio * of_nat (most_matches ns patterns))\<rfloor> < int (matches_in ns p) \<and>
     (\<forall>q \<in> set patterns. matches_in ns q = most_matches ns patterns \<longrightarrow> length q \<le> length p)"

definition stage_spec :: "(rat \<Rightarrow> rat) \<Rightarrow> (net_pos \<times> string) list \<Rightarrow> string list \<Rightarrow> stage" where
  "stage_spec fl ns patterns =
     {(k, fl (of_nat (matches_in ns p) / of_nat (most_matches ns patterns))) | k name p.
        chosen fl ns patterns p \<and> (k, name) \<in> set ns \<and> sublist p name}"

text \<open>Rounding to single precision is monotone and keeps the whole numbers up to \<open>2 ^ 24\<close>.\<close>

definition rounds_singles :: "(rat \<Rightarrow> rat) \<Rightarrow> bool" where
  "rounds_singles fl \<longleftrightarrow> mono fl \<and> (\<forall>n \<le> 2 ^ 24. fl (of_nat n) = of_nat n)"

section \<open>Facts\<close>

lemma find_idx_sublist: "(\<exists>i. find_idx p s = Some i) \<longleftrightarrow> sublist p s"
proof (induction s)
  case Nil
  then show ?case by (simp add: find_idx.simps [of p "[]"])
next
  case (Cons c s)
  then show ?case by (auto simp: find_idx.simps [of p "c # s"] sublist_Cons_right)
qed

lemma str_contains_sublist: "str_contains s p = sublist p s"
  using find_idx_sublist [of p s] by (simp add: str_contains_def str_find_def)

text \<open>One net with a name.\<close>

definition named_step :: "net_pos \<times> string \<Rightarrow> support_state \<Rightarrow> support_state" where
  "named_step = (\<lambda>(k, nName) st.
     let stage_pat = map (pattern_support nName) stagePatterns;
         st = st\<lparr>pCount := map (\<lambda>(ps, cs). count_patterns nName ps cs) (zip stagePatterns (pCount st))\<rparr>
     in if list_ex (\<lambda>s. s \<noteq> []) stage_pat then
          st\<lparr>net_stage_pat := net_stage_pat st @ [stage_pat], net2index := net2index st @ [(k, length (net_stage_pat st))]\<rparr>
        else st)"

lemma fold_concat_map: "fold f (concat (map g xs)) st = fold (\<lambda>x. fold f (g x)) xs st"
  by (induction xs arbitrary: st) simp_all

lemma add_net_support_step:
  "add_net_support i (k, n) = fold named_step (if n_name n = '''' then [] else [((i, k), to_lower (n_name n))])"
  by (auto simp: add_net_support_def named_step_def fun_eq_iff Let_def)

lemma collect_support_named:
  "collect_support d = fold named_step (named_nets d)
     \<lparr>net_stage_pat = [], net2index = [], pCount = replicate (length globalStagePatterns) []\<rparr>"
proof -
  have "fold (add_net_support i) ns st =
      fold named_step (concat (map (\<lambda>(k, n). if n_name n = '''' then [] else [((i, k), to_lower (n_name n))]) ns)) st" for i ns st
    unfolding fold_concat_map by (rule fold_cong) (auto simp: add_net_support_step)
  then show ?thesis
    unfolding collect_support_def named_nets_def fold_concat_map [of named_step]
    by (intro fold_cong) (auto simp: fun_eq_iff simp flip: fold_concat_map)
qed

lemma patterns_nonempty: "ps \<in> set stagePatterns \<Longrightarrow> p \<in> set ps \<Longrightarrow> p \<noteq> []"
proof -
  have "list_all (list_all (\<lambda>p. p \<noteq> [])) stagePatterns" by code_simp
  then show "ps \<in> set stagePatterns \<Longrightarrow> p \<in> set ps \<Longrightarrow> p \<noteq> []" by (auto simp: list_all_iff)
qed

lemma stagePatterns_length [simp]: "length stagePatterns = 5" "length globalStagePatterns = 5"
  by (simp_all add: stagePatterns_def globalStagePatterns_def)

lemma patterns_present: "s < 5 \<Longrightarrow> stagePatterns ! s \<noteq> []"
proof -
  have "list_all (\<lambda>ps. ps \<noteq> []) stagePatterns" by code_simp
  then show "s < 5 \<Longrightarrow> stagePatterns ! s \<noteq> []" by (simp add: list_all_length)
qed

definition supported :: "net_pos \<times> string \<Rightarrow> bool" where
  "supported = (\<lambda>(k, name). list_ex (list_ex (\<lambda>p. sublist p name)) stagePatterns)"

definition counts_of :: "(net_pos \<times> string) list \<Rightarrow> string list \<Rightarrow> 32 word list" where
  "counts_of ns patterns = (if ns = [] then [] else map (\<lambda>p. word_of_nat (matches_in ns p)) patterns)"

lemma count_patterns_counts:
  "count_patterns name patterns (counts_of ns patterns) = counts_of (ns @ [(k, name)]) patterns"
  by (cases "ns = []") (auto simp: count_patterns_def counts_of_def matches_in_def str_contains_sublist zip_replicate2 zip_map2 map_zip_map2
    zip_same_conv_map)

lemma support_empty: "pattern_support name ps = [] \<longleftrightarrow> \<not> list_ex (\<lambda>p. sublist p name) ps"
  by (auto simp: pattern_support_def str_contains_sublist list_ex_iff)

lemma supported_iff: "supported (k, name) \<longleftrightarrow> list_ex (\<lambda>s. s \<noteq> []) (map (pattern_support name) stagePatterns)"
  by (simp add: supported_def list_ex_iff support_empty)

lemma collected:
  "fold named_step ns \<lparr>net_stage_pat = [], net2index = [], pCount = replicate (length globalStagePatterns) []\<rparr> =
     \<lparr>net_stage_pat = map (\<lambda>(k, name). map (pattern_support name) stagePatterns) (filter supported ns),
      net2index = zip (map fst (filter supported ns)) [0..<length (filter supported ns)],
      pCount = map (counts_of ns) stagePatterns\<rparr>"
proof (induction ns rule: rev_induct)
  case Nil
  then show ?case by (simp add: counts_of_def map_replicate_const)
next
  case (snoc x ns)
  obtain k name where x: "x = (k, name)" by (cases x)
  have "map (\<lambda>(ps, cs). count_patterns name ps cs) (zip stagePatterns (map (counts_of ns) stagePatterns)) =
      map (counts_of (ns @ [(k, name)])) stagePatterns"
    by (simp add: zip_map2 zip_same_conv_map count_patterns_counts)
  then show ?case
    using snoc by (simp add: named_step_def x supported_iff Let_def)
qed

lemma fst_filter_pairs: "set (map fst (filter (\<lambda>(k, i). Q i) zs)) = {k. \<exists>i. (k, i) \<in> set zs \<and> Q i}"
  by force

lemma stage_nets_exact:
  assumes s: "s < 5" and p: "p < length (stagePatterns ! s)"
  shows "stage_nets \<lparr>net_stage_pat = map (\<lambda>(k, name). map (pattern_support name) stagePatterns) (filter supported ns),
      net2index = zip (map fst (filter supported ns)) [0..<length (filter supported ns)], pCount = c\<rparr> s p =
    {k. \<exists>name. (k, name) \<in> set ns \<and> sublist (stagePatterns ! s ! p) name}"
proof -
  let ?sup = "filter supported ns"
  let ?pat = "stagePatterns ! s ! p"
  have pat: "stagePatterns ! s \<in> set stagePatterns" "?pat \<in> set (stagePatterns ! s)" using s p by simp_all
  have len: "0 < length ?pat" using patterns_nonempty [OF pat] by simp
  have entry: "pattern_support name (stagePatterns ! s) \<noteq> [] \<and> 0 < pattern_support name (stagePatterns ! s) ! p \<longleftrightarrow> sublist ?pat name" for name
    using p pat len by (auto simp: pattern_support_def str_contains_sublist list_ex_iff)
  have sup: "supported (k, name)" if "sublist ?pat name" for k name
    using that pat by (auto simp: supported_def list_ex_iff)
  have row: "i < length ?sup \<Longrightarrow> map (\<lambda>(k, name). map (pattern_support name) stagePatterns) ?sup ! i ! s = pattern_support (snd (?sup ! i)) (stagePatterns ! s)" for i
    using s by (simp add: case_prod_unfold)
  have mem: "(k, i) \<in> set (zip (map fst ?sup) [0..<length ?sup]) \<longleftrightarrow> i < length ?sup \<and> k = fst (?sup ! i)" for k i
    by (auto simp: set_zip intro!: exI [of _ i])
  have "stage_nets \<lparr>net_stage_pat = map (\<lambda>(k, name). map (pattern_support name) stagePatterns) ?sup,
      net2index = zip (map fst ?sup) [0..<length ?sup], pCount = c\<rparr> s p =
      {k. \<exists>i. (k, i) \<in> set (zip (map fst ?sup) [0..<length ?sup]) \<and>
        map (\<lambda>(k, name). map (pattern_support name) stagePatterns) ?sup ! i ! s \<noteq> [] \<and>
        0 < map (\<lambda>(k, name). map (pattern_support name) stagePatterns) ?sup ! i ! s ! p}"
    unfolding stage_nets_def support_state.simps by (rule fst_filter_pairs)
  also have "\<dots> = {k. \<exists>i < length ?sup. k = fst (?sup ! i) \<and> sublist ?pat (snd (?sup ! i))}"
    unfolding mem using row entry by (metis (no_types, lifting))
  also have "\<dots> = {k. \<exists>x \<in> set ?sup. k = fst x \<and> sublist ?pat (snd x)}"
    by (rule Collect_cong) (metis in_set_conv_nth)
  also have "\<dots> = {k. \<exists>name. (k, name) \<in> set ?sup \<and> sublist ?pat name}" by force
  also have "\<dots> = {k. \<exists>name. (k, name) \<in> set ns \<and> sublist ?pat name}" using sup by auto
  finally show ?thesis .
qed

lemma unat_fold_max: "unat (fold max xs (a :: 32 word)) = fold max (map unat xs) (unat a)"
proof (induction xs arbitrary: a)
  case (Cons x xs)
  have "unat (max x a) = max (unat x) (unat a)" by (simp add: max_def word_le_nat_alt)
  then show ?case using Cons by simp
qed simp

lemma fold_max_counts:
  assumes "pats \<noteq> []" "\<forall>p \<in> set pats. f p < 2 ^ 32"
  shows "fold max (map (\<lambda>p. word_of_nat (f p)) pats) (0 :: 32 word) = word_of_nat (Max (f ` set pats))"
proof -
  have u: "map unat (map (\<lambda>p. word_of_nat (f p) :: 32 word) pats) = map f pats"
    using assms(2) by (simp add: unsigned_of_nat take_bit_nat_eq_self)
  have "fold max (map f pats) 0 = Max (set (0 # map f pats))" by (simp only: Max.set_eq_fold)
  also have "\<dots> = Max (f ` set pats)" using assms(1) by (simp add: Max_insert)
  finally have "unat (fold max (map (\<lambda>p. word_of_nat (f p)) pats) (0 :: 32 word)) = Max (f ` set pats)"
    by (simp add: unat_fold_max u del: map_map)
  then show ?thesis by (metis of_nat_unat ucast_id)
qed

lemma longest_le: 
  "fold (\<lambda>(p, c) n. if c = m \<and> n < length p then length p else n) xs n0 \<le> L \<longleftrightarrow>
     n0 \<le> L \<and> (\<forall>(p, c) \<in> set xs. c = m \<longrightarrow> length p \<le> L)"
  by (induction xs arbitrary: n0) (auto split: if_splits)

lemma select_stage_exact:
  assumes fl: "rounds_singles fl" and small: "length ns \<le> 2 ^ 24" and s: "s < 5"
    and st: "st = \<lparr>net_stage_pat = map (\<lambda>(k, name). map (pattern_support name) stagePatterns) (filter supported ns),
      net2index = zip (map fst (filter supported ns)) [0..<length (filter supported ns)], pCount = map (counts_of ns) stagePatterns\<rparr>"
  shows "select_stage fl st s = stage_spec fl ns (stagePatterns ! s)"
proof (cases "ns = []")
  case True
  have "matches_in [] ` A \<subseteq> {0}" for A by (auto simp: matches_in_def)
  then have "most_matches [] (stagePatterns ! s) = 0"
    using patterns_present [OF s] by (simp add: most_matches_def matches_in_def image_constant_conv)
  then show ?thesis using True s by (auto simp: select_stage_def st counts_of_def stage_spec_def)
next
  case False
  let ?pats = "stagePatterns ! s"
  let ?most = "most_matches ns ?pats"
  let ?occ = "word_of_nat ?most :: 32 word"
  let ?F = "\<lfloor>fl (thresholdRatio * of_nat ?most)\<rfloor>"
  have m: "matches_in ns p \<le> 2 ^ 24" for p
    unfolding matches_in_def by (rule le_trans [OF length_filter_le small])
  have ps: "pCount st ! s = map (\<lambda>p. word_of_nat (matches_in ns p)) ?pats" using False s by (simp add: st counts_of_def)
  have m32: "matches_in ns p < 2 ^ 32" for p using m [of p] by simp
  have occ: "fold max (pCount st ! s) 0 = ?occ"
    unfolding ps most_matches_def using m32 by (intro fold_max_counts patterns_present s) simp
  have most: "?most \<le> 2 ^ 24" unfolding most_matches_def using m patterns_present [OF s] by simp
  have un: "unat (word_of_nat (matches_in ns p) :: 32 word) = matches_in ns p" "unat ?occ = ?most" for p
    using m [of p] most by (simp_all add: unsigned_of_nat take_bit_nat_eq_self)
  have ui: "uint (word_of_nat (matches_in ns p) :: 32 word) = int (matches_in ns p)" "uint ?occ = int ?most" for p
    using un(1) [of p] un(2) by (metis uint_nat)+
  have exact: "fl (of_nat n) = of_nat n" if "n \<le> 2 ^ 24" for n using fl that by (simp add: rounds_singles_def)
  have "fl 0 \<le> fl (thresholdRatio * of_nat ?most)" "fl (thresholdRatio * of_nat ?most) \<le> fl (of_nat ?most)"
    using fl by (auto simp: rounds_singles_def thresholdRatio_def intro!: monoD [of fl])
  moreover have "fl 0 = 0" using exact [of 0] by simp
  moreover have "fl (of_nat ?most) \<le> (2 ^ 24 :: rat)"
  proof -
    have "(of_nat ?most :: rat) \<le> of_nat (2 ^ 24)" using most by (rule of_nat_mono)
    then show ?thesis using exact [OF most] by simp
  qed
  ultimately have "0 \<le> fl (thresholdRatio * of_nat ?most)" "fl (thresholdRatio * of_nat ?most) \<le> 2 ^ 24"
    by (metis, metis order_trans)
  then have F: "0 \<le> ?F" "?F \<le> 2 ^ 24" by (simp_all add: floor_le_iff)
  have less: "word_of_int ?F < (word_of_nat (matches_in ns p) :: 32 word) \<longleftrightarrow> ?F < int (matches_in ns p)" for p
    using F ui(1) [of p] by (simp add: word_less_alt uint_word_of_int)
  have small_occ: "?occ < minimalOccurrence \<longleftrightarrow> ?most < 2"
    using un(2) by (simp add: minimalOccurrence_def word_less_nat_alt)
  have long: "longest_most_frequent ?pats (pCount st ! s) ?occ \<le> L \<longleftrightarrow>
      (\<forall>q \<in> set ?pats. matches_in ns q = ?most \<longrightarrow> length q \<le> L)" for L
  proof -
    have "word_of_nat (matches_in ns q) = ?occ \<longleftrightarrow> matches_in ns q = ?most" for q using un by metis
    then show ?thesis unfolding longest_most_frequent_def longest_le ps by (simp add: zip_map2 zip_same_conv_map)
  qed
  show ?thesis
  proof (cases "?most < 2")
    case True
    then show ?thesis by (auto simp: select_stage_def occ small_occ stage_spec_def chosen_def Let_def)
  next
    case False
    have nonempty: "pCount st ! s \<noteq> []" "length (pCount st ! s) = length ?pats" using patterns_present [OF s] by (simp_all add: ps)
    let ?code = "\<lambda>p. if word_of_int \<lfloor>fl (thresholdRatio * fl (of_int (uint ?occ)))\<rfloor> < pCount st ! s ! p \<and>
          \<not> length (?pats ! p) < longest_most_frequent ?pats (pCount st ! s) ?occ
        then (\<lambda>k. (k, fl (fl (of_int (uint (pCount st ! s ! p))) / fl (of_int (uint ?occ))))) ` stage_nets st s p else {}"
    let ?spec = "\<lambda>p. if ?F < int (matches_in ns (?pats ! p)) \<and> (\<forall>q \<in> set ?pats. matches_in ns q = ?most \<longrightarrow> length q \<le> length (?pats ! p))
        then (\<lambda>k. (k, fl (of_nat (matches_in ns (?pats ! p)) / of_nat ?most))) ` {k. \<exists>name. (k, name) \<in> set ns \<and> sublist (?pats ! p) name}
        else {}"
    have "select_stage fl st s = \<Union> (?code ` {0..<length ?pats})"
      using False nonempty unfolding select_stage_def Let_def occ small_occ by (simp only: if_False set_map set_upt simp_thms)
    also have "\<dots> = \<Union> (?spec ` {0..<length ?pats})"
    proof (rule arg_cong [where f = Union], rule image_cong [OF refl])
      fix p assume p: "p \<in> {0..<length ?pats}"
      have count: "pCount st ! s ! p = word_of_nat (matches_in ns (?pats ! p))" using p by (simp add: ps)
      have conf: "fl (of_int (uint (word_of_nat (matches_in ns (?pats ! p)) :: 32 word))) = of_nat (matches_in ns (?pats ! p))"
        "fl (of_int (uint ?occ)) = of_nat ?most"
        using exact [OF m] exact [OF most] by (simp_all only: ui of_int_of_nat_eq)
      have nets: "stage_nets st s p = {k. \<exists>name. (k, name) \<in> set ns \<and> sublist (?pats ! p) name}"
        unfolding st using p by (intro stage_nets_exact [OF s]) simp
      show "?code p = ?spec p" unfolding count conf less not_less long nets ..
    qed
    also have "\<dots> = stage_spec fl ns ?pats"
    proof (intro set_eqI iffI)
      fix x assume "x \<in> \<Union> (?spec ` {0..<length ?pats})"
      then obtain p k name where p: "p < length ?pats" "x = (k, fl (of_nat (matches_in ns (?pats ! p)) / of_nat ?most))"
        "?F < int (matches_in ns (?pats ! p))" "\<forall>q \<in> set ?pats. matches_in ns q = ?most \<longrightarrow> length q \<le> length (?pats ! p)"
        "(k, name) \<in> set ns" "sublist (?pats ! p) name"
        by (auto split: if_splits)
      then have "chosen fl ns ?pats (?pats ! p)" using False by (simp add: chosen_def)
      then show "x \<in> stage_spec fl ns ?pats" using p unfolding stage_spec_def by blast
    next
      fix x assume "x \<in> stage_spec fl ns ?pats"
      then obtain k name p where x: "x = (k, fl (of_nat (matches_in ns p) / of_nat ?most))" "chosen fl ns ?pats p" "(k, name) \<in> set ns" "sublist p name"
        by (auto simp: stage_spec_def)
      then obtain i where "i < length ?pats" "p = ?pats ! i" by (auto simp: chosen_def in_set_conv_nth)
      then show "x \<in> \<Union> (?spec ` {0..<length ?pats})" using x by (intro UN_I [of i]) (auto simp: chosen_def)
    qed
    finally show ?thesis .
  qed
qed

text \<open>
  \<^bold>\<open>C21.\<close> The candidates are those of the specification: for each stage the nets whose names contain a
  chosen pattern, that is one that occurs more often than about four fifths of the most frequent
  ones and is not shorter than the longest of these, with its share of the most frequent ones.
\<close>

theorem detect_pipelines_exact:
  assumes "rounds_singles fl" and "length (named_nets d) \<le> 2 ^ 24"
  shows "detect_pipelines fl d =
    map (\<lambda>s. candidate s (stage_spec fl (named_nets d) (stagePatterns ! s)))
      (filter (\<lambda>s. stage_spec fl (named_nets d) (stagePatterns ! s) \<noteq> {}) [0..<5])"
proof -
  let ?spec = "\<lambda>s. stage_spec fl (named_nets d) (stagePatterns ! s)"
  have st: "select_stage fl (collect_support d) s = ?spec s" if "s < 5" for s
    by (rule select_stage_exact [OF assms that]) (simp only: collect_support_named collected)
  have pick: "concat (map (\<lambda>s. if A s \<noteq> {} then [candidate s (A s)] else []) xs) = map (\<lambda>s. candidate s (A s)) (filter (\<lambda>s. A s \<noteq> {}) xs)" for A xs
    by (induction xs) auto
  have "detect_pipelines fl d = concat (map (\<lambda>s. if ?spec s \<noteq> {} then [candidate s (?spec s)] else []) [0..<5])"
    unfolding detect_pipelines_def Let_def stagePatterns_length by (intro arg_cong [where f = concat] map_cong refl) (simp add: st)
  then show ?thesis unfolding pick .
qed

definition fetch_design :: design where
  "fetch_design = \<lparr>d_top = ''t'', d_clk = ''clk'',
     d_modules = [((new_module ''t'')\<lparr>m_nets := map (\<lambda>n. mk_net (\<lambda>_. 0) n False [Bit 2]) [''Fetch_a'', '''', ''fetch_b'', ''x'']\<rparr>, empty_graph)],
     d_hierarchy = \<lparr>h_names = [], h_edges = []\<rparr>\<rparr>"

theorem detect_pipelines_exact_witness:
  "\<exists>c cs. detect_pipelines (\<lambda>x. x) fetch_design = c # cs \<and> pc_stages c = [{((0, 0), 1), ((0, 2), 1)}]"
proof -
  let ?ns = "named_nets fetch_design"
  let ?s = "stage_spec (\<lambda>x. x) ?ns (stagePatterns ! 0)"
  have ns: "?ns = [((0, 0), ''fetch_a''), ((0, 2), ''fetch_b''), ((0, 3), ''x'')]" by code_simp
  have pats: "stagePatterns ! 0 = [''instruction'', ''read'', ''fetch'', ''if'', ''ir'', ''fet'']" by code_simp
  have "map (matches_in ?ns) [''instruction'', ''read'', ''fetch'', ''if'', ''ir'', ''fet''] = [0, 0, 2, 0, 0, 2]" by code_simp
  then have counts: "matches_in ?ns ''instruction'' = 0" "matches_in ?ns ''read'' = 0" "matches_in ?ns ''fetch'' = 2" "matches_in ?ns ''if'' = 0"
    "matches_in ?ns ''ir'' = 0" "matches_in ?ns ''fet'' = 2" by simp_all
  have most: "most_matches ?ns (stagePatterns ! 0) = 2" by (simp add: most_matches_def pats counts)
  have F: "\<lfloor>thresholdRatio * 2\<rfloor> = 1" by (simp add: thresholdRatio_def floor_eq_iff)
  have chosen: "chosen (\<lambda>x. x) ?ns (stagePatterns ! 0) p \<longleftrightarrow> p = ''fetch''" for p
    by (auto simp: chosen_def most F) (auto simp: pats counts)
  have sub: "sublist ''fetch'' ''fetch_a''" "sublist ''fetch'' ''fetch_b''" "\<not> sublist ''fetch'' ''x''" by code_simp+
  have stage: "?s = {((0, 0), 1), ((0, 2), 1)}"
    unfolding stage_spec_def chosen most using sub counts by (auto simp: ns)
  have "detect_pipelines (\<lambda>x. x) fetch_design =
      map (\<lambda>s. candidate s (stage_spec (\<lambda>x. x) ?ns (stagePatterns ! s))) (filter (\<lambda>s. stage_spec (\<lambda>x. x) ?ns (stagePatterns ! s) \<noteq> {}) [0..<5])"
    by (rule detect_pipelines_exact) (simp_all add: rounds_singles_def mono_def ns)
  moreover have "[0..<5] = 0 # [1..<5]" by (simp add: upt_rec)
  ultimately show ?thesis using stage by (simp add: candidate_def)
qed

end
