(* ===== verification/Waveforms.thy ===== *)
theory Waveforms
  imports Designs SignalsData "HOL-Library.Char_ord" "HOL-Library.List_Lexorder"
begin

text \<open>
  Waveform files as a whole: the comparison of values without repetitions
  (\<open>utility/VCD_comparisons.hpp\<close>), the check of the tags for unknown bits
  (\<open>utility/ift_signals_contain_x.hpp\<close>) and the search of the scope of the design
  (\<open>src/ducode/utility/VCD_utility.cpp\<close>). The equality of values is that of the waveform library,
  and the search for the hierarchy in the scopes is done by a library for graphs: \<open>eq\<close> and \<open>isomorphism\<close>.
\<close>

section \<open>Values\<close>

fun unique_values :: "('a \<Rightarrow> 'a \<Rightarrow> bool) \<Rightarrow> 'a list \<Rightarrow> 'a list" where
  "unique_values eq [] = []"
| "unique_values eq [x] = [x]"
| "unique_values eq (x # y # ys) =
     (if eq x y then unique_values eq (x # ys) else x # unique_values eq (y # ys))"

fun same_values :: "('a \<Rightarrow> 'a \<Rightarrow> bool) \<Rightarrow> 'a list \<Rightarrow> 'a list \<Rightarrow> bool" where
  "same_values eq (x # xs) (y # ys) = (if \<not> eq x y then False else same_values eq xs ys)"
| "same_values eq xs ys = True"

definition no_repetitions_compare ::
  "(vcd_value \<Rightarrow> vcd_value \<Rightarrow> bool) \<Rightarrow> (int \<times> vcd_value) list \<Rightarrow> (int \<times> vcd_value) list \<Rightarrow> bool"
where
  "no_repetitions_compare eq a b =
     (let a_values = unique_values eq (map snd a); b_values = unique_values eq (map snd b)
      in if length a_values \<noteq> length b_values then False else same_values eq a_values b_values)"

lemma unique_values_remdups: "unique_values (=) xs = remdups_adj xs"
  by (induction "(=) :: 'a \<Rightarrow> 'a \<Rightarrow> bool" xs rule: unique_values.induct) simp_all

lemma same_values_eq: "length xs = length ys \<Longrightarrow> same_values (=) xs ys \<longleftrightarrow> xs = ys"
  by (induction xs ys rule: list_induct2) simp_all

text \<open>The times do not matter, nor how often a value is repeated in a row.\<close>

lemma no_repetitions_compare_iff:
  "no_repetitions_compare (=) a b \<longleftrightarrow> remdups_adj (map snd a) = remdups_adj (map snd b)"
  by (auto simp: no_repetitions_compare_def unique_values_remdups Let_def same_values_eq dest: arg_cong [where f = length])

section \<open>Unknown tags\<close>

definition port_contains_x :: "vcd_file \<Rightarrow> port \<Rightarrow> bool res" where
  "port_contains_x data p =
     bnd (of_opt (RuntimeError (fmt ''{}{} signal not found'' [pt_name p, ift_tag]))
            (find (\<lambda>s. vs_reference s = pt_name p @ ift_tag) (vf_signals data))) (\<lambda>s.
     bnd (vf_values data (vs_hash s)) (\<lambda>vs.
     bnd (mapM (\<lambda>(t, v). vcd_vector v) vs) (\<lambda>bss. Inr (list_ex (\<lambda>bs. VCD_X \<in> set bs) bss))))"

definition ift_signals_contain_x :: "vcd_file \<Rightarrow> design \<Rightarrow> bool res" where
  "ift_signals_contain_x data d =
     foldM (\<lambda>(m, g). foldM (\<lambda>p contains_x. bnd (port_contains_x data p) (\<lambda>b. Inr (contains_x \<or> b))) (m_ports m))
       (d_modules d) False"

section \<open>Scope of the design\<close>

text \<open>The names are a sorted set; a name that two signals of the scope have raises an exception.\<close>

fun all_signals_in_scope :: "string list \<Rightarrow> vcd_scope \<Rightarrow> bool res" where
  "all_signals_in_scope [] sc = Inr True"
| "all_signals_in_scope (name # names) sc =
     (let signal_count = length (filter (\<lambda>s. vs_reference s = name) (sc_signals sc))
      in if 1 < signal_count then Inl (RuntimeError ''Signal count exceeded 1'')
         else if 0 < signal_count then all_signals_in_scope names sc else Inr False)"

definition scopes_with :: "string list \<Rightarrow> vcd_scope list \<Rightarrow> vcd_scope list res" where
  "scopes_with names scopes =
     bnd (mapM (\<lambda>sc. bnd (all_signals_in_scope names sc) (\<lambda>b. Inr (if b then [sc] else []))) scopes) (\<lambda>scs.
     Inr (concat scs))"

text \<open>The first children that are modules are followed; a file has no more of them than scopes.\<close>

fun innermost_scope :: "nat \<Rightarrow> vcd_scope list \<Rightarrow> vcd_scope \<Rightarrow> vcd_scope res" where
  "innermost_scope 0 scopes sc = Inl Diverges"
| "innermost_scope (Suc k) scopes sc =
     (case sc_children sc of
        [] \<Rightarrow> Inr sc
      | c # cs \<Rightarrow>
          bnd (at_index scopes c) (\<lambda>child.
          if sc_is_module child then innermost_scope k scopes child else Inr sc))"

definition find_root_scope :: "(hierarchy \<Rightarrow> vcd_file \<Rightarrow> vcd_scope option) \<Rightarrow> vcd_file \<Rightarrow> design \<Rightarrow> vcd_scope res" where
  "find_root_scope isomorphism f d =
     bnd (get_module d (d_top d)) (\<lambda>(m, _).
     let port_names = set (map (\<lambda>p. legalize_identifier (pt_name p)) (m_ports m));
         all_names = port_names \<union> set (map (\<lambda>n. legalize_identifier (n_name n)) (m_nets m)) in
     bnd (scopes_with (sorted_list_of_set port_names) (filter (\<lambda>sc. sc_name sc \<noteq> ''$root'') (vf_scopes f))) (\<lambda>scopes.
     case scopes of
       [] \<Rightarrow> Inl (RuntimeError ''No scope found'')
     | [sc] \<Rightarrow> Inr sc
     | _ \<Rightarrow>
         bnd (scopes_with (sorted_list_of_set all_names) scopes) (\<lambda>new_scopes.
         case new_scopes of
           [sc] \<Rightarrow> Inr sc
         | _ \<Rightarrow>
             if length (h_names (d_hierarchy d)) = 1 then
               bnd (vf_scope f ''$root'') (innermost_scope (length (vf_scopes f) + 1) (vf_scopes f))
             else of_opt (RuntimeError ''Subgraph not found'') (isomorphism (d_hierarchy d) f))))"

end
