(* ===== verification/Spec2Isabelle.thy ===== *)
theory Spec2Isabelle
  imports Ift DesignFacts TagFacts InstanceReturns PathFacts InstanceSmtFacts QifaClasses SmtSignalFacts InstanceVerilog IftAnalysis
    PipelineDetection Waveforms
begin

text \<open>
  A verification of DuRTL, which reads the netlist of a synthesised hardware design, writes it
  back as Verilog with logic that tracks information flow tags beside the data, and gives a
  solver the behaviour of its cells.

  \<^bold>\<open>Parts of the program and their theories.\<close>

  \<^item> \<open>Prelude\<close>: errors (\<open>error\<close>: a failed \<open>assert\<close>, a failed \<open>Expects\<close>, each exception), results
    \<open>'a res\<close>, loops that may fail (\<open>mapM\<close>, \<open>foldM\<close>), and text (\<open>fmt\<close> is \<open>fmt::format\<close>). A
    function that builds its text in a string stream is the list of the insertions.
  \<^item> \<open>Identifiers\<close>: \<open>utility/replace.hpp\<close>, \<open>utility/legalize_identifier.hpp\<close>. The loop over the
    string is a function of the string and the position.
  \<^item> \<open>Bits\<close>: \<open>bit.hpp\<close> and \<open>utility/json.hpp\<close>. A \<open>Bit\<close> is its 64-bit number; json values are a
    datatype, their accessors return errors for a missing key or a wrong type.
  \<^item> \<open>Netlist\<close>: \<open>net.hpp\<close>, \<open>port.hpp\<close>, \<open>cell.hpp\<close>, \<open>utility/export_connection.hpp\<close>: one record per
    class, the constructors \<open>mk_net\<close>, \<open>mk_port\<close>, \<open>mk_cell\<close>, and the exported declarations. The hash
    that gives a vector of bits its signature is a parameter.
  \<^item> \<open>Smt\<close>: the expressions the code builds with the solver's interface, as syntax with a sort
    check (an ill-sorted expression is the solver's exception). What the operators mean is the
    locale \<open>smt_bv\<close>, stated as the standard of the logic states it and interpreted on \<open>std_un\<close>,
    \<open>std_bin\<close>, \<open>std_prd\<close>.
  \<^item> \<open>Gates\<close>, \<open>GateSmt\<close>: the gates of \<open>cell/basic_gate.hpp\<close>, \<open>and.hpp\<close>, \<open>or.hpp\<close>, \<open>xor.hpp\<close>, \<open>xnor.hpp\<close>,
    \<open>logic_*.hpp\<close>, \<open>reduce_*.hpp\<close>. The class of a gate is \<open>gate_class\<close>. The theorems say for each
    operator what the assertion for the solver means.
  \<^item> \<open>Registers\<close>, \<open>RegisterSmt\<close>: the flip-flops and latches, one record and three operations each
    (constructor, Verilog text, assertion); the theorems give the next state that is asserted.
  \<^item> \<open>Muxes\<close>, \<open>MuxFacts\<close>: multiplexers, variable shifts, instances of modules, prints.
  \<^item> \<open>Memory\<close>: \<open>cell/mem_v2.hpp\<close>, with its own expressions over arrays.
  \<^item> \<open>Ift\<close>: the meaning of the tag assignments that the cells emit, and which are sound.
  \<^item> \<open>ModuleData\<close>: \<open>module.hpp\<close> and \<open>Module::add_cell\<close>, \<open>export_verilog_header\<close> of \<open>module.cpp\<close>. The
    subclasses of \<open>Cell\<close> are the constructors of \<open>anycell\<close>.
  \<^item> \<open>Walks\<close>: \<open>utility/graph.hpp\<close> and \<open>detail/module_graph.hpp\<close>. A graph is its list of vertices
    and its list of edges. The laws of the two walks are in the locales \<open>net_walk\<close> and
    \<open>net_search\<close>, both extensions of \<open>net_graph\<close>, and interpreted on the walks of the code.
  \<^item> \<open>Graphs\<close>, \<open>GraphFacts\<close>: \<open>Module::populate_graph\<close>, phase by phase, and its invariant.
  \<^item> \<open>ModuleExport\<close>, \<open>ModuleFacts\<close>: \<open>Module::export_verilog\<close>, the clock checks, and facts about
    nets, cells, the header and the clocks of a module.
  \<^item> \<open>Designs\<close>, \<open>DesignContents\<close>, \<open>DesignFacts\<close>: \<open>design.hpp\<close>, \<open>design.cpp\<close>: the reading of modules from the
    json value, the hierarchy of instances, the top module, the export of all modules.
    \<open>DesignContents\<close> relates a module to the json value that it was read from (\<open>module_from\<close>). The
    theorems say what a parsed design contains and exactly when the parsing returns.
  \<^item> \<open>Signals\<close>, \<open>SignalsData\<close>: \<open>instantiation_graph_traits.hpp\<close> (values of signals),
    \<open>parser_utility.hpp\<close> and the class \<open>VCDSignalsDataManager\<close> of \<open>signals_data_manager.cpp\<close>: lookups of
    signals in waveform files, counts and sources of the tags seen in them.
  \<^item> \<open>Instances\<close>, \<open>InstanceFacts\<close>, \<open>InstanceReturns\<close>: \<open>instantiation_graph.hpp\<close>, \<open>instantiation_graph.cpp\<close>: the flattening
    of a design (\<open>create_instance\<close>, \<open>populate_module\<close>). A vertex is its position, a pointer to a net is the
    module and the position in it with the net. The theorems say that the vertices are those of
    the tree of instances (\<open>flat_vertices\<close>), which edges there are, and when the flattening returns.
  \<^item> \<open>InstanceSmt\<close>, \<open>InstanceSmtFacts\<close>: \<open>DesignInstance::export_smt2\<close> and the functions that choose the
    expression of each port of a vertex. The theorems say which bits of which nets an input reads
    and which words a memory starts with.
  \<^item> \<open>Paths\<close>, \<open>PathFacts\<close>: \<open>DesignInstance::get_path\<close> and the queries for paths. The signals come from
    an interface (\<open>signals\<close>) that \<open>vcd_signals\<close> implements. The theorems say which paths are found.
  \<^item> \<open>Queries\<close>: the other queries of the flattened design: the clocks and the state of its registers,
    the numbers of tags seen on its edges. A lemma says when a clock is found and which one.
  \<^item> \<open>AssertionsKept\<close>: no operation of \<open>InstanceSmt\<close> drops an assertion, by rules that follow the shape
    of the definitions.
  \<^item> \<open>Qifa\<close>, \<open>QifaFacts\<close>, \<open>QifaClasses\<close>: \<open>qifa_smt.hpp\<close>: the search for secrets that an observer of the
    outputs can tell apart. The members of the class are the record \<open>qifa\<close>, the answers of the solver
    a parameter. The theorems say what the values that are found have in common and how they
    differ, how many there can be, and when the search does not end.
  \<^item> \<open>Validation\<close>, \<open>ValidationFacts\<close>: \<open>utility/smt.hpp\<close>: the assertion of the values of a simulation, their
    comparison with a model, and the check that outputs are determined. The theorems say which
    models are left, which steps a validation looks at and what the check means.
  \<^item> \<open>Simulation\<close>, \<open>SimulationFacts\<close>: \<open>utility/simulation.hpp\<close>: the step of the clock, the number of
    runs, the time points that get tags. The theorems say which time points these are and which
    the plan leaves out.
  \<^item> \<open>TagGenerators\<close>: \<open>tag_generator.hpp\<close>. A generator is a value that every query returns anew.
  \<^item> \<open>Testbenches\<close>, \<open>TagFiles\<close>, \<open>TagFacts\<close>: \<open>testbench.hpp\<close>, \<open>testbench.cpp\<close>: the Verilog test bench
    and the files with the tags. The main theorem reads the lines of a file back with the part
    selects that the test bench has.
  \<^item> \<open>SmtSignals\<close>, \<open>SmtTestbenches\<close>, \<open>SmtSignalFacts\<close>: the class \<open>SMTSignalsDataManager\<close> of
    \<open>signals_data_manager.cpp\<close> (the values of the signals in a model of the solver) and the test bench
    \<open>TestbenchSMT\<close> that replays them. The theorems compare the accessors of the values, give the text
    of the inputs, and say what the question for a flow depends on.
  \<^item> \<open>InstanceVerilog\<close>: \<open>DesignInstance::write_verilog\<close>, the flattened design as one module.
  \<^item> \<open>IftAnalysis\<close>: \<open>ift_analysis.hpp\<close>: the report of an analysis and the flows from inputs to
    outputs. The theorem says which flows are reported for an output.
  \<^item> \<open>PipelineDetection\<close>: \<open>static_analysis/pipeline_detection.hpp\<close>: stages of a pipeline by the names of
    nets. The theorem gives the candidates as a set of nets, without the tables of the code.
  \<^item> \<open>Waveforms\<close>: \<open>utility/VCD_comparisons.hpp\<close>, \<open>utility/ift_signals_contain_x.hpp\<close>,
    \<open>utility/VCD_utility.cpp\<close>: comparison of values, unknown tags, the scope of the design.

  \<^bold>\<open>Interaction.\<close> A module makes its cells from type names (\<open>add_cell\<close>), builds its graph from the
  signatures of nets and ports (\<open>populate_graph\<close>, which calls \<open>source_reachable\<close> before it draws an
  edge), and exports each cell with the identifiers that the graph gives its ports
  (\<open>export_cell_vertex\<close>, \<open>cell_export_verilog\<close>). A design reads its modules one by one
  (\<open>parse_json\<close>) and builds the graph of each as soon as it is read. A test bench takes the inputs of
  the top module from a waveform (\<open>write_testbench_inputs\<close>) and asks a tag generator for each port
  and time point (\<open>tag_port\<close>); the time points of each file come from the plan
  (\<open>get_exported_tags_vec\<close>).

  \<^bold>\<open>Fuel.\<close> Some recursions may run forever and take fuel. The recursion over the instances
  (\<open>populate_hierarchy\<close>) gets one step more than there are modules, by \<open>parse_json_returns\<close> enough
  unless it never ends. Another is the walk to a source (\<open>follow_to\<close>). Two steps more
  than there are vertices are enough: by \<open>source_reachable_correct\<close> a walk that has not returned
  then never does. \<open>populate_graph\<close> uses that number, and \<open>populate_graph_returns\<close> shows that no walk
  it starts runs out. The loop over the time points (\<open>tags_loop\<close>) counts with 32 bits, so \<open>2 ^ 32\<close>
  steps are enough unless it never ends (\<open>tags_times_multiples\<close>). The names of a scope
  (\<open>scope_names\<close>) get one step more than there are scopes, enough for parents without a cycle.
  The flattening (\<open>populate_module\<close>) has a depth of instances and a number of steps of the loop over
  the vertices; \<open>create_instance_returns\<close> gives numbers that are enough when no module contains
  itself. The propagation of nets visits an edge once, so one step more than there are edges is
  enough. A search for a path visits a vertex or drops one from the path in each step, so twice the
  number of edges bounds it (\<open>search_fuel\<close>); the theorems on paths show that it does not run out. The main loop of the
  quantitative analysis (\<open>main_loop\<close>) may not end for any fuel (\<open>equivalence_classes_diverge\<close>), so its
  theorems hold for every fuel and result.

  \<^bold>\<open>Parameters.\<close> The hash of bits and of ports, the iteration order of the unordered maps (any
  permutation; for the flattening the orders \<open>io_sinks\<close> and \<open>io_nets\<close>), the insertion of the polymorphic collection of cells, the solver, through its
  documented semantics, the waveform library (a file is the record of what its accessors return),
  the answers of the solver (\<open>sound_solver\<close> asks that they are right; an implementation that never
  answers is allowed), the text that it prints for a number (\<open>prints_literals\<close>, as its language defines
  it), the random draw of a generator, and the rounding of doubles and of singles (\<open>number_of_runs_exact\<close> and
  \<open>rounds_singles\<close> ask that it keeps numbers that are exact and is monotone). The library that searches
  the hierarchy of a design in the scopes of a file is the parameter \<open>isomorphism\<close>.

  \<^bold>\<open>Not modelled.\<close> Logging, the Graphviz output, temporary files, the command line, the calls of Yosys
  and of simulators and the experiments are input and output only, and so are the printing of pipeline
  candidates and of waveform values. The two searches of \<open>utility/smt.hpp\<close> that report the first net
  with another value than the simulation use a reference to an element of the queue after they
  removed it, so they have no defined behaviour. The comparison of whole waveform files compares
  members of the waveform library that nothing else reads. \<open>instantiation_graph_utils.hpp\<close> is
  included by no file.
\<close>

end
